(* ===== verification/Prelude.thy ===== *)
theory Prelude
  imports Main "HOL-Library.Word"
begin

text \<open>
  What every component theory shares: the machine integer types of the Rust sources, the error type
  \<open>KmsError\<close> of \<open>crates/common/src/error.rs\<close> and the \<open>?\<close> operator on results, big-endian byte
  strings, and multiples of an element of an abelian group.
\<close>

unbundle bit_operations_syntax

named_theorems result_simps \<open>evaluation of results and of the question-mark operator\<close>

type_synonym byte = "8 word"
type_synonym u16 = "16 word"
type_synonym u32 = "32 word"
type_synonym u64 = "64 word"
type_synonym u128 = "128 word"

section \<open>Errors and results\<close>

text \<open>
  \<open>KmsError\<close>. The payloads of the two variants that wrap an error of another crate are the rendered
  text. \<open>Panic\<close> is not a variant of the source: it is the outcome of a Rust panic (an out-of-range
  index, an \<open>expect\<close> on a failed call), which ends the call without a result.
\<close>

datatype KmsError =
    InvalidPublicKey string
  | InvalidPrivateKey string
  | InvalidMnemonic string
  | CryptoError string
  | SerializationError string
  | DeserializationError string
  | InvalidAmount string
  | InsufficientBalance
  | InvalidDerivationPath string
  | HexError string
  | JsonError string
  | StarknetCryptoError string
  | PointAtInfinity
  | InvalidProof string
  | RpcError string
  | AccountNotDeployed string
  | AlreadyDeployed string
  | InsufficientFeeBalance string
  | InvalidClassHash string
  | ContractNotFound string
  | TransactionError string
  | TransactionReverted string
  | FeeEstimationFailed string
  | Timeout string
  | StakingError string
  | MultisigError string
  | ControllerError string
  | Panic string

type_synonym 'a result = "KmsError + 'a"

text \<open>\<open>and_then m f\<close> is the Rust \<open>let x = m?; f(x)\<close>.\<close>

definition and_then :: "'e + 'a \<Rightarrow> ('a \<Rightarrow> 'e + 'b) \<Rightarrow> 'e + 'b" where
  "and_then m f = (case m of Inl e \<Rightarrow> Inl e | Inr x \<Rightarrow> f x)"

lemma and_then_Inr [simp, result_simps]: "and_then (Inr x) f = f x"
  by (simp add: and_then_def)

lemma and_then_Inl [simp, result_simps]: "and_then (Inl e) f = Inl e"
  by (simp add: and_then_def)

lemma and_then_eq_Inr: "and_then m f = Inr y \<longleftrightarrow> (\<exists>x. m = Inr x \<and> f x = Inr y)"
  by (simp add: and_then_def split: sum.splits)

lemma and_then_eq_Inl: "and_then m f = Inl e \<longleftrightarrow> m = Inl e \<or> (\<exists>x. m = Inr x \<and> f x = Inl e)"
  by (auto simp add: and_then_def split: sum.splits)

lemma and_thenE:
  assumes "and_then m f = Inr y"
  obtains x where "m = Inr x" and "f x = Inr y"
  using assms by (auto simp: and_then_eq_Inr)

text \<open>The same for a draw, whose value is a pair of a result and the next random state.\<close>

lemma and_then_pairE:
  assumes "and_then m (case_prod f) = Inr y"
  obtains x w where "m = Inr (x, w)" and "f x w = Inr y"
  using assms by (auto simp: and_then_eq_Inr)

lemma and_then_cong [fundef_cong]:
  "m = m' \<Longrightarrow> (\<And>x. m' = Inr x \<Longrightarrow> f x = g x) \<Longrightarrow> and_then m f = and_then m' g"
  by (auto simp: and_then_def split: sum.splits)

text \<open>For evaluation: the continuation is not simplified before its argument is known.\<close>

lemma and_then_weak_cong: "m = m' \<Longrightarrow> and_then m f = and_then m' f"
  by simp

text \<open>\<open>opt.ok_or(e)\<close>.\<close>

definition ok_or :: "'e \<Rightarrow> 'a option \<Rightarrow> 'e + 'a" where
  "ok_or e opt = (case opt of None \<Rightarrow> Inl e | Some x \<Rightarrow> Inr x)"

lemma ok_or_simps [simp, result_simps]:
  "ok_or e (Some x) = Inr x"
  "ok_or e None = Inl e"
  by (simp_all add: ok_or_def)

lemma ok_or_eq_Inr: "ok_or e opt = Inr x \<longleftrightarrow> opt = Some x"
  by (auto simp: ok_or_def split: option.splits)

lemma ok_or_eq_Inl: "ok_or e opt = Inl e' \<longleftrightarrow> opt = None \<and> e' = e"
  by (auto simp: ok_or_def split: option.splits)

text \<open>\<open>res.map_err(f)\<close>.\<close>

definition map_err :: "('e \<Rightarrow> 'e') \<Rightarrow> 'e + 'a \<Rightarrow> 'e' + 'a" where
  "map_err f r = (case r of Inl e \<Rightarrow> Inl (f e) | Inr x \<Rightarrow> Inr x)"

lemma map_err_simps [simp, result_simps]:
  "map_err f (Inr x) = Inr x"
  "map_err f (Inl e) = Inl (f e)"
  by (simp_all add: map_err_def)

lemma map_err_eq_Inr: "map_err f r = Inr x \<longleftrightarrow> r = Inr x"
  by (auto simp: map_err_def split: sum.splits)

lemma map_err_eq_Inl: "map_err f r = Inl e' \<longleftrightarrow> (\<exists>e. r = Inl e \<and> e' = f e)"
  by (auto simp: map_err_def split: sum.splits)

text \<open>\<open>opt.unwrap_or(d)\<close>.\<close>

abbreviation unwrap_or :: "'a option \<Rightarrow> 'a \<Rightarrow> 'a" where
  "unwrap_or opt d \<equiv> (case opt of Some x \<Rightarrow> x | None \<Rightarrow> d)"

text \<open>
  \<open>opt.expect(msg)\<close> and \<open>res.expect(msg)\<close>. The failing case is a panic; it is used only where the
  contract of the called code excludes it, and a lemma beside each use says so.
\<close>

definition expect :: "string \<Rightarrow> 'a option \<Rightarrow> 'a" where
  "expect msg opt = (case opt of Some x \<Rightarrow> x | None \<Rightarrow> undefined)"

lemma expect_Some [simp, result_simps]: "expect msg (Some x) = x"
  by (simp add: expect_def)

text \<open>\<open>items.iter().map(f).collect::<Result<Vec<_>>>()\<close>: the first error ends the traversal.\<close>

fun collect :: "('a \<Rightarrow> 'e + 'b) \<Rightarrow> 'a list \<Rightarrow> 'e + 'b list" where
  "collect f [] = Inr []"
| "collect f (x # xs) = and_then (f x) (\<lambda>y. and_then (collect f xs) (\<lambda>ys. Inr (y # ys)))"

lemma collect_eq_Inr: "collect f xs = Inr ys \<longleftrightarrow> list_all2 (\<lambda>x y. f x = Inr y) xs ys"
  by (induction xs arbitrary: ys) (auto simp: and_then_eq_Inr list_all2_Cons1)

lemma collect_total: "collect (\<lambda>x. Inr (g x)) xs = Inr (map g xs)"
  by (induction xs) simp_all

lemmas result_iffs = and_then_eq_Inr and_then_eq_Inl ok_or_eq_Inr ok_or_eq_Inl map_err_eq_Inr map_err_eq_Inl

lemma unat_of_nat_small: "n < 2 ^ LENGTH('w) \<Longrightarrow> unat (of_nat n :: 'w :: len word) = n"
  by (simp add: unat_of_nat)

section \<open>Saturating arithmetic\<close>

text \<open>\<open>saturating_add\<close> and \<open>saturating_sub\<close> of the unsigned machine integers, and the integer a number is cut to.\<close>

definition saturating_add :: "'w :: len word \<Rightarrow> 'w word \<Rightarrow> 'w word" where
  "saturating_add a b = (if unat a + unat b < 2 ^ LENGTH('w) then a + b else - 1)"

definition saturating_sub :: "'w :: len word \<Rightarrow> 'w word \<Rightarrow> 'w word" where
  "saturating_sub a b = (if b \<le> a then a - b else 0)"

definition saturate :: "nat \<Rightarrow> 'w :: len word" where
  "saturate n = (if n < 2 ^ LENGTH('w) then of_nat n else - 1)"

lemma unat_max_word: "unat (- 1 :: 'w :: len word) = 2 ^ LENGTH('w) - 1"
  by (simp add: unsigned_minus_1_eq_mask mask_eq_exp_minus_1)

lemma cut_at: "n < 2 ^ k \<Longrightarrow> min n (2 ^ k - 1) = n" "\<not> n < 2 ^ k \<Longrightarrow> min n (2 ^ k - 1) = 2 ^ k - (1 :: nat)"
  by (simp_all add: min_absorb1 min_absorb2)

lemma unat_saturating_add: "unat (saturating_add a b) = min (unat a + unat b) (2 ^ LENGTH('w) - 1)"
  for a b :: "'w :: len word"
  by (cases "unat a + unat b < 2 ^ LENGTH('w)")
    (simp_all add: saturating_add_def unat_max_word cut_at unat_word_ariths del: One_nat_def)

lemma unat_saturating_sub: "unat (saturating_sub a b) = unat a - unat b"
  by (simp add: saturating_sub_def unat_sub word_le_nat_alt)

lemma unat_saturate: "unat (saturate n :: 'w :: len word) = min n (2 ^ LENGTH('w) - 1)"
  by (cases "n < 2 ^ LENGTH('w)") (simp_all add: saturate_def unat_max_word cut_at unat_of_nat_small del: One_nat_def)

lemmas unat_saturating = unat_saturating_add unat_saturating_sub unat_saturate

section \<open>Decimal text\<close>

text \<open>An unsigned integer as \<open>format!\<close> prints it.\<close>

fun show_nat :: "nat \<Rightarrow> string" where
  "show_nat n = (if n < 10 then [char_of (48 + n)] else show_nat (n div 10) @ [char_of (48 + n mod 10)])"

declare show_nat.simps [simp del]

section \<open>Big-endian byte strings\<close>

definition be_val :: "byte list \<Rightarrow> nat" where
  "be_val bs = foldl (\<lambda>acc b. acc * 256 + unat b) 0 bs"

text \<open>\<open>to_be_bytes\<close> of an integer of \<open>k\<close> bytes.\<close>

primrec be_bytes :: "nat \<Rightarrow> nat \<Rightarrow> byte list" where
  "be_bytes 0 v = []"
| "be_bytes (Suc k) v = be_bytes k (v div 256) @ [of_nat (v mod 256)]"

lemma be_val_Nil [simp]: "be_val [] = 0"
  by (simp add: be_val_def)

lemma be_val_snoc [simp]: "be_val (bs @ [b]) = be_val bs * 256 + unat b"
  by (simp add: be_val_def)

lemma be_val_append: "be_val (xs @ ys) = be_val xs * 256 ^ length ys + be_val ys"
proof (induction ys rule: rev_induct)
  case Nil
  show ?case by simp
next
  case (snoc y ys)
  then show ?case
    by (simp only: append_assoc [symmetric] be_val_snoc length_append_singleton power_Suc)
      (simp add: algebra_simps)
qed

lemma be_val_Cons: "be_val (b # bs) = unat b * 256 ^ length bs + be_val bs"
  using be_val_append [of "[b]" bs] by (simp add: be_val_def)

lemma unat_byte_less [simp]: "unat (b :: byte) < 256"
  proof -
  have "unat b < 2 ^ LENGTH(8)" by (rule unsigned_less)
  then show ?thesis by simp
qed

lemma be_val_less: "be_val bs < 256 ^ length bs"
proof (induction bs rule: rev_induct)
  case Nil
  show ?case by simp
next
  case (snoc b bs)
  have "be_val bs * 256 + unat b < (be_val bs + 1) * 256" by simp
  also have "\<dots> \<le> 256 ^ length bs * 256"
    using snoc by (intro mult_right_mono) auto
  finally show ?case by simp
qed

lemma length_be_bytes [simp]: "length (be_bytes k v) = k"
  by (induction k arbitrary: v) simp_all

lemma unat_of_nat_byte: "unat (of_nat (v mod 256) :: byte) = v mod 256"
  by (simp add: unat_of_nat)

lemma be_val_be_bytes: "be_val (be_bytes k v) = v mod 256 ^ k"
proof (induction k arbitrary: v)
  case 0
  show ?case by simp
next
  case (Suc k)
  have "be_val (be_bytes (Suc k) v) = (v div 256 mod 256 ^ k) * 256 + v mod 256"
    by (simp add: Suc unat_of_nat_byte)
  also have "\<dots> = v mod (256 * 256 ^ k)"
    by (simp add: mod_mult2_eq)
  finally show ?case by simp
qed

lemma be_bytes_be_val: "be_bytes (length bs) (be_val bs) = bs"
proof (induction bs rule: rev_induct)
  case Nil
  show ?case by simp
next
  case (snoc b bs)
  have "(be_val bs * 256 + unat b) div 256 = be_val bs"
    by simp
  moreover have "(be_val bs * 256 + unat b) mod 256 = unat b"
    by simp
  ultimately show ?case
    using snoc by simp
qed

lemma be_bytes_first: "be_bytes (Suc k) v ! 0 = of_nat (v div 256 ^ k mod 256)"
proof (induction k arbitrary: v)
  case (Suc k)
  have "be_bytes (Suc (Suc k)) v ! 0 = be_bytes (Suc k) (v div 256) ! 0"
    by (subst be_bytes.simps(2)) (simp add: nth_append)
  then show ?case by (simp only: Suc power_Suc div_mult2_eq)
qed simp

lemma be_val_inj: "length xs = length ys \<Longrightarrow> be_val xs = be_val ys \<Longrightarrow> xs = ys"
  by (metis be_bytes_be_val)

lemma be_val_zero_iff: "be_val bs = 0 \<longleftrightarrow> (\<forall>b \<in> set bs. b = 0)"
  by (induction bs) (auto simp: be_val_Cons unat_eq_zero)

text \<open>Bit \<open>i\<close> of a byte, as the sources write it: \<open>(b >> i) & 1\<close>.\<close>

lemma unat_bit_at: "unat (drop_bit i b AND 1) = unat b div 2 ^ i mod 2" for b :: byte
proof -
  have "unat (drop_bit i b AND 1) = drop_bit i (unat b) AND 1"
    by (simp only: unsigned_and_eq unsigned_drop_bit_eq unsigned_1 unsigned_less)
      (simp add: take_bit_nat_eq_self)
  then show ?thesis by (simp add: and_one_eq drop_bit_eq_div)
qed

lemma bit_at_01: "drop_bit i b AND 1 \<in> {0, 1}" for b :: byte
proof -
  have "unat (drop_bit i b AND 1) < 2" by (simp add: unat_bit_at)
  then have "unat (drop_bit i b AND 1) = 0 \<or> unat (drop_bit i b AND 1) = 1" by auto
  then show ?thesis
    by (metis insertCI unsigned_0 unsigned_1 unsigned_word_eqI)
qed

section \<open>Multiples in an abelian group\<close>

primrec nsmul :: "nat \<Rightarrow> 'g :: ab_group_add \<Rightarrow> 'g" where
  "nsmul 0 x = 0"
| "nsmul (Suc k) x = x + nsmul k x"

lemma nsmul_one [simp]: "nsmul 1 x = x"
  by simp

lemma nsmul_zero_right [simp]: "nsmul k 0 = 0"
  by (induction k) simp_all

lemma nsmul_add_left: "nsmul (j + k) x = nsmul j x + nsmul k x"
  by (induction j) (simp_all add: algebra_simps)

lemma nsmul_add_right: "nsmul k (x + y) = nsmul k x + nsmul k y"
  by (induction k) (simp_all add: algebra_simps)

lemma nsmul_mult: "nsmul (j * k) x = nsmul j (nsmul k x)"
  by (induction j) (simp_all add: nsmul_add_left)

lemma nsmul_minus: "nsmul k (- x) = - nsmul k x"
  by (induction k) simp_all

lemma nsmul_diff_right: "nsmul k (x - y) = nsmul k x - nsmul k y"
  using nsmul_add_right [of k x "- y"] by (simp add: nsmul_minus)

lemma nsmul_diff_left: "k \<le> j \<Longrightarrow> nsmul (j - k) x = nsmul j x - nsmul k x"
  using nsmul_add_left [of "j - k" k x] by simp

lemma nsmul_mod:
  assumes "nsmul n x = 0"
  shows "nsmul (k mod n) x = nsmul k x"
proof -
  have "nsmul k x = nsmul (k div n * n + k mod n) x" by simp
  also have "\<dots> = nsmul (k mod n) x"
    by (simp only: nsmul_add_left nsmul_mult assms nsmul_zero_right add_0_left)
  finally show ?thesis ..
qed

end
