(* ===== verification/Starknet_Core.thy ===== *)
theory Starknet_Core
  imports Prelude
begin

text \<open>
  The third-party code the crates call: \<open>Felt\<close>, \<open>AffinePoint\<close> and \<open>ProjectivePoint\<close> of
  \<open>starknet-types-core\<close>, the residues modulo the curve order of \<open>crypto-bigint\<close>, the byte select of
  \<open>subtle\<close>, the hashes, and the operating system's entropy. None of it is under \<open>src/\<close>, so it is a
  parameter of the model: a record of operations \<open>S\<close> over the opaque types \<open>'f\<close> of field elements,
  \<open>'p\<close> of projective points, \<open>'a\<close> of affine points and \<open>'r\<close> of residues, which every definition
  takes as its first argument. The locale \<open>starknet_core\<close> names what the code relies on.
\<close>

section \<open>The operations\<close>

record ('f, 'p, 'a, 'r) starknet =
  felt_to_bytes_be :: "'f \<Rightarrow> byte list"
  felt_from_bytes_be :: "byte list \<Rightarrow> 'f"
  felt_from :: "nat \<Rightarrow> 'f"
  felt_add :: "'f \<Rightarrow> 'f \<Rightarrow> 'f"
  felt_neg :: "'f \<Rightarrow> 'f"
  affine_new :: "'f \<Rightarrow> 'f \<Rightarrow> string + 'a"
  affine_x :: "'a \<Rightarrow> 'f"
  affine_y :: "'a \<Rightarrow> 'f"
  proj_identity :: "'p"
  proj_new :: "'f \<Rightarrow> 'f \<Rightarrow> 'f \<Rightarrow> 'p option"
  proj_from_affine :: "'f \<Rightarrow> 'f \<Rightarrow> 'p option"
  proj_to_affine :: "'p \<Rightarrow> 'a option"
  proj_x :: "'p \<Rightarrow> 'f"
  proj_y :: "'p \<Rightarrow> 'f"
  proj_z :: "'p \<Rightarrow> 'f"
  proj_add :: "'p \<Rightarrow> 'p \<Rightarrow> 'p"
  proj_sub :: "'p \<Rightarrow> 'p \<Rightarrow> 'p"
  proj_eq :: "'p \<Rightarrow> 'p \<Rightarrow> bool"
  residue_new :: "byte list \<Rightarrow> 'r"
  residue_retrieve :: "'r \<Rightarrow> byte list"
  residue_add :: "'r \<Rightarrow> 'r \<Rightarrow> 'r"
  residue_sub :: "'r \<Rightarrow> 'r \<Rightarrow> 'r"
  residue_mul :: "'r \<Rightarrow> 'r \<Rightarrow> 'r"
  conditional_select_u8 :: "byte \<Rightarrow> byte \<Rightarrow> byte \<Rightarrow> byte"
  pedersen_hash :: "'f \<Rightarrow> 'f \<Rightarrow> 'f"
  poseidon_hash_array :: "'f list \<Rightarrow> 'f"
  sha256 :: "byte list \<Rightarrow> byte list"
  getrandom :: "nat \<Rightarrow> nat \<Rightarrow> byte list option"
  aead_encrypt :: "byte list \<Rightarrow> byte list \<Rightarrow> byte list \<Rightarrow> byte list option"
  aead_decrypt :: "byte list \<Rightarrow> byte list \<Rightarrow> byte list \<Rightarrow> byte list option"

text \<open>
  Which call of which crate each field stands for:
  \<^item> \<open>felt_from\<close>: \<open>Felt::from\<close> of an unsigned integer, and \<open>Felt::from_hex_unchecked\<close> of a literal,
    as the literal's value; \<open>felt_add\<close> and \<open>felt_neg\<close>: the operators;
  \<^item> \<open>affine_new\<close>: \<open>AffinePoint::new\<close>, with the debug text of its error; the other \<open>affine_\<close> and
    \<open>proj_\<close> fields: the functions of the same names, the operators \<open>+\<close>, \<open>-\<close> and \<open>==\<close> on projective
    points, and \<open>None\<close> for an error;
  \<^item> \<open>residue_new bs\<close>: \<open>ConstMontyForm::new(U256::from_be_slice(bs))\<close>; \<open>residue_retrieve\<close>: the
    big-endian bytes of \<open>retrieve()\<close>; and the operators on residues;
  \<^item> \<open>conditional_select_u8 a b c\<close>: \<open>u8::conditional_select(a, b, Choice::from(c))\<close>;
  \<^item> \<open>getrandom k n\<close>: what the \<open>k\<close>-th request to \<open>getrandom::fill\<close> writes into \<open>n\<close> bytes, \<open>None\<close>
    when it fails;
  \<^item> \<open>aead_encrypt key nonce m\<close> and \<open>aead_decrypt key nonce c\<close>: \<open>XChaCha20Poly1305\<close>.
\<close>

text \<open>The field prime of \<open>Felt\<close> and the order of the Stark curve group.\<close>

definition FELT_PRIME :: nat where
  "FELT_PRIME = 2 ^ 251 + 17 * 2 ^ 192 + 1"

definition CURVE_ORDER :: nat where
  "CURVE_ORDER = 0x0800000000000010ffffffffffffffffb781126dcae7b2321e66a241adc64d2f"

text \<open>The integer a field element and a residue stand for.\<close>

definition felt_val :: "('f, 'p, 'a, 'r) starknet \<Rightarrow> 'f \<Rightarrow> nat" where
  "felt_val S f = be_val (felt_to_bytes_be S f)"

definition residue_val :: "('f, 'p, 'a, 'r) starknet \<Rightarrow> 'r \<Rightarrow> nat" where
  "residue_val S r = be_val (residue_retrieve S r)"

text \<open>\<open>Felt::ZERO\<close> and \<open>Felt::ONE\<close>.\<close>

abbreviation felt_zero :: "('f, 'p, 'a, 'r) starknet \<Rightarrow> 'f" where
  "felt_zero S \<equiv> felt_from S 0"

abbreviation felt_one :: "('f, 'p, 'a, 'r) starknet \<Rightarrow> 'f" where
  "felt_one S \<equiv> felt_from S 1"

section \<open>What the code relies on\<close>

text \<open>
  A field element has one 32-byte encoding, below the prime, and its operations are those of the
  integers modulo the prime.
\<close>

locale felt_laws =
  fixes S :: "('f, 'p, 'a, 'r) starknet"
  assumes felt_bytes_length: "length (felt_to_bytes_be S f) = 32"
    and felt_bytes_canonical: "be_val (felt_to_bytes_be S f) < FELT_PRIME"
    and felt_from_to_bytes: "felt_from_bytes_be S (felt_to_bytes_be S f) = f"
    and felt_to_from_bytes:
      "length bs = 32 \<Longrightarrow>
        be_val (felt_to_bytes_be S (felt_from_bytes_be S bs)) = be_val bs mod FELT_PRIME"
    and felt_from_nat: "be_val (felt_to_bytes_be S (felt_from S k)) = k mod FELT_PRIME"
    and felt_add_bytes:
      "be_val (felt_to_bytes_be S (felt_add S f g)) =
        (be_val (felt_to_bytes_be S f) + be_val (felt_to_bytes_be S g)) mod FELT_PRIME"
    and felt_neg_bytes:
      "be_val (felt_to_bytes_be S (felt_neg S f)) =
        (FELT_PRIME - be_val (felt_to_bytes_be S f)) mod FELT_PRIME"

text \<open>A residue is an integer below the curve order, with arithmetic modulo the order.\<close>

locale residue_laws =
  fixes S :: "('f, 'p, 'a, 'r) starknet"
  assumes residue_bytes_length: "length (residue_retrieve S r) = 32"
    and residue_canonical: "be_val (residue_retrieve S r) < CURVE_ORDER"
    and residue_new_val:
      "length bs = 32 \<Longrightarrow> be_val (residue_retrieve S (residue_new S bs)) = be_val bs mod CURVE_ORDER"
    and residue_add_val:
      "be_val (residue_retrieve S (residue_add S q r)) =
        (be_val (residue_retrieve S q) + be_val (residue_retrieve S r)) mod CURVE_ORDER"
    and residue_sub_val:
      "be_val (residue_retrieve S (residue_sub S q r)) =
        (be_val (residue_retrieve S q) + (CURVE_ORDER - be_val (residue_retrieve S r)))
          mod CURVE_ORDER"
    and residue_mul_val:
      "be_val (residue_retrieve S (residue_mul S q r)) =
        (be_val (residue_retrieve S q) * be_val (residue_retrieve S r)) mod CURVE_ORDER"

text \<open>
  The curve. \<open>pt p\<close> is the group element a projective triple represents: several triples represent
  one point, \<open>==\<close> on them is equality of points, and only the identity has no affine form. The
  affine form determines the point, \<open>(x, -y)\<close> is the negation of \<open>(x, y)\<close>, a triple read back from
  a valid point's coordinates is valid, and the group order annihilates every element of the group.
\<close>

locale curve_laws =
  fixes S :: "('f, 'p, 'a, 'r) starknet"
    and pt :: "'p \<Rightarrow> 'g :: ab_group_add"
  assumes pt_identity: "pt (proj_identity S) = 0"
    and pt_proj_add: "pt (proj_add S p q) = pt p + pt q"
    and pt_proj_sub: "pt (proj_sub S p q) = pt p - pt q"
    and proj_eq_iff: "proj_eq S p q \<longleftrightarrow> pt p = pt q"
    and to_affine_None: "proj_to_affine S p = None \<longleftrightarrow> pt p = 0"
    and to_affine_eq: "proj_to_affine S p = proj_to_affine S q \<longleftrightarrow> pt p = pt q"
    and affine_new_coords: "affine_new S x y = Inr a \<Longrightarrow> affine_x S a = x \<and> affine_y S a = y"
    and affine_new_valid: "affine_new S (affine_x S a) (affine_y S a) = Inr a"
    and from_affine_iff:
      "(\<exists>p. proj_from_affine S x y = Some p) \<longleftrightarrow> (\<exists>a. affine_new S x y = Inr a)"
    and from_affine_to_affine:
      "proj_from_affine S (affine_x S a) (affine_y S a) = Some p \<Longrightarrow> proj_to_affine S p = Some a"
    and affine_neg:
      "proj_to_affine S p = Some a \<Longrightarrow>
        \<exists>b q. affine_new S (affine_x S a) (felt_neg S (affine_y S a)) = Inr b \<and>
          proj_to_affine S q = Some b \<and> pt q = - pt p"
    and proj_new_coords:
      "\<exists>q. proj_new S (proj_x S p) (proj_y S p) (proj_z S p) = Some q \<and> pt q = pt p"
    and curve_order: "nsmul CURVE_ORDER (x' :: 'g) = 0"
    and select_zero: "conditional_select_u8 S u v 0 = u"
    and select_one: "conditional_select_u8 S u v 1 = v"

text \<open>A digest has 32 bytes, and a request for entropy that succeeds fills the whole buffer.\<close>

locale entropy_laws =
  fixes S :: "('f, 'p, 'a, 'r) starknet"
  assumes sha256_length: "length (sha256 S bs) = 32"
    and getrandom_length: "getrandom S k n = Some bs \<Longrightarrow> length bs = n"

locale starknet_core = felt_laws S + residue_laws S + curve_laws S pt + entropy_laws S
  for S :: "('f, 'p, 'a, 'r) starknet" and pt :: "'p \<Rightarrow> 'g :: ab_group_add"

section \<open>Consequences\<close>

lemma FELT_PRIME_pos [simp]: "0 < FELT_PRIME"
  by (simp add: FELT_PRIME_def)

lemma CURVE_ORDER_pos [simp]: "0 < CURVE_ORDER"
  by (simp add: CURVE_ORDER_def)

lemma CURVE_ORDER_less_PRIME: "CURVE_ORDER < FELT_PRIME"
  by (simp add: CURVE_ORDER_def FELT_PRIME_def)

lemma FELT_PRIME_less: "FELT_PRIME < 256 ^ 32"
  by (simp add: FELT_PRIME_def)

lemma less_PRIME_128: "k < 2 ^ 128 \<Longrightarrow> k < FELT_PRIME"
  by (rule less_trans [of _ "2 ^ 128"]) (simp_all add: FELT_PRIME_def)

context felt_laws
begin

lemma felt_val_less: "felt_val S f < FELT_PRIME"
  by (simp add: felt_val_def felt_bytes_canonical)

lemma felt_val_from: "felt_val S (felt_from S k) = k mod FELT_PRIME"
  by (simp add: felt_val_def felt_from_nat)

lemma felt_val_from_bytes:
  "length bs = 32 \<Longrightarrow> felt_val S (felt_from_bytes_be S bs) = be_val bs mod FELT_PRIME"
  by (simp add: felt_val_def felt_to_from_bytes)

lemma felt_val_add: "felt_val S (felt_add S f g) = (felt_val S f + felt_val S g) mod FELT_PRIME"
  by (simp add: felt_val_def felt_add_bytes)

lemma felt_val_inj: "felt_val S f = felt_val S g \<longleftrightarrow> f = g"
proof
  assume "felt_val S f = felt_val S g"
  then have "felt_to_bytes_be S f = felt_to_bytes_be S g"
    by (intro be_val_inj) (simp_all add: felt_bytes_length felt_val_def)
  then show "f = g" by (metis felt_from_to_bytes)
qed simp

lemma felt_from_val: "felt_from S (felt_val S f) = f"
  by (rule iffD1 [OF felt_val_inj]) (simp add: felt_val_from felt_val_less)

lemma felt_val_zero_iff: "felt_val S f = 0 \<longleftrightarrow> f = felt_zero S"
  using felt_val_inj [of f "felt_zero S"] by (simp add: felt_val_from)

lemma felt_to_bytes_be_from:
  "k < FELT_PRIME \<Longrightarrow> felt_to_bytes_be S (felt_from S k) = be_bytes 32 k"
  by (rule be_val_inj)
    (use less_trans [OF _ FELT_PRIME_less] in
      \<open>auto simp: felt_bytes_length felt_from_nat be_val_be_bytes\<close>)

end

context residue_laws
begin

lemma residue_val_less: "residue_val S r < CURVE_ORDER"
  by (simp add: residue_val_def residue_canonical)

end

context curve_laws
begin

lemma to_affine_SomeD: "proj_to_affine S p = Some a \<Longrightarrow> pt p \<noteq> 0"
  using to_affine_None [of p] by simp

lemma to_affine_cases:
  obtains (inf) "pt p = 0" "proj_to_affine S p = None"
  | (fin) a where "pt p \<noteq> 0" "proj_to_affine S p = Some a"
  using to_affine_None [of p] by (cases "proj_to_affine S p") auto

lemma from_affine_valid:
  obtains p where "proj_from_affine S (affine_x S a) (affine_y S a) = Some p"
    and "proj_to_affine S p = Some a"
  using from_affine_iff [of "affine_x S a" "affine_y S a"] affine_new_valid [of a]
    from_affine_to_affine [of a] by blast

lemma affine_of_eq: "proj_to_affine S p = Some a \<Longrightarrow> proj_to_affine S q = Some a \<Longrightarrow> pt p = pt q"
  using to_affine_eq [of p q] by simp

lemma nsmul_order: "nsmul (k mod CURVE_ORDER) (x :: 'g) = nsmul k x"
  by (rule nsmul_mod) (rule curve_order)

end

end
