(* ===== verification/Scalar.thy ===== *)
theory Scalar
  imports Starknet_Core
begin

text \<open>
  \<open>crates/crypto/src/scalar.rs\<close>: arithmetic modulo the curve order on field elements, and the
  interface \<open>scalar_action\<close> through which the proof protocols use it: scalars acting on a group,
  with the identities of Schnorr-style responses proved once.
\<close>

section \<open>The model\<close>

definition residue_from_felt :: "('f, 'p, 'a, 'r) starknet \<Rightarrow> 'f \<Rightarrow> 'r" where
  "residue_from_felt S value = residue_new S (felt_to_bytes_be S value)"

definition felt_from_residue :: "('f, 'p, 'a, 'r) starknet \<Rightarrow> 'r \<Rightarrow> 'f" where
  "felt_from_residue S residue = felt_from_bytes_be S (residue_retrieve S residue)"

text \<open>The values the four public functions wrap in \<open>Ok\<close>.\<close>

definition order_add :: "('f, 'p, 'a, 'r) starknet \<Rightarrow> 'f \<Rightarrow> 'f \<Rightarrow> 'f" where
  "order_add S a b =
     felt_from_residue S (residue_add S (residue_from_felt S a) (residue_from_felt S b))"

definition order_sub :: "('f, 'p, 'a, 'r) starknet \<Rightarrow> 'f \<Rightarrow> 'f \<Rightarrow> 'f" where
  "order_sub S a b =
     felt_from_residue S (residue_sub S (residue_from_felt S a) (residue_from_felt S b))"

definition order_mul :: "('f, 'p, 'a, 'r) starknet \<Rightarrow> 'f \<Rightarrow> 'f \<Rightarrow> 'f" where
  "order_mul S a b =
     felt_from_residue S (residue_mul S (residue_from_felt S a) (residue_from_felt S b))"

definition order_reduce :: "('f, 'p, 'a, 'r) starknet \<Rightarrow> 'f \<Rightarrow> 'f" where
  "order_reduce S a = felt_from_residue S (residue_from_felt S a)"

definition scalar_add :: "('f, 'p, 'a, 'r) starknet \<Rightarrow> 'f \<Rightarrow> 'f \<Rightarrow> 'f result" where
  "scalar_add S a b = Inr (order_add S a b)"

definition scalar_sub :: "('f, 'p, 'a, 'r) starknet \<Rightarrow> 'f \<Rightarrow> 'f \<Rightarrow> 'f result" where
  "scalar_sub S a b = Inr (order_sub S a b)"

definition scalar_mul :: "('f, 'p, 'a, 'r) starknet \<Rightarrow> 'f \<Rightarrow> 'f \<Rightarrow> 'f result" where
  "scalar_mul S a b = Inr (order_mul S a b)"

definition reduce_scalar :: "('f, 'p, 'a, 'r) starknet \<Rightarrow> 'f \<Rightarrow> 'f result" where
  "reduce_scalar S a = Inr (order_reduce S a)"

lemmas scalar_results [result_simps] =
  scalar_add_def scalar_sub_def scalar_mul_def reduce_scalar_def

section \<open>Values modulo the order\<close>

locale scalar_laws = felt_laws S + residue_laws S for S :: "('f, 'p, 'a, 'r) starknet"
begin

lemma residue_val_from_felt: "residue_val S (residue_from_felt S a) = felt_val S a mod CURVE_ORDER"
  by (simp add: residue_val_def residue_from_felt_def residue_new_val felt_bytes_length felt_val_def)

lemma felt_val_from_residue: "felt_val S (felt_from_residue S r) = residue_val S r"
  using residue_val_less [of r] CURVE_ORDER_less_PRIME
  by (simp add: felt_from_residue_def felt_val_from_bytes residue_bytes_length residue_val_def)

lemma felt_val_order_add:
  "felt_val S (order_add S a b) = (felt_val S a + felt_val S b) mod CURVE_ORDER"
proof -
  have "felt_val S (order_add S a b) =
      (residue_val S (residue_from_felt S a) + residue_val S (residue_from_felt S b))
        mod CURVE_ORDER"
    by (simp add: order_add_def felt_val_from_residue) (simp add: residue_val_def residue_add_val)
  then show ?thesis
    by (simp add: residue_val_from_felt mod_simps)
qed

lemma felt_val_order_mul:
  "felt_val S (order_mul S a b) = (felt_val S a * felt_val S b) mod CURVE_ORDER"
proof -
  have "felt_val S (order_mul S a b) =
      (residue_val S (residue_from_felt S a) * residue_val S (residue_from_felt S b))
        mod CURVE_ORDER"
    by (simp add: order_mul_def felt_val_from_residue) (simp add: residue_val_def residue_mul_val)
  then show ?thesis
    by (simp add: residue_val_from_felt mod_simps)
qed

lemma felt_val_order_sub:
  "felt_val S (order_sub S a b) =
     (felt_val S a + (CURVE_ORDER - felt_val S b mod CURVE_ORDER)) mod CURVE_ORDER"
proof -
  have "felt_val S (order_sub S a b) =
      (residue_val S (residue_from_felt S a) +
        (CURVE_ORDER - residue_val S (residue_from_felt S b))) mod CURVE_ORDER"
    by (simp add: order_sub_def felt_val_from_residue) (simp add: residue_val_def residue_sub_val)
  then show ?thesis
    by (simp only: residue_val_from_felt mod_add_left_eq)
qed

lemma felt_val_order_reduce: "felt_val S (order_reduce S a) = felt_val S a mod CURVE_ORDER"
  by (simp add: order_reduce_def felt_val_from_residue residue_val_from_felt)

lemmas felt_val_order =
  felt_val_order_add felt_val_order_sub felt_val_order_mul felt_val_order_reduce

lemma order_add_eq:
  "order_add S a b = felt_from S ((felt_val S a + felt_val S b) mod CURVE_ORDER)"
  using felt_from_val [of "order_add S a b"] by (simp add: felt_val_order_add)

lemma order_sub_cancel: "felt_val S (order_add S (order_sub S a b) b) = felt_val S a mod CURVE_ORDER"
proof -
  define m where "m = felt_val S b mod CURVE_ORDER"
  have le: "m \<le> CURVE_ORDER"
    by (simp add: m_def order_less_imp_le)
  have "felt_val S (order_add S (order_sub S a b) b) =
      ((felt_val S a + (CURVE_ORDER - m)) mod CURVE_ORDER + m) mod CURVE_ORDER"
    by (simp only: felt_val_order m_def mod_add_right_eq)
  also have "\<dots> = (felt_val S a + ((CURVE_ORDER - m) + m)) mod CURVE_ORDER"
    by (simp only: mod_add_left_eq add.assoc)
  finally show ?thesis
    using le by (simp only: le_add_diff_inverse2 mod_add_self2)
qed

end

section \<open>Scalars acting on a group\<close>

text \<open>
  The interface of the protocols: \<open>act k x\<close> is the \<open>k\<close>-fold multiple of \<open>x\<close>, and the three scalar
  operations are compatible with it.
\<close>

locale scalar_action =
  fixes act :: "'s \<Rightarrow> 'g \<Rightarrow> 'g :: ab_group_add"
    and sadd ssub smul :: "'s \<Rightarrow> 's \<Rightarrow> 's"
  assumes act_plus: "act k (x + y) = act k x + act k y"
    and act_sadd: "act (sadd j k) x = act j x + act k x"
    and act_ssub: "act (ssub j k) x = act j x - act k x"
    and act_smul: "act (smul j k) x = act j (act k x)"
    and act_comm: "act j (act k x) = act k (act j x)"
begin

lemma act_zero [simp]: "act k 0 = 0"
  using act_plus [of k 0 0] by simp

lemma act_minus: "act k (- x) = - act k x"
  using act_plus [of k x "- x"] by (simp add: eq_neg_iff_add_eq_0 add.commute)

lemma act_diff: "act k (x - y) = act k x - act k y"
  using act_plus [of k x "- y"] by (simp add: act_minus)

lemmas act_simps = act_plus act_minus act_diff act_sadd act_ssub act_smul

text \<open>The honest response to a challenge satisfies the verification equation.\<close>

lemma response_eq: "act (sadd r (smul c x)) g = act r g + act c (act x g)"
  by (simp add: act_simps)

lemma response_eq2:
  "act (sadd r (smul c x)) g + act (sadd q (smul c w)) h =
     (act r g + act q h) + act c (act x g + act w h)"
  by (simp add: act_simps algebra_simps)

text \<open>
  Special soundness: two accepting answers to different challenges for one commitment give the
  exponents, as soon as the difference of the challenges has an inverse \<open>d\<close>.
\<close>

lemma two_transcripts:
  assumes "v = a + act c y" and "v' = a + act c' y"
  shows "v - v' = act (ssub c c') y"
  using assms by (simp add: act_simps)

lemma divide_by_challenge:
  assumes "act (ssub c c') y = z" and "\<And>x. act (smul d (ssub c c')) x = x"
  shows "y = act d z"
  using assms by (metis act_smul)

lemma extract_one:
  assumes "act s g = a + act c y" and "act s' g = a + act c' y"
    and "\<And>x. act (smul d (ssub c c')) x = x"
  shows "y = act (smul d (ssub s s')) g"
proof -
  have "act (ssub c c') y = act (ssub s s') g"
    using two_transcripts [OF assms(1,2)] by (simp add: act_ssub)
  from divide_by_challenge [OF this assms(3)] show ?thesis
    by (simp add: act_smul)
qed

lemma extract_two:
  assumes "act s g + act t h = a + act c y" and "act s' g + act t' h = a + act c' y"
    and "\<And>x. act (smul d (ssub c c')) x = x"
  shows "y = act (smul d (ssub s s')) g + act (smul d (ssub t t')) h"
proof -
  have "act (ssub c c') y = act (ssub s s') g + act (ssub t t') h"
    using two_transcripts [OF assms(1,2)] by (simp add: act_ssub algebra_simps)
  from divide_by_challenge [OF this assms(3)] show ?thesis
    by (simp add: act_smul act_plus)
qed

end

text \<open>The multiple of a group element by the integer a field element stands for.\<close>

definition felt_act :: "('f, 'p, 'a, 'r) starknet \<Rightarrow> 'f \<Rightarrow> 'g \<Rightarrow> 'g :: ab_group_add" where
  "felt_act S k x = nsmul (felt_val S k) x"

sublocale starknet_core \<subseteq> scalar_laws S
  by unfold_locales

sublocale starknet_core \<subseteq>
  scalar_action "felt_act S :: 'f \<Rightarrow> 'g \<Rightarrow> 'g" "order_add S" "order_sub S" "order_mul S"
proof unfold_locales
  fix j k :: 'f and x y :: 'g
  show "felt_act S k (x + y) = felt_act S k x + felt_act S k y"
    by (simp add: felt_act_def nsmul_add_right)
  show "felt_act S (order_add S j k) x = felt_act S j x + felt_act S k x"
    by (simp add: felt_act_def felt_val_order_add nsmul_order nsmul_add_left)
  show "felt_act S (order_mul S j k) x = felt_act S j (felt_act S k x)"
    by (simp add: felt_act_def felt_val_order_mul nsmul_order nsmul_mult)
  show "felt_act S j (felt_act S k x) = felt_act S k (felt_act S j x)"
    by (simp add: felt_act_def nsmul_mult [symmetric] mult.commute)
  have "felt_act S (order_sub S j k) x + felt_act S k x = felt_act S j x"
    using order_sub_cancel [of j k]
    by (simp add: felt_act_def felt_val_order nsmul_order nsmul_add_left)
      (metis nsmul_add_left nsmul_order)
  then show "felt_act S (order_sub S j k) x = felt_act S j x - felt_act S k x"
    by (simp add: eq_diff_eq)
qed

context starknet_core
begin

lemma felt_act_zero_left: "felt_act S (felt_zero S) (x :: 'g) = 0"
  by (simp add: felt_act_def felt_val_from)

lemma felt_act_one: "felt_act S (felt_one S) (x :: 'g) = x"
  by (simp add: felt_act_def felt_val_from FELT_PRIME_def)

lemma felt_act_from: "k < FELT_PRIME \<Longrightarrow> felt_act S (felt_from S k) (x :: 'g) = nsmul k x"
  by (simp add: felt_act_def felt_val_from)

lemma felt_act_reduce: "felt_act S (order_reduce S k) (x :: 'g) = felt_act S k x"
  by (simp add: felt_act_def felt_val_order_reduce nsmul_order)

text \<open>A scalar whose value is 1 modulo the order acts as the identity.\<close>

lemma felt_act_unit:
  assumes "felt_val S k mod CURVE_ORDER = 1"
  shows "felt_act S k (x :: 'g) = x"
proof -
  have "felt_act S k x = nsmul (felt_val S k mod CURVE_ORDER) x"
    by (simp only: felt_act_def nsmul_order)
  then show ?thesis by (simp only: assms nsmul_one)
qed

end

end
