(* ===== verification/Curve.thy ===== *)
theory Curve
  imports Scalar
begin

text \<open>
  \<open>crates/crypto/src/curve.rs\<close>: the generators, the regular double-and-add multiplication with its
  constant-time selects, and the conversions between affine and projective points. The main lemma is
  \<open>pt_mul\<close>: the loop over the 256 bits of a scalar computes the multiple.
\<close>

section \<open>The model\<close>

definition G_X :: "('f, 'p, 'a, 'r) starknet \<Rightarrow> 'f" where
  "G_X S = felt_from S 0x1ef15c18599971b7beced415a40f0c7deacfd9b0d1819e03d723d8bc943cfca"

definition G_Y :: "('f, 'p, 'a, 'r) starknet \<Rightarrow> 'f" where
  "G_Y S = felt_from S 0x5668060aa49730b7be4801df46ec62de53ecd11abe43a32873000c36e8dc1f"

definition H_X :: "('f, 'p, 'a, 'r) starknet \<Rightarrow> 'f" where
  "H_X S = felt_from S 0x162eb5cc8f50e522225785a604ba6d7e9ab06b647157f77c59a06032610b2d2"

definition H_Y :: "('f, 'p, 'a, 'r) starknet \<Rightarrow> 'f" where
  "H_Y S = felt_from S 0x220a56864c490175202e3e34db0e24d12979fbfacea16a360e8feb1f6749192"

definition generator :: "('f, 'p, 'a, 'r) starknet \<Rightarrow> 'p" where
  "generator S =
     expect ''Generator G is a valid curve point'' (proj_from_affine S (G_X S) (G_Y S))"

definition generator_h :: "('f, 'p, 'a, 'r) starknet \<Rightarrow> 'p" where
  "generator_h S =
     expect ''Generator H is a valid curve point'' (proj_from_affine S (H_X S) (H_Y S))"

definition ct_select_felt :: "('f, 'p, 'a, 'r) starknet \<Rightarrow> byte \<Rightarrow> 'f \<Rightarrow> 'f \<Rightarrow> 'f" where
  "ct_select_felt S choice a b =
     (let a_bytes = felt_to_bytes_be S a; b_bytes = felt_to_bytes_be S b
      in felt_from_bytes_be S
           (map (\<lambda>i. conditional_select_u8 S (b_bytes ! i) (a_bytes ! i) choice) [0..<32]))"

definition ct_select_point :: "('f, 'p, 'a, 'r) starknet \<Rightarrow> byte \<Rightarrow> 'p \<Rightarrow> 'p \<Rightarrow> 'p" where
  "ct_select_point S choice a b =
     expect ''ct_select_point selects between two valid ProjectivePoint values''
       (proj_new S
          (ct_select_felt S choice (proj_x S a) (proj_x S b))
          (ct_select_felt S choice (proj_y S a) (proj_y S b))
          (ct_select_felt S choice (proj_z S a) (proj_z S b)))"

text \<open>One iteration of the inner loop of \<open>StarkCurve::scalar_mul\<close>, on the pair \<open>(result, temp)\<close>.\<close>

definition scalar_mul_bit :: "('f, 'p, 'a, 'r) starknet \<Rightarrow> byte \<Rightarrow> nat \<Rightarrow> 'p \<times> 'p \<Rightarrow> 'p \<times> 'p" where
  "scalar_mul_bit S b i = (\<lambda>(result, temp).
     let bit = drop_bit i b AND 1;
         added = proj_add S result temp
     in (ct_select_point S bit added result, proj_add S temp temp))"

definition scalar_mul_byte :: "('f, 'p, 'a, 'r) starknet \<Rightarrow> byte \<Rightarrow> 'p \<times> 'p \<Rightarrow> 'p \<times> 'p" where
  "scalar_mul_byte S b st = fold (scalar_mul_bit S b) [0..<8] st"

definition curve_scalar_mul :: "('f, 'p, 'a, 'r) starknet \<Rightarrow> 'p \<Rightarrow> 'f \<Rightarrow> 'p" where
  "curve_scalar_mul S point scalar =
     fst (fold (scalar_mul_byte S) (rev (felt_to_bytes_be S scalar)) (proj_identity S, point))"

definition mul :: "('f, 'p, 'a, 'r) starknet \<Rightarrow> 'f \<Rightarrow> 'p option \<Rightarrow> 'p" where
  "mul S scalar point =
     (let base = (case point of Some p \<Rightarrow> p | None \<Rightarrow> generator S)
      in curve_scalar_mul S base scalar)"

definition mul_generator :: "('f, 'p, 'a, 'r) starknet \<Rightarrow> 'f \<Rightarrow> 'p" where
  "mul_generator S scalar = curve_scalar_mul S (generator S) scalar"

definition add :: "('f, 'p, 'a, 'r) starknet \<Rightarrow> 'p \<Rightarrow> 'p \<Rightarrow> 'p" where
  "add S p1 p2 = proj_add S p1 p2"

definition affine_to_projective :: "('f, 'p, 'a, 'r) starknet \<Rightarrow> 'a \<Rightarrow> 'p" where
  "affine_to_projective S point =
     expect ''AffinePoint was already validated; conversion to ProjectivePoint should never fail''
       (proj_from_affine S (affine_x S point) (affine_y S point))"

definition projective_to_affine :: "('f, 'p, 'a, 'r) starknet \<Rightarrow> 'p \<Rightarrow> 'a result" where
  "projective_to_affine S point = ok_or PointAtInfinity (proj_to_affine S point)"

definition is_infinity :: "('f, 'p, 'a, 'r) starknet \<Rightarrow> 'p \<Rightarrow> bool" where
  "is_infinity S point = Option.is_none (proj_to_affine S point)"

definition is_on_curve :: "('f, 'p, 'a, 'r) starknet \<Rightarrow> 'f \<Rightarrow> 'f \<Rightarrow> bool" where
  "is_on_curve S x y = (case affine_new S x y of Inl e \<Rightarrow> False | Inr a \<Rightarrow> True)"

section \<open>The generators\<close>

text \<open>
  The two pairs of coordinates are points of the curve, and \<open>G\<close> generates the group: no smaller
  multiple of it than the order is the identity.
\<close>

locale stark_curve = starknet_core S pt
  for S :: "('f, 'p, 'a, 'r) starknet" and pt :: "'p \<Rightarrow> 'g :: ab_group_add" +
  assumes G_valid: "\<exists>p. proj_from_affine S (G_X S) (G_Y S) = Some p"
    and H_valid: "\<exists>p. proj_from_affine S (H_X S) (H_Y S) = Some p"
    and G_order: "nsmul k (pt (generator S)) = 0 \<Longrightarrow> CURVE_ORDER dvd k"

section \<open>Conversions\<close>

context starknet_core
begin

text \<open>The \<open>expect\<close> of \<open>affine_to_projective\<close> never fails.\<close>

lemma to_affine_to_projective [simp]: "proj_to_affine S (affine_to_projective S a) = Some a"
proof -
  obtain p where "proj_from_affine S (affine_x S a) (affine_y S a) = Some p"
    and "proj_to_affine S p = Some a"
    by (rule from_affine_valid)
  then show ?thesis by (simp add: affine_to_projective_def)
qed

lemma pt_affine_to_projective:
  "proj_to_affine S p = Some a \<Longrightarrow> pt (affine_to_projective S a) = pt p"
  by (rule affine_of_eq [where a = a]) simp_all

lemma pt_affine_nonzero [simp]: "pt (affine_to_projective S a) \<noteq> 0"
  using to_affine_SomeD [of "affine_to_projective S a"] by simp

lemma projective_to_affine_Inr: "projective_to_affine S p = Inr a \<longleftrightarrow> proj_to_affine S p = Some a"
  by (simp add: projective_to_affine_def ok_or_eq_Inr)

lemma projective_to_affine_zero: "pt p = 0 \<Longrightarrow> projective_to_affine S p = Inl PointAtInfinity"
  by (simp add: projective_to_affine_def to_affine_None ok_or_eq_Inl)

lemma projective_to_affine_nonzero:
  assumes "pt p \<noteq> 0"
  obtains a where "projective_to_affine S p = Inr a" and "pt (affine_to_projective S a) = pt p"
  using assms pt_affine_to_projective [of p]
  by (cases p rule: to_affine_cases) (auto simp: projective_to_affine_Inr)

lemma projective_to_affine_pt:
  "projective_to_affine S p = Inr a \<Longrightarrow> pt (affine_to_projective S a) = pt p"
  by (simp add: projective_to_affine_Inr pt_affine_to_projective)

lemma pt_affine_inj:
  "pt (affine_to_projective S a) = pt (affine_to_projective S b) \<longleftrightarrow> a = b"
  using to_affine_eq [of "affine_to_projective S a" "affine_to_projective S b"] by auto

lemma is_infinity_iff: "is_infinity S p \<longleftrightarrow> pt p = 0"
  by (simp add: is_infinity_def Option.is_none_def to_affine_None)

text \<open>Reading a point back from its coordinates.\<close>

lemma affine_new_pt:
  "affine_new S x y = Inr a \<Longrightarrow> affine_x S a = x" "affine_new S x y = Inr a \<Longrightarrow> affine_y S a = y"
  by (simp_all add: affine_new_coords)

lemma affine_negate:
  obtains b where "affine_new S (affine_x S a) (felt_neg S (affine_y S a)) = Inr b"
    and "pt (affine_to_projective S b) = - pt (affine_to_projective S a)"
proof -
  obtain b q where b: "affine_new S (affine_x S a) (felt_neg S (affine_y S a)) = Inr b"
    and q: "proj_to_affine S q = Some b" "pt q = - pt (affine_to_projective S a)"
    using affine_neg [OF to_affine_to_projective [of a]] by blast
  show thesis
    by (rule that [OF b]) (simp add: pt_affine_to_projective [OF q(1)] q(2))
qed

section \<open>Multiplication\<close>

text \<open>The selects return the representation of one of the two points, and never panic.\<close>

lemma ct_select_felt_one: "ct_select_felt S 1 a b = a"
proof -
  have "map (\<lambda>i. felt_to_bytes_be S a ! i) [0..<32] = felt_to_bytes_be S a"
    using map_nth [of "felt_to_bytes_be S a"] by (simp add: felt_bytes_length)
  then show ?thesis
    by (simp add: ct_select_felt_def select_one felt_from_to_bytes)
qed

lemma ct_select_felt_zero: "ct_select_felt S 0 a b = b"
proof -
  have "map (\<lambda>i. felt_to_bytes_be S b ! i) [0..<32] = felt_to_bytes_be S b"
    using map_nth [of "felt_to_bytes_be S b"] by (simp add: felt_bytes_length)
  then show ?thesis
    by (simp add: ct_select_felt_def select_zero felt_from_to_bytes)
qed

lemma pt_ct_select: "c \<in> {0, 1} \<Longrightarrow> pt (ct_select_point S c a b) = (if c = 1 then pt a else pt b)"
  using proj_new_coords [of a] proj_new_coords [of b]
  by (auto simp: ct_select_point_def ct_select_felt_one ct_select_felt_zero)

lemma pt_add [simp]: "pt (add S p q) = pt p + pt q"
  by (simp add: add_def pt_proj_add)

lemma scalar_mul_bit_step:
  "pt (fst (scalar_mul_bit S b i (r, t))) = pt r + nsmul (unat b div 2 ^ i mod 2) (pt t)"
  "pt (snd (scalar_mul_bit S b i (r, t))) = nsmul 2 (pt t)"
proof -
  define c where "c = drop_bit i b AND 1"
  have c01: "c \<in> {0, 1}" and c: "unat b div 2 ^ i mod 2 = unat c"
    unfolding c_def by (rule bit_at_01) (rule unat_bit_at [symmetric])
  have sel: "scalar_mul_bit S b i (r, t) =
      (ct_select_point S c (proj_add S r t) r, proj_add S t t)"
    by (simp add: scalar_mul_bit_def c_def Let_def)
  show "pt (snd (scalar_mul_bit S b i (r, t))) = nsmul 2 (pt t)"
    by (simp add: sel pt_proj_add numeral_2_eq_2)
  show "pt (fst (scalar_mul_bit S b i (r, t))) = pt r + nsmul (unat b div 2 ^ i mod 2) (pt t)"
    using c01 by (auto simp: sel pt_ct_select pt_proj_add c)
qed

lemma scalar_mul_bits:
  "pt (fst (fold (scalar_mul_bit S b) [0..<k] (r, t))) = pt r + nsmul (unat b mod 2 ^ k) (pt t)
   \<and> pt (snd (fold (scalar_mul_bit S b) [0..<k] (r, t))) = nsmul (2 ^ k) (pt t)"
proof (induction k)
  case 0
  show ?case by simp
next
  case (Suc k)
  obtain r' t' where st: "fold (scalar_mul_bit S b) [0..<k] (r, t) = (r', t')"
    by (meson surj_pair)
  have step: "fold (scalar_mul_bit S b) [0..<Suc k] (r, t) = scalar_mul_bit S b k (r', t')"
    by (simp add: st)
  have "unat b mod 2 ^ Suc k = unat b mod 2 ^ k + unat b div 2 ^ k mod 2 * 2 ^ k"
    by (simp only: power_Suc2 mod_mult2_eq) (simp add: mult.commute)
  then show ?case
    using Suc by (simp only: st step scalar_mul_bit_step fst_conv snd_conv)
      (simp add: nsmul_add_left nsmul_mult algebra_simps flip: nsmul_mult)
qed

lemma scalar_mul_byte_step:
  "pt (fst (scalar_mul_byte S b (r, t))) = pt r + nsmul (unat b) (pt t)"
  "pt (snd (scalar_mul_byte S b (r, t))) = nsmul 256 (pt t)"
  using scalar_mul_bits [of b 8 r t] by (simp_all add: scalar_mul_byte_def)

lemma scalar_mul_bytes:
  "pt (fst (fold (scalar_mul_byte S) bs (r, t))) = pt r + nsmul (be_val (rev bs)) (pt t)"
proof (induction bs arbitrary: r t)
  case Nil
  show ?case by simp
next
  case (Cons b bs)
  obtain r' t' where st: "scalar_mul_byte S b (r, t) = (r', t')"
    by (meson surj_pair)
  then have "pt r' = pt r + nsmul (unat b) (pt t)" and "pt t' = nsmul 256 (pt t)"
    using scalar_mul_byte_step [of b r t] by simp_all
  then show ?case
    by (simp add: st Cons nsmul_add_left nsmul_mult algebra_simps)
qed

text \<open>Double-and-add computes the multiple.\<close>

lemma pt_curve_scalar_mul: "pt (curve_scalar_mul S p k) = felt_act S k (pt p)"
  by (simp add: curve_scalar_mul_def scalar_mul_bytes pt_identity felt_act_def felt_val_def)

lemma pt_mul [simp]: "pt (mul S k (Some p)) = felt_act S k (pt p)"
  by (simp add: mul_def pt_curve_scalar_mul)

lemma pt_mul_default: "pt (mul S k None) = felt_act S k (pt (generator S))"
  by (simp add: mul_def pt_curve_scalar_mul)

lemma pt_mul_generator [simp]: "pt (mul_generator S k) = felt_act S k (pt (generator S))"
  by (simp add: mul_generator_def pt_curve_scalar_mul)

lemma mul_zero_infinity: "is_infinity S (mul S (felt_zero S) (Some p))"
  by (simp add: is_infinity_iff felt_act_zero_left)

end

context stark_curve
begin

text \<open>The \<open>expect\<close> of the two lazily built generators never fails, and neither is the identity.\<close>

lemma generator_nonzero [simp]: "pt (generator S) \<noteq> 0"
proof
  assume "pt (generator S) = 0"
  then have "CURVE_ORDER dvd 1" by (intro G_order) simp
  then show False by (simp add: CURVE_ORDER_def)
qed

lemma generator_affine:
  assumes "proj_to_affine S (generator S) = Some a"
  shows "affine_x S a = G_X S \<and> affine_y S a = G_Y S"
proof -
  obtain p where p: "proj_from_affine S (G_X S) (G_Y S) = Some p"
    using G_valid by blast
  obtain b where b: "affine_new S (G_X S) (G_Y S) = Inr b"
    using from_affine_iff p by blast
  then have "proj_to_affine S p = Some b"
    using from_affine_to_affine [of b p] affine_new_coords [OF b] p by simp
  with assms p affine_new_coords [OF b] show ?thesis
    by (simp add: generator_def)
qed

lemma generator_multiple_eq:
  assumes "nsmul j (pt (generator S)) = nsmul k (pt (generator S))"
    and "j < CURVE_ORDER" and "k < CURVE_ORDER"
  shows "j = k"
proof -
  have eq: "j = k" if "nsmul j (pt (generator S)) = nsmul k (pt (generator S))"
    and "k \<le> j" and "j < CURVE_ORDER" for j k
  proof -
    have "nsmul (j - k) (pt (generator S)) = 0"
      using that by (simp add: nsmul_diff_left)
    then have "CURVE_ORDER dvd j - k" by (rule G_order)
    then show "j = k"
      using that by (metis diff_is_0_eq dvd_imp_le le_antisym less_imp_diff_less linorder_not_less
          zero_less_diff)
  qed
  show ?thesis
    using eq [of j k] eq [of k j] assms by (cases "k \<le> j") simp_all
qed

end

end
