(* ===== verification/Types.thy ===== *)
theory Types
  imports Curve
begin

text \<open>
  \<open>crates/common/src/types.rs\<close>: the records of the proofs and ciphertexts of the protocol, and the
  passage between curve points and their serialised coordinates.
\<close>

section \<open>The model\<close>

record 'f SerializablePoint =
  sp_x :: 'f
  sp_y :: 'f

record 'f PoeProof =
  poe_a :: "'f SerializablePoint"
  poe_s :: 'f
  poe_c :: 'f

record 'f Poe2Proof =
  poe2_a :: "'f SerializablePoint"
  poe2_s1 :: 'f
  poe2_s2 :: 'f
  poe2_c :: 'f

record 'f ElGamalProof =
  eg_al :: "'f SerializablePoint"
  eg_ar :: "'f SerializablePoint"
  eg_sb :: 'f
  eg_sr :: 'f
  eg_c :: 'f

record 'f AuditProof =
  au_ax :: "'f SerializablePoint"
  au_al0 :: "'f SerializablePoint"
  au_al1 :: "'f SerializablePoint"
  au_ar1 :: "'f SerializablePoint"
  au_sx :: 'f
  au_sb :: 'f
  au_sr :: 'f
  au_c :: 'f

record 'p ElGamalCiphertext =
  ct_l :: 'p
  ct_r :: 'p

record AccountState =
  st_balance :: u128
  st_pending_balance :: u128
  st_nonce :: u64

datatype TransactionType = Fund | Send | Rollover | Withdraw

record 'f ProofOfBit =
  bit_a0 :: "'f SerializablePoint"
  bit_a1 :: "'f SerializablePoint"
  bit_c0 :: 'f
  bit_s0 :: 'f
  bit_s1 :: 'f

record 'f Range =
  rg_commitments :: "'f SerializablePoint list"
  rg_proofs :: "'f ProofOfBit list"

record 'f ProofOfTransfer =
  tr_a_x :: "'f SerializablePoint"
  tr_a_r :: "'f SerializablePoint"
  tr_a_r2 :: "'f SerializablePoint"
  tr_a_b :: "'f SerializablePoint"
  tr_a_b2 :: "'f SerializablePoint"
  tr_a_v :: "'f SerializablePoint"
  tr_a_v2 :: "'f SerializablePoint"
  tr_a_bar :: "'f SerializablePoint"
  tr_s_x :: 'f
  tr_s_r :: 'f
  tr_s_b :: 'f
  tr_s_b2 :: 'f
  tr_s_r2 :: 'f
  tr_range :: "'f Range"
  tr_range2 :: "'f Range"

definition from_affine :: "('f, 'p, 'a, 'r) starknet \<Rightarrow> 'a \<Rightarrow> 'f SerializablePoint" where
  "from_affine S point = \<lparr>sp_x = affine_x S point, sp_y = affine_y S point\<rparr>"

definition try_from_projective ::
    "('f, 'p, 'a, 'r) starknet \<Rightarrow> 'p \<Rightarrow> 'f SerializablePoint result" where
  "try_from_projective S point =
     and_then (ok_or PointAtInfinity (proj_to_affine S point)) (\<lambda>affine. Inr (from_affine S affine))"

definition to_affine :: "('f, 'p, 'a, 'r) starknet \<Rightarrow> 'f SerializablePoint \<Rightarrow> 'a result" where
  "to_affine S self =
     map_err (\<lambda>e. InvalidPublicKey (''Invalid point: '' @ e)) (affine_new S (sp_x self) (sp_y self))"

section \<open>Points and their coordinates\<close>

context starknet_core
begin

lemma to_affine_from_affine [simp]: "to_affine S (from_affine S a) = Inr a"
  by (simp add: to_affine_def from_affine_def affine_new_valid)

lemma from_affine_to_affine_id:
  "to_affine S sp = Inr a \<Longrightarrow> from_affine S a = sp"
  by (cases sp) (simp add: to_affine_def from_affine_def map_err_eq_Inr affine_new_pt)

lemma from_affine_inj: "from_affine S a = from_affine S b \<longleftrightarrow> a = b"
  by (metis Inr_inject to_affine_from_affine)

lemma try_from_projective_zero: "pt p = 0 \<Longrightarrow> try_from_projective S p = Inl PointAtInfinity"
  using to_affine_None [of p] by (simp add: try_from_projective_def)

lemma try_from_projective_Inr:
  "try_from_projective S p = Inr sp \<longleftrightarrow> (\<exists>a. proj_to_affine S p = Some a \<and> sp = from_affine S a)"
  by (auto simp: try_from_projective_def result_iffs)

text \<open>A point that is not the identity has coordinates, which read back to the same point.\<close>

lemma try_from_projective_nonzero:
  assumes "pt p \<noteq> 0"
  obtains a where "try_from_projective S p = Inr (from_affine S a)"
    and "pt (affine_to_projective S a) = pt p"
  using assms pt_affine_to_projective [of p]
  by (cases p rule: to_affine_cases) (auto simp: try_from_projective_Inr)

lemma try_from_projectiveE:
  assumes "try_from_projective S p = Inr sp"
  obtains a where "sp = from_affine S a" and "pt (affine_to_projective S a) = pt p"
    and "proj_to_affine S p = Some a" and "pt p \<noteq> 0"
  using assms to_affine_SomeD by (auto simp: try_from_projective_Inr pt_affine_to_projective)

lemma try_from_projective_cong: "pt p = pt q \<Longrightarrow> try_from_projective S p = try_from_projective S q"
  using to_affine_eq [of p q] by (simp add: try_from_projective_def)

lemma projective_to_affine_cong:
  "pt p = pt q \<Longrightarrow> projective_to_affine S p = projective_to_affine S q"
  using to_affine_eq [of p q] by (simp add: projective_to_affine_def)

text \<open>The comparison with which every verifier ends: both sides finite and equal.\<close>

lemma compare_affine:
  "and_then (projective_to_affine S p) (\<lambda>a. and_then (projective_to_affine S q) (\<lambda>b. Inr (a = b))) =
     (if pt p = 0 \<or> pt q = 0 then Inl PointAtInfinity else Inr (pt p = pt q))"
proof (cases "pt p = 0 \<or> pt q = 0")
  case True
  then show ?thesis
    using to_affine_None [of p] to_affine_None [of q]
    by (cases "proj_to_affine S p") (auto simp: projective_to_affine_def)
next
  case False
  then obtain a b where "projective_to_affine S p = Inr a" "pt (affine_to_projective S a) = pt p"
    "projective_to_affine S q = Inr b" "pt (affine_to_projective S b) = pt q"
    by (metis projective_to_affine_nonzero)
  then show ?thesis
    using False pt_affine_inj [of a b] by simp
qed

end

end
