(* ===== verification/Hash.thy ===== *)
theory Hash
  imports Types
begin

text \<open>
  \<open>crates/crypto/src/hash.rs\<close>: Fiat-Shamir challenges over the coordinates of points, by Pedersen
  and by Poseidon hashes.
\<close>

section \<open>The model\<close>

fun compute_challenge :: "('f, 'p, 'a, 'r) starknet \<Rightarrow> 'f \<Rightarrow> 'p list \<Rightarrow> 'f result" where
  "compute_challenge S current [] = Inr current"
| "compute_challenge S current (point # points) =
     and_then (ok_or PointAtInfinity (proj_to_affine S point)) (\<lambda>affine.
       let current = pedersen_hash S current (affine_x S affine);
           current = pedersen_hash S current (affine_y S affine)
       in compute_challenge S current points)"

definition compute_challenge_single :: "('f, 'p, 'a, 'r) starknet \<Rightarrow> 'f \<Rightarrow> 'p \<Rightarrow> 'f result" where
  "compute_challenge_single S prefix point = compute_challenge S prefix [point]"

definition compute_challenge_pair :: "('f, 'p, 'a, 'r) starknet \<Rightarrow> 'f \<Rightarrow> 'p \<Rightarrow> 'p \<Rightarrow> 'f result" where
  "compute_challenge_pair S prefix point1 point2 = compute_challenge S prefix [point1, point2]"

definition compute_challenge_triple ::
    "('f, 'p, 'a, 'r) starknet \<Rightarrow> 'f \<Rightarrow> 'p \<Rightarrow> 'p \<Rightarrow> 'p \<Rightarrow> 'f result" where
  "compute_challenge_triple S prefix point1 point2 point3 =
     compute_challenge S prefix [point1, point2, point3]"

definition hash_felts :: "('f, 'p, 'a, 'r) starknet \<Rightarrow> 'f list \<Rightarrow> 'f" where
  "hash_felts S felts = foldl (pedersen_hash S) (felt_zero S) felts"

definition poseidon_hash_many :: "('f, 'p, 'a, 'r) starknet \<Rightarrow> 'f list \<Rightarrow> 'f" where
  "poseidon_hash_many S felts = poseidon_hash_array S felts"

text \<open>The loop of the two Poseidon functions, which pushes the coordinates on \<open>felts\<close>.\<close>

fun push_coordinates :: "('f, 'p, 'a, 'r) starknet \<Rightarrow> 'f list \<Rightarrow> 'p list \<Rightarrow> 'f list result" where
  "push_coordinates S felts [] = Inr felts"
| "push_coordinates S felts (point # points) =
     and_then (ok_or PointAtInfinity (proj_to_affine S point)) (\<lambda>affine.
       push_coordinates S (felts @ [affine_x S affine, affine_y S affine]) points)"

definition extend_poseidon_prefix ::
    "('f, 'p, 'a, 'r) starknet \<Rightarrow> 'f \<Rightarrow> 'p list \<Rightarrow> 'f result" where
  "extend_poseidon_prefix S prefix points =
     and_then (push_coordinates S [prefix] points) (\<lambda>felts. Inr (poseidon_hash_many S felts))"

definition extend_pedersen_prefix ::
    "('f, 'p, 'a, 'r) starknet \<Rightarrow> 'f \<Rightarrow> 'p list \<Rightarrow> 'f result" where
  "extend_pedersen_prefix S prefix points = compute_challenge S prefix points"

definition compute_poseidon_challenge ::
    "('f, 'p, 'a, 'r) starknet \<Rightarrow> 'f \<Rightarrow> 'p list \<Rightarrow> 'f result" where
  "compute_poseidon_challenge S prefix points =
     and_then (push_coordinates S [prefix] points) (\<lambda>felts.
       reduce_scalar S (poseidon_hash_array S felts))"

section \<open>When a challenge exists, and on what it depends\<close>

context starknet_core
begin

lemma compute_challenge_cong:
  "list_all2 (\<lambda>p q. pt p = pt q) ps qs \<Longrightarrow> compute_challenge S k ps = compute_challenge S k qs"
proof (induction ps qs arbitrary: k rule: list_all2_induct)
  case (Cons p ps q qs)
  then have "proj_to_affine S p = proj_to_affine S q" by (simp add: to_affine_eq)
  with Cons show ?case by (auto simp: Let_def intro: and_then_cong)
qed simp

lemma push_coordinates_cong:
  "list_all2 (\<lambda>p q. pt p = pt q) ps qs \<Longrightarrow> push_coordinates S fs ps = push_coordinates S fs qs"
proof (induction ps qs arbitrary: fs rule: list_all2_induct)
  case (Cons p ps q qs)
  then have "proj_to_affine S p = proj_to_affine S q" by (simp add: to_affine_eq)
  with Cons show ?case by (auto intro: and_then_cong)
qed simp

lemma poseidon_challenge_cong:
  "list_all2 (\<lambda>p q. pt p = pt q) ps qs \<Longrightarrow>
     compute_poseidon_challenge S k ps = compute_poseidon_challenge S k qs"
  by (simp add: compute_poseidon_challenge_def push_coordinates_cong [of ps qs])

text \<open>A challenge is an error exactly when one of the points is the identity.\<close>

lemma compute_challenge_total:
  "(\<exists>c. compute_challenge S k ps = Inr c) \<longleftrightarrow> (\<forall>p \<in> set ps. pt p \<noteq> 0)"
proof (induction ps arbitrary: k)
  case (Cons p ps)
  show ?case
    by (cases p rule: to_affine_cases) (simp_all add: Cons Let_def)
qed simp

lemma push_coordinates_total:
  "(\<exists>c. push_coordinates S fs ps = Inr c) \<longleftrightarrow> (\<forall>p \<in> set ps. pt p \<noteq> 0)"
proof (induction ps arbitrary: fs)
  case (Cons p ps)
  show ?case
    by (cases p rule: to_affine_cases) (simp_all add: Cons)
qed simp

lemma push_coordinates_error: "push_coordinates S fs ps = Inl e \<Longrightarrow> e = PointAtInfinity"
  by (induction ps arbitrary: fs) (auto simp: result_iffs)

lemma poseidon_challenge_total:
  "(\<exists>c. compute_poseidon_challenge S k ps = Inr c) \<longleftrightarrow> (\<forall>p \<in> set ps. pt p \<noteq> 0)"
  using push_coordinates_total [of "[k]" ps]
  by (simp add: compute_poseidon_challenge_def result_iffs result_simps)

lemma compute_challenge_error: "compute_challenge S k ps = Inl e \<Longrightarrow> e = PointAtInfinity"
  by (induction ps arbitrary: k) (auto simp: result_iffs Let_def)

text \<open>A Poseidon challenge is reduced modulo the order.\<close>

lemma poseidon_challenge_reduced:
  "compute_poseidon_challenge S k ps = Inr c \<Longrightarrow> felt_val S c < CURVE_ORDER"
  by (auto simp: compute_poseidon_challenge_def result_iffs reduce_scalar_def felt_val_order_reduce)

end

end
