(* ===== verification/Random_Source.thy ===== *)
theory Random_Source
  imports Starknet_Core
begin

text \<open>
  \<open>crates/crypto/src/random.rs\<close>: the source of randomness every prover draws from, either the
  operating system or, when the parity feature is on and a stream is installed, the deterministic
  stream of SHA-256 blocks. The state is passed explicitly. The mutex around the deterministic state
  is always acquired: none of the functions that hold it can panic.
\<close>

section \<open>The model\<close>

record DeterministicRngState =
  det_seed :: "byte list"
  det_stream :: "byte list"
  det_counter :: u64
  det_block :: "byte list"
  det_block_offset :: nat

text \<open>
  The process state: the installed deterministic state, the value of the opt-in environment
  variable, and how many requests the operating system has answered.
\<close>

record rng =
  DETERMINISTIC_RNG :: "DeterministicRngState option"
  opt_in_env :: "string option"
  os_calls :: nat

type_synonym 'a draw = "rng \<Rightarrow> KmsError + ('a \<times> rng)"

definition PARITY_DOMAIN :: "byte list" where
  "PARITY_DOMAIN = map of_char ''kms-parity-v1''"

definition det_new :: "byte list \<Rightarrow> byte list \<Rightarrow> DeterministicRngState" where
  "det_new seed stream =
     \<lparr>det_seed = seed, det_stream = stream, det_counter = 0, det_block = replicate 32 0,
      det_block_offset = 32\<rparr>"

definition det_zeroize :: "DeterministicRngState \<Rightarrow> DeterministicRngState" where
  "det_zeroize self =
     self\<lparr>det_seed := replicate 32 0, det_stream := [], det_block := replicate 32 0,
          det_counter := 0, det_block_offset := 0\<rparr>"

definition refill_block ::
    "('f, 'p, 'a, 'r) starknet \<Rightarrow> DeterministicRngState \<Rightarrow> DeterministicRngState" where
  "refill_block S self =
     (let digest = sha256 S (PARITY_DOMAIN @ det_stream self @ det_seed self @
                             be_bytes 8 (unat (det_counter self)))
      in self\<lparr>det_block := digest, det_block_offset := 0, det_counter := det_counter self + 1\<rparr>)"

text \<open>
  The loop of \<open>fill\<close>, with the number of bytes still to write. \<open>self.block.len()\<close> is 32, the length
  of the array type.
\<close>

function det_fill ::
    "('f, 'p, 'a, 'r) starknet \<Rightarrow> DeterministicRngState \<Rightarrow> nat \<Rightarrow> byte list \<times> DeterministicRngState"
where
  "det_fill S self remaining =
     (if remaining = 0 then ([], self)
      else
        let self = (if det_block_offset self \<ge> 32 then refill_block S self else self);
            available = 32 - det_block_offset self;
            chunk = min available remaining;
            copied = take chunk (drop (det_block_offset self) (det_block self));
            (rest, self') =
              det_fill S (self\<lparr>det_block_offset := det_block_offset self + chunk\<rparr>)
                (remaining - chunk)
        in (copied @ rest, self'))"
  by pat_completeness auto
termination
  by (relation "measure (\<lambda>(S, self, remaining). remaining)")
    (auto simp: refill_block_def Let_def split: if_splits)

declare det_fill.simps [simp del]

definition set_deterministic_rng :: "byte list \<Rightarrow> byte list \<Rightarrow> unit draw" where
  "set_deterministic_rng seed stream w =
     (if opt_in_env w = Some ''1'' then Inr ((), w\<lparr>DETERMINISTIC_RNG := Some (det_new seed stream)\<rparr>)
      else Inl (Panic ''refusing to replace cryptographic randomness with a deterministic stream''))"

definition clear_deterministic_rng :: "rng \<Rightarrow> rng" where
  "clear_deterministic_rng w = w\<lparr>DETERMINISTIC_RNG := None\<rparr>"

text \<open>\<open>None\<close> is an error of the operating system.\<close>

definition try_fill_random_bytes ::
    "('f, 'p, 'a, 'r) starknet \<Rightarrow> nat \<Rightarrow> rng \<Rightarrow> byte list option \<times> rng" where
  "try_fill_random_bytes S len w =
     (case DETERMINISTIC_RNG w of
        Some state \<Rightarrow>
          (let (out, state') = det_fill S state len
           in (Some out, w\<lparr>DETERMINISTIC_RNG := Some state'\<rparr>))
      | None \<Rightarrow> (getrandom S (os_calls w) len, w\<lparr>os_calls := os_calls w + 1\<rparr>))"

definition fill_random_bytes :: "('f, 'p, 'a, 'r) starknet \<Rightarrow> nat \<Rightarrow> byte list draw" where
  "fill_random_bytes S len w =
     (case try_fill_random_bytes S len w of
        (Some out, w') \<Rightarrow> Inr (out, w')
      | (None, w') \<Rightarrow> Inl (Panic ''OS entropy source unavailable''))"

definition random_bytes :: "('f, 'p, 'a, 'r) starknet \<Rightarrow> nat \<Rightarrow> byte list draw" where
  "random_bytes S n w = fill_random_bytes S n w"

definition try_random_bytes ::
    "('f, 'p, 'a, 'r) starknet \<Rightarrow> nat \<Rightarrow> rng \<Rightarrow> byte list option \<times> rng" where
  "try_random_bytes S n w = try_fill_random_bytes S n w"

definition random_felt :: "('f, 'p, 'a, 'r) starknet \<Rightarrow> 'f draw" where
  "random_felt S w =
     and_then (random_bytes S 32 w) (\<lambda>(bytes, w'). Inr (felt_from_bytes_be S bytes, w'))"

fun random_felts :: "('f, 'p, 'a, 'r) starknet \<Rightarrow> nat \<Rightarrow> 'f list draw" where
  "random_felts S 0 w = Inr ([], w)"
| "random_felts S (Suc count) w =
     and_then (random_felt S w) (\<lambda>(f, w').
       and_then (random_felts S count w') (\<lambda>(fs, w''). Inr (f # fs, w'')))"

section \<open>The deterministic stream\<close>

text \<open>The stream the comment above \<open>set_deterministic_rng\<close> describes, byte by byte.\<close>

definition parity_block :: "('f, 'p, 'a, 'r) starknet \<Rightarrow> byte list \<Rightarrow> byte list \<Rightarrow> nat \<Rightarrow> byte list" where
  "parity_block S seed stream k =
     sha256 S (PARITY_DOMAIN @ stream @ seed @ be_bytes 8 (k mod 2 ^ 64))"

definition parity_byte :: "('f, 'p, 'a, 'r) starknet \<Rightarrow> byte list \<Rightarrow> byte list \<Rightarrow> nat \<Rightarrow> byte" where
  "parity_byte S seed stream i = parity_block S seed stream (i div 32) ! (i mod 32)"

text \<open>The state after \<open>i\<close> bytes of the stream.\<close>

definition at_position ::
    "('f, 'p, 'a, 'r) starknet \<Rightarrow> byte list \<Rightarrow> byte list \<Rightarrow> nat \<Rightarrow> DeterministicRngState \<Rightarrow> bool" where
  "at_position S seed stream i st =
     (\<exists>k. det_seed st = seed \<and> det_stream st = stream \<and> det_counter st = of_nat k \<and>
       det_block_offset st \<le> 32 \<and> i + 32 = 32 * k + det_block_offset st \<and>
       (det_block_offset st < 32 \<longrightarrow> det_block st = parity_block S seed stream (k - 1)))"

lemma at_position_new: "at_position S seed stream 0 (det_new seed stream)"
  by (auto simp: at_position_def det_new_def intro!: exI [of _ 0])

lemma refill_position:
  assumes "at_position S seed stream i st" and "det_block_offset st \<ge> 32"
  shows "at_position S seed stream i (refill_block S st)"
    and "det_block_offset (refill_block S st) = 0"
proof -
  obtain k where k: "det_seed st = seed" "det_stream st = stream" "det_counter st = of_nat k"
    "det_block_offset st = 32" "i = 32 * k"
    using assms by (auto simp: at_position_def)
  have "unat (of_nat k :: u64) = k mod 2 ^ 64"
    by (simp add: unat_of_nat)
  then show "at_position S seed stream i (refill_block S st)"
    using k by (auto simp: at_position_def refill_block_def Let_def parity_block_def
        intro!: exI [of _ "Suc k"])
  show "det_block_offset (refill_block S st) = 0"
    by (simp add: refill_block_def Let_def)
qed

lemma advance_position:
  assumes "at_position S seed stream i st" and "det_block_offset st + n \<le> 32"
  shows "at_position S seed stream (i + n) (st\<lparr>det_block_offset := det_block_offset st + n\<rparr>)"
  using assms unfolding at_position_def by (elim exE, intro exI) auto

context entropy_laws
begin

lemma copy_position:
  assumes "at_position S seed stream i st" and "det_block_offset st + n \<le> 32" and "det_block_offset st < 32"
  shows "take n (drop (det_block_offset st) (det_block st)) =
           map (parity_byte S seed stream) [i..<i + n]"
proof -
  define off where "off = det_block_offset st"
  obtain l where l: "det_block st = parity_block S seed stream (l - 1)" "i + 32 = 32 * l + off"
    using assms unfolding at_position_def off_def by blast
  define k where "k = l - 1"
  have k: "det_block st = parity_block S seed stream k" "i = 32 * k + off"
    using l assms(3) by (auto simp: k_def off_def)
  have len: "length (det_block st) = 32"
    by (simp add: k parity_block_def sha256_length)
  show ?thesis
    unfolding off_def [symmetric]
  proof (rule nth_equalityI)
    show "length (take n (drop off (det_block st))) =
        length (map (parity_byte S seed stream) [i..<i + n])"
      using assms(2) by (simp add: len off_def)
    fix j
    assume "j < length (take n (drop off (det_block st)))"
    then have "j < n" and "off + j < 32"
      using assms(2) by (auto simp: len off_def)
    then have "(i + j) div 32 = k" and "(i + j) mod 32 = off + j"
      by (simp_all add: k add.assoc)
    then show "take n (drop off (det_block st)) ! j = map (parity_byte S seed stream) [i..<i + n] ! j"
      using \<open>j < n\<close> \<open>off + j < 32\<close> len by (simp add: parity_byte_def k(1))
  qed
qed

lemma det_fill_stream:
  assumes "at_position S seed stream i st"
  shows "fst (det_fill S st n) = map (parity_byte S seed stream) [i..<i + n]
    \<and> at_position S seed stream (i + n) (snd (det_fill S st n))"
  using assms
proof (induction n arbitrary: i st rule: less_induct)
  case (less n)
  show ?case
  proof (cases "n = 0")
    case True
    then show ?thesis using less.prems by (simp add: det_fill.simps)
  next
    case False
    define st1 where "st1 = (if det_block_offset st \<ge> 32 then refill_block S st else st)"
    define c where "c = min (32 - det_block_offset st1) n"
    define st2 where "st2 = st1\<lparr>det_block_offset := det_block_offset st1 + c\<rparr>"
    have pos: "at_position S seed stream i st1" and off: "det_block_offset st1 < 32"
      using less.prems refill_position [OF less.prems] by (auto simp: st1_def)
    have c: "0 < c" "c \<le> n" "det_block_offset st1 + c \<le> 32"
      using off False by (auto simp: c_def)
    have step: "det_fill S st n =
        (take c (drop (det_block_offset st1) (det_block st1)) @ fst (det_fill S st2 (n - c)),
         snd (det_fill S st2 (n - c)))"
      using False
      by (subst det_fill.simps) (simp add: Let_def case_prod_beta st1_def [symmetric] c_def [symmetric]
          st2_def [symmetric])
    have "at_position S seed stream (i + c) st2"
      unfolding st2_def by (rule advance_position [OF pos c(3)])
    then have IH: "fst (det_fill S st2 (n - c)) = map (parity_byte S seed stream) [i + c..<i + n]"
      "at_position S seed stream (i + n) (snd (det_fill S st2 (n - c)))"
      using less.IH [of "n - c" "i + c" st2] c False by auto
    have "[i..<i + c] @ [i + c..<i + n] = [i..<i + n]"
      using c(2) upt_add_eq_append [of i "i + c" "n - c"] by simp
    then show ?thesis
      using IH copy_position [OF pos c(3) off] by (simp add: step flip: map_append)
  qed
qed

lemma length_det_fill:
  assumes "at_position S seed stream i st"
  shows "length (fst (det_fill S st n)) = n"
  using det_fill_stream [OF assms] by simp

end

text \<open>A sequence of requests.\<close>

fun fill_all :: "('f, 'p, 'a, 'r) starknet \<Rightarrow> nat list \<Rightarrow> byte list draw" where
  "fill_all S [] w = Inr ([], w)"
| "fill_all S (n # ns) w =
     and_then (fill_random_bytes S n w) (\<lambda>(out, w).
     and_then (fill_all S ns w) (\<lambda>(rest, w). Inr (out @ rest, w)))"

context entropy_laws
begin

lemma fill_all_stream:
  assumes "DETERMINISTIC_RNG w = Some st" and "at_position S seed stream i st"
  shows "\<exists>w'. fill_all S ns w = Inr (map (parity_byte S seed stream) [i..<i + sum_list ns], w')"
  using assms
proof (induction ns arbitrary: w st i)
  case (Cons n ns)
  define st' where "st' = snd (det_fill S st n)"
  note d = det_fill_stream [OF Cons.prems(2), of n, folded st'_def]
  have f: "fill_random_bytes S n w =
      Inr (map (parity_byte S seed stream) [i..<i + n], w\<lparr>DETERMINISTIC_RNG := Some st'\<rparr>)"
    using Cons.prems(1) d
    by (simp add: fill_random_bytes_def try_fill_random_bytes_def case_prod_beta st'_def)
  have "at_position S seed stream (i + n) st'" using d by blast
  from Cons.IH [OF _ this, of "w\<lparr>DETERMINISTIC_RNG := Some st'\<rparr>"] obtain w' where
    "fill_all S ns (w\<lparr>DETERMINISTIC_RNG := Some st'\<rparr>) =
      Inr (map (parity_byte S seed stream) [i + n..<i + n + sum_list ns], w')"
    by auto
  moreover have "[i..<i + n] @ [i + n..<i + n + sum_list ns] = [i..<i + (n + sum_list ns)]"
    using upt_add_eq_append [of i "i + n" "sum_list ns"] by (simp add: add.assoc)
  ultimately show ?case using f by (simp flip: map_append)
qed simp

end

section \<open>Draws from the operating system\<close>

lemma os_random_felt:
  assumes "DETERMINISTIC_RNG w = None" and "getrandom S (os_calls w) 32 = Some bs"
  shows "random_felt S w = Inr (felt_from_bytes_be S bs, w\<lparr>os_calls := os_calls w + 1\<rparr>)"
  using assms
  by (simp add: random_felt_def random_bytes_def fill_random_bytes_def try_fill_random_bytes_def)

lemma random_felts_length: "random_felts S n w = Inr (fs, w') \<Longrightarrow> length fs = n"
  by (induction n arbitrary: w fs w') (auto simp: result_iffs)

text \<open>Drawing several at once is drawing them one after the other.\<close>

lemma random_felts_add:
  "random_felts S (m + n) w =
     and_then (random_felts S m w) (\<lambda>(fs, w').
       and_then (random_felts S n w') (\<lambda>(gs, w''). Inr (fs @ gs, w'')))"
proof (induction m arbitrary: w)
  case 0
  show ?case by (simp add: and_then_def split: sum.splits)
next
  case (Suc m)
  then show ?case
    by (auto simp: and_then_def split: sum.splits)
qed

end
