(* ===== verification/Stark_Instance.thy ===== *)
theory Stark_Instance
  imports Hash Random_Source
begin

text \<open>
  A concrete instance of the third-party parameter, which shows that the contracts \<open>starknet_core\<close>
  and \<open>stark_curve\<close> can be met at the real constants and on which the properties' witnesses are
  evaluated. Field elements are the integers below the field prime; a point of the curve is
  represented by its discrete logarithm to the base \<open>G\<close>, an integer below the curve order (the
  Stark group is cyclic of that order), with coordinates such that \<open>G\<close> and \<open>H\<close> have the source's
  literals. The hashes, the cipher and the entropy source have no laws beyond their lengths, and are
  simple functions here.
\<close>

section \<open>Field elements and the group\<close>

typedef zfelt = "{k :: nat. k < FELT_PRIME}"
  by (rule exI [of _ 0]) simp

typedef zgrp = "{k :: nat. k < CURVE_ORDER}"
  by (rule exI [of _ 0]) simp

setup_lifting type_definition_zfelt
setup_lifting type_definition_zgrp

lift_definition zfelt_of :: "nat \<Rightarrow> zfelt" is "\<lambda>k. k mod FELT_PRIME"
  by simp

lift_definition zgrp_of :: "nat \<Rightarrow> zgrp" is "\<lambda>k. k mod CURVE_ORDER"
  by simp

instantiation zgrp :: ab_group_add
begin

lift_definition zero_zgrp :: zgrp is 0
  by simp

lift_definition plus_zgrp :: "zgrp \<Rightarrow> zgrp \<Rightarrow> zgrp" is "\<lambda>j k. (j + k) mod CURVE_ORDER"
  by simp

lift_definition uminus_zgrp :: "zgrp \<Rightarrow> zgrp" is "\<lambda>k. (CURVE_ORDER - k) mod CURVE_ORDER"
  by simp

definition minus_zgrp :: "zgrp \<Rightarrow> zgrp \<Rightarrow> zgrp" where
  "minus_zgrp a b = a + - b"

instance
proof
  fix a b c :: zgrp
  show "a + b + c = a + (b + c)"
    by transfer (simp add: mod_simps algebra_simps)
  show "a + b = b + a"
    by transfer (simp add: add.commute)
  show "0 + a = a"
    by transfer simp
  show "- a + a = 0"
    by transfer (simp add: mod_simps)
  show "a - b = a + - b"
    by (simp add: minus_zgrp_def)
qed

end

lemma Rep_zfelt_less: "Rep_zfelt f < FELT_PRIME"
  using Rep_zfelt [of f] by simp

lemma Rep_zgrp_less: "Rep_zgrp x < CURVE_ORDER"
  using Rep_zgrp [of x] by simp

lemma Rep_zgrp_zero_iff: "Rep_zgrp x = 0 \<longleftrightarrow> x = 0"
  by transfer simp

lemma Rep_zgrp_uminus: "x \<noteq> 0 \<Longrightarrow> Rep_zgrp (- x) = CURVE_ORDER - Rep_zgrp x"
  by transfer simp

lemma Rep_nsmul: "Rep_zgrp (nsmul k x) = (k * Rep_zgrp x) mod CURVE_ORDER"
proof (induction k)
  case 0
  show ?case by (simp add: zero_zgrp.rep_eq)
next
  case (Suc k)
  then show ?case by (simp add: plus_zgrp.rep_eq mod_simps)
qed

text \<open>Affine points: the group elements other than the identity.\<close>

typedef zaff = "{x :: zgrp. x \<noteq> 0}"
proof
  have "Rep_zgrp (zgrp_of 1) = 1"
    by transfer (simp add: CURVE_ORDER_def)
  then show "zgrp_of 1 \<in> {x. x \<noteq> 0}"
    by (metis (mono_tags) Rep_zgrp_zero_iff mem_Collect_eq zero_neq_one)
qed

lemma Rep_zaff_nonzero [simp]: "Rep_zaff a \<noteq> 0"
  using Rep_zaff [of a] by simp

section \<open>Coordinates\<close>

definition gx :: nat where
  "gx = 0x1ef15c18599971b7beced415a40f0c7deacfd9b0d1819e03d723d8bc943cfca"

definition gy :: nat where
  "gy = 0x5668060aa49730b7be4801df46ec62de53ecd11abe43a32873000c36e8dc1f"

definition hx :: nat where
  "hx = 0x162eb5cc8f50e522225785a604ba6d7e9ab06b647157f77c59a06032610b2d2"

definition hy :: nat where
  "hy = 0x220a56864c490175202e3e34db0e24d12979fbfacea16a360e8feb1f6749192"

definition half :: nat where
  "half = (CURVE_ORDER - 1) div 2"

text \<open>An involution that puts the two literals at the logarithms 1 and 2.\<close>

definition sw :: "nat \<Rightarrow> nat" where
  "sw m = (if m = 1 then gx else if m = gx then 1 else if m = 2 then hx else if m = hx then 2 else m)"

definition yb :: "nat \<Rightarrow> nat" where
  "yb m = (if m = 1 then gy else if m = 2 then hy else 1)"

definition fold_log :: "nat \<Rightarrow> nat" where
  "fold_log k = (if k \<le> half then k else CURVE_ORDER - k)"

definition enc_x :: "nat \<Rightarrow> nat" where
  "enc_x k = sw (fold_log k)"

definition enc_y :: "nat \<Rightarrow> nat" where
  "enc_y k = (if k \<le> half then yb (fold_log k) else FELT_PRIME - yb (fold_log k))"

definition dec :: "nat \<Rightarrow> nat \<Rightarrow> nat option" where
  "dec x y =
     (let m = sw x
      in if 1 \<le> m \<and> m \<le> half then
           (if y = yb m then Some m
            else if y = FELT_PRIME - yb m then Some (CURVE_ORDER - m) else None)
         else None)"

lemma literals_distinct:
  "gx \<noteq> 1" "gx \<noteq> Suc 0" "gx \<noteq> 2" "hx \<noteq> 1" "hx \<noteq> Suc 0" "hx \<noteq> 2" "gx \<noteq> hx" "hx \<noteq> gx"
  by (simp_all add: gx_def hx_def)

lemma sw_sw [simp]: "sw (sw m) = m"
  using literals_distinct by (auto simp: sw_def)

lemma sw_less: "m < FELT_PRIME \<Longrightarrow> sw m < FELT_PRIME"
  by (auto simp: sw_def gx_def hx_def FELT_PRIME_def)

lemma yb_bounds: "0 < yb m" "yb m < FELT_PRIME" "yb m \<noteq> FELT_PRIME - yb m"
  by (simp_all add: yb_def gy_def hy_def FELT_PRIME_def)

lemma half_order: "CURVE_ORDER = 2 * half + 1"
  by (simp add: half_def CURVE_ORDER_def)

lemma fold_log_range: "0 < k \<Longrightarrow> k < CURVE_ORDER \<Longrightarrow> 1 \<le> fold_log k \<and> fold_log k \<le> half"
  by (auto simp: fold_log_def half_order)

lemma fold_log_less: "k < CURVE_ORDER \<Longrightarrow> fold_log k < FELT_PRIME"
  using CURVE_ORDER_less_PRIME by (auto simp: fold_log_def)

lemma fold_log_neg: "0 < k \<Longrightarrow> k < CURVE_ORDER \<Longrightarrow> fold_log (CURVE_ORDER - k) = fold_log k"
  by (auto simp: fold_log_def half_order)

lemma dec_enc: "0 < k \<Longrightarrow> k < CURVE_ORDER \<Longrightarrow> dec (enc_x k) (enc_y k) = Some k"
  using fold_log_range [of k] yb_bounds [of "fold_log k"] yb_bounds [of k]
  by (auto simp: dec_def enc_x_def enc_y_def Let_def fold_log_def half_order)

lemma enc_dec:
  assumes "dec x y = Some k"
  shows "0 < k" "k < CURVE_ORDER" "enc_x k = x" "enc_y k = y"
  using assms half_order
  by (auto simp: dec_def enc_x_def enc_y_def fold_log_def Let_def split: if_splits)

lemma enc_x_neg: "0 < k \<Longrightarrow> k < CURVE_ORDER \<Longrightarrow> enc_x (CURVE_ORDER - k) = enc_x k"
  by (simp add: enc_x_def fold_log_neg)

lemma enc_y_neg:
  assumes "0 < k" "k < CURVE_ORDER"
  shows "enc_y (CURVE_ORDER - k) = (FELT_PRIME - enc_y k) mod FELT_PRIME"
proof -
  have "k \<le> half \<longleftrightarrow> \<not> CURVE_ORDER - k \<le> half"
    using assms by (auto simp: half_order)
  then show ?thesis
    using fold_log_neg [OF assms] yb_bounds [of "fold_log k"] by (auto simp: enc_y_def)
qed

lemma enc_less: "0 < k \<Longrightarrow> k < CURVE_ORDER \<Longrightarrow> enc_x k < FELT_PRIME"
    "enc_y k < FELT_PRIME"
  using sw_less [OF fold_log_less [of k]] yb_bounds [of "fold_log k"] by (auto simp: enc_x_def enc_y_def)

section \<open>The instance\<close>

definition stark_dlog :: "(zfelt, zgrp, zaff, zgrp) starknet" where
  "stark_dlog = \<lparr>
     felt_to_bytes_be = (\<lambda>f. be_bytes 32 (Rep_zfelt f)),
     felt_from_bytes_be = (\<lambda>bs. zfelt_of (be_val bs)),
     felt_from = zfelt_of,
     felt_add = (\<lambda>f g. zfelt_of (Rep_zfelt f + Rep_zfelt g)),
     felt_neg = (\<lambda>f. zfelt_of (FELT_PRIME - Rep_zfelt f)),
     affine_new = (\<lambda>x y. case dec (Rep_zfelt x) (Rep_zfelt y) of
        None \<Rightarrow> Inl ''PointNotOnCurve'' | Some k \<Rightarrow> Inr (Abs_zaff (zgrp_of k))),
     affine_x = (\<lambda>a. zfelt_of (enc_x (Rep_zgrp (Rep_zaff a)))),
     affine_y = (\<lambda>a. zfelt_of (enc_y (Rep_zgrp (Rep_zaff a)))),
     proj_identity = 0,
     proj_new = (\<lambda>x y z. if Rep_zfelt x < CURVE_ORDER then Some (zgrp_of (Rep_zfelt x)) else None),
     proj_from_affine = (\<lambda>x y. map_option zgrp_of (dec (Rep_zfelt x) (Rep_zfelt y))),
     proj_to_affine = (\<lambda>p. if p = 0 then None else Some (Abs_zaff p)),
     proj_x = (\<lambda>p. zfelt_of (Rep_zgrp p)),
     proj_y = (\<lambda>p. zfelt_of 1),
     proj_z = (\<lambda>p. zfelt_of 1),
     proj_add = (+),
     proj_sub = (-),
     proj_eq = (=),
     residue_new = (\<lambda>bs. zgrp_of (be_val bs)),
     residue_retrieve = (\<lambda>r. be_bytes 32 (Rep_zgrp r)),
     residue_add = (+),
     residue_sub = (-),
     residue_mul = (\<lambda>q r. zgrp_of (Rep_zgrp q * Rep_zgrp r)),
     conditional_select_u8 = (\<lambda>u v c. if c = 0 then u else v),
     pedersen_hash = (\<lambda>f g. f),
     poseidon_hash_array = (\<lambda>fs. case fs of [] \<Rightarrow> zfelt_of 0 | f # _ \<Rightarrow> f),
     sha256 = (\<lambda>bs. replicate 32 0),
     getrandom = (\<lambda>k n. Some (be_bytes n (k + 1))),
     aead_encrypt = (\<lambda>key nonce m. Some (m @ replicate 16 0)),
     aead_decrypt = (\<lambda>key nonce c. if length c < 16 then None else Some (take (length c - 16) c))\<rparr>"


lemma stark_dlog_felt [simp]:
  "felt_to_bytes_be stark_dlog f = be_bytes 32 (Rep_zfelt f)"
  "felt_from_bytes_be stark_dlog bs = zfelt_of (be_val bs)"
  "felt_from stark_dlog k = zfelt_of k"
  "felt_add stark_dlog f g = zfelt_of (Rep_zfelt f + Rep_zfelt g)"
  "felt_neg stark_dlog f = zfelt_of (FELT_PRIME - Rep_zfelt f)"
  by (simp_all add: stark_dlog_def)

lemma stark_dlog_affine:
  "affine_new stark_dlog x y = (case dec (Rep_zfelt x) (Rep_zfelt y) of
     None \<Rightarrow> Inl ''PointNotOnCurve'' | Some k \<Rightarrow> Inr (Abs_zaff (zgrp_of k)))"
  "affine_x stark_dlog a = zfelt_of (enc_x (Rep_zgrp (Rep_zaff a)))"
  "affine_y stark_dlog a = zfelt_of (enc_y (Rep_zgrp (Rep_zaff a)))"
  by (simp_all add: stark_dlog_def)

lemma stark_dlog_point [simp]:
  "proj_identity stark_dlog = 0"
  "proj_new stark_dlog x y z =
     (if Rep_zfelt x < CURVE_ORDER then Some (zgrp_of (Rep_zfelt x)) else None)"
  "proj_from_affine stark_dlog x y = map_option zgrp_of (dec (Rep_zfelt x) (Rep_zfelt y))"
  "proj_to_affine stark_dlog p = (if p = 0 then None else Some (Abs_zaff p))"
  "proj_x stark_dlog p = zfelt_of (Rep_zgrp p)"
  "proj_add stark_dlog p q = p + q"
  "proj_sub stark_dlog p q = p - q"
  "proj_eq stark_dlog p q = (p = q)"
  by (simp_all add: stark_dlog_def)

lemma stark_dlog_residue [simp]:
  "residue_new stark_dlog bs = zgrp_of (be_val bs)"
  "residue_retrieve stark_dlog r = be_bytes 32 (Rep_zgrp r)"
  "residue_add stark_dlog r r' = r + r'"
  "residue_sub stark_dlog r r' = r - r'"
  "residue_mul stark_dlog r r' = zgrp_of (Rep_zgrp r * Rep_zgrp r')"
  by (simp_all add: stark_dlog_def)

lemma stark_dlog_other [simp]:
  "conditional_select_u8 stark_dlog u v c = (if c = 0 then u else v)"
  "pedersen_hash stark_dlog f g = f"
  "poseidon_hash_array stark_dlog fs = (case fs of [] \<Rightarrow> zfelt_of 0 | f # _ \<Rightarrow> f)"
  "sha256 stark_dlog bs = replicate 32 0"
  "getrandom stark_dlog k n = Some (be_bytes n (k + 1))"
  "aead_encrypt stark_dlog key nonce m = Some (m @ replicate 16 0)"
  "aead_decrypt stark_dlog key nonce ct =
     (if length ct < 16 then None else Some (take (length ct - 16) ct))"
  by (simp_all add: stark_dlog_def)

lemma be_val_small: "k < FELT_PRIME \<Longrightarrow> be_val (be_bytes 32 k) = k"
  using less_trans [OF _ FELT_PRIME_less] by (simp only: be_val_be_bytes mod_less)

lemma be_val_felt [simp]:
  "be_val (be_bytes 32 (Rep_zfelt f)) = Rep_zfelt f"
  "be_val (be_bytes 32 (k mod FELT_PRIME)) = k mod FELT_PRIME"
  by (simp_all add: be_val_small Rep_zfelt_less)

lemma be_val_grp [simp]:
  "be_val (be_bytes 32 (Rep_zgrp r)) = Rep_zgrp r"
  "be_val (be_bytes 32 (k mod CURVE_ORDER)) = k mod CURVE_ORDER"
  by (simp_all add: be_val_small less_trans [OF _ CURVE_ORDER_less_PRIME] Rep_zgrp_less)

lemma Rep_zfelt_of: "Rep_zfelt (zfelt_of k) = k mod FELT_PRIME"
  by transfer simp

lemma Rep_zgrp_of: "Rep_zgrp (zgrp_of k) = k mod CURVE_ORDER"
  by transfer simp

lemma zfelt_of_Rep [simp]: "zfelt_of (Rep_zfelt f) = f"
  by transfer simp

lemma zgrp_of_Rep [simp]: "zgrp_of (Rep_zgrp f) = f"
  by transfer simp

lemma Rep_zgrp_minus: "Rep_zgrp (q - r) = (Rep_zgrp q + (CURVE_ORDER - Rep_zgrp r)) mod CURVE_ORDER"
  by (simp only: minus_zgrp_def plus_zgrp.rep_eq uminus_zgrp.rep_eq mod_add_right_eq)

interpretation dlog: felt_laws stark_dlog
  by unfold_locales (simp_all add: Rep_zfelt_less Rep_zfelt_of)

interpretation dlog: residue_laws stark_dlog
  by unfold_locales (simp_all add: Rep_zgrp_less Rep_zgrp_of plus_zgrp.rep_eq Rep_zgrp_minus)

text \<open>The coordinates of an affine point determine it.\<close>

lemma affine_coords_less:
  "enc_x (Rep_zgrp (Rep_zaff a)) < FELT_PRIME" "enc_y (Rep_zgrp (Rep_zaff a)) < FELT_PRIME"
  "0 < Rep_zgrp (Rep_zaff a)"
proof -
  show "0 < Rep_zgrp (Rep_zaff a)"
    using Rep_zgrp_zero_iff [of "Rep_zaff a"] by auto
  then show "enc_x (Rep_zgrp (Rep_zaff a)) < FELT_PRIME"
    by (intro enc_less Rep_zgrp_less)
  show "enc_y (Rep_zgrp (Rep_zaff a)) < FELT_PRIME"
    by (rule enc_less)
qed

lemma dec_affine:
  "dec (Rep_zfelt (affine_x stark_dlog a)) (Rep_zfelt (affine_y stark_dlog a)) =
     Some (Rep_zgrp (Rep_zaff a))"
  by (simp add: stark_dlog_affine Rep_zfelt_of affine_coords_less dec_enc Rep_zgrp_less)

lemma zgrp_of_nonzero: "0 < k \<Longrightarrow> k < CURVE_ORDER \<Longrightarrow> zgrp_of k \<noteq> 0"
  by (metis Rep_zgrp_of Rep_zgrp_zero_iff mod_less not_gr_zero)

lemma Rep_affine_of:
  "0 < k \<Longrightarrow> k < CURVE_ORDER \<Longrightarrow> Rep_zgrp (Rep_zaff (Abs_zaff (zgrp_of k))) = k"
  by (simp add: Abs_zaff_inverse zgrp_of_nonzero Rep_zgrp_of)

lemma affine_new_enc:
  assumes "affine_new stark_dlog x y = Inr a"
  shows "affine_x stark_dlog a = x \<and> affine_y stark_dlog a = y"
proof -
  obtain k where k: "dec (Rep_zfelt x) (Rep_zfelt y) = Some k" "a = Abs_zaff (zgrp_of k)"
    using assms by (auto simp: stark_dlog_affine split: option.splits)
  show ?thesis
    using enc_dec [OF k(1)] by (simp add: stark_dlog_affine k(2) Rep_affine_of)
qed

lemma affine_new_neg:
  assumes "p \<noteq> 0"
  shows "affine_new stark_dlog (affine_x stark_dlog (Abs_zaff p))
      (felt_neg stark_dlog (affine_y stark_dlog (Abs_zaff p))) = Inr (Abs_zaff (- p))"
proof -
  define k where "k = Rep_zgrp p"
  have k: "0 < k" "k < CURVE_ORDER"
    using assms Rep_zgrp_zero_iff [of p] Rep_zgrp_less [of p] by (auto simp: k_def)
  then have "dec (enc_x k) ((FELT_PRIME - enc_y k) mod FELT_PRIME) = Some (CURVE_ORDER - k)"
    using dec_enc [of "CURVE_ORDER - k"] by (simp add: enc_x_neg enc_y_neg)
  moreover have "zgrp_of (CURVE_ORDER - k) = - p"
    using Rep_zgrp_uminus [OF assms] zgrp_of_Rep [of "- p"] by (simp add: k_def)
  ultimately show ?thesis
    using k by (simp add: stark_dlog_affine Abs_zaff_inverse assms Rep_zfelt_of enc_less flip: k_def)
qed

interpretation dlog: starknet_core stark_dlog "\<lambda>p. p"
proof unfold_locales
  fix p q :: zgrp and a :: zaff and x y :: zfelt and u v :: byte and k n bs
  show "proj_eq stark_dlog p q \<longleftrightarrow> p = q" "proj_to_affine stark_dlog p = None \<longleftrightarrow> p = 0"
    by simp_all
  show "proj_to_affine stark_dlog p = proj_to_affine stark_dlog q \<longleftrightarrow> p = q"
    by (auto simp: Abs_zaff_inject)
  show "affine_new stark_dlog x y = Inr a \<Longrightarrow> affine_x stark_dlog a = x \<and> affine_y stark_dlog a = y"
    by (rule affine_new_enc)
  show "affine_new stark_dlog (affine_x stark_dlog a) (affine_y stark_dlog a) = Inr a"
    unfolding stark_dlog_affine(1) dec_affine by (simp add: Rep_zaff_inverse)
  show "(\<exists>p. proj_from_affine stark_dlog x y = Some p) \<longleftrightarrow> (\<exists>a. affine_new stark_dlog x y = Inr a)"
    by (auto simp: stark_dlog_affine split: option.splits)
  show "proj_from_affine stark_dlog (affine_x stark_dlog a) (affine_y stark_dlog a) = Some p \<Longrightarrow>
      proj_to_affine stark_dlog p = Some a"
    unfolding stark_dlog_point(3) dec_affine by (auto simp: Rep_zaff_inverse)
  show "\<exists>b q. affine_new stark_dlog (affine_x stark_dlog a) (felt_neg stark_dlog (affine_y stark_dlog a)) = Inr b \<and>
      proj_to_affine stark_dlog q = Some b \<and> q = - p" if "proj_to_affine stark_dlog p = Some a"
    using that affine_new_neg [of p] by (auto split: if_splits simp del: stark_dlog_felt)
  show "\<exists>q. proj_new stark_dlog (proj_x stark_dlog p) (proj_y stark_dlog p) (proj_z stark_dlog p) = Some q \<and> q = p"
    using Rep_zgrp_less [of p] CURVE_ORDER_less_PRIME by (simp add: Rep_zfelt_of)
  show "nsmul CURVE_ORDER p = 0"
    using Rep_nsmul [of CURVE_ORDER p] by (simp flip: Rep_zgrp_zero_iff)
  show "getrandom stark_dlog k n = Some bs \<Longrightarrow> length bs = n"
    by auto
qed simp_all

lemma dec_literals: "dec gx gy = Some 1" "dec hx hy = Some 2"
proof -
  have "2 \<le> half" by (simp add: half_def CURVE_ORDER_def)
  then show "dec gx gy = Some 1" "dec hx hy = Some 2"
    by (simp_all add: dec_def sw_def yb_def literals_distinct)
qed

lemma literal_felts:
  "Rep_zfelt (G_X stark_dlog) = gx" "Rep_zfelt (G_Y stark_dlog) = gy"
  "Rep_zfelt (H_X stark_dlog) = hx" "Rep_zfelt (H_Y stark_dlog) = hy"
  by (simp_all add: G_X_def G_Y_def H_X_def H_Y_def Rep_zfelt_of gx_def gy_def hx_def hy_def FELT_PRIME_def)

lemma generators_dlog [simp]: "generator stark_dlog = zgrp_of 1" "generator_h stark_dlog = zgrp_of 2"
  by (simp_all add: generator_def generator_h_def literal_felts dec_literals)

interpretation dlog: stark_curve stark_dlog "\<lambda>p. p"
proof unfold_locales
  show "\<exists>p. proj_from_affine stark_dlog (G_X stark_dlog) (G_Y stark_dlog) = Some p"
    "\<exists>p. proj_from_affine stark_dlog (H_X stark_dlog) (H_Y stark_dlog) = Some p"
    by (simp_all add: literal_felts dec_literals)
  show "CURVE_ORDER dvd k" if "nsmul k (generator stark_dlog) = 0" for k
  proof -
    have "(1 :: nat) mod CURVE_ORDER = 1" by (simp add: CURVE_ORDER_def)
    then have "k mod CURVE_ORDER = 0"
      using that Rep_nsmul [of k "zgrp_of 1"] by (simp add: Rep_zgrp_of zero_zgrp.rep_eq)
    then show ?thesis by (rule mod_0_imp_dvd)
  qed
qed

section \<open>Evaluation on the instance\<close>

text \<open>
  Equations that compute the model's operations on numerals; the point they stand for is that of the
  contract, so the 256 rounds of a multiplication are one step.
\<close>

named_theorems dlog_eval \<open>evaluation of the operations on the concrete instance\<close>

declare Rep_zfelt_of [dlog_eval]

lemma dlog_felt_val [dlog_eval]: "felt_val stark_dlog (zfelt_of k) = k mod FELT_PRIME"
  using dlog.felt_val_from by simp

lemma dlog_order [dlog_eval]:
  "order_add stark_dlog (zfelt_of j) (zfelt_of k) =
     zfelt_of ((j mod FELT_PRIME + k mod FELT_PRIME) mod CURVE_ORDER)"
  "order_mul stark_dlog (zfelt_of j) (zfelt_of k) =
     zfelt_of ((j mod FELT_PRIME) * (k mod FELT_PRIME) mod CURVE_ORDER)"
  "order_sub stark_dlog (zfelt_of j) (zfelt_of k) =
     zfelt_of ((j mod FELT_PRIME + (CURVE_ORDER - k mod FELT_PRIME mod CURVE_ORDER)) mod CURVE_ORDER)"
  "order_reduce stark_dlog (zfelt_of j) = zfelt_of (j mod FELT_PRIME mod CURVE_ORDER)"
proof -
  have eq: "f = zfelt_of k" if "felt_val stark_dlog f = k" for f k
    using that dlog.felt_from_val [of f] by simp
  show "order_add stark_dlog (zfelt_of j) (zfelt_of k) =
      zfelt_of ((j mod FELT_PRIME + k mod FELT_PRIME) mod CURVE_ORDER)"
    by (rule eq) (simp only: dlog.felt_val_order dlog_felt_val)
  show "order_mul stark_dlog (zfelt_of j) (zfelt_of k) =
      zfelt_of ((j mod FELT_PRIME) * (k mod FELT_PRIME) mod CURVE_ORDER)"
    by (rule eq) (simp only: dlog.felt_val_order dlog_felt_val)
  show "order_sub stark_dlog (zfelt_of j) (zfelt_of k) = zfelt_of
      ((j mod FELT_PRIME + (CURVE_ORDER - k mod FELT_PRIME mod CURVE_ORDER)) mod CURVE_ORDER)"
    by (rule eq) (simp only: dlog.felt_val_order dlog_felt_val)
  show "order_reduce stark_dlog (zfelt_of j) = zfelt_of (j mod FELT_PRIME mod CURVE_ORDER)"
    by (rule eq) (simp only: dlog.felt_val_order dlog_felt_val)
qed

lemma zgrp_eq_iff: "x = y \<longleftrightarrow> Rep_zgrp x = Rep_zgrp y"
  by (simp add: Rep_zgrp_inject)

lemma dlog_group [dlog_eval]:
  "zgrp_of j + zgrp_of k = zgrp_of (j + k)"
  "zgrp_of j - zgrp_of k = zgrp_of (j + (CURVE_ORDER - k mod CURVE_ORDER))"
  "zgrp_of j = zgrp_of k \<longleftrightarrow> j mod CURVE_ORDER = k mod CURVE_ORDER"
  "zgrp_of j = 0 \<longleftrightarrow> j mod CURVE_ORDER = 0"
  "0 = zgrp_of j \<longleftrightarrow> j mod CURVE_ORDER = 0"
  "nsmul k (zgrp_of j) = zgrp_of (k * j)"
  "felt_act stark_dlog (zfelt_of k) (zgrp_of j) = zgrp_of (k mod FELT_PRIME * j)"
  by (simp_all only: zgrp_eq_iff Rep_zgrp_of Rep_zgrp_minus plus_zgrp.rep_eq zero_zgrp.rep_eq Rep_nsmul
      mod_add_right_eq mod_mult_right_eq mod_add_left_eq felt_act_def dlog_felt_val) auto

lemma dlog_felt_eq [dlog_eval]: "zfelt_of j = zfelt_of k \<longleftrightarrow> j mod FELT_PRIME = k mod FELT_PRIME"
  by (metis Rep_zfelt_inject Rep_zfelt_of)

lemma dlog_curve [dlog_eval]:
  "mul stark_dlog k (Some p) = felt_act stark_dlog k p"
  "mul stark_dlog k None = felt_act stark_dlog k (zgrp_of 1)"
  "mul_generator stark_dlog k = felt_act stark_dlog k (zgrp_of 1)"
  "add stark_dlog p q = p + q"
  using dlog.pt_mul [of k p] dlog.pt_mul_default [of k] dlog.pt_mul_generator [of k] dlog.pt_add [of p q]
  by simp_all

lemma dlog_affine [dlog_eval]:
  "k mod CURVE_ORDER \<noteq> 0 \<Longrightarrow> affine_to_projective stark_dlog (Abs_zaff (zgrp_of k)) = zgrp_of k"
  "k mod CURVE_ORDER \<noteq> 0 \<Longrightarrow> proj_to_affine stark_dlog (zgrp_of k) = Some (Abs_zaff (zgrp_of k))"
  "k mod CURVE_ORDER = 0 \<Longrightarrow> proj_to_affine stark_dlog (zgrp_of k) = None"
  using dlog.pt_affine_to_projective [of "zgrp_of k"] by (simp_all add: dlog_group)

lemma dlog_affine_eq [dlog_eval]:
  assumes "j mod CURVE_ORDER \<noteq> 0" and "k mod CURVE_ORDER \<noteq> 0"
  shows "Abs_zaff (zgrp_of j) = Abs_zaff (zgrp_of k) \<longleftrightarrow> j mod CURVE_ORDER = k mod CURVE_ORDER"
  using assms by (simp add: Abs_zaff_inject dlog_group)

text \<open>Randomness from the operating system: the \<open>k\<close>-th draw is the number \<open>k + 1\<close>.\<close>

definition os_rng :: "nat \<Rightarrow> rng" where
  "os_rng k = \<lparr>DETERMINISTIC_RNG = None, opt_in_env = None, os_calls = k\<rparr>"

lemma dlog_random_felt [dlog_eval]:
  assumes "k + 1 < FELT_PRIME"
  shows "random_felt stark_dlog (os_rng k) = Inr (zfelt_of (k + 1), os_rng (k + 1))"
  using assms os_random_felt [of "os_rng k" stark_dlog "be_bytes 32 (k + 1)"]
  by (simp add: os_rng_def be_val_small)

lemmas dlog_num = dlog_eval FELT_PRIME_def CURVE_ORDER_def

end
