(* ===== verification/Poe.thy ===== *)
theory Poe
  imports Hash Random_Source Stark_Instance
begin

text \<open>
  \<open>crates/crypto/src/poe.rs\<close>: the proof of knowledge of an exponent, with the challenge hashed over
  the prefix and the commitment. The lemmas give its completeness, exact behaviour of the verifier,
  and special soundness.
\<close>

section \<open>The model\<close>

definition poe_prove ::
    "('f, 'p, 'a, 'r) starknet \<Rightarrow> 'f \<Rightarrow> 'f \<Rightarrow> ('p \<times> 'f PoeProof) draw" where
  "poe_prove S x prefix w =
     (let g = generator S;
          y = mul S x (Some g)
      in and_then (random_felt S w) (\<lambda>(r, w).
         let a = mul S r (Some g)
         in and_then (compute_poseidon_challenge S prefix [a]) (\<lambda>c.
            and_then (scalar_mul S c x) (\<lambda>c_x.
            and_then (scalar_add S r c_x) (\<lambda>s.
            and_then (try_from_projective S a) (\<lambda>a'.
              Inr ((y, \<lparr>poe_a = a', poe_s = s, poe_c = c\<rparr>), w)))))))"

definition poe_verify ::
    "('f, 'p, 'a, 'r) starknet \<Rightarrow> 'p \<Rightarrow> 'f PoeProof \<Rightarrow> 'f \<Rightarrow> bool result" where
  "poe_verify S y proof prefix =
     (let g = generator S
      in and_then (to_affine S (poe_a proof)) (\<lambda>a.
         let a_proj = affine_to_projective S a;
             s = poe_s proof;
             c = poe_c proof
         in and_then (compute_poseidon_challenge S prefix [a_proj]) (\<lambda>c_computed.
            if c \<noteq> c_computed then Inr False
            else
              let lhs = mul S s (Some g);
                  y_c = mul S c (Some y);
                  rhs = add S a_proj y_c
              in and_then (projective_to_affine S lhs) (\<lambda>lhs_affine.
                 and_then (projective_to_affine S rhs) (\<lambda>rhs_affine.
                   Inr (lhs_affine = rhs_affine))))))"

definition poe_verify_internal ::
    "('f, 'p, 'a, 'r) starknet \<Rightarrow> 'p \<Rightarrow> 'p \<Rightarrow> 'p \<Rightarrow> 'f \<Rightarrow> 'f \<Rightarrow> bool result" where
  "poe_verify_internal S y gen a c s =
     (let lhs = mul S s (Some gen);
          y_c = mul S c (Some y);
          rhs = add S a y_c
      in and_then (projective_to_affine S lhs) (\<lambda>lhs_affine.
         and_then (projective_to_affine S rhs) (\<lambda>rhs_affine.
           Inr (lhs_affine = rhs_affine))))"

section \<open>What the verifier decides\<close>

context starknet_core
begin

lemma poe_verify_internal_eq:
  "poe_verify_internal S y gen a c s =
     (if felt_act S s (pt gen) = 0 \<or> pt a + felt_act S c (pt y) = 0 then Inl PointAtInfinity
      else Inr (felt_act S s (pt gen) = pt a + felt_act S c (pt y)))"
  by (simp add: poe_verify_internal_def Let_def compare_affine)

lemma poe_verify_internal_True:
  "poe_verify_internal S y gen a c s = Inr True \<longleftrightarrow>
     felt_act S s (pt gen) \<noteq> 0 \<and> felt_act S s (pt gen) = pt a + felt_act S c (pt y)"
  by (auto simp: poe_verify_internal_eq)

lemma poe_verify_True:
  "poe_verify S y proof prefix = Inr True \<longleftrightarrow>
     (\<exists>a. to_affine S (poe_a proof) = Inr a \<and>
       compute_poseidon_challenge S prefix [affine_to_projective S a] = Inr (poe_c proof) \<and>
       felt_act S (poe_s proof) (pt (generator S)) \<noteq> 0 \<and>
       felt_act S (poe_s proof) (pt (generator S)) =
         pt (affine_to_projective S a) + felt_act S (poe_c proof) (pt y))"
  by (auto simp: poe_verify_def Let_def compare_affine result_iffs split: if_splits)

lemma nonzero_challenge:
  assumes "pt a = pt b" and "pt a \<noteq> 0"
  obtains c where "compute_poseidon_challenge S prefix [a] = Inr c"
    and "compute_poseidon_challenge S prefix [b] = Inr c"
  using poseidon_challenge_total [of prefix "[a]"] poseidon_challenge_cong [of "[a]" "[b]" prefix] assms
  by auto

text \<open>An honest proof verifies, unless the response happens to be the zero scalar.\<close>

lemma poe_honest:
  assumes draw: "random_felt S w = Inr (r, w')"
    and nonzero: "felt_act S r (pt (generator S)) \<noteq> 0"
  obtains a c where
    "poe_prove S x prefix w =
      Inr ((mul S x (Some (generator S)),
            \<lparr>poe_a = from_affine S a, poe_s = order_add S r (order_mul S c x), poe_c = c\<rparr>), w')"
    and "pt (affine_to_projective S a) = felt_act S r (pt (generator S))"
    and "compute_poseidon_challenge S prefix [affine_to_projective S a] = Inr c"
proof -
  define A where "A = mul S r (Some (generator S))"
  have "pt A \<noteq> 0" using nonzero by (simp add: A_def)
  then obtain a where a: "try_from_projective S A = Inr (from_affine S a)"
    "pt (affine_to_projective S a) = pt A"
    by (rule try_from_projective_nonzero)
  obtain c where c: "compute_poseidon_challenge S prefix [A] = Inr c"
    "compute_poseidon_challenge S prefix [affine_to_projective S a] = Inr c"
    using nonzero_challenge [of A "affine_to_projective S a"] a \<open>pt A \<noteq> 0\<close> by metis
  have pt_A: "pt A = felt_act S r (pt (generator S))" by (simp add: A_def)
  show thesis
    by (rule that [OF _ _ c(2)])
      (use a c pt_A in \<open>simp_all add: poe_prove_def Let_def draw result_simps flip: A_def\<close>)
qed

end

text \<open>
  The exponents of \<open>G\<close>: multiples are determined modulo the order.
\<close>

context stark_curve
begin

lemma act_generator_zero:
  "felt_act S k (pt (generator S)) = 0 \<longleftrightarrow> felt_val S k mod CURVE_ORDER = 0"
proof
  assume "felt_act S k (pt (generator S)) = 0"
  then show "felt_val S k mod CURVE_ORDER = 0"
    using G_order by (simp add: felt_act_def mod_eq_0_iff_dvd)
next
  assume "felt_val S k mod CURVE_ORDER = 0"
  then have "nsmul (felt_val S k mod CURVE_ORDER) (pt (generator S)) = 0"
    by (simp only: nsmul.simps)
  then show "felt_act S k (pt (generator S)) = 0"
    by (simp only: felt_act_def nsmul_order)
qed

lemma order_add_reduced: "felt_val S (order_add S j k) mod CURVE_ORDER = felt_val S (order_add S j k)"
  by (simp add: felt_val_order_add)

lemma poe_complete:
  assumes "random_felt S w = Inr (r, w')" and "felt_val S r mod CURVE_ORDER \<noteq> 0"
  shows "\<exists>y proof. poe_prove S x prefix w = Inr ((y, proof), w') \<and>
    pt y = felt_act S x (pt (generator S)) \<and>
    poe_verify S y proof prefix =
      (if felt_val S (poe_s proof) = 0 then Inl PointAtInfinity else Inr True)"
proof -
  obtain a c where prove: "poe_prove S x prefix w =
      Inr ((mul S x (Some (generator S)),
            \<lparr>poe_a = from_affine S a, poe_s = order_add S r (order_mul S c x), poe_c = c\<rparr>), w')"
    and a: "pt (affine_to_projective S a) = felt_act S r (pt (generator S))"
    and c: "compute_poseidon_challenge S prefix [affine_to_projective S a] = Inr c"
    using poe_honest [OF assms(1)] assms(2) by (metis act_generator_zero)
  show ?thesis
    using act_generator_zero [of "order_add S r (order_mul S c x)"]
    by (auto simp: prove poe_verify_def Let_def compare_affine c a order_add_reduced response_eq)
qed

lemma poe_extract:
  assumes "poe_verify S y proof prefix = Inr True" and "poe_verify S y proof' prefix' = Inr True"
    and "poe_a proof = poe_a proof'"
    and "felt_val S (order_mul S d (order_sub S (poe_c proof) (poe_c proof'))) mod CURVE_ORDER = 1"
  shows "pt y = felt_act S (order_mul S d (order_sub S (poe_s proof) (poe_s proof'))) (pt (generator S))"
proof -
  obtain a where "felt_act S (poe_s proof) (pt (generator S)) =
      pt (affine_to_projective S a) + felt_act S (poe_c proof) (pt y)"
    and "felt_act S (poe_s proof') (pt (generator S)) =
      pt (affine_to_projective S a) + felt_act S (poe_c proof') (pt y)"
    using assms(1-3) by (auto simp: poe_verify_True)
  then show ?thesis
    by (rule extract_one) (rule felt_act_unit [OF assms(4)])
qed

end

section \<open>Properties\<close>

text \<open>
  Completeness of the proof of exponentiation. Whenever the random source answers with a scalar
  that is not a multiple of the group order, \<open>prove\<close> returns \<open>y = g^x\<close> and a proof, and \<open>verify\<close>
  accepts it; the one exception is a response equal to zero, where \<open>verify\<close> reports the point at
  infinity instead of accepting.
\<close>

theorem poe_completeness:
  assumes "stark_curve S pt"
    and "random_felt S w = Inr (r, w')" and "felt_val S r mod CURVE_ORDER \<noteq> 0"
  shows "\<exists>y proof. poe_prove S x prefix w = Inr ((y, proof), w') \<and>
    pt y = nsmul (felt_val S x) (pt (generator S)) \<and>
    poe_verify S y proof prefix =
      (if felt_val S (poe_s proof) = 0 then Inl PointAtInfinity else Inr True)"
  using stark_curve.poe_complete [OF assms] by (simp add: felt_act_def)

theorem poe_completeness_witness:
  "\<exists>y proof. poe_prove stark_dlog (zfelt_of 5) (zfelt_of 7) (os_rng 0) = Inr ((y, proof), os_rng 1) \<and>
    y = zgrp_of 5 \<and> poe_verify stark_dlog y proof (zfelt_of 7) =
      (if felt_val stark_dlog (poe_s proof) = 0 then Inl PointAtInfinity else Inr True)"
  using poe_completeness [OF dlog.stark_curve_axioms, of "os_rng 0" "zfelt_of 1" "os_rng 1"
      "zfelt_of 5" "zfelt_of 7"]
  by (simp add: dlog_num)

text \<open>
  Special soundness of the proof of exponentiation. Two accepted proofs for one \<open>y\<close> with the same
  commitment, and challenges whose difference has the inverse \<open>d\<close> modulo the order, give an exponent
  of \<open>y\<close>: whoever can answer two challenges knows the secret.
\<close>

theorem poe_special_soundness:
  assumes "stark_curve S pt"
    and "poe_verify S y proof prefix = Inr True" and "poe_verify S y proof' prefix' = Inr True"
    and "poe_a proof = poe_a proof'"
    and "felt_val S (order_mul S d (order_sub S (poe_c proof) (poe_c proof'))) mod CURVE_ORDER = 1"
  shows "pt y = nsmul (felt_val S (order_mul S d (order_sub S (poe_s proof) (poe_s proof'))))
    (pt (generator S))"
  using stark_curve.poe_extract [OF assms] by (simp add: felt_act_def)

theorem poe_special_soundness_witness:
  "zgrp_of 5 = nsmul (felt_val stark_dlog (order_mul stark_dlog (zfelt_of 1)
     (order_sub stark_dlog (zfelt_of 21) (zfelt_of 16)))) (generator stark_dlog)"
  using poe_special_soundness [OF dlog.stark_curve_axioms, of "zgrp_of 5"
      "\<lparr>poe_a = from_affine stark_dlog (Abs_zaff (zgrp_of 1)), poe_s = zfelt_of 21, poe_c = zfelt_of 4\<rparr>"
      "zfelt_of 4"
      "\<lparr>poe_a = from_affine stark_dlog (Abs_zaff (zgrp_of 1)), poe_s = zfelt_of 16, poe_c = zfelt_of 3\<rparr>"
      "zfelt_of 3" "zfelt_of 1"]
  by (simp add: poe_verify_def Let_def projective_to_affine_def compute_poseidon_challenge_def
      reduce_scalar_def dlog_num)

end
