(* ===== verification/Poe2.thy ===== *)
theory Poe2
  imports Poe
begin

text \<open>
  \<open>crates/crypto/src/poe2.rs\<close>: Okamoto's proof of knowledge of two exponents of \<open>y\<close> to given bases.
\<close>

section \<open>The model\<close>

definition poe2_prove ::
    "('f, 'p, 'a, 'r) starknet \<Rightarrow> 'f \<Rightarrow> 'f \<Rightarrow> 'p \<Rightarrow> 'p \<Rightarrow> 'f \<Rightarrow> ('p \<times> 'f Poe2Proof) draw" where
  "poe2_prove S x1 x2 g1 g2 prefix w =
     (let g1_x1 = mul S x1 (Some g1);
          g2_x2 = mul S x2 (Some g2);
          y = add S g1_x1 g2_x2
      in and_then (random_felt S w) (\<lambda>(k1, w).
         and_then (random_felt S w) (\<lambda>(k2, w).
         let g1_k1 = mul S k1 (Some g1);
             g2_k2 = mul S k2 (Some g2);
             a = add S g1_k1 g2_k2
         in and_then (compute_challenge_single S prefix a) (\<lambda>c.
            and_then (scalar_mul S c x1) (\<lambda>c_x1.
            and_then (scalar_add S k1 c_x1) (\<lambda>s1.
            and_then (scalar_mul S c x2) (\<lambda>c_x2.
            and_then (scalar_add S k2 c_x2) (\<lambda>s2.
            and_then (try_from_projective S a) (\<lambda>a'.
              Inr ((y, \<lparr>poe2_a = a', poe2_s1 = s1, poe2_s2 = s2, poe2_c = c\<rparr>), w))))))))))"

definition poe2_verify ::
    "('f, 'p, 'a, 'r) starknet \<Rightarrow> 'p \<Rightarrow> 'p \<Rightarrow> 'p \<Rightarrow> 'f Poe2Proof \<Rightarrow> 'f \<Rightarrow> bool result" where
  "poe2_verify S y g1 g2 proof prefix =
     and_then (to_affine S (poe2_a proof)) (\<lambda>a.
       let a_proj = affine_to_projective S a;
           s1 = poe2_s1 proof;
           s2 = poe2_s2 proof;
           c = poe2_c proof
       in and_then (compute_challenge_single S prefix a_proj) (\<lambda>c_computed.
          if c \<noteq> c_computed then Inr False
          else
            let g1_s1 = mul S s1 (Some g1);
                g2_s2 = mul S s2 (Some g2);
                lhs = add S g1_s1 g2_s2;
                y_c = mul S c (Some y);
                rhs = add S a_proj y_c
            in and_then (projective_to_affine S lhs) (\<lambda>lhs_affine.
               and_then (projective_to_affine S rhs) (\<lambda>rhs_affine.
                 Inr (lhs_affine = rhs_affine)))))"

definition poe2_verify_internal ::
    "('f, 'p, 'a, 'r) starknet \<Rightarrow> 'p \<Rightarrow> 'p \<Rightarrow> 'p \<Rightarrow> 'p \<Rightarrow> 'f \<Rightarrow> 'f \<Rightarrow> 'f \<Rightarrow> bool result" where
  "poe2_verify_internal S y g1 g2 a c s1 s2 =
     (let g1_s1 = mul S s1 (Some g1);
          g2_s2 = mul S s2 (Some g2);
          lhs = add S g1_s1 g2_s2;
          y_c = mul S c (Some y);
          rhs = add S a y_c
      in and_then (projective_to_affine S lhs) (\<lambda>lhs_affine.
         and_then (projective_to_affine S rhs) (\<lambda>rhs_affine.
           Inr (lhs_affine = rhs_affine))))"

section \<open>Completeness and soundness\<close>

context starknet_core
begin

lemma poe2_verify_internal_eq:
  "poe2_verify_internal S y g1 g2 a c s1 s2 =
     (let lhs = felt_act S s1 (pt g1) + felt_act S s2 (pt g2); rhs = pt a + felt_act S c (pt y)
      in if lhs = 0 \<or> rhs = 0 then Inl PointAtInfinity else Inr (lhs = rhs))"
  by (simp add: poe2_verify_internal_def Let_def compare_affine)

lemma poe2_verify_True:
  "poe2_verify S y g1 g2 proof prefix = Inr True \<longleftrightarrow>
     (\<exists>a. to_affine S (poe2_a proof) = Inr a \<and>
       compute_challenge_single S prefix (affine_to_projective S a) = Inr (poe2_c proof) \<and>
       felt_act S (poe2_s1 proof) (pt g1) + felt_act S (poe2_s2 proof) (pt g2) \<noteq> 0 \<and>
       felt_act S (poe2_s1 proof) (pt g1) + felt_act S (poe2_s2 proof) (pt g2) =
         pt (affine_to_projective S a) + felt_act S (poe2_c proof) (pt y))"
  by (auto simp: poe2_verify_def Let_def compare_affine result_iffs split: if_splits)

lemma nonzero_challenge_single:
  assumes "pt a = pt b" and "pt a \<noteq> 0"
  obtains c where "compute_challenge_single S prefix a = Inr c"
    and "compute_challenge_single S prefix b = Inr c"
  using compute_challenge_total [of prefix "[a]"] compute_challenge_cong [of "[a]" "[b]" prefix] assms
  by (auto simp: compute_challenge_single_def)

lemma poe2_complete:
  assumes draw: "random_felt S w = Inr (k1, w1)" "random_felt S w1 = Inr (k2, w2)"
    and nonzero: "felt_act S k1 (pt g1) + felt_act S k2 (pt g2) \<noteq> 0"
  shows "\<exists>y proof. poe2_prove S x1 x2 g1 g2 prefix w = Inr ((y, proof), w2) \<and>
    pt y = felt_act S x1 (pt g1) + felt_act S x2 (pt g2) \<and>
    poe2_verify S y g1 g2 proof prefix =
      (if felt_act S (poe2_s1 proof) (pt g1) + felt_act S (poe2_s2 proof) (pt g2) = 0
       then Inl PointAtInfinity else Inr True)"
proof -
  define A where "A = add S (mul S k1 (Some g1)) (mul S k2 (Some g2))"
  have pt_A: "pt A = felt_act S k1 (pt g1) + felt_act S k2 (pt g2)" by (simp add: A_def)
  then obtain a where a: "try_from_projective S A = Inr (from_affine S a)"
    "pt (affine_to_projective S a) = pt A"
    using nonzero by (metis try_from_projective_nonzero)
  obtain c where c: "compute_challenge_single S prefix A = Inr c"
    "compute_challenge_single S prefix (affine_to_projective S a) = Inr c"
    using nonzero_challenge_single [of A "affine_to_projective S a"] a pt_A nonzero by metis
  define s1 where "s1 = order_add S k1 (order_mul S c x1)"
  define s2 where "s2 = order_add S k2 (order_mul S c x2)"
  define y where "y = add S (mul S x1 (Some g1)) (mul S x2 (Some g2))"
  have prove: "poe2_prove S x1 x2 g1 g2 prefix w =
      Inr ((y, \<lparr>poe2_a = from_affine S a, poe2_s1 = s1, poe2_s2 = s2, poe2_c = c\<rparr>), w2)"
    using a c by (simp add: poe2_prove_def Let_def draw result_simps s1_def s2_def y_def flip: A_def)
  have resp: "felt_act S s1 (pt g1) + felt_act S s2 (pt g2) = pt A + felt_act S c (pt y)"
    unfolding s1_def s2_def pt_A y_def by (simp add: response_eq2)
  show ?thesis
    using resp by (simp add: prove poe2_verify_def Let_def compare_affine c a y_def)
qed

lemma poe2_extract:
  assumes "poe2_verify S y g1 g2 proof prefix = Inr True"
    and "poe2_verify S y g1 g2 proof' prefix' = Inr True"
    and "poe2_a proof = poe2_a proof'"
    and "felt_val S (order_mul S d (order_sub S (poe2_c proof) (poe2_c proof'))) mod CURVE_ORDER = 1"
  shows "pt y = felt_act S (order_mul S d (order_sub S (poe2_s1 proof) (poe2_s1 proof'))) (pt g1) +
    felt_act S (order_mul S d (order_sub S (poe2_s2 proof) (poe2_s2 proof'))) (pt g2)"
proof -
  obtain a where "felt_act S (poe2_s1 proof) (pt g1) + felt_act S (poe2_s2 proof) (pt g2) =
      pt (affine_to_projective S a) + felt_act S (poe2_c proof) (pt y)"
    and "felt_act S (poe2_s1 proof') (pt g1) + felt_act S (poe2_s2 proof') (pt g2) =
      pt (affine_to_projective S a) + felt_act S (poe2_c proof') (pt y)"
    using assms(1-3) by (auto simp: poe2_verify_True)
  then show ?thesis
    by (rule extract_two) (rule felt_act_unit [OF assms(4)])
qed

end

section \<open>Properties\<close>

text \<open>
  Completeness of the two-exponent proof, for any two bases: with random scalars whose commitment
  is not the identity, \<open>prove\<close> returns \<open>y = g1^x1 * g2^x2\<close> and a proof that \<open>verify\<close> accepts, unless
  the response happens to give the identity, which \<open>verify\<close> reports as an error.
\<close>

theorem poe2_completeness:
  assumes "starknet_core S pt"
    and "random_felt S w = Inr (k1, w1)" and "random_felt S w1 = Inr (k2, w2)"
    and "felt_act S k1 (pt g1) + felt_act S k2 (pt g2) \<noteq> 0"
  shows "\<exists>y proof. poe2_prove S x1 x2 g1 g2 prefix w = Inr ((y, proof), w2) \<and>
    pt y = felt_act S x1 (pt g1) + felt_act S x2 (pt g2) \<and>
    poe2_verify S y g1 g2 proof prefix =
      (if felt_act S (poe2_s1 proof) (pt g1) + felt_act S (poe2_s2 proof) (pt g2) = 0
       then Inl PointAtInfinity else Inr True)"
  by (rule starknet_core.poe2_complete [OF assms])

theorem poe2_completeness_witness:
  "\<exists>y proof. poe2_prove stark_dlog (zfelt_of 5) (zfelt_of 6) (zgrp_of 2) (zgrp_of 3) (zfelt_of 7)
      (os_rng 2) = Inr ((y, proof), os_rng 4) \<and> y = zgrp_of 28"
proof -
  have "\<exists>y proof. poe2_prove stark_dlog (zfelt_of 5) (zfelt_of 6) (zgrp_of 2) (zgrp_of 3) (zfelt_of 7)
      (os_rng 2) = Inr ((y, proof), os_rng 4) \<and>
      y = felt_act stark_dlog (zfelt_of 5) (zgrp_of 2) + felt_act stark_dlog (zfelt_of 6) (zgrp_of 3)"
    using poe2_completeness [OF dlog.starknet_core_axioms, of "os_rng 2" "zfelt_of 3" "os_rng 3"
        "zfelt_of 4" "os_rng 4" "zgrp_of 2" "zgrp_of 3" "zfelt_of 5" "zfelt_of 6" "zfelt_of 7"]
    by (simp add: dlog_num) blast
  then show ?thesis by (simp add: dlog_num)
qed

text \<open>
  Special soundness of the two-exponent proof: two accepted proofs with one commitment and
  challenges whose difference has an inverse \<open>d\<close> give both exponents of \<open>y\<close>.
\<close>

theorem poe2_special_soundness:
  assumes "starknet_core S pt"
    and "poe2_verify S y g1 g2 proof prefix = Inr True"
    and "poe2_verify S y g1 g2 proof' prefix' = Inr True"
    and "poe2_a proof = poe2_a proof'"
    and "felt_val S (order_mul S d (order_sub S (poe2_c proof) (poe2_c proof'))) mod CURVE_ORDER = 1"
  shows "pt y = felt_act S (order_mul S d (order_sub S (poe2_s1 proof) (poe2_s1 proof'))) (pt g1) +
    felt_act S (order_mul S d (order_sub S (poe2_s2 proof) (poe2_s2 proof'))) (pt g2)"
  by (rule starknet_core.poe2_extract [OF assms])

theorem poe2_special_soundness_witness:
  "zgrp_of 28 =
     felt_act stark_dlog (order_mul stark_dlog (zfelt_of 1)
       (order_sub stark_dlog (zfelt_of 21) (zfelt_of 16))) (zgrp_of 2) +
     felt_act stark_dlog (order_mul stark_dlog (zfelt_of 1)
       (order_sub stark_dlog (zfelt_of 26) (zfelt_of 20))) (zgrp_of 3)"
  using poe2_special_soundness [OF dlog.starknet_core_axioms, of "zgrp_of 28" "zgrp_of 2" "zgrp_of 3"
      "\<lparr>poe2_a = from_affine stark_dlog (Abs_zaff (zgrp_of 8)), poe2_s1 = zfelt_of 21,
        poe2_s2 = zfelt_of 26, poe2_c = zfelt_of 4\<rparr>" "zfelt_of 4"
      "\<lparr>poe2_a = from_affine stark_dlog (Abs_zaff (zgrp_of 8)), poe2_s1 = zfelt_of 16,
        poe2_s2 = zfelt_of 20, poe2_c = zfelt_of 3\<rparr>" "zfelt_of 3" "zfelt_of 1"]
  by (simp add: poe2_verify_def Let_def projective_to_affine_def compute_challenge_single_def
      dlog_num)

end
