(* ===== verification/Elgamal.thy ===== *)
theory Elgamal
  imports Poe
begin

text \<open>
  \<open>crates/crypto/src/elgamal.rs\<close>: additively homomorphic ElGamal encryption in the exponent, the proof
  that a ciphertext is well formed under either Fiat-Shamir transcript, decryption, and the search
  for a small plaintext.
\<close>

section \<open>The model\<close>

record ('f, 'p) ElGamalEncryption =
  enc_l :: 'p
  enc_r :: 'p
  enc_proof :: "'f ElGamalProof"

datatype Transcript = Legacy | Strong

definition transcript_challenge ::
    "('f, 'p, 'a, 'r) starknet \<Rightarrow> Transcript \<Rightarrow> 'f \<Rightarrow> 'p \<Rightarrow> 'p \<Rightarrow> 'p \<Rightarrow> 'p \<Rightarrow> 'p \<Rightarrow> 'f result" where
  "transcript_challenge S self prefix public_key l r a_l a_r =
     (case self of
        Legacy \<Rightarrow> compute_challenge_triple S prefix l r a_l
      | Strong \<Rightarrow> compute_challenge S prefix [public_key, l, r, a_l, a_r])"

definition prove_encryption ::
    "('f, 'p, 'a, 'r) starknet \<Rightarrow> 'f \<Rightarrow> 'f \<Rightarrow> 'p \<Rightarrow> 'p \<Rightarrow> 'p \<Rightarrow> 'f \<Rightarrow> Transcript \<Rightarrow> 'f ElGamalProof draw" where
  "prove_encryption S message random public_key l r prefix transcript w =
     (let g = generator S
      in and_then (random_felt S w) (\<lambda>(r_b, w).
         and_then (random_felt S w) (\<lambda>(r_r, w).
         let g_rb = mul S r_b (Some g);
             pk_rr = mul S r_r (Some public_key);
             a_l = add S g_rb pk_rr;
             a_r = mul S r_r (Some g)
         in and_then (transcript_challenge S transcript prefix public_key l r a_l a_r) (\<lambda>c.
            and_then (scalar_mul S c message) (\<lambda>c_message.
            and_then (scalar_add S r_b c_message) (\<lambda>s_b.
            and_then (scalar_mul S c random) (\<lambda>c_random.
            and_then (scalar_add S r_r c_random) (\<lambda>s_r.
            and_then (try_from_projective S a_l) (\<lambda>al.
            and_then (try_from_projective S a_r) (\<lambda>ar.
              Inr (\<lparr>eg_al = al, eg_ar = ar, eg_sb = s_b, eg_sr = s_r, eg_c = c\<rparr>, w)))))))))))"

definition encrypt_with_transcript ::
    "('f, 'p, 'a, 'r) starknet \<Rightarrow> 'f \<Rightarrow> 'p \<Rightarrow> 'f \<Rightarrow> 'f \<Rightarrow> Transcript \<Rightarrow> ('f, 'p) ElGamalEncryption draw" where
  "encrypt_with_transcript S message public_key random prefix transcript w =
     (let g = generator S;
          g_m = mul S message (Some g);
          pk_r = mul S random (Some public_key);
          l = add S g_m pk_r;
          r = mul S random (Some g)
      in and_then (prove_encryption S message random public_key l r prefix transcript w) (\<lambda>(proof, w).
           Inr (\<lparr>enc_l = l, enc_r = r, enc_proof = proof\<rparr>, w)))"

definition elgamal_encrypt ::
    "('f, 'p, 'a, 'r) starknet \<Rightarrow> 'f \<Rightarrow> 'p \<Rightarrow> 'f \<Rightarrow> 'f \<Rightarrow> ('f, 'p) ElGamalEncryption draw" where
  "elgamal_encrypt S message public_key random prefix w =
     encrypt_with_transcript S message public_key random prefix Legacy w"

definition encrypt_strong ::
    "('f, 'p, 'a, 'r) starknet \<Rightarrow> 'f \<Rightarrow> 'p \<Rightarrow> 'f \<Rightarrow> 'f \<Rightarrow> ('f, 'p) ElGamalEncryption draw" where
  "encrypt_strong S message public_key random prefix w =
     encrypt_with_transcript S message public_key random prefix Strong w"

definition verify_inner ::
    "('f, 'p, 'a, 'r) starknet \<Rightarrow> 'p \<Rightarrow> 'p \<Rightarrow> 'p \<Rightarrow> 'f ElGamalProof \<Rightarrow> 'f \<Rightarrow> Transcript \<Rightarrow> bool result" where
  "verify_inner S l r public_key proof prefix transcript =
     (let g = generator S
      in and_then (to_affine S (eg_al proof)) (\<lambda>a_l.
         and_then (to_affine S (eg_ar proof)) (\<lambda>a_r.
         let a_l_proj = affine_to_projective S a_l;
             a_r_proj = affine_to_projective S a_r;
             s_b = eg_sb proof;
             s_r = eg_sr proof;
             c = eg_c proof
         in and_then (transcript_challenge S transcript prefix public_key l r a_l_proj a_r_proj) (\<lambda>c_computed.
            if c \<noteq> c_computed then Inr False
            else
              let lhs1 = mul S s_r (Some g);
                  r_c = mul S c (Some r);
                  rhs1 = add S a_r_proj r_c
              in and_then (projective_to_affine S lhs1) (\<lambda>lhs1_affine.
                 and_then (projective_to_affine S rhs1) (\<lambda>rhs1_affine.
                 if lhs1_affine \<noteq> rhs1_affine then Inr False
                 else
                   let g_sb = mul S s_b (Some g);
                       pk_sr = mul S s_r (Some public_key);
                       lhs2 = add S g_sb pk_sr;
                       l_c = mul S c (Some l);
                       rhs2 = add S a_l_proj l_c
                   in and_then (projective_to_affine S lhs2) (\<lambda>lhs2_affine.
                      and_then (projective_to_affine S rhs2) (\<lambda>rhs2_affine.
                        Inr (lhs2_affine = rhs2_affine)))))))))"

definition elgamal_verify ::
    "('f, 'p, 'a, 'r) starknet \<Rightarrow> 'p \<Rightarrow> 'p \<Rightarrow> 'p \<Rightarrow> 'f ElGamalProof \<Rightarrow> 'f \<Rightarrow> bool result" where
  "elgamal_verify S l r public_key proof prefix = verify_inner S l r public_key proof prefix Legacy"

definition verify_strong ::
    "('f, 'p, 'a, 'r) starknet \<Rightarrow> 'p \<Rightarrow> 'p \<Rightarrow> 'p \<Rightarrow> 'f ElGamalProof \<Rightarrow> 'f \<Rightarrow> bool result" where
  "verify_strong S l r public_key proof prefix = verify_inner S l r public_key proof prefix Strong"

definition create_affine_point :: "('f, 'p, 'a, 'r) starknet \<Rightarrow> 'f \<Rightarrow> 'f \<Rightarrow> 'a result" where
  "create_affine_point S x y =
     map_err (\<lambda>e. InvalidPublicKey (''Invalid affine point: '' @ e)) (affine_new S x y)"

definition decrypt :: "('f, 'p, 'a, 'r) starknet \<Rightarrow> 'p ElGamalCiphertext \<Rightarrow> 'f \<Rightarrow> 'p result" where
  "decrypt S ciphertext private_key =
     (let r_sk = mul S private_key (Some (ct_r ciphertext))
      in if proj_to_affine S r_sk = None then Inr (ct_l ciphertext)
         else
           and_then (projective_to_affine S r_sk) (\<lambda>r_sk_affine.
           and_then (create_affine_point S (affine_x S r_sk_affine) (felt_neg S (affine_y S r_sk_affine)))
             (\<lambda>neg.
           let neg_r_sk = affine_to_projective S neg;
               message_point = add S (ct_l ciphertext) neg_r_sk
           in Inr message_point)))"

text \<open>The loop \<open>for value in 1..=max_search\<close>, with the number of values still to try.\<close>

fun recover_loop ::
    "('f, 'p, 'a, 'r) starknet \<Rightarrow> 'a \<Rightarrow> 'p \<Rightarrow> u128 \<Rightarrow> nat \<Rightarrow> u128 option result" where
  "recover_loop S target_affine current value 0 = Inr None"
| "recover_loop S target_affine current value (Suc remaining) =
     and_then (projective_to_affine S current) (\<lambda>affine.
       if affine = target_affine then Inr (Some value)
       else recover_loop S target_affine (add S current (generator S)) (value + 1) remaining)"

definition recover_small_discrete_log ::
    "('f, 'p, 'a, 'r) starknet \<Rightarrow> 'p \<Rightarrow> u128 \<Rightarrow> u128 result" where
  "recover_small_discrete_log S point max_search =
     (if proj_to_affine S point = None then Inr 0
      else
        and_then (projective_to_affine S point) (\<lambda>target_affine.
        and_then (recover_loop S target_affine (generator S) 1 (unat max_search)) (\<lambda>found.
          case found of
            Some value \<Rightarrow> Inr value
          | None \<Rightarrow> Inl (CryptoError (''Failed to recover balance within search limit of '' @
                                      show_nat (unat max_search))))))"

definition decrypt_balance_with_limit ::
    "('f, 'p, 'a, 'r) starknet \<Rightarrow> 'p ElGamalCiphertext \<Rightarrow> 'f \<Rightarrow> u128 \<Rightarrow> u128 result" where
  "decrypt_balance_with_limit S ciphertext private_key max_search =
     and_then (decrypt S ciphertext private_key) (\<lambda>message_point.
       recover_small_discrete_log S message_point max_search)"

section \<open>Decryption\<close>

context starknet_core
begin

lemma create_affine_point_neg:
  obtains b where "create_affine_point S (affine_x S a) (felt_neg S (affine_y S a)) = Inr b"
    and "pt (affine_to_projective S b) = - pt (affine_to_projective S a)"
proof -
  obtain b where "affine_new S (affine_x S a) (felt_neg S (affine_y S a)) = Inr b"
    and "pt (affine_to_projective S b) = - pt (affine_to_projective S a)"
    by (rule affine_negate)
  then show thesis by (intro that [of b]) (simp_all add: create_affine_point_def)
qed

lemma decrypt_pt:
  obtains q where "decrypt S ct sk = Inr q" and "pt q = pt (ct_l ct) - felt_act S sk (pt (ct_r ct))"
proof (cases "mul S sk (Some (ct_r ct))" rule: to_affine_cases)
  case inf
  then show thesis using that by (simp add: decrypt_def)
next
  case (fin a)
  obtain b where b: "create_affine_point S (affine_x S a) (felt_neg S (affine_y S a)) = Inr b"
    "pt (affine_to_projective S b) = - pt (affine_to_projective S a)"
    by (rule create_affine_point_neg)
  have "pt (affine_to_projective S a) = felt_act S sk (pt (ct_r ct))"
    using pt_affine_to_projective [OF fin(2)] by simp
  with b fin(2) show thesis
    using that by (simp add: decrypt_def projective_to_affine_def)
qed

text \<open>A well-formed ciphertext decrypts to its message in the exponent.\<close>

lemma decrypt_well_formed:
  assumes "pt (ct_l ct) = x + felt_act S r (felt_act S sk h)" and "pt (ct_r ct) = felt_act S r h"
  obtains q where "decrypt S ct sk = Inr q" and "pt q = x"
  using decrypt_pt [of ct sk] assms act_comm [of sk r h] by (metis add_diff_cancel_right')

end

section \<open>The search for a small plaintext\<close>

context stark_curve
begin

lemma u128_less_order: "unat (k :: u128) < CURVE_ORDER"
proof -
  have "unat k < 2 ^ LENGTH(128)" by (rule unsigned_less)
  also have "\<dots> < CURVE_ORDER" by (simp add: CURVE_ORDER_def)
  finally show ?thesis .
qed

lemma recover_loop_found:
  assumes target: "pt (affine_to_projective S t) = nsmul m (pt (generator S))" and "m < CURVE_ORDER"
    and cur: "pt current = nsmul v (pt (generator S))" "0 < v" "v + n \<le> CURVE_ORDER"
    and val: "value = of_nat v"
  shows "recover_loop S t current value n =
    Inr (if v \<le> m \<and> m < v + n then Some (of_nat m) else None)"
  using cur val
proof (induction n arbitrary: current v "value")
  case (Suc n)
  have "pt current \<noteq> 0"
    using Suc.prems G_order [of v] by (auto dest!: dvd_imp_le)
  then obtain a where a: "projective_to_affine S current = Inr a"
    "pt (affine_to_projective S a) = pt current"
    by (rule projective_to_affine_nonzero)
  have eq: "a = t \<longleftrightarrow> v = m"
    using generator_multiple_eq [of v m] Suc.prems assms(2) target a(2) pt_affine_inj [of a t] by auto
  have "pt (add S current (generator S)) = nsmul (Suc v) (pt (generator S))"
    using Suc.prems by (simp add: add.commute)
  then have "recover_loop S t (add S current (generator S)) (value + 1) n =
      Inr (if Suc v \<le> m \<and> m < Suc v + n then Some (of_nat m) else None)"
    using Suc.prems by (intro Suc.IH) auto
  then show ?case
    using Suc.prems by (auto simp: a eq)
qed simp

lemma recover_exact:
  assumes "pt point = nsmul m (pt (generator S))" and "m < CURVE_ORDER"
  shows "recover_small_discrete_log S point max_search =
    (if m \<le> unat max_search then Inr (of_nat m)
     else Inl (CryptoError (''Failed to recover balance within search limit of '' @
       show_nat (unat max_search))))"
proof (cases "m = 0")
  case True
  then show ?thesis
    using assms to_affine_None [of point] by (simp add: recover_small_discrete_log_def)
next
  case False
  then have "pt point \<noteq> 0"
    using assms G_order [of m] by (auto dest!: dvd_imp_le)
  then obtain t where t: "proj_to_affine S point = Some t" "projective_to_affine S point = Inr t"
    "pt (affine_to_projective S t) = pt point"
    by (metis projective_to_affine_Inr projective_to_affine_nonzero)
  have "recover_loop S t (generator S) 1 (unat max_search) =
      Inr (if 1 \<le> m \<and> m < 1 + unat max_search then Some (of_nat m) else None)"
    using recover_loop_found [of t m "generator S" 1 "unat max_search" 1] assms t u128_less_order [of max_search]
    by simp
  then show ?thesis
    using False t by (auto simp: recover_small_discrete_log_def)
qed

end

section \<open>The proof of encryption\<close>

context starknet_core
begin

lemma transcript_challenge_cong:
  assumes "pt a = pt a'" and "pt b = pt b'"
  shows "transcript_challenge S tr prefix pk l r a b = transcript_challenge S tr prefix pk l r a' b'"
  using compute_challenge_cong [of "[l, r, a]" "[l, r, a']" prefix]
    compute_challenge_cong [of "[pk, l, r, a, b]" "[pk, l, r, a', b']" prefix] assms
  by (simp add: transcript_challenge_def compute_challenge_triple_def split: Transcript.splits)

text \<open>What the verifier decides, over the points.\<close>

lemma verify_inner_eq:
  assumes "transcript_challenge S tr prefix pk l r (affine_to_projective S a) (affine_to_projective S b) = Inr c"
  shows "verify_inner S l r pk
      \<lparr>eg_al = from_affine S a, eg_ar = from_affine S b, eg_sb = sb, eg_sr = sr, eg_c = c'\<rparr> prefix tr =
    (let lhs1 = felt_act S sr (pt (generator S));
         rhs1 = pt (affine_to_projective S b) + felt_act S c (pt r);
         lhs2 = felt_act S sb (pt (generator S)) + felt_act S sr (pt pk);
         rhs2 = pt (affine_to_projective S a) + felt_act S c (pt l)
     in if c' \<noteq> c then Inr False
        else if lhs1 = 0 \<or> rhs1 = 0 then Inl PointAtInfinity
        else if lhs1 \<noteq> rhs1 then Inr False
        else if lhs2 = 0 \<or> rhs2 = 0 then Inl PointAtInfinity
        else Inr (lhs2 = rhs2))"
proof -
  have first: "and_then (projective_to_affine S p) (\<lambda>x. and_then (projective_to_affine S q) (\<lambda>y.
      if x \<noteq> y then Inr False else k)) =
    (if pt p = 0 \<or> pt q = 0 then Inl PointAtInfinity else if pt p \<noteq> pt q then Inr False else k)" for p q k
    using compare_affine [of p q]
    by (cases "projective_to_affine S p"; cases "projective_to_affine S q") (auto split: if_splits)
  show ?thesis
    by (simp add: verify_inner_def Let_def assms first compare_affine)
qed

lemma encryption_verifies:
  assumes "encrypt_with_transcript S m pk rnd prefix tr w = Inr (enc, w')"
  shows "pt (enc_l enc) = felt_act S m (pt (generator S)) + felt_act S rnd (pt pk)"
    and "pt (enc_r enc) = felt_act S rnd (pt (generator S))"
    and "verify_inner S (enc_l enc) (enc_r enc) pk (enc_proof enc) prefix tr =
      (if felt_act S (eg_sr (enc_proof enc)) (pt (generator S)) = 0 \<or>
          felt_act S (eg_sb (enc_proof enc)) (pt (generator S)) + felt_act S (eg_sr (enc_proof enc)) (pt pk) = 0
       then Inl PointAtInfinity else Inr True)"
proof -
  define g where "g = generator S"
  obtain rb rr w1 c al ar where
    c: "transcript_challenge S tr prefix pk (enc_l enc) (enc_r enc)
      (add S (mul S rb (Some g)) (mul S rr (Some pk))) (mul S rr (Some g)) = Inr c"
    and al: "try_from_projective S (add S (mul S rb (Some g)) (mul S rr (Some pk))) = Inr al"
    and ar: "try_from_projective S (mul S rr (Some g)) = Inr ar"
    and enc: "enc_l enc = add S (mul S m (Some g)) (mul S rnd (Some pk))" "enc_r enc = mul S rnd (Some g)"
      "enc_proof enc = \<lparr>eg_al = al, eg_ar = ar, eg_sb = order_add S rb (order_mul S c m),
        eg_sr = order_add S rr (order_mul S c rnd), eg_c = c\<rparr>"
    using assms
    by (auto simp: encrypt_with_transcript_def prove_encryption_def Let_def result_iffs scalar_results g_def)
  show L: "pt (enc_l enc) = felt_act S m (pt (generator S)) + felt_act S rnd (pt pk)"
    and R: "pt (enc_r enc) = felt_act S rnd (pt (generator S))"
    by (simp_all add: enc g_def)
  obtain a where a: "al = from_affine S a"
    "pt (affine_to_projective S a) = pt (add S (mul S rb (Some g)) (mul S rr (Some pk)))"
    by (rule try_from_projectiveE [OF al])
  obtain b where b: "ar = from_affine S b" "pt (affine_to_projective S b) = pt (mul S rr (Some g))"
    by (rule try_from_projectiveE [OF ar])
  have ch: "transcript_challenge S tr prefix pk (enc_l enc) (enc_r enc)
      (affine_to_projective S a) (affine_to_projective S b) = Inr c"
    using c transcript_challenge_cong [OF a(2) b(2)] by simp
  have eq1: "pt (affine_to_projective S b) + felt_act S c (pt (enc_r enc)) =
      felt_act S (order_add S rr (order_mul S c rnd)) (pt (generator S))"
    by (simp add: b(2) R response_eq g_def)
  have eq2: "pt (affine_to_projective S a) + felt_act S c (pt (enc_l enc)) =
      felt_act S (order_add S rb (order_mul S c m)) (pt (generator S)) +
      felt_act S (order_add S rr (order_mul S c rnd)) (pt pk)"
    by (simp add: a(2) L response_eq2 g_def)
  show "verify_inner S (enc_l enc) (enc_r enc) pk (enc_proof enc) prefix tr =
      (if felt_act S (eg_sr (enc_proof enc)) (pt (generator S)) = 0 \<or>
          felt_act S (eg_sb (enc_proof enc)) (pt (generator S)) + felt_act S (eg_sr (enc_proof enc)) (pt pk) = 0
       then Inl PointAtInfinity else Inr True)"
    unfolding enc(3) a(1) b(1) verify_inner_eq [OF ch] by (simp add: eq1 eq2 Let_def)
qed

lemma verify_inner_True:
  assumes "verify_inner S l r pk proof prefix tr = Inr True"
  obtains a b where "to_affine S (eg_al proof) = Inr a" and "to_affine S (eg_ar proof) = Inr b"
    and "felt_act S (eg_sr proof) (pt (generator S)) =
      pt (affine_to_projective S b) + felt_act S (eg_c proof) (pt r)"
    and "felt_act S (eg_sb proof) (pt (generator S)) + felt_act S (eg_sr proof) (pt pk) =
      pt (affine_to_projective S a) + felt_act S (eg_c proof) (pt l)"
proof -
  obtain a b c where ab: "to_affine S (eg_al proof) = Inr a" "to_affine S (eg_ar proof) = Inr b"
    and c: "transcript_challenge S tr prefix pk l r (affine_to_projective S a) (affine_to_projective S b) = Inr c"
    using assms by (auto simp: verify_inner_def Let_def result_iffs)
  have pf: "proof = \<lparr>eg_al = from_affine S a, eg_ar = from_affine S b, eg_sb = eg_sb proof,
      eg_sr = eg_sr proof, eg_c = eg_c proof\<rparr>"
    using from_affine_to_affine_id [OF ab(1)] from_affine_to_affine_id [OF ab(2)] by simp
  show thesis
    by (rule that [OF ab])
      (use verify_inner_eq [OF c, of "eg_sb proof" "eg_sr proof" "eg_c proof"] assms pf in
        \<open>auto simp: Let_def split: if_splits\<close>)
qed

lemma encryption_extract:
  assumes "verify_inner S l r pk proof prefix tr = Inr True"
    and "verify_inner S l r pk proof' prefix' tr' = Inr True"
    and "eg_al proof = eg_al proof'" and "eg_ar proof = eg_ar proof'"
    and d: "felt_val S (order_mul S d (order_sub S (eg_c proof) (eg_c proof'))) mod CURVE_ORDER = 1"
    and m: "m = order_mul S d (order_sub S (eg_sb proof) (eg_sb proof'))"
    and k: "k = order_mul S d (order_sub S (eg_sr proof) (eg_sr proof'))"
  shows "pt l = felt_act S m (pt (generator S)) + felt_act S k (pt pk) \<and> pt r = felt_act S k (pt (generator S))"
proof -
  obtain a b where eq:
    "felt_act S (eg_sr proof) (pt (generator S)) = pt (affine_to_projective S b) + felt_act S (eg_c proof) (pt r)"
    "felt_act S (eg_sr proof') (pt (generator S)) = pt (affine_to_projective S b) + felt_act S (eg_c proof') (pt r)"
    "felt_act S (eg_sb proof) (pt (generator S)) + felt_act S (eg_sr proof) (pt pk) =
      pt (affine_to_projective S a) + felt_act S (eg_c proof) (pt l)"
    "felt_act S (eg_sb proof') (pt (generator S)) + felt_act S (eg_sr proof') (pt pk) =
      pt (affine_to_projective S a) + felt_act S (eg_c proof') (pt l)"
    using verify_inner_True [OF assms(1)] verify_inner_True [OF assms(2)] assms(3,4) by (metis Inr_inject)
  show ?thesis
    using extract_one [OF eq(1,2) felt_act_unit [OF d]] extract_two [OF eq(3,4) felt_act_unit [OF d]]
    by (simp add: m k)
qed

end

context stark_curve
begin

lemma encrypt_decrypt:
  assumes enc: "encrypt_with_transcript S (felt_from S m) pk rnd prefix tr w = Inr (enc, w')"
    and pk: "pt pk = felt_act S sk (pt (generator S))"
    and m: "m < CURVE_ORDER"
  shows "decrypt_balance_with_limit S \<lparr>ct_l = enc_l enc, ct_r = enc_r enc\<rparr> sk max_search =
    (if m \<le> unat max_search then Inr (of_nat m)
     else Inl (CryptoError (''Failed to recover balance within search limit of '' @
       show_nat (unat max_search))))"
proof -
  obtain q where q: "decrypt S \<lparr>ct_l = enc_l enc, ct_r = enc_r enc\<rparr> sk = Inr q"
    "pt q = felt_act S (felt_from S m) (pt (generator S))"
    using decrypt_well_formed [of "\<lparr>ct_l = enc_l enc, ct_r = enc_r enc\<rparr>"
        "felt_act S (felt_from S m) (pt (generator S))" rnd sk "pt (generator S)"]
      encryption_verifies(1,2) [OF enc] pk by auto
  then have "pt q = nsmul m (pt (generator S))"
    using m CURVE_ORDER_less_PRIME by (simp add: felt_act_from)
  from recover_exact [OF this m] show ?thesis
    by (simp add: decrypt_balance_with_limit_def q)
qed

end

section \<open>Properties\<close>

text \<open>
  An encryption of 5 under the key \<open>G^3\<close>, on which the witnesses are evaluated.
\<close>

lemma dlog_encrypts:
  "\<exists>enc w'. encrypt_with_transcript stark_dlog (zfelt_of 5) (zgrp_of 3) (zfelt_of 9) (zfelt_of 7) tr
    (os_rng 2) = Inr (enc, w')"
  by (cases tr) (simp_all add: encrypt_with_transcript_def prove_encryption_def transcript_challenge_def
      compute_challenge_triple_def Let_def scalar_results try_from_projective_def dlog_num)

text \<open>
  C33. Encryption and decryption are inverse. A ciphertext that \<open>encrypt\<close> (with either transcript)
  makes for the message \<open>m\<close> under the public key of \<open>sk\<close> is decrypted with \<open>sk\<close> and searched up to
  \<open>max_search\<close> to exactly \<open>m\<close> when \<open>m\<close> is within the limit, and to the search error otherwise.
\<close>

theorem elgamal_round_trip:
  assumes "stark_curve S pt"
    and "encrypt_with_transcript S (felt_from S m) pk rnd prefix tr w = Inr (enc, w')"
    and "pt pk = felt_act S sk (pt (generator S))" and "m < CURVE_ORDER"
  shows "decrypt_balance_with_limit S \<lparr>ct_l = enc_l enc, ct_r = enc_r enc\<rparr> sk max_search =
    (if m \<le> unat max_search then Inr (of_nat m)
     else Inl (CryptoError (''Failed to recover balance within search limit of '' @
       show_nat (unat max_search))))"
  by (rule stark_curve.encrypt_decrypt [OF assms])

theorem elgamal_round_trip_witness:
  "\<exists>enc w'. encrypt_with_transcript stark_dlog (zfelt_of 5) (zgrp_of 3) (zfelt_of 9) (zfelt_of 7) Strong
      (os_rng 2) = Inr (enc, w') \<and>
    decrypt_balance_with_limit stark_dlog \<lparr>ct_l = enc_l enc, ct_r = enc_r enc\<rparr> (zfelt_of 3) 10 = Inr 5"
proof -
  obtain enc w' where enc: "encrypt_with_transcript stark_dlog (zfelt_of 5) (zgrp_of 3) (zfelt_of 9)
      (zfelt_of 7) Strong (os_rng 2) = Inr (enc, w')"
    using dlog_encrypts by blast
  then have enc': "encrypt_with_transcript stark_dlog (felt_from stark_dlog 5) (zgrp_of 3) (zfelt_of 9)
      (zfelt_of 7) Strong (os_rng 2) = Inr (enc, w')"
    by simp
  have pk: "zgrp_of 3 = felt_act stark_dlog (zfelt_of 3) (generator stark_dlog)"
    by (simp add: dlog_num)
  have m: "5 < CURVE_ORDER" by (simp add: CURVE_ORDER_def)
  have "decrypt_balance_with_limit stark_dlog \<lparr>ct_l = enc_l enc, ct_r = enc_r enc\<rparr> (zfelt_of 3) 10 = Inr 5"
    using elgamal_round_trip [OF dlog.stark_curve_axioms enc' pk m, of 10] by simp
  with enc show ?thesis by blast
qed

text \<open>
  Completeness of the proof of encryption, for both transcripts: what \<open>encrypt\<close> returns has the
  stated form, \<open>L = g^m * pk^r\<close> and \<open>R = g^r\<close>, and its proof verifies under the same transcript (a
  response that is the identity is reported as an error).
\<close>

theorem elgamal_completeness:
  assumes "starknet_core S pt"
    and "encrypt_with_transcript S m pk rnd prefix tr w = Inr (enc, w')"
  shows "pt (enc_l enc) = felt_act S m (pt (generator S)) + felt_act S rnd (pt pk) \<and>
    pt (enc_r enc) = felt_act S rnd (pt (generator S)) \<and>
    verify_inner S (enc_l enc) (enc_r enc) pk (enc_proof enc) prefix tr =
      (if felt_act S (eg_sr (enc_proof enc)) (pt (generator S)) = 0 \<or>
          felt_act S (eg_sb (enc_proof enc)) (pt (generator S)) + felt_act S (eg_sr (enc_proof enc)) (pt pk) = 0
       then Inl PointAtInfinity else Inr True)"
  using starknet_core.encryption_verifies [OF assms] by blast

theorem elgamal_completeness_witness:
  "\<exists>enc w'. encrypt_with_transcript stark_dlog (zfelt_of 5) (zgrp_of 3) (zfelt_of 9) (zfelt_of 7) Legacy
      (os_rng 2) = Inr (enc, w') \<and> enc_l enc = zgrp_of 32 \<and> enc_r enc = zgrp_of 9"
proof -
  obtain enc w' where enc: "encrypt_with_transcript stark_dlog (zfelt_of 5) (zgrp_of 3) (zfelt_of 9)
      (zfelt_of 7) Legacy (os_rng 2) = Inr (enc, w')"
    using dlog_encrypts by blast
  have "enc_l enc = zgrp_of 32 \<and> enc_r enc = zgrp_of 9"
    using elgamal_completeness [OF dlog.starknet_core_axioms enc] by (simp add: dlog_num)
  with enc show ?thesis by blast
qed

text \<open>
  Special soundness of the proof of encryption: from two accepted proofs with the same
  commitments, whatever the transcripts, one obtains the message \<open>m\<close> and the randomness \<open>k\<close> that make
  the pair a well-formed ciphertext, the same \<open>k\<close> in both legs.
\<close>

theorem elgamal_special_soundness:
  assumes "starknet_core S pt"
    and "verify_inner S l r pk proof prefix tr = Inr True"
    and "verify_inner S l r pk proof' prefix' tr' = Inr True"
    and "eg_al proof = eg_al proof'" and "eg_ar proof = eg_ar proof'"
    and "felt_val S (order_mul S d (order_sub S (eg_c proof) (eg_c proof'))) mod CURVE_ORDER = 1"
    and "m = order_mul S d (order_sub S (eg_sb proof) (eg_sb proof'))"
    and "k = order_mul S d (order_sub S (eg_sr proof) (eg_sr proof'))"
  shows "pt l = felt_act S m (pt (generator S)) + felt_act S k (pt pk) \<and> pt r = felt_act S k (pt (generator S))"
  by (rule starknet_core.encryption_extract [OF assms])

theorem elgamal_special_soundness_witness:
  "zgrp_of 32 = felt_act stark_dlog (zfelt_of 5) (zgrp_of 1) + felt_act stark_dlog (zfelt_of 9) (zgrp_of 3) \<and>
   zgrp_of 9 = felt_act stark_dlog (zfelt_of 9) (zgrp_of 1)"
proof -
  have m: "order_mul stark_dlog (zfelt_of 1) (order_sub stark_dlog (zfelt_of 22) (zfelt_of 17)) = zfelt_of 5"
    and k: "order_mul stark_dlog (zfelt_of 1) (order_sub stark_dlog (zfelt_of 40) (zfelt_of 31)) = zfelt_of 9"
    by (simp_all add: dlog_num)
  show ?thesis
    using elgamal_special_soundness [OF dlog.starknet_core_axioms, of "zgrp_of 32" "zgrp_of 9" "zgrp_of 3"
        "\<lparr>eg_al = from_affine stark_dlog (Abs_zaff (zgrp_of 14)), eg_ar = from_affine stark_dlog (Abs_zaff (zgrp_of 4)),
          eg_sb = zfelt_of 22, eg_sr = zfelt_of 40, eg_c = zfelt_of 4\<rparr>" "zfelt_of 4" Strong
        "\<lparr>eg_al = from_affine stark_dlog (Abs_zaff (zgrp_of 14)), eg_ar = from_affine stark_dlog (Abs_zaff (zgrp_of 4)),
          eg_sb = zfelt_of 17, eg_sr = zfelt_of 31, eg_c = zfelt_of 3\<rparr>" "zfelt_of 3" Strong "zfelt_of 1"
        "zfelt_of 5" "zfelt_of 9"] m k
    by (simp add: verify_inner_def transcript_challenge_def Let_def projective_to_affine_def dlog_num)
qed

end
