(* ===== verification/Audit_Proof.thy ===== *)
theory Audit_Proof
  imports Poe
begin

text \<open>
  \<open>crates/crypto/src/audit.rs\<close>: the proof that the ciphertext made for an auditor encrypts the same
  balance as the user's stored ciphertext, of which the prover does not know the randomness.
\<close>

section \<open>The model\<close>

definition AUDIT_CAIRO_STRING :: nat where
  "AUDIT_CAIRO_STRING = 418581342580"

record ('f, 'p) AuditPrefixData =
  ad_chain_id :: 'f
  ad_tongo_address :: 'f
  ad_sender_address :: 'f
  ad_user_pub_key :: 'p

definition audit_random_felt :: "('f, 'p, 'a, 'r) starknet \<Rightarrow> 'f draw" where
  "audit_random_felt S w =
     and_then (fill_random_bytes S 32 w) (\<lambda>(bytes, w).
       let bytes = bytes[0 := (bytes ! 0) AND 0x0F]
       in Inr (felt_from_bytes_be S bytes, w))"

text \<open>The prefix of the challenge, which prover and verifier compute by the same lines.\<close>

definition audit_prefix ::
    "('f, 'p, 'a, 'r) starknet \<Rightarrow> ('f, 'p) AuditPrefixData option \<Rightarrow> 'p
      \<Rightarrow> 'p ElGamalCiphertext \<Rightarrow> 'p ElGamalCiphertext \<Rightarrow> 'f result" where
  "audit_prefix S prefix_data auditor_pub_key cipher0 cipher1 =
     (case prefix_data of
        Some pd \<Rightarrow>
          and_then (ok_or PointAtInfinity (proj_to_affine S (ad_user_pub_key pd))) (\<lambda>user_affine.
          and_then (ok_or PointAtInfinity (proj_to_affine S auditor_pub_key)) (\<lambda>auditor_affine.
          and_then (ok_or (CryptoError ''cipher0.l affine conversion failed'')
            (proj_to_affine S (ct_l cipher0))) (\<lambda>c0_l_affine.
          and_then (ok_or (CryptoError ''cipher0.r affine conversion failed'')
            (proj_to_affine S (ct_r cipher0))) (\<lambda>c0_r_affine.
          and_then (ok_or (CryptoError ''cipher1.l affine conversion failed'')
            (proj_to_affine S (ct_l cipher1))) (\<lambda>c1_l_affine.
          and_then (ok_or (CryptoError ''cipher1.r affine conversion failed'')
            (proj_to_affine S (ct_r cipher1))) (\<lambda>c1_r_affine.
            Inr (poseidon_hash_many S
              [ad_chain_id pd, ad_tongo_address pd, ad_sender_address pd, felt_from S AUDIT_CAIRO_STRING,
               affine_x S user_affine, affine_y S user_affine,
               affine_x S auditor_affine, affine_y S auditor_affine,
               affine_x S c0_l_affine, affine_y S c0_l_affine, affine_x S c0_r_affine, affine_y S c0_r_affine,
               affine_x S c1_l_affine, affine_y S c1_l_affine,
               affine_x S c1_r_affine, affine_y S c1_r_affine])))))))
      | None \<Rightarrow> Inr (felt_from S AUDIT_CAIRO_STRING))"

text \<open>\<open>if cond { return Err(CryptoError(msg)) }\<close>.\<close>

definition reject_if :: "bool \<Rightarrow> string \<Rightarrow> unit result" where
  "reject_if cond msg = (if cond then Inl (CryptoError msg) else Inr ())"

text \<open>
  \<open>prove_with_validation\<close> in two parts. The first checks its inputs and encrypts the balance for the
  auditor.
\<close>

definition audit_cipher1 ::
    "('f, 'p, 'a, 'r) starknet \<Rightarrow> 'f \<Rightarrow> u128 \<Rightarrow> 'p ElGamalCiphertext \<Rightarrow> 'p \<Rightarrow> bool
      \<Rightarrow> ('f \<times> 'p ElGamalCiphertext) draw" where
  "audit_cipher1 S private_key balance cipher0 auditor_pub_key validate w =
     (let g = generator S
      in and_then (reject_if (is_infinity S (ct_l cipher0)) ''cipher0.l is point at infinity'') (\<lambda>_.
         and_then (reject_if (is_infinity S (ct_r cipher0)) ''cipher0.r is point at infinity'') (\<lambda>_.
         and_then (reject_if (is_infinity S auditor_pub_key) ''auditor_pub_key is point at infinity'') (\<lambda>_.
         and_then (reject_if (validate \<and>
             \<not> proj_eq S (proj_sub S (ct_l cipher0) (mul S private_key (Some (ct_r cipher0))))
                 (mul S (felt_from S (unat balance)) (Some g)))
             ''cipher0 is not a valid encryption of the balance'') (\<lambda>_.
         and_then (audit_random_felt S w) (\<lambda>(r1, w).
         let auditor_r1 = mul S r1 (Some auditor_pub_key);
             l1 = (if balance = 0 then auditor_r1
                   else let g_b = mul S (felt_from S (unat balance)) (Some g) in add S g_b auditor_r1);
             r1_point = mul S r1 (Some g)
         in and_then (reject_if (is_infinity S l1) ''cipher1.l is point at infinity'') (\<lambda>_.
            and_then (reject_if (is_infinity S r1_point) ''cipher1.r is point at infinity'') (\<lambda>_.
              Inr ((r1, \<lparr>ct_l = l1, ct_r = r1_point\<rparr>), w)))))))))"

text \<open>The second commits, derives the challenge and responds.\<close>

definition audit_respond ::
    "('f, 'p, 'a, 'r) starknet \<Rightarrow> 'f \<Rightarrow> u128 \<Rightarrow> 'p ElGamalCiphertext \<Rightarrow> 'p
      \<Rightarrow> ('f, 'p) AuditPrefixData option \<Rightarrow> 'f \<Rightarrow> 'p ElGamalCiphertext \<Rightarrow> 'f AuditProof draw" where
  "audit_respond S private_key balance cipher0 auditor_pub_key prefix_data r1 cipher1 w =
     (let g = generator S
      in and_then (audit_random_felt S w) (\<lambda>(kx, w).
         and_then (audit_random_felt S w) (\<lambda>(kb, w).
         and_then (audit_random_felt S w) (\<lambda>(kr, w).
         let ax = mul S kx (Some g)
         in and_then (reject_if (is_infinity S ax) ''Ax is point at infinity'') (\<lambda>_.
         let g_kb = mul S kb (Some g);
             r0_kx = mul S kx (Some (ct_r cipher0));
             al0 = add S g_kb r0_kx
         in and_then (reject_if (is_infinity S al0) ''AL0 is point at infinity'') (\<lambda>_.
         let ar1 = mul S kr (Some g)
         in and_then (reject_if (is_infinity S ar1) ''AR1 is point at infinity'') (\<lambda>_.
         let auditor_kr = mul S kr (Some auditor_pub_key);
             al1 = add S g_kb auditor_kr
         in and_then (reject_if (is_infinity S al1) ''AL1 is point at infinity'') (\<lambda>_.
            and_then (audit_prefix S prefix_data auditor_pub_key cipher0 cipher1) (\<lambda>computed_prefix.
            and_then (compute_poseidon_challenge S computed_prefix [ax, al0, al1, ar1]) (\<lambda>c.
            and_then (scalar_mul S c private_key) (\<lambda>c_x.
            and_then (scalar_add S kx c_x) (\<lambda>sx.
            and_then (scalar_mul S c (felt_from S (unat balance))) (\<lambda>c_b.
            and_then (scalar_add S kb c_b) (\<lambda>sb.
            and_then (scalar_mul S c r1) (\<lambda>c_r1.
            and_then (scalar_add S kr c_r1) (\<lambda>sr.
            and_then (try_from_projective S ax) (\<lambda>ax'.
            and_then (try_from_projective S al0) (\<lambda>al0'.
            and_then (try_from_projective S al1) (\<lambda>al1'.
            and_then (try_from_projective S ar1) (\<lambda>ar1'.
              Inr (\<lparr>au_ax = ax', au_al0 = al0', au_al1 = al1', au_ar1 = ar1',
                    au_sx = sx, au_sb = sb, au_sr = sr, au_c = c\<rparr>, w)))))))))))))))))))))"

definition prove_with_validation ::
    "('f, 'p, 'a, 'r) starknet \<Rightarrow> 'f \<Rightarrow> u128 \<Rightarrow> 'p ElGamalCiphertext \<Rightarrow> 'p \<Rightarrow> bool
      \<Rightarrow> ('f, 'p) AuditPrefixData option \<Rightarrow> ('f AuditProof \<times> 'p ElGamalCiphertext) draw" where
  "prove_with_validation S private_key balance cipher0 auditor_pub_key validate prefix_data w =
     and_then (audit_cipher1 S private_key balance cipher0 auditor_pub_key validate w) (\<lambda>((r1, cipher1), w).
     and_then (audit_respond S private_key balance cipher0 auditor_pub_key prefix_data r1 cipher1 w)
       (\<lambda>(proof, w). Inr ((proof, cipher1), w)))"

definition audit_prove ::
    "('f, 'p, 'a, 'r) starknet \<Rightarrow> 'f \<Rightarrow> u128 \<Rightarrow> 'p ElGamalCiphertext \<Rightarrow> 'p
      \<Rightarrow> ('f, 'p) AuditPrefixData option \<Rightarrow> ('f AuditProof \<times> 'p ElGamalCiphertext) draw" where
  "audit_prove S private_key balance cipher0 auditor_pub_key prefix_data w =
     prove_with_validation S private_key balance cipher0 auditor_pub_key True prefix_data w"

definition audit_verify ::
    "('f, 'p, 'a, 'r) starknet \<Rightarrow> 'f AuditProof \<Rightarrow> 'p \<Rightarrow> 'p ElGamalCiphertext \<Rightarrow> 'p ElGamalCiphertext
      \<Rightarrow> 'p \<Rightarrow> ('f, 'p) AuditPrefixData option \<Rightarrow> bool result" where
  "audit_verify S proof user_pub_key cipher0 cipher1 auditor_pub_key prefix_data =
     (let g = generator S
      in and_then (to_affine S (au_ax proof)) (\<lambda>ax'.
         and_then (to_affine S (au_al0 proof)) (\<lambda>al0'.
         and_then (to_affine S (au_al1 proof)) (\<lambda>al1'.
         and_then (to_affine S (au_ar1 proof)) (\<lambda>ar1'.
         let ax = affine_to_projective S ax';
             al0 = affine_to_projective S al0';
             al1 = affine_to_projective S al1';
             ar1 = affine_to_projective S ar1';
             sx = au_sx proof; sb = au_sb proof; sr = au_sr proof; c = au_c proof
         in and_then (audit_prefix S prefix_data auditor_pub_key cipher0 cipher1) (\<lambda>computed_prefix.
            and_then (compute_poseidon_challenge S computed_prefix [ax, al0, al1, ar1]) (\<lambda>c_computed.
            if c \<noteq> c_computed then Inr False
            else
              let lhs1 = mul S sx (Some g);
                  rhs1 = add S ax (mul S c (Some user_pub_key))
              in if \<not> proj_eq S lhs1 rhs1 then Inr False
              else
                let g_sb = mul S sb (Some g);
                    lhs2 = add S g_sb (mul S sx (Some (ct_r cipher0)));
                    rhs2 = add S al0 (mul S c (Some (ct_l cipher0)))
                in if \<not> proj_eq S lhs2 rhs2 then Inr False
                else
                  let lhs3 = mul S sr (Some g);
                      rhs3 = add S ar1 (mul S c (Some (ct_r cipher1)))
                  in if \<not> proj_eq S lhs3 rhs3 then Inr False
                  else
                    let lhs4 = add S g_sb (mul S sr (Some auditor_pub_key));
                        rhs4 = add S al1 (mul S c (Some (ct_l cipher1)))
                    in if \<not> proj_eq S lhs4 rhs4 then Inr False
                    else Inr True)))))))"

section \<open>Completeness and soundness\<close>

lemma reject_if_Inr [simp]: "reject_if cond msg = Inr u \<longleftrightarrow> \<not> cond"
  by (auto simp: reject_if_def)

context starknet_core
begin

text \<open>
  The ciphertext for the auditor. The special case of a zero balance adds nothing, since the
  multiplication by zero is the identity.
\<close>

lemma audit_cipher1_Inr:
  assumes "audit_cipher1 S sk balance cipher0 auditor validate w = Inr ((r1, cipher1), w')"
  shows "pt (ct_l cipher1) =
      felt_act S (felt_from S (unat balance)) (pt (generator S)) + felt_act S r1 (pt auditor)"
    and "pt (ct_r cipher1) = felt_act S r1 (pt (generator S))"
    and "validate \<Longrightarrow> pt (ct_l cipher0) =
      felt_act S (felt_from S (unat balance)) (pt (generator S)) + felt_act S sk (pt (ct_r cipher0))"
  using assms
  by (auto simp: audit_cipher1_def Let_def result_iffs proj_eq_iff pt_proj_sub diff_eq_eq felt_act_zero_left
      split: if_splits)

lemma audit_respond_Inr:
  assumes "audit_respond S sk balance cipher0 auditor pd r1 cipher1 w = Inr (proof, w')"
  shows "\<exists>kx kb kr prefix.
    audit_prefix S pd auditor cipher0 cipher1 = Inr prefix \<and>
    compute_poseidon_challenge S prefix [mul S kx (Some (generator S)),
      add S (mul S kb (Some (generator S))) (mul S kx (Some (ct_r cipher0))),
      add S (mul S kb (Some (generator S))) (mul S kr (Some auditor)), mul S kr (Some (generator S))] =
      Inr (au_c proof) \<and>
    try_from_projective S (mul S kx (Some (generator S))) = Inr (au_ax proof) \<and>
    try_from_projective S (add S (mul S kb (Some (generator S))) (mul S kx (Some (ct_r cipher0)))) =
      Inr (au_al0 proof) \<and>
    try_from_projective S (add S (mul S kb (Some (generator S))) (mul S kr (Some auditor))) =
      Inr (au_al1 proof) \<and>
    try_from_projective S (mul S kr (Some (generator S))) = Inr (au_ar1 proof) \<and>
    au_sx proof = order_add S kx (order_mul S (au_c proof) sk) \<and>
    au_sb proof = order_add S kb (order_mul S (au_c proof) (felt_from S (unat balance))) \<and>
    au_sr proof = order_add S kr (order_mul S (au_c proof) r1)"
  using assms unfolding audit_respond_def Let_def scalar_results and_then_Inr
  by (elim and_then_pairE and_thenE) (clarsimp, intro exI conjI, assumption+, rule refl, rule refl, rule refl)

lemma audit_verify_True:
  "audit_verify S proof y cipher0 cipher1 auditor pd = Inr True \<longleftrightarrow>
    (\<exists>ax al0 al1 ar1 prefix.
      to_affine S (au_ax proof) = Inr ax \<and> to_affine S (au_al0 proof) = Inr al0 \<and>
      to_affine S (au_al1 proof) = Inr al1 \<and> to_affine S (au_ar1 proof) = Inr ar1 \<and>
      audit_prefix S pd auditor cipher0 cipher1 = Inr prefix \<and>
      compute_poseidon_challenge S prefix [affine_to_projective S ax, affine_to_projective S al0,
        affine_to_projective S al1, affine_to_projective S ar1] = Inr (au_c proof) \<and>
      felt_act S (au_sx proof) (pt (generator S)) =
        pt (affine_to_projective S ax) + felt_act S (au_c proof) (pt y) \<and>
      felt_act S (au_sb proof) (pt (generator S)) + felt_act S (au_sx proof) (pt (ct_r cipher0)) =
        pt (affine_to_projective S al0) + felt_act S (au_c proof) (pt (ct_l cipher0)) \<and>
      felt_act S (au_sr proof) (pt (generator S)) =
        pt (affine_to_projective S ar1) + felt_act S (au_c proof) (pt (ct_r cipher1)) \<and>
      felt_act S (au_sb proof) (pt (generator S)) + felt_act S (au_sr proof) (pt auditor) =
        pt (affine_to_projective S al1) + felt_act S (au_c proof) (pt (ct_l cipher1)))"
    (is "?lhs = ?rhs")
proof
  assume ?lhs
  then show ?rhs
    unfolding audit_verify_def Let_def and_then_eq_Inr by (auto simp: proj_eq_iff split: if_splits)
next
  assume ?rhs
  then show ?lhs
    by (elim exE conjE) (simp add: audit_verify_def Let_def proj_eq_iff)
qed

lemma audit_complete:
  assumes prove: "prove_with_validation S sk balance cipher0 auditor validate pd w = Inr ((proof, cipher1), w')"
    and y: "pt y = felt_act S sk (pt (generator S))"
    and valid: "validate \<or> pt (ct_l cipher0) =
      felt_act S (felt_from S (unat balance)) (pt (generator S)) + felt_act S sk (pt (ct_r cipher0))"
  shows "audit_verify S proof y cipher0 cipher1 auditor pd = Inr True \<and>
    (\<exists>r1. pt (ct_l cipher1) = felt_act S (felt_from S (unat balance)) (pt (generator S)) + felt_act S r1 (pt auditor)
      \<and> pt (ct_r cipher1) = felt_act S r1 (pt (generator S)))"
proof -
  obtain r1 w1 where c1: "audit_cipher1 S sk balance cipher0 auditor validate w = Inr ((r1, cipher1), w1)"
    and resp: "audit_respond S sk balance cipher0 auditor pd r1 cipher1 w1 = Inr (proof, w')"
    using prove by (auto simp: prove_with_validation_def result_iffs)
  note cipher1 = audit_cipher1_Inr [OF c1]
  obtain kx kb kr prefix where prefix: "audit_prefix S pd auditor cipher0 cipher1 = Inr prefix"
    and c: "compute_poseidon_challenge S prefix [mul S kx (Some (generator S)),
      add S (mul S kb (Some (generator S))) (mul S kx (Some (ct_r cipher0))),
      add S (mul S kb (Some (generator S))) (mul S kr (Some auditor)), mul S kr (Some (generator S))] =
      Inr (au_c proof)"
    and p: "try_from_projective S (mul S kx (Some (generator S))) = Inr (au_ax proof)"
    "try_from_projective S (add S (mul S kb (Some (generator S))) (mul S kx (Some (ct_r cipher0)))) =
      Inr (au_al0 proof)"
    "try_from_projective S (add S (mul S kb (Some (generator S))) (mul S kr (Some auditor))) =
      Inr (au_al1 proof)"
    "try_from_projective S (mul S kr (Some (generator S))) = Inr (au_ar1 proof)"
    and s: "au_sx proof = order_add S kx (order_mul S (au_c proof) sk)"
    "au_sb proof = order_add S kb (order_mul S (au_c proof) (felt_from S (unat balance)))"
    "au_sr proof = order_add S kr (order_mul S (au_c proof) r1)"
    using audit_respond_Inr [OF resp] by blast
  obtain ax al0 al1 ar1 where aff: "au_ax proof = from_affine S ax" "au_al0 proof = from_affine S al0"
    "au_al1 proof = from_affine S al1" "au_ar1 proof = from_affine S ar1"
    and pts: "pt (affine_to_projective S ax) = felt_act S kx (pt (generator S))"
    "pt (affine_to_projective S al0) = felt_act S kb (pt (generator S)) + felt_act S kx (pt (ct_r cipher0))"
    "pt (affine_to_projective S al1) = felt_act S kb (pt (generator S)) + felt_act S kr (pt auditor)"
    "pt (affine_to_projective S ar1) = felt_act S kr (pt (generator S))"
    using p by (fastforce elim!: try_from_projectiveE)
  have ch: "compute_poseidon_challenge S prefix [affine_to_projective S ax, affine_to_projective S al0,
      affine_to_projective S al1, affine_to_projective S ar1] = Inr (au_c proof)"
    unfolding c [symmetric] by (rule poseidon_challenge_cong) (simp add: pts)
  have l0: "pt (ct_l cipher0) =
      felt_act S (felt_from S (unat balance)) (pt (generator S)) + felt_act S sk (pt (ct_r cipher0))"
    using valid cipher1(3) by blast
  have eqs: "felt_act S (au_sx proof) (pt (generator S)) =
      pt (affine_to_projective S ax) + felt_act S (au_c proof) (pt y)"
    "felt_act S (au_sb proof) (pt (generator S)) + felt_act S (au_sx proof) (pt (ct_r cipher0)) =
      pt (affine_to_projective S al0) + felt_act S (au_c proof) (pt (ct_l cipher0))"
    "felt_act S (au_sr proof) (pt (generator S)) =
      pt (affine_to_projective S ar1) + felt_act S (au_c proof) (pt (ct_r cipher1))"
    "felt_act S (au_sb proof) (pt (generator S)) + felt_act S (au_sr proof) (pt auditor) =
      pt (affine_to_projective S al1) + felt_act S (au_c proof) (pt (ct_l cipher1))"
    by (simp_all only: s pts y l0 cipher1 response_eq act_plus add_ac)
  have "to_affine S (au_ax proof) = Inr ax" "to_affine S (au_al0 proof) = Inr al0"
    "to_affine S (au_al1 proof) = Inr al1" "to_affine S (au_ar1 proof) = Inr ar1"
    by (simp_all add: aff)
  then have "audit_verify S proof y cipher0 cipher1 auditor pd = Inr True"
    unfolding audit_verify_True using prefix ch eqs by blast
  then show ?thesis using cipher1 by blast
qed

lemma audit_extract:
  assumes "audit_verify S proof y cipher0 cipher1 auditor pd = Inr True"
    and "audit_verify S proof' y cipher0 cipher1 auditor pd' = Inr True"
    and com: "au_ax proof = au_ax proof'" "au_al0 proof = au_al0 proof'"
      "au_al1 proof = au_al1 proof'" "au_ar1 proof = au_ar1 proof'"
    and d: "felt_val S (order_mul S d (order_sub S (au_c proof) (au_c proof'))) mod CURVE_ORDER = 1"
    and x: "x = order_mul S d (order_sub S (au_sx proof) (au_sx proof'))"
    and b: "b = order_mul S d (order_sub S (au_sb proof) (au_sb proof'))"
    and r: "r = order_mul S d (order_sub S (au_sr proof) (au_sr proof'))"
  shows "pt y = felt_act S x (pt (generator S)) \<and>
    pt (ct_l cipher0) = felt_act S b (pt (generator S)) + felt_act S x (pt (ct_r cipher0)) \<and>
    pt (ct_l cipher1) = felt_act S b (pt (generator S)) + felt_act S r (pt auditor) \<and>
    pt (ct_r cipher1) = felt_act S r (pt (generator S))"
proof -
  obtain ax al0 al1 ar1 where p:
    "to_affine S (au_ax proof) = Inr ax" "to_affine S (au_al0 proof) = Inr al0"
    "to_affine S (au_al1 proof) = Inr al1" "to_affine S (au_ar1 proof) = Inr ar1"
    "felt_act S (au_sx proof) (pt (generator S)) =
      pt (affine_to_projective S ax) + felt_act S (au_c proof) (pt y)"
    "felt_act S (au_sb proof) (pt (generator S)) + felt_act S (au_sx proof) (pt (ct_r cipher0)) =
      pt (affine_to_projective S al0) + felt_act S (au_c proof) (pt (ct_l cipher0))"
    "felt_act S (au_sr proof) (pt (generator S)) =
      pt (affine_to_projective S ar1) + felt_act S (au_c proof) (pt (ct_r cipher1))"
    "felt_act S (au_sb proof) (pt (generator S)) + felt_act S (au_sr proof) (pt auditor) =
      pt (affine_to_projective S al1) + felt_act S (au_c proof) (pt (ct_l cipher1))"
    using assms(1) unfolding audit_verify_True by blast
  have p': "felt_act S (au_sx proof') (pt (generator S)) =
      pt (affine_to_projective S ax) + felt_act S (au_c proof') (pt y)"
    "felt_act S (au_sb proof') (pt (generator S)) + felt_act S (au_sx proof') (pt (ct_r cipher0)) =
      pt (affine_to_projective S al0) + felt_act S (au_c proof') (pt (ct_l cipher0))"
    "felt_act S (au_sr proof') (pt (generator S)) =
      pt (affine_to_projective S ar1) + felt_act S (au_c proof') (pt (ct_r cipher1))"
    "felt_act S (au_sb proof') (pt (generator S)) + felt_act S (au_sr proof') (pt auditor) =
      pt (affine_to_projective S al1) + felt_act S (au_c proof') (pt (ct_l cipher1))"
    using assms(2) p(1-4) unfolding audit_verify_True com by auto
  note unit = felt_act_unit [OF d]
  show ?thesis
    unfolding x b r
    using extract_one [OF p(5) p'(1) unit] extract_two [OF p(6) p'(2) unit]
      extract_one [OF p(7) p'(3) unit] extract_two [OF p(8) p'(4) unit] by blast
qed

end

section \<open>Properties\<close>

text \<open>
  Completeness of the audit proof. Whenever the prover succeeds on the user's ciphertext of
  \<open>balance\<close> (which it checks itself unless told not to), the verifier accepts, for every balance
  including the special case 0, and the ciphertext made for the auditor encrypts that same balance
  under the auditor's key.
\<close>

theorem audit_completeness:
  assumes "starknet_core S pt"
    and "prove_with_validation S sk balance cipher0 auditor validate pd w = Inr ((proof, cipher1), w')"
    and "pt y = felt_act S sk (pt (generator S))"
    and "validate \<or> pt (ct_l cipher0) =
      felt_act S (felt_from S (unat balance)) (pt (generator S)) + felt_act S sk (pt (ct_r cipher0))"
  shows "audit_verify S proof y cipher0 cipher1 auditor pd = Inr True \<and>
    (\<exists>r1. pt (ct_l cipher1) = felt_act S (felt_from S (unat balance)) (pt (generator S)) + felt_act S r1 (pt auditor)
      \<and> pt (ct_r cipher1) = felt_act S r1 (pt (generator S)))"
  by (rule starknet_core.audit_complete [OF assms])

text \<open>
  The witness audits the balance 5 of the key \<open>G^3\<close>, encrypted with randomness 9, for the auditor
  \<open>G^11\<close>.
\<close>

lemma dlog_audit_random_felt:
  assumes "k + 1 < 256"
  shows "audit_random_felt stark_dlog (os_rng k) = Inr (zfelt_of (k + 1), os_rng (k + 1))"
proof -
  have "(k + 1) div 256 ^ 31 = 0" using assms by simp
  then have "be_bytes 32 (k + 1) ! 0 = 0"
    using be_bytes_first [of 31 "k + 1"] by simp
  then have "be_bytes 32 (k + 1) ! 0 AND 0xF = be_bytes 32 (k + 1) ! 0"
    by simp
  then have "(be_bytes 32 (k + 1))[0 := be_bytes 32 (k + 1) ! 0 AND 0xF] = be_bytes 32 (k + 1)"
    by (simp only: list_update_id)
  moreover have "fill_random_bytes stark_dlog 32 (os_rng k) = Inr (be_bytes 32 (k + 1), os_rng (k + 1))"
    by (simp add: fill_random_bytes_def try_fill_random_bytes_def os_rng_def)
  ultimately show ?thesis
    using assms by (simp add: audit_random_felt_def be_val_small FELT_PRIME_def)
qed

lemma dlog_audits:
  "\<exists>proof cipher1 w'. prove_with_validation stark_dlog (zfelt_of 3) 5 \<lparr>ct_l = zgrp_of 32, ct_r = zgrp_of 9\<rparr>
    (zgrp_of 11) True None (os_rng 2) = Inr ((proof, cipher1), w')"
  by (simp add: prove_with_validation_def audit_cipher1_def audit_respond_def reject_if_def is_infinity_def
      Option.is_none_def dlog_audit_random_felt audit_prefix_def AUDIT_CAIRO_STRING_def compute_poseidon_challenge_def
      try_from_projective_def scalar_results Let_def dlog_num cong: and_then_weak_cong)

theorem audit_completeness_witness:
  "\<exists>proof cipher1 w'. prove_with_validation stark_dlog (zfelt_of 3) 5 \<lparr>ct_l = zgrp_of 32, ct_r = zgrp_of 9\<rparr>
      (zgrp_of 11) True None (os_rng 2) = Inr ((proof, cipher1), w') \<and>
    audit_verify stark_dlog proof (zgrp_of 3) \<lparr>ct_l = zgrp_of 32, ct_r = zgrp_of 9\<rparr> cipher1 (zgrp_of 11) None = Inr True"
proof -
  obtain p cipher1 w' where p: "prove_with_validation stark_dlog (zfelt_of 3) 5
      \<lparr>ct_l = zgrp_of 32, ct_r = zgrp_of 9\<rparr> (zgrp_of 11) True None (os_rng 2) = Inr ((p, cipher1), w')"
    using dlog_audits by blast
  have y: "zgrp_of 3 = felt_act stark_dlog (zfelt_of 3) (generator stark_dlog)"
    by (simp add: dlog_num)
  show ?thesis
    using audit_completeness [OF dlog.starknet_core_axioms p y] p by blast
qed

text \<open>
  C5. Special soundness of the audit proof: from two accepted proofs with the same commitments one
  obtains the user's secret \<open>x\<close> and one value \<open>b\<close> that both the stored ciphertext and the auditor's
  ciphertext encrypt: an auditor cannot be shown another balance.
\<close>

theorem audit_special_soundness:
  assumes "starknet_core S pt"
    and "audit_verify S proof y cipher0 cipher1 auditor pd = Inr True"
    and "audit_verify S proof' y cipher0 cipher1 auditor pd' = Inr True"
    and "au_ax proof = au_ax proof'" and "au_al0 proof = au_al0 proof'"
    and "au_al1 proof = au_al1 proof'" and "au_ar1 proof = au_ar1 proof'"
    and "felt_val S (order_mul S d (order_sub S (au_c proof) (au_c proof'))) mod CURVE_ORDER = 1"
    and "x = order_mul S d (order_sub S (au_sx proof) (au_sx proof'))"
    and "b = order_mul S d (order_sub S (au_sb proof) (au_sb proof'))"
    and "r = order_mul S d (order_sub S (au_sr proof) (au_sr proof'))"
  shows "pt y = felt_act S x (pt (generator S)) \<and>
    pt (ct_l cipher0) = felt_act S b (pt (generator S)) + felt_act S x (pt (ct_r cipher0)) \<and>
    pt (ct_l cipher1) = felt_act S b (pt (generator S)) + felt_act S r (pt auditor) \<and>
    pt (ct_r cipher1) = felt_act S r (pt (generator S))"
  by (rule starknet_core.audit_extract [OF assms])

text \<open>The witness answers the challenges 4 and 3 for the same commitments.\<close>

definition dlog_audit_proof :: "nat \<Rightarrow> zfelt AuditProof" where
  "dlog_audit_proof c =
     \<lparr>au_ax = from_affine stark_dlog (Abs_zaff (zgrp_of 2)), au_al0 = from_affine stark_dlog (Abs_zaff (zgrp_of 21)),
      au_al1 = from_affine stark_dlog (Abs_zaff (zgrp_of 47)), au_ar1 = from_affine stark_dlog (Abs_zaff (zgrp_of 4)),
      au_sx = zfelt_of (2 + c * 3), au_sb = zfelt_of (3 + c * 5), au_sr = zfelt_of (4 + c * 2), au_c = zfelt_of c\<rparr>"

definition dlog_audit_prefix :: "nat \<Rightarrow> (zfelt, zgrp) AuditPrefixData option" where
  "dlog_audit_prefix c =
     Some \<lparr>ad_chain_id = zfelt_of c, ad_tongo_address = zfelt_of 1, ad_sender_address = zfelt_of 1,
      ad_user_pub_key = zgrp_of 3\<rparr>"

lemma dlog_audit_accepted:
  "audit_verify stark_dlog (dlog_audit_proof 4) (zgrp_of 3) \<lparr>ct_l = zgrp_of 32, ct_r = zgrp_of 9\<rparr>
    \<lparr>ct_l = zgrp_of 27, ct_r = zgrp_of 2\<rparr> (zgrp_of 11) (dlog_audit_prefix 4) = Inr True"
  "audit_verify stark_dlog (dlog_audit_proof 3) (zgrp_of 3) \<lparr>ct_l = zgrp_of 32, ct_r = zgrp_of 9\<rparr>
    \<lparr>ct_l = zgrp_of 27, ct_r = zgrp_of 2\<rparr> (zgrp_of 11) (dlog_audit_prefix 3) = Inr True"
  by (simp_all add: dlog_audit_proof_def dlog_audit_prefix_def audit_verify_def audit_prefix_def
      AUDIT_CAIRO_STRING_def poseidon_hash_many_def compute_poseidon_challenge_def scalar_results Let_def
      dlog_num cong: and_then_weak_cong)

theorem audit_special_soundness_witness:
  "\<exists>b r. zgrp_of 32 = felt_act stark_dlog b (zgrp_of 1) + felt_act stark_dlog (zfelt_of 3) (zgrp_of 9) \<and>
    zgrp_of 27 = felt_act stark_dlog b (zgrp_of 1) + felt_act stark_dlog r (zgrp_of 11)"
proof -
  have com: "au_ax (dlog_audit_proof 4) = au_ax (dlog_audit_proof 3)"
    "au_al0 (dlog_audit_proof 4) = au_al0 (dlog_audit_proof 3)"
    "au_al1 (dlog_audit_proof 4) = au_al1 (dlog_audit_proof 3)"
    "au_ar1 (dlog_audit_proof 4) = au_ar1 (dlog_audit_proof 3)"
    by (simp_all add: dlog_audit_proof_def)
  have d: "felt_val stark_dlog (order_mul stark_dlog (zfelt_of 1)
      (order_sub stark_dlog (au_c (dlog_audit_proof 4)) (au_c (dlog_audit_proof 3)))) mod CURVE_ORDER = 1"
    by (simp add: dlog_audit_proof_def dlog_num)
  have x: "zfelt_of 3 = order_mul stark_dlog (zfelt_of 1)
      (order_sub stark_dlog (au_sx (dlog_audit_proof 4)) (au_sx (dlog_audit_proof 3)))"
    by (simp add: dlog_audit_proof_def dlog_num)
  show ?thesis
    using audit_special_soundness [OF dlog.starknet_core_axioms dlog_audit_accepted com d x refl refl]
    by (simp only: generators_dlog ElGamalCiphertext.simps) blast
qed

end
