(* ===== verification/Audit_Hint.thy ===== *)
theory Audit_Hint
  imports Poe
begin

text \<open>
  \<open>crates/sdk/src/crypto.rs\<close>: the hint with which an auditor reads a balance without a search, a
  \<open>u128\<close> encrypted with XChaCha20-Poly1305 under a key agreed on by Diffie-Hellman on the curve. The
  cipher is third-party code; the locale \<open>audit_channel\<close> states what is relied on.
\<close>

section \<open>The model\<close>

definition NONCE_SIZE :: nat where
  "NONCE_SIZE = 24"

definition TAG_SIZE :: nat where
  "TAG_SIZE = 16"

definition derive_shared_secret ::
    "('f, 'p, 'a, 'r) starknet \<Rightarrow> 'f \<Rightarrow> 'p \<Rightarrow> byte list result" where
  "derive_shared_secret S my_private_key other_public_key =
     (let shared_point = mul S my_private_key (Some other_public_key)
      in and_then (ok_or PointAtInfinity (proj_to_affine S shared_point)) (\<lambda>affine.
           Inr (sha256 S (map of_char ''TONGO_AUDIT_KEY_V1'' @ felt_to_bytes_be S (affine_x S affine)))))"

text \<open>\<open>XChaCha20Poly1305::new_from_slice\<close> accepts keys of 32 bytes.\<close>

definition aead_key :: "byte list \<Rightarrow> byte list result" where
  "aead_key key = (if length key = 32 then Inr key else Inl (CryptoError ''Invalid key: Invalid Length''))"

definition encrypt_audit_hint ::
    "('f, 'p, 'a, 'r) starknet \<Rightarrow> u128 \<Rightarrow> byte list \<Rightarrow> (byte list \<times> byte list) draw" where
  "encrypt_audit_hint S plaintext_balance shared_secret w =
     and_then (random_bytes S 24 w) (\<lambda>(nonce_bytes, w).
     and_then (aead_key shared_secret) (\<lambda>cipher.
     let plaintext = be_bytes 16 (unat plaintext_balance)
     in and_then (ok_or (CryptoError ''Encryption failed: aead::Error'')
          (aead_encrypt S cipher nonce_bytes plaintext)) (\<lambda>ciphertext.
        let copy_len = min (length ciphertext) 64;
            ct_out = take copy_len ciphertext @ replicate (64 - copy_len) 0
        in Inr ((ct_out, nonce_bytes), w))))"

definition decrypt_audit_hint ::
    "('f, 'p, 'a, 'r) starknet \<Rightarrow> byte list \<Rightarrow> byte list \<Rightarrow> byte list \<Rightarrow> u128 result" where
  "decrypt_audit_hint S ciphertext nonce shared_secret =
     and_then (aead_key shared_secret) (\<lambda>cipher.
     let ct_len = 16 + TAG_SIZE
     in and_then (ok_or (CryptoError ''Decryption failed: aead::Error'')
          (aead_decrypt S cipher nonce (take ct_len ciphertext))) (\<lambda>plaintext.
        if length plaintext \<noteq> 16 then
          Inl (CryptoError (''Invalid plaintext length: expected 16, got '' @ show_nat (length plaintext)))
        else Inr (of_nat (be_val plaintext))))"

definition encrypt_for_auditor ::
    "('f, 'p, 'a, 'r) starknet \<Rightarrow> u128 \<Rightarrow> 'f \<Rightarrow> 'p \<Rightarrow> (byte list \<times> byte list) draw" where
  "encrypt_for_auditor S balance user_private_key auditor_public_key w =
     and_then (derive_shared_secret S user_private_key auditor_public_key) (\<lambda>shared_secret.
       encrypt_audit_hint S balance shared_secret w)"

definition decrypt_as_auditor ::
    "('f, 'p, 'a, 'r) starknet \<Rightarrow> byte list \<Rightarrow> byte list \<Rightarrow> 'f \<Rightarrow> 'p \<Rightarrow> u128 result" where
  "decrypt_as_auditor S ciphertext nonce auditor_private_key user_public_key =
     and_then (derive_shared_secret S auditor_private_key user_public_key) (\<lambda>shared_secret.
       decrypt_audit_hint S ciphertext nonce shared_secret)"

section \<open>The auditor reads the balance\<close>

text \<open>
  The contract of the cipher: the ciphertext is longer than the message by the tag, and decryption
  with the same key and nonce gives the message back.
\<close>

locale audit_channel = starknet_core S pt
  for S :: "('f, 'p, 'a, 'r) starknet" and pt :: "'p \<Rightarrow> 'g :: ab_group_add" +
  assumes aead_length: "aead_encrypt S key nonce m = Some c \<Longrightarrow> length c = length m + 16"
    and aead_correct: "aead_encrypt S key nonce m = Some c \<Longrightarrow> aead_decrypt S key nonce c = Some m"
begin

text \<open>Both parties derive the same key.\<close>

lemma shared_secret_agrees:
  assumes "pt pk = felt_act S sk h" and "pt pk' = felt_act S sk' h"
  shows "derive_shared_secret S sk pk' = derive_shared_secret S sk' pk"
proof -
  have "pt (mul S sk (Some pk')) = pt (mul S sk' (Some pk))"
    by (simp add: assms act_comm)
  then have "proj_to_affine S (mul S sk (Some pk')) = proj_to_affine S (mul S sk' (Some pk))"
    by (simp only: to_affine_eq)
  then show ?thesis by (simp only: derive_shared_secret_def Let_def)
qed

lemma hint_round_trip:
  assumes "encrypt_audit_hint S balance secret w = Inr ((ct, nonce), w')"
  shows "length ct = 64 \<and> decrypt_audit_hint S ct nonce secret = Inr balance"
proof -
  obtain c where key: "aead_key secret = Inr secret"
    and c: "aead_encrypt S secret nonce (be_bytes 16 (unat balance)) = Some c"
    and ct: "ct = take (min (length c) 64) c @ replicate (64 - min (length c) 64) 0"
    using assms by (auto simp: encrypt_audit_hint_def Let_def result_iffs aead_key_def split: if_splits)
  have len: "length c = 32" using aead_length [OF c] by simp
  have "unat balance < 2 ^ LENGTH(128)" by (rule unsigned_less)
  then have "be_val (be_bytes 16 (unat balance)) = unat balance"
    by (simp add: be_val_be_bytes)
  then show ?thesis
    using key aead_correct [OF c] len
    by (simp add: decrypt_audit_hint_def ct Let_def TAG_SIZE_def)
qed

lemma auditor_round_trip:
  assumes "encrypt_for_auditor S balance user_sk auditor_pk w = Inr ((ct, nonce), w')"
    and "pt user_pk = felt_act S user_sk (pt (generator S))"
    and "pt auditor_pk = felt_act S auditor_sk (pt (generator S))"
  shows "length ct = 64 \<and> decrypt_as_auditor S ct nonce auditor_sk user_pk = Inr balance"
proof -
  obtain secret where s: "derive_shared_secret S user_sk auditor_pk = Inr secret"
    and e: "encrypt_audit_hint S balance secret w = Inr ((ct, nonce), w')"
    using assms(1) by (auto simp: encrypt_for_auditor_def result_iffs)
  have "derive_shared_secret S auditor_sk user_pk = Inr secret"
    using shared_secret_agrees [OF assms(2,3)] s by simp
  then show ?thesis
    using hint_round_trip [OF e] by (simp add: decrypt_as_auditor_def)
qed

end

interpretation dlog: audit_channel stark_dlog "\<lambda>p. p"
  by unfold_locales auto

section \<open>Properties\<close>

text \<open>
  C35. The audit hint round trip: what a user encrypts for an auditor, the auditor decrypts with their
  own secret key and the user's public key to exactly the balance, through the 64-byte padding.
\<close>

theorem audit_hint_round_trip:
  assumes "audit_channel S pt"
    and "encrypt_for_auditor S balance user_sk auditor_pk w = Inr ((ct, nonce), w')"
    and "pt user_pk = felt_act S user_sk (pt (generator S))"
    and "pt auditor_pk = felt_act S auditor_sk (pt (generator S))"
  shows "length ct = 64 \<and> decrypt_as_auditor S ct nonce auditor_sk user_pk = Inr balance"
  by (rule audit_channel.auditor_round_trip [OF assms])

theorem audit_hint_round_trip_witness:
  "\<exists>ct nonce w'. encrypt_for_auditor stark_dlog 1000 (zfelt_of 42) (zgrp_of 123) (os_rng 0) =
      Inr ((ct, nonce), w') \<and>
    decrypt_as_auditor stark_dlog ct nonce (zfelt_of 123) (zgrp_of 42) = Inr 1000"
proof -
  have "\<exists>ct nonce w'. encrypt_for_auditor stark_dlog 1000 (zfelt_of 42) (zgrp_of 123) (os_rng 0) =
      Inr ((ct, nonce), w')"
    by (simp add: encrypt_for_auditor_def derive_shared_secret_def encrypt_audit_hint_def aead_key_def
        random_bytes_def fill_random_bytes_def try_fill_random_bytes_def os_rng_def Let_def dlog_num)
  then obtain ct nonce w' where e: "encrypt_for_auditor stark_dlog 1000 (zfelt_of 42) (zgrp_of 123)
      (os_rng 0) = Inr ((ct, nonce), w')"
    by blast
  have keys: "zgrp_of 42 = felt_act stark_dlog (zfelt_of 42) (generator stark_dlog)"
    "zgrp_of 123 = felt_act stark_dlog (zfelt_of 123) (generator stark_dlog)"
    by (simp_all add: dlog_num)
  show ?thesis
    using audit_hint_round_trip [OF dlog.audit_channel_axioms e keys] e by blast
qed

end
