(* ===== verification/Bit_Proof.thy ===== *)
theory Bit_Proof
  imports Poe
begin

text \<open>
  \<open>crates/crypto/src/bit.rs\<close>: the proof that a commitment \<open>V = g1^b * g2^r\<close> has \<open>b\<close> in \<open>{0, 1}\<close>, by
  OR composition of a real and a simulated proof of exponentiation.
\<close>

section \<open>The model\<close>

text \<open>The source negates a point through its affine form, with the same six lines in three places.\<close>

definition negate_point :: "('f, 'p, 'a, 'r) starknet \<Rightarrow> 'p \<Rightarrow> 'p result" where
  "negate_point S p =
     and_then (projective_to_affine S p) (\<lambda>affine.
     and_then (map_err (\<lambda>e. CryptoError (''Point negation failed: '' @ e))
                (affine_new S (affine_x S affine) (felt_neg S (affine_y S affine)))) (\<lambda>neg.
       Inr (affine_to_projective S neg)))"

definition simulate_poe ::
    "('f, 'p, 'a, 'r) starknet \<Rightarrow> 'p \<Rightarrow> 'p \<Rightarrow> ('p \<times> 'f \<times> 'f) draw" where
  "simulate_poe S y gen w =
     and_then (random_felt S w) (\<lambda>(s, w).
     and_then (random_felt S w) (\<lambda>(c, w).
       let gen_s = mul S s (Some gen);
           y_c = mul S c (Some y)
       in and_then (negate_point S y_c) (\<lambda>neg_y_c.
          let a = add S gen_s neg_y_c
          in Inr ((a, c, s), w))))"

definition prove_bit_0 ::
    "('f, 'p, 'a, 'r) starknet \<Rightarrow> 'f \<Rightarrow> 'p \<Rightarrow> 'p \<Rightarrow> 'f \<Rightarrow> ('p \<times> 'f ProofOfBit) draw" where
  "prove_bit_0 S random g1 g2 prefix w =
     (let v = mul S random (Some g2)
      in and_then (negate_point S g1) (\<lambda>neg_g1.
         let v1 = add S v neg_g1
         in and_then (simulate_poe S v1 g2 w) (\<lambda>((a1, c1, s1), w).
            and_then (random_felt S w) (\<lambda>(k, w).
            let a0 = mul S k (Some g2)
            in and_then (compute_poseidon_challenge S prefix [v, a0, a1]) (\<lambda>c.
               and_then (scalar_sub S c c1) (\<lambda>c0.
               and_then (scalar_mul S c0 random) (\<lambda>c0_random.
               and_then (scalar_add S k c0_random) (\<lambda>s0.
               and_then (try_from_projective S a0) (\<lambda>a0'.
               and_then (try_from_projective S a1) (\<lambda>a1'.
                 Inr ((v, \<lparr>bit_a0 = a0', bit_a1 = a1', bit_c0 = c0, bit_s0 = s0, bit_s1 = s1\<rparr>), w)))))))))))"

definition prove_bit_1 ::
    "('f, 'p, 'a, 'r) starknet \<Rightarrow> 'f \<Rightarrow> 'p \<Rightarrow> 'p \<Rightarrow> 'f \<Rightarrow> ('p \<times> 'f ProofOfBit) draw" where
  "prove_bit_1 S random g1 g2 prefix w =
     (let g2_r = mul S random (Some g2);
          v = add S g1 g2_r
      in and_then (simulate_poe S v g2 w) (\<lambda>((a0, c0, s0), w).
         and_then (random_felt S w) (\<lambda>(k, w).
         let a1 = mul S k (Some g2)
         in and_then (compute_poseidon_challenge S prefix [v, a0, a1]) (\<lambda>c.
            and_then (scalar_sub S c c0) (\<lambda>c1.
            and_then (scalar_mul S c1 random) (\<lambda>c1_random.
            and_then (scalar_add S k c1_random) (\<lambda>s1.
            and_then (try_from_projective S a0) (\<lambda>a0'.
            and_then (try_from_projective S a1) (\<lambda>a1'.
              Inr ((v, \<lparr>bit_a0 = a0', bit_a1 = a1', bit_c0 = c0, bit_s0 = s0, bit_s1 = s1\<rparr>), w))))))))))"

definition bit_prove ::
    "('f, 'p, 'a, 'r) starknet \<Rightarrow> byte \<Rightarrow> 'f \<Rightarrow> 'p \<Rightarrow> 'p \<Rightarrow> 'f \<Rightarrow> ('p \<times> 'f ProofOfBit) draw" where
  "bit_prove S b random g1 g2 prefix w =
     (if b = 0 then prove_bit_0 S random g1 g2 prefix w
      else if b = 1 then prove_bit_1 S random g1 g2 prefix w
      else Inl (CryptoError ''Bit must be 0 or 1''))"

definition bit_verify ::
    "('f, 'p, 'a, 'r) starknet \<Rightarrow> 'p \<Rightarrow> 'p \<Rightarrow> 'p \<Rightarrow> 'f ProofOfBit \<Rightarrow> 'f \<Rightarrow> bool result" where
  "bit_verify S v g1 g2 proof prefix =
     and_then (to_affine S (bit_a0 proof)) (\<lambda>a0.
     and_then (to_affine S (bit_a1 proof)) (\<lambda>a1.
       let a0_proj = affine_to_projective S a0;
           a1_proj = affine_to_projective S a1;
           c0 = bit_c0 proof;
           s0 = bit_s0 proof;
           s1 = bit_s1 proof
       in and_then (compute_poseidon_challenge S prefix [v, a0_proj, a1_proj]) (\<lambda>c.
          and_then (scalar_sub S c c0) (\<lambda>c1.
          and_then (poe_verify_internal S v g2 a0_proj c0 s0) (\<lambda>ok.
          if \<not> ok then Inr False
          else
            and_then (negate_point S g1) (\<lambda>neg_g1.
            let v1 = add S v neg_g1
            in and_then (poe_verify_internal S v1 g2 a1_proj c1 s1) (\<lambda>ok.
               if \<not> ok then Inr False else Inr True)))))))"

section \<open>The simulator and the provers\<close>

text \<open>The second challenge, which the verifier derives from the hash and the first.\<close>

definition bit_c1 ::
    "('f, 'p, 'a, 'r) starknet \<Rightarrow> 'p \<Rightarrow> 'f ProofOfBit \<Rightarrow> 'f \<Rightarrow> 'f result" where
  "bit_c1 S v proof prefix =
     and_then (to_affine S (bit_a0 proof)) (\<lambda>a0.
     and_then (to_affine S (bit_a1 proof)) (\<lambda>a1.
     and_then (compute_poseidon_challenge S prefix
                 [v, affine_to_projective S a0, affine_to_projective S a1]) (\<lambda>c.
       scalar_sub S c (bit_c0 proof))))"

text \<open>
  Two bit proofs for one commitment that share their first messages, with \<open>d\<close> an inverse of the difference of their first
  or of their second challenges, and what is computed from their responses: a bit and the randomness it is committed with.
\<close>

definition challenge_inverse :: "('f, 'p, 'a, 'r) starknet \<Rightarrow> 'f \<Rightarrow> 'f \<Rightarrow> 'f \<Rightarrow> bool" where
  "challenge_inverse S d c c' \<longleftrightarrow> felt_val S (order_mul S d (order_sub S c c')) mod CURVE_ORDER = 1"

definition bit_fork ::
    "('f, 'p, 'a, 'r) starknet \<Rightarrow> 'p \<Rightarrow> 'f ProofOfBit \<Rightarrow> 'f \<Rightarrow> 'f ProofOfBit \<Rightarrow> 'f \<Rightarrow> 'f \<Rightarrow> bool" where
  "bit_fork S v p prefix p' prefix' d =
     (bit_a0 p = bit_a0 p' \<and> bit_a1 p = bit_a1 p' \<and>
      (case (bit_c1 S v p prefix, bit_c1 S v p' prefix') of
         (Inr c1, Inr c1') \<Rightarrow> challenge_inverse S d (bit_c0 p) (bit_c0 p') \<or> challenge_inverse S d c1 c1'
       | _ \<Rightarrow> False))"

definition bit_opening ::
    "('f, 'p, 'a, 'r) starknet \<Rightarrow> 'f ProofOfBit \<Rightarrow> 'f ProofOfBit \<Rightarrow> 'f \<Rightarrow> nat \<times> 'f" where
  "bit_opening S p p' d =
     (if challenge_inverse S d (bit_c0 p) (bit_c0 p')
      then (0, order_mul S d (order_sub S (bit_s0 p) (bit_s0 p')))
      else (1, order_mul S d (order_sub S (bit_s1 p) (bit_s1 p'))))"

context starknet_core
begin

lemma negate_point_zero: "pt p = 0 \<Longrightarrow> negate_point S p = Inl PointAtInfinity"
  by (simp add: negate_point_def projective_to_affine_zero)

lemma negate_point_nonzero:
  assumes "pt p \<noteq> 0"
  obtains q where "negate_point S p = Inr q" and "pt q = - pt p"
proof -
  obtain a where a: "projective_to_affine S p = Inr a" "pt (affine_to_projective S a) = pt p"
    using assms by (rule projective_to_affine_nonzero)
  obtain b where "affine_new S (affine_x S a) (felt_neg S (affine_y S a)) = Inr b"
    and "pt (affine_to_projective S b) = - pt p"
    using affine_negate [of a] a by metis
  then show thesis
    using that by (simp add: negate_point_def a)
qed

lemma negate_point_Inr: "negate_point S p = Inr q \<Longrightarrow> pt p \<noteq> 0 \<and> pt q = - pt p"
  using negate_point_zero [of p] negate_point_nonzero [of p] by (metis Inl_Inr_False Inr_inject)

text \<open>A simulated transcript satisfies the verification equation without a secret.\<close>

lemma simulate_poe_honest:
  assumes "random_felt S w = Inr (s, w1)" and "random_felt S w1 = Inr (c, w2)"
    and "felt_act S c (pt y) \<noteq> 0"
  obtains a where "simulate_poe S y gen w = Inr ((a, c, s), w2)"
    and "pt a = felt_act S s (pt gen) - felt_act S c (pt y)"
proof -
  obtain q where "negate_point S (mul S c (Some y)) = Inr q" and "pt q = - felt_act S c (pt y)"
    using negate_point_nonzero [of "mul S c (Some y)"] assms(3) by auto
  then show thesis
    using that by (simp add: simulate_poe_def assms Let_def)
qed

lemma serialise_pair:
  assumes "pt p \<noteq> 0" and "pt q \<noteq> 0" and "pt v \<noteq> 0"
  obtains a b c where "try_from_projective S p = Inr (from_affine S a)"
    and "try_from_projective S q = Inr (from_affine S b)"
    and "pt (affine_to_projective S a) = pt p" and "pt (affine_to_projective S b) = pt q"
    and "compute_poseidon_challenge S prefix [v, p, q] = Inr c"
    and "compute_poseidon_challenge S prefix [v, affine_to_projective S a, affine_to_projective S b] = Inr c"
proof -
  obtain a b where ab: "try_from_projective S p = Inr (from_affine S a)"
    "pt (affine_to_projective S a) = pt p" "try_from_projective S q = Inr (from_affine S b)"
    "pt (affine_to_projective S b) = pt q"
    using assms try_from_projective_nonzero by metis
  obtain c where "compute_poseidon_challenge S prefix [v, p, q] = Inr c"
    using poseidon_challenge_total [of prefix "[v, p, q]"] assms by auto
  then show thesis
    using that [of a b c] ab poseidon_challenge_cong
      [of "[v, p, q]" "[v, affine_to_projective S a, affine_to_projective S b]" prefix] by simp
qed

text \<open>
  What the verifier makes of a proof whose points are valid and whose two equations hold.
\<close>

lemma bit_verify_equations:
  assumes "pt g1 \<noteq> 0" and "pt v \<noteq> 0"
    and c: "compute_poseidon_challenge S prefix [v, affine_to_projective S a0, affine_to_projective S a1] = Inr c"
    and "felt_act S s0 (pt g2) = pt (affine_to_projective S a0) + felt_act S c0 (pt v)"
    and "felt_act S s1 (pt g2) =
      pt (affine_to_projective S a1) + felt_act S (order_sub S c c0) (pt v - pt g1)"
  shows "bit_verify S v g1 g2
      \<lparr>bit_a0 = from_affine S a0, bit_a1 = from_affine S a1, bit_c0 = c0, bit_s0 = s0, bit_s1 = s1\<rparr> prefix =
    (if felt_act S s0 (pt g2) = 0 \<or> felt_act S s1 (pt g2) = 0 then Inl PointAtInfinity else Inr True)"
proof -
  obtain q where q: "negate_point S g1 = Inr q" "pt q = - pt g1"
    using assms(1) by (rule negate_point_nonzero)
  show ?thesis
    using assms by (auto simp: bit_verify_def Let_def c q poe_verify_internal_eq scalar_results)
qed

lemma prove_bit_0_honest:
  assumes draws: "random_felt S w = Inr (s, w1)" "random_felt S w1 = Inr (c, w2)"
      "random_felt S w2 = Inr (k, w3)"
    and v: "pt v = felt_act S r (pt g2)" "pt v \<noteq> 0" and g1: "pt g1 \<noteq> 0"
    and nonzero: "felt_act S c (pt v - pt g1) \<noteq> 0" "felt_act S k (pt g2) \<noteq> 0"
      "felt_act S s (pt g2) \<noteq> felt_act S c (pt v - pt g1)"
  shows "\<exists>V proof. prove_bit_0 S r g1 g2 prefix w = Inr ((V, proof), w3) \<and> pt V = pt v \<and>
    bit_verify S V g1 g2 proof prefix =
      (if felt_act S (bit_s0 proof) (pt g2) = 0 \<or> felt_act S (bit_s1 proof) (pt g2) = 0
       then Inl PointAtInfinity else Inr True)"
proof -
  define V where "V = mul S r (Some g2)"
  define a0 where "a0 = mul S k (Some g2)"
  have V: "pt V = pt v" by (simp add: V_def v)
  obtain q where q: "negate_point S g1 = Inr q" "pt q = - pt g1"
    using g1 by (rule negate_point_nonzero)
  obtain a1 where a1: "simulate_poe S (add S V q) g2 w = Inr ((a1, c, s), w2)"
    "pt a1 = felt_act S s (pt g2) - felt_act S c (pt v - pt g1)"
    using simulate_poe_honest [OF draws(1,2), of "add S V q" g2] nonzero(1) by (auto simp: q V)
  obtain b0 b1 h where b: "try_from_projective S a0 = Inr (from_affine S b0)"
    "try_from_projective S a1 = Inr (from_affine S b1)"
    "pt (affine_to_projective S b0) = pt a0" "pt (affine_to_projective S b1) = pt a1"
    "compute_poseidon_challenge S prefix [V, a0, a1] = Inr h"
    "compute_poseidon_challenge S prefix [V, affine_to_projective S b0, affine_to_projective S b1] = Inr h"
    using serialise_pair [of a0 a1 V prefix] nonzero(2,3) v(2) a1(2) V by (auto simp: a0_def)
  define c0 where "c0 = order_sub S h c"
  define s0 where "s0 = order_add S k (order_mul S c0 r)"
  have prove: "prove_bit_0 S r g1 g2 prefix w = Inr ((V, \<lparr>bit_a0 = from_affine S b0,
      bit_a1 = from_affine S b1, bit_c0 = c0, bit_s0 = s0, bit_s1 = s\<rparr>), w3)"
    using b(1,2,5) by (simp add: prove_bit_0_def Let_def q a1 draws(3) result_simps c0_def s0_def
        flip: V_def a0_def)
  have "felt_act S s0 (pt g2) = pt (affine_to_projective S b0) + felt_act S c0 (pt V)"
    by (simp add: s0_def response_eq b(3) a0_def V v)
  moreover have "felt_act S s (pt g2) =
      pt (affine_to_projective S b1) + felt_act S (order_sub S h c0) (pt V - pt g1)"
    by (simp add: b(4) a1(2) c0_def act_ssub V)
  ultimately show ?thesis
    using prove V bit_verify_equations [OF g1 _ b(6)] v(2) by simp
qed

lemma prove_bit_1_honest:
  assumes draws: "random_felt S w = Inr (s, w1)" "random_felt S w1 = Inr (c, w2)"
      "random_felt S w2 = Inr (k, w3)"
    and v: "pt v = pt g1 + felt_act S r (pt g2)" "pt v \<noteq> 0" and g1: "pt g1 \<noteq> 0"
    and nonzero: "felt_act S c (pt v) \<noteq> 0" "felt_act S k (pt g2) \<noteq> 0"
      "felt_act S s (pt g2) \<noteq> felt_act S c (pt v)"
  shows "\<exists>V proof. prove_bit_1 S r g1 g2 prefix w = Inr ((V, proof), w3) \<and> pt V = pt v \<and>
    bit_verify S V g1 g2 proof prefix =
      (if felt_act S (bit_s0 proof) (pt g2) = 0 \<or> felt_act S (bit_s1 proof) (pt g2) = 0
       then Inl PointAtInfinity else Inr True)"
proof -
  define V where "V = add S g1 (mul S r (Some g2))"
  define a1 where "a1 = mul S k (Some g2)"
  have V: "pt V = pt v" by (simp add: V_def v)
  obtain a0 where a0: "simulate_poe S V g2 w = Inr ((a0, c, s), w2)"
    "pt a0 = felt_act S s (pt g2) - felt_act S c (pt v)"
    using simulate_poe_honest [OF draws(1,2), of V g2] nonzero(1) by (auto simp: V)
  obtain b0 b1 h where b: "try_from_projective S a0 = Inr (from_affine S b0)"
    "try_from_projective S a1 = Inr (from_affine S b1)"
    "pt (affine_to_projective S b0) = pt a0" "pt (affine_to_projective S b1) = pt a1"
    "compute_poseidon_challenge S prefix [V, a0, a1] = Inr h"
    "compute_poseidon_challenge S prefix [V, affine_to_projective S b0, affine_to_projective S b1] = Inr h"
    using serialise_pair [of a0 a1 V prefix] nonzero(2,3) v(2) a0(2) V by (auto simp: a1_def)
  define c1 where "c1 = order_sub S h c"
  define s1 where "s1 = order_add S k (order_mul S c1 r)"
  have prove: "prove_bit_1 S r g1 g2 prefix w = Inr ((V, \<lparr>bit_a0 = from_affine S b0,
      bit_a1 = from_affine S b1, bit_c0 = c, bit_s0 = s, bit_s1 = s1\<rparr>), w3)"
    using b(1,2,5) by (simp add: prove_bit_1_def Let_def a0 draws(3) result_simps c1_def s1_def
        flip: V_def a1_def)
  have "felt_act S s (pt g2) = pt (affine_to_projective S b0) + felt_act S c (pt V)"
    by (simp add: b(3) a0(2) V)
  moreover have "felt_act S s1 (pt g2) =
      pt (affine_to_projective S b1) + felt_act S (order_sub S h c) (pt V - pt g1)"
    by (simp add: s1_def response_eq b(4) a1_def V v flip: c1_def)
  ultimately show ?thesis
    using prove V bit_verify_equations [OF g1 _ b(6)] v(2) by simp
qed

lemma bit_prove_honest:
  assumes draws: "random_felt S w = Inr (s, w1)" "random_felt S w1 = Inr (c, w2)"
      "random_felt S w2 = Inr (k, w3)"
    and b: "b = 0 \<or> b = 1"
    and X: "X = nsmul (unat b) (pt g1) + felt_act S r (pt g2)"
    and Y: "Y = (if b = 0 then X - pt g1 else X)"
    and nonzero: "pt g1 \<noteq> 0" "X \<noteq> 0" "felt_act S c Y \<noteq> 0" "felt_act S k (pt g2) \<noteq> 0"
      "felt_act S s (pt g2) \<noteq> felt_act S c Y"
  shows "\<exists>V proof. bit_prove S b r g1 g2 prefix w = Inr ((V, proof), w3) \<and> pt V = X \<and>
    bit_verify S V g1 g2 proof prefix =
      (if felt_act S (bit_s0 proof) (pt g2) = 0 \<or> felt_act S (bit_s1 proof) (pt g2) = 0
       then Inl PointAtInfinity else Inr True)"
proof (cases "b = 0")
  case True
  then show ?thesis
    using prove_bit_0_honest [OF draws, of "mul S r (Some g2)" r g2 g1 prefix] nonzero X Y
    by (simp add: bit_prove_def)
next
  case False
  then show ?thesis
    using prove_bit_1_honest [OF draws, of "add S g1 (mul S r (Some g2))" g1 r g2 prefix] nonzero X Y b
    by (simp add: bit_prove_def)
qed

lemma bit_prove_pt:
  assumes "bit_prove S b r g1 g2 prefix w = Inr ((V, proof), w')"
  shows "b \<in> {0, 1} \<and> pt V = nsmul (unat b) (pt g1) + felt_act S r (pt g2)"
  using assms
  by (auto simp: bit_prove_def prove_bit_0_def prove_bit_1_def Let_def result_iffs split: if_splits)

text \<open>Every proof the prover returns, and not only some, is one the verifier accepts.\<close>

lemma simulate_poe_Inr:
  assumes "simulate_poe S y gen w = Inr ((a, c, s), w')"
  obtains w1 where "random_felt S w = Inr (s, w1)" and "random_felt S w1 = Inr (c, w')"
    and "felt_act S c (pt y) \<noteq> 0" and "pt a = felt_act S s (pt gen) - felt_act S c (pt y)"
  using assms by (auto simp: simulate_poe_def Let_def result_iffs dest!: negate_point_Inr)

lemma poseidon_challenge_nonzero:
  "compute_poseidon_challenge S prefix ps = Inr c \<Longrightarrow> p \<in> set ps \<Longrightarrow> pt p \<noteq> 0"
  using poseidon_challenge_total [of prefix ps] by blast

lemma prove_bit_0_draws:
  assumes "prove_bit_0 S r g1 g2 prefix w = Inr ((V, proof), w')"
  obtains s w1 c w2 k where "random_felt S w = Inr (s, w1)" and "random_felt S w1 = Inr (c, w2)"
    and "random_felt S w2 = Inr (k, w')" and "pt g1 \<noteq> 0" and "felt_act S r (pt g2) \<noteq> 0"
    and "felt_act S c (felt_act S r (pt g2) - pt g1) \<noteq> 0" and "felt_act S k (pt g2) \<noteq> 0"
    and "felt_act S s (pt g2) \<noteq> felt_act S c (felt_act S r (pt g2) - pt g1)"
proof -
  obtain q a1 c1 s1 w2 k c where q: "negate_point S g1 = Inr q"
    and sim: "simulate_poe S (add S (mul S r (Some g2)) q) g2 w = Inr ((a1, c1, s1), w2)"
    and k: "random_felt S w2 = Inr (k, w')"
    and c: "compute_poseidon_challenge S prefix [mul S r (Some g2), mul S k (Some g2), a1] = Inr c"
    using assms by (auto simp: prove_bit_0_def Let_def result_iffs)
  have "pt (mul S r (Some g2)) \<noteq> 0" "pt (mul S k (Some g2)) \<noteq> 0" "pt a1 \<noteq> 0"
    by (rule poseidon_challenge_nonzero [OF c], simp)+
  moreover obtain w1 where "random_felt S w = Inr (s1, w1)" "random_felt S w1 = Inr (c1, w2)"
    "felt_act S c1 (pt (add S (mul S r (Some g2)) q)) \<noteq> 0"
    "pt a1 = felt_act S s1 (pt g2) - felt_act S c1 (pt (add S (mul S r (Some g2)) q))"
    by (rule simulate_poe_Inr [OF sim])
  ultimately show thesis
    using that [of s1 w1 c1 w2 k] k negate_point_Inr [OF q] by simp
qed

lemma prove_bit_1_draws:
  assumes "prove_bit_1 S r g1 g2 prefix w = Inr ((V, proof), w')"
  obtains s w1 c w2 k where "random_felt S w = Inr (s, w1)" and "random_felt S w1 = Inr (c, w2)"
    and "random_felt S w2 = Inr (k, w')" and "pt g1 + felt_act S r (pt g2) \<noteq> 0"
    and "felt_act S c (pt g1 + felt_act S r (pt g2)) \<noteq> 0" and "felt_act S k (pt g2) \<noteq> 0"
    and "felt_act S s (pt g2) \<noteq> felt_act S c (pt g1 + felt_act S r (pt g2))"
proof -
  define V1 where "V1 = add S g1 (mul S r (Some g2))"
  obtain a0 c0 s0 w2 k c where sim: "simulate_poe S V1 g2 w = Inr ((a0, c0, s0), w2)"
    and k: "random_felt S w2 = Inr (k, w')"
    and c: "compute_poseidon_challenge S prefix [V1, a0, mul S k (Some g2)] = Inr c"
    using assms by (auto simp: prove_bit_1_def Let_def result_iffs V1_def)
  have "pt V1 \<noteq> 0" "pt (mul S k (Some g2)) \<noteq> 0" "pt a0 \<noteq> 0"
    by (rule poseidon_challenge_nonzero [OF c], simp)+
  moreover obtain w1 where "random_felt S w = Inr (s0, w1)" "random_felt S w1 = Inr (c0, w2)"
    "felt_act S c0 (pt V1) \<noteq> 0" "pt a0 = felt_act S s0 (pt g2) - felt_act S c0 (pt V1)"
    by (rule simulate_poe_Inr [OF sim])
  ultimately show thesis
    using that [of s0 w1 c0 w2 k] k by (simp add: V1_def)
qed

lemma bit_prove_verify:
  assumes "bit_prove S b r g1 g2 prefix w = Inr ((V, proof), w')" and "pt g1 \<noteq> 0"
  shows "bit_verify S V g1 g2 proof prefix =
      (if felt_act S (bit_s0 proof) (pt g2) = 0 \<or> felt_act S (bit_s1 proof) (pt g2) = 0
       then Inl PointAtInfinity else Inr True)"
proof (cases "b = 0")
  case True
  then have prove: "prove_bit_0 S r g1 g2 prefix w = Inr ((V, proof), w')"
    using assms(1) by (simp add: bit_prove_def)
  obtain s w1 c w2 k where d:
    "random_felt S w = Inr (s, w1)" "random_felt S w1 = Inr (c, w2)" "random_felt S w2 = Inr (k, w')"
    and nz: "pt g1 \<noteq> 0" "felt_act S r (pt g2) \<noteq> 0" "felt_act S c (felt_act S r (pt g2) - pt g1) \<noteq> 0"
    "felt_act S k (pt g2) \<noteq> 0" "felt_act S s (pt g2) \<noteq> felt_act S c (felt_act S r (pt g2) - pt g1)"
    by (rule prove_bit_0_draws [OF prove])
  show ?thesis
    using prove_bit_0_honest [OF d, of "mul S r (Some g2)" r g2 g1 prefix] nz prove
    by (auto simp only: pt_mul Inr_inject prod.inject)
next
  case False
  then have prove: "prove_bit_1 S r g1 g2 prefix w = Inr ((V, proof), w')"
    using assms(1) by (simp add: bit_prove_def split: if_splits)
  obtain s w1 c w2 k where d:
    "random_felt S w = Inr (s, w1)" "random_felt S w1 = Inr (c, w2)" "random_felt S w2 = Inr (k, w')"
    and nz: "pt g1 + felt_act S r (pt g2) \<noteq> 0" "felt_act S c (pt g1 + felt_act S r (pt g2)) \<noteq> 0"
    "felt_act S k (pt g2) \<noteq> 0" "felt_act S s (pt g2) \<noteq> felt_act S c (pt g1 + felt_act S r (pt g2))"
    by (rule prove_bit_1_draws [OF prove])
  show ?thesis
    using prove_bit_1_honest [OF d, of "add S g1 (mul S r (Some g2))" g1 r g2 prefix] nz prove assms(2)
    by (auto simp only: pt_mul pt_add Inr_inject prod.inject)
qed

lemma bit_verify_cong:
  assumes "pt v = pt v'"
  shows "bit_verify S v g1 g2 proof prefix = bit_verify S v' g1 g2 proof prefix"
proof -
  have "compute_poseidon_challenge S prefix [v, a, b] = compute_poseidon_challenge S prefix [v', a, b]"
    for a b
    by (rule poseidon_challenge_cong) (simp add: assms)
  moreover have "poe_verify_internal S v = poe_verify_internal S v'"
    "poe_verify_internal S (add S v q) = poe_verify_internal S (add S v' q)" for q
    by (intro ext; simp add: poe_verify_internal_eq assms)+
  ultimately show ?thesis
    by (simp only: bit_verify_def Let_def)
qed

lemma bit_prove_nonzero:
  "bit_prove S b r g1 g2 prefix w = Inr ((V, proof), w') \<Longrightarrow> pt V \<noteq> 0"
proof -
  assume "bit_prove S b r g1 g2 prefix w = Inr ((V, proof), w')"
  then have "\<exists>a0 a1 c. compute_poseidon_challenge S prefix [V, a0, a1] = Inr c"
    by (auto simp: bit_prove_def prove_bit_0_def prove_bit_1_def Let_def result_iffs split: if_splits)
  then obtain a0 a1 c where "compute_poseidon_challenge S prefix [V, a0, a1] = Inr c"
    by blast
  then show "pt V \<noteq> 0"
    by (rule poseidon_challenge_nonzero) simp
qed

lemma bit_verify_True:
  assumes "bit_verify S v g1 g2 proof prefix = Inr True"
  obtains a0 a1 c1 where "to_affine S (bit_a0 proof) = Inr a0" and "to_affine S (bit_a1 proof) = Inr a1"
    and "bit_c1 S v proof prefix = Inr c1"
    and "felt_act S (bit_s0 proof) (pt g2) = pt (affine_to_projective S a0) + felt_act S (bit_c0 proof) (pt v)"
    and "felt_act S (bit_s1 proof) (pt g2) = pt (affine_to_projective S a1) + felt_act S c1 (pt v - pt g1)"
  using assms
  by (auto simp: bit_verify_def bit_c1_def Let_def result_iffs poe_verify_internal_eq scalar_results
      dest!: negate_point_Inr split: if_splits)

lemma bit_extract:
  assumes "bit_verify S v g1 g2 proof prefix = Inr True" and "bit_verify S v g1 g2 proof' prefix' = Inr True"
    and "bit_fork S v proof prefix proof' prefix' d" and br: "bit_opening S proof proof' d = (b, r)"
  shows "(b = 0 \<or> b = 1) \<and> pt v = nsmul b (pt g1) + felt_act S r (pt g2)"
proof -
  obtain c1 c1' where c1: "bit_c1 S v proof prefix = Inr c1" "bit_c1 S v proof' prefix' = Inr c1'"
    and fork: "challenge_inverse S d (bit_c0 proof) (bit_c0 proof') \<or> challenge_inverse S d c1 c1'"
    and same: "bit_a0 proof = bit_a0 proof'" "bit_a1 proof = bit_a1 proof'"
    using assms(3) by (auto simp: bit_fork_def split: sum.splits)
  obtain a0 a1 where eqs:
    "felt_act S (bit_s0 proof) (pt g2) = pt (affine_to_projective S a0) + felt_act S (bit_c0 proof) (pt v)"
    "felt_act S (bit_s0 proof') (pt g2) = pt (affine_to_projective S a0) + felt_act S (bit_c0 proof') (pt v)"
    "felt_act S (bit_s1 proof) (pt g2) = pt (affine_to_projective S a1) + felt_act S c1 (pt v - pt g1)"
    "felt_act S (bit_s1 proof') (pt g2) = pt (affine_to_projective S a1) + felt_act S c1' (pt v - pt g1)"
    using bit_verify_True [OF assms(1)] bit_verify_True [OF assms(2)] c1 same by (metis Inr_inject)
  show ?thesis
  proof (cases "challenge_inverse S d (bit_c0 proof) (bit_c0 proof')")
    case True
    then show ?thesis
      using extract_one [OF eqs(1,2) felt_act_unit] br by (auto simp: bit_opening_def challenge_inverse_def)
  next
    case False
    then have "challenge_inverse S d c1 c1'" using fork by simp
    then have "felt_val S (order_mul S d (order_sub S c1 c1')) mod CURVE_ORDER = 1" by (simp only: challenge_inverse_def)
    from extract_one [OF eqs(3,4) felt_act_unit [OF this]]
    have "pt v = pt g1 + felt_act S (order_mul S d (order_sub S (bit_s1 proof) (bit_s1 proof'))) (pt g2)"
      by (simp add: diff_eq_eq add.commute)
    with br False show ?thesis by (auto simp: bit_opening_def)
  qed
qed

end

lemma dlog_negate_point:
  assumes "k mod CURVE_ORDER \<noteq> 0"
  shows "negate_point stark_dlog (zgrp_of k) = Inr (zgrp_of (CURVE_ORDER - k mod CURVE_ORDER))"
proof -
  have "zgrp_of k \<noteq> 0" using assms by (simp add: dlog_group)
  then obtain q where "negate_point stark_dlog (zgrp_of k) = Inr q" and "q = - zgrp_of k"
    by (rule dlog.negate_point_nonzero)
  moreover have "- zgrp_of k = zgrp_of (CURVE_ORDER - k mod CURVE_ORDER)"
    by (simp add: zgrp_eq_iff uminus_zgrp.rep_eq Rep_zgrp_of)
  ultimately show ?thesis by simp
qed

section \<open>Properties\<close>

text \<open>
  Completeness of the bit proof, for both bits. With the simulated response \<open>s\<close>, the simulated
  challenge \<open>c\<close> and the nonce \<open>k\<close> drawn in that order, \<open>prove\<close> returns the commitment
  \<open>X = g1^b * g2^r\<close> and a proof that \<open>verify\<close> accepts, as long as the random values do not hit the
  identity; a response that does is reported by \<open>verify\<close> as the point at infinity.
\<close>

theorem bit_completeness:
  assumes "starknet_core S pt"
    and "random_felt S w = Inr (s, w1)" and "random_felt S w1 = Inr (c, w2)"
    and "random_felt S w2 = Inr (k, w3)"
    and "b = 0 \<or> b = 1"
    and "X = nsmul (unat b) (pt g1) + felt_act S r (pt g2)"
    and "Y = (if b = 0 then X - pt g1 else X)"
    and "pt g1 \<noteq> 0" and "X \<noteq> 0" and "felt_act S c Y \<noteq> 0" and "felt_act S k (pt g2) \<noteq> 0"
    and "felt_act S s (pt g2) \<noteq> felt_act S c Y"
  shows "\<exists>V proof. bit_prove S b r g1 g2 prefix w = Inr ((V, proof), w3) \<and> pt V = X \<and>
    bit_verify S V g1 g2 proof prefix =
      (if felt_act S (bit_s0 proof) (pt g2) = 0 \<or> felt_act S (bit_s1 proof) (pt g2) = 0
       then Inl PointAtInfinity else Inr True)"
  by (rule starknet_core.bit_prove_honest [OF assms])

theorem bit_completeness_witness:
  "\<exists>V proof. bit_prove stark_dlog 0 (zfelt_of 9) (zgrp_of 1) (zgrp_of 2) (zfelt_of 7) (os_rng 2) =
     Inr ((V, proof), os_rng 5) \<and> V = zgrp_of 18"
  using bit_completeness [OF dlog.starknet_core_axioms, of "os_rng 2" "zfelt_of 3" "os_rng 3" "zfelt_of 4"
      "os_rng 4" "zfelt_of 5" "os_rng 5" 0 "zgrp_of 18" "zgrp_of 1" "zfelt_of 9" "zgrp_of 2" "zgrp_of 17" "zfelt_of 7"]
  by (simp add: dlog_num) blast

text \<open>
  C9. Special soundness of the bit proof, with its extractor. Let two accepted proofs have the same commitments, and let
  \<open>d\<close> invert the difference of their first or of their second challenges. Then the bit and the randomness that
  \<open>bit_opening\<close> computes from the responses (0 from the first branch if that one forks, and 1 from the second otherwise)
  open the commitment: who can answer two such challenges can compute an opening to 0 or to 1.
\<close>

theorem bit_special_soundness:
  assumes "starknet_core S pt"
    and "bit_verify S v g1 g2 proof prefix = Inr True"
    and "bit_verify S v g1 g2 proof' prefix' = Inr True"
    and "bit_fork S v proof prefix proof' prefix' d"
    and "bit_opening S proof proof' d = (b, r)"
  shows "(b = 0 \<or> b = 1) \<and> pt v = nsmul b (pt g1) + felt_act S r (pt g2)"
  by (rule starknet_core.bit_extract [OF assms])

text \<open>
  In the witness \<open>g1 = G\<close>, \<open>g2 = G^2\<close> and \<open>v = g1 * g2^3\<close>; the commitments are \<open>A0 = G^10\<close> and
  \<open>A1 = G^12\<close>, and the second transcript answers a hash larger by one. The opening is 1 with randomness 3.
\<close>

theorem bit_special_soundness_witness:
  "\<exists>b r. (b, r) = (1, zfelt_of 3) \<and> zgrp_of 7 = nsmul b (zgrp_of 1) + felt_act stark_dlog r (zgrp_of 2)"
  using bit_special_soundness [OF dlog.starknet_core_axioms, of "zgrp_of 7" "zgrp_of 1" "zgrp_of 2"
      "\<lparr>bit_a0 = from_affine stark_dlog (Abs_zaff (zgrp_of 10)),
        bit_a1 = from_affine stark_dlog (Abs_zaff (zgrp_of 12)),
        bit_c0 = zfelt_of 2, bit_s0 = zfelt_of 12, bit_s1 = zfelt_of 15\<rparr>" "zfelt_of 5"
      "\<lparr>bit_a0 = from_affine stark_dlog (Abs_zaff (zgrp_of 10)),
        bit_a1 = from_affine stark_dlog (Abs_zaff (zgrp_of 12)),
        bit_c0 = zfelt_of 2, bit_s0 = zfelt_of 12, bit_s1 = zfelt_of 12\<rparr>" "zfelt_of 4"
      "zfelt_of 1" 1 "zfelt_of 3"]
  by (simp add: bit_verify_def bit_c1_def bit_fork_def bit_opening_def challenge_inverse_def Let_def poe_verify_internal_def
      projective_to_affine_def compute_poseidon_challenge_def scalar_results dlog_num dlog_negate_point)

end
