(* ===== verification/Range_Proof.thy ===== *)
theory Range_Proof
  imports Bit_Proof
begin

text \<open>
  \<open>crates/crypto/src/range.rs\<close>: the proof that a value lies below \<open>2 ^ bit_size\<close>, as one bit proof
  per binary digit and a weighted sum of the commitments. The model is the build without the
  \<open>parallel\<close> feature, whose bit proofs are made in order; the bit proofs of the parallel build are the
  same calls in an unspecified order.
\<close>

section \<open>The model\<close>

text \<open>\<open>1u128 << i\<close>; the crate is compiled with overflow checks.\<close>

definition shl_one_u128 :: "nat \<Rightarrow> u128 result" where
  "shl_one_u128 i =
     (if i < 128 then Inr (push_bit i 1) else Inl (Panic ''attempt to shift left with overflow''))"

fun total_randomness_loop ::
    "('f, 'p, 'a, 'r) starknet \<Rightarrow> 'f \<Rightarrow> (nat \<times> 'f) list \<Rightarrow> 'f result" where
  "total_randomness_loop S r [] = Inr r"
| "total_randomness_loop S r ((i, r_inn) # rest) =
     and_then (shl_one_u128 i) (\<lambda>shifted.
     let pow = felt_from S (unat shifted)
     in and_then (scalar_mul S pow r_inn) (\<lambda>r_inn_pow.
        and_then (scalar_add S r r_inn_pow) (\<lambda>r.
          total_randomness_loop S r rest)))"

definition compute_total_randomness :: "('f, 'p, 'a, 'r) starknet \<Rightarrow> 'f list \<Rightarrow> 'f result" where
  "compute_total_randomness S random_values =
     (if length random_values > 128 then
        Inl (CryptoError (''random_values length '' @ show_nat (length random_values) @
                          '' exceeds maximum 128''))
      else total_randomness_loop S (felt_zero S) (enumerate 0 random_values))"

fun prove_bits ::
    "('f, 'p, 'a, 'r) starknet \<Rightarrow> byte list \<Rightarrow> 'f list \<Rightarrow> 'p \<Rightarrow> 'p \<Rightarrow> 'f \<Rightarrow> nat list
      \<Rightarrow> ('p \<times> 'f ProofOfBit \<times> 'f) list draw" where
  "prove_bits S b_bin random_values g1 g2 initial_prefix [] w = Inr ([], w)"
| "prove_bits S b_bin random_values g1 g2 initial_prefix (i # is) w =
     (let b = b_bin ! i;
          r_inn = random_values ! i;
          prefix = felt_add S initial_prefix (felt_from S i)
      in and_then (bit_prove S b r_inn g1 g2 prefix w) (\<lambda>((v, proof), w).
         and_then (prove_bits S b_bin random_values g1 g2 initial_prefix is w) (\<lambda>(rest, w).
           Inr ((v, proof, r_inn) # rest, w))))"

fun range_accumulate ::
    "('f, 'p, 'a, 'r) starknet \<Rightarrow> 'f \<Rightarrow> (nat \<times> 'p \<times> 'f ProofOfBit \<times> 'f) list
      \<Rightarrow> ('f SerializablePoint list \<times> 'f ProofOfBit list \<times> 'f) result" where
  "range_accumulate S r [] = Inr ([], [], r)"
| "range_accumulate S r ((i, v, proof, r_inn) # rest) =
     and_then (shl_one_u128 i) (\<lambda>shifted.
     let pow = felt_from S (unat shifted)
     in and_then (try_from_projective S v) (\<lambda>commitment.
        and_then (scalar_mul S pow r_inn) (\<lambda>r_inn_pow.
        and_then (scalar_add S r r_inn_pow) (\<lambda>r.
        and_then (range_accumulate S r rest) (\<lambda>(commitments, proofs, r).
          Inr (commitment # commitments, proof # proofs, r))))))"

definition range_bits :: "u128 \<Rightarrow> nat \<Rightarrow> byte list" where
  "range_bits b bit_size = map (\<lambda>i. ucast (drop_bit i b AND 1)) [0..<bit_size]"

definition range_max_value :: "nat \<Rightarrow> u128" where
  "range_max_value bit_size = (if bit_size = 128 then - 1 else push_bit bit_size 1 - 1)"

definition prove_with_randomness ::
    "('f, 'p, 'a, 'r) starknet \<Rightarrow> u128 \<Rightarrow> nat \<Rightarrow> 'p \<Rightarrow> 'p \<Rightarrow> 'f \<Rightarrow> 'f list \<Rightarrow> ('f Range \<times> 'f) draw" where
  "prove_with_randomness S b bit_size g1 g2 initial_prefix random_values w =
     (if bit_size > 128 then
        Inl (CryptoError (''bit_size '' @ show_nat bit_size @ '' exceeds maximum 128''))
      else if length random_values \<noteq> bit_size then
        Inl (CryptoError (''random_values length '' @ show_nat (length random_values) @
                          '' != bit_size '' @ show_nat bit_size))
      else if b > range_max_value bit_size then
        Inl (CryptoError (''Value '' @ show_nat (unat b) @ '' is not in range [0, '' @
                          show_nat (unat (range_max_value bit_size)) @ '']''))
      else
        let b_bin = range_bits b bit_size
        in and_then (prove_bits S b_bin random_values g1 g2 initial_prefix [0..<bit_size] w)
             (\<lambda>(bit_results, w).
           and_then (range_accumulate S (felt_zero S) (enumerate 0 bit_results))
             (\<lambda>(commitments, proofs, r).
               Inr ((\<lparr>rg_commitments = commitments, rg_proofs = proofs\<rparr>, r), w))))"

definition range_prove ::
    "('f, 'p, 'a, 'r) starknet \<Rightarrow> u128 \<Rightarrow> nat \<Rightarrow> 'p \<Rightarrow> 'p \<Rightarrow> 'f \<Rightarrow> ('f Range \<times> 'f) draw" where
  "range_prove S b bit_size g1 g2 initial_prefix w =
     and_then (random_felts S bit_size w) (\<lambda>(random_values, w).
       prove_with_randomness S b bit_size g1 g2 initial_prefix random_values w)"

fun range_verify_loop ::
    "('f, 'p, 'a, 'r) starknet \<Rightarrow> 'f Range \<Rightarrow> 'p \<Rightarrow> 'p \<Rightarrow> 'f \<Rightarrow> nat list \<Rightarrow> 'p \<Rightarrow> 'p result" where
  "range_verify_loop S rp g1 g2 initial_prefix [] v_total = Inr v_total"
| "range_verify_loop S rp g1 g2 initial_prefix (i # is) v_total =
     and_then (shl_one_u128 i) (\<lambda>shifted.
     let pow = felt_from S (unat shifted)
     in and_then (to_affine S (rg_commitments rp ! i)) (\<lambda>v_commitment.
        let v = affine_to_projective S v_commitment;
            prefix = felt_add S initial_prefix (felt_from S i)
        in and_then (bit_verify S v g1 g2 (rg_proofs rp ! i) prefix) (\<lambda>ok.
           if \<not> ok then Inl (CryptoError (''Bit proof failed at index '' @ show_nat i))
           else
             let v_pow = mul S pow (Some v)
             in range_verify_loop S rp g1 g2 initial_prefix is (add S v_total v_pow))))"

definition range_verify ::
    "('f, 'p, 'a, 'r) starknet \<Rightarrow> 'f Range \<Rightarrow> nat \<Rightarrow> 'p \<Rightarrow> 'p \<Rightarrow> 'f \<Rightarrow> 'p result" where
  "range_verify S rp bit_size g1 g2 initial_prefix =
     (if length (rg_commitments rp) \<noteq> bit_size \<or> length (rg_proofs rp) \<noteq> bit_size then
        Inl (CryptoError (''Length mismatch: commitments='' @ show_nat (length (rg_commitments rp)) @
             '', proofs='' @ show_nat (length (rg_proofs rp)) @ '', bit_size='' @ show_nat bit_size))
      else if rg_commitments rp = [] then
        Inl (Panic ''index out of bounds: the len is 0 but the index is 0'')
      else
        and_then (to_affine S (rg_commitments rp ! 0)) (\<lambda>v0_commitment.
        let v0 = affine_to_projective S v0_commitment
        in and_then (bit_verify S v0 g1 g2 (rg_proofs rp ! 0) initial_prefix) (\<lambda>ok.
           if \<not> ok then Inl (CryptoError ''Bit proof failed at index 0'')
           else range_verify_loop S rp g1 g2 initial_prefix [1..<bit_size] v0)))"

section \<open>Binary digits and weighted sums\<close>

lemma take_bit_unsigned: "take_bit LENGTH('w) (unat w) = unat (w :: 'w :: len word)"
  by (rule take_bit_nat_eq_self) (rule unsigned_less)

lemma range_bits_nth: "i < n \<Longrightarrow> unat (range_bits b n ! i) = unat b div 2 ^ i mod 2"
proof -
  assume "i < n"
  have "unat (drop_bit i b AND 1) = unat b div 2 ^ i mod 2"
  proof -
    have "unat (drop_bit i b AND 1) = drop_bit i (unat b) AND 1"
      by (simp only: unsigned_and_eq unsigned_drop_bit_eq unsigned_1 take_bit_unsigned)
    then show ?thesis by (simp add: and_one_eq drop_bit_eq_div)
  qed
  then show ?thesis
    using \<open>i < n\<close> by (simp add: range_bits_def unsigned_ucast_eq take_bit_nat_eq_self)
qed

lemma digits_sum: "(\<Sum>i\<leftarrow>[0..<n]. m div 2 ^ i mod 2 * 2 ^ i) = m mod (2 ^ n :: nat)"
proof (induction n)
  case (Suc n)
  have "m mod 2 ^ Suc n = m mod 2 ^ n + m div 2 ^ n mod 2 * 2 ^ n"
    by (simp only: power_Suc2 mod_mult2_eq) (simp add: mult.commute)
  with Suc show ?case by simp
qed simp

lemma unat_shl_one: "i < 128 \<Longrightarrow> unat (push_bit i 1 :: u128) = 2 ^ i"
proof -
  assume "i < 128"
  then have "(2 :: nat) ^ i < 2 ^ 128" by (intro power_strict_increasing) simp_all
  moreover have "(push_bit i 1 :: u128) = of_nat (2 ^ i)" by simp
  ultimately show ?thesis by (simp only: unat_of_nat) simp
qed

text \<open>The power as the simplifier writes it.\<close>

lemmas unat_two_power = unat_shl_one [simplified]

lemma unat_range_max_value:
  assumes "bit_size \<le> 128"
  shows "unat (range_max_value bit_size) = 2 ^ bit_size - 1"
proof (cases "bit_size = 128")
  case True
  then show ?thesis
    by (simp add: range_max_value_def unsigned_minus_1_eq_mask mask_eq_exp_minus_1)
next
  case False
  then have "bit_size < 128" using assms by simp
  then have u: "unat (push_bit bit_size 1 :: u128) = 2 ^ bit_size" by (rule unat_shl_one)
  then have nz: "(push_bit bit_size 1 :: u128) \<noteq> 0"
    by (metis power_eq_0_iff unsigned_0 zero_neq_numeral)
  have "unat (push_bit bit_size 1 - 1 :: u128) = 2 ^ bit_size - 1"
    using unat_minus_one [OF nz] by (simp only: u)
  then show ?thesis
    using False by (simp only: range_max_value_def if_False)
qed

lemma range_guard:
  "bit_size \<le> 128 \<Longrightarrow> b > range_max_value bit_size \<longleftrightarrow> 2 ^ bit_size \<le> unat b"
proof -
  assume "bit_size \<le> 128"
  then have "b > range_max_value bit_size \<longleftrightarrow> 2 ^ bit_size - 1 < unat b"
    by (simp only: word_less_nat_alt unat_range_max_value)
  moreover have "(0 :: nat) < 2 ^ bit_size" by simp
  ultimately show ?thesis by linarith
qed

context starknet_core
begin

lemma act_pow: "i < 128 \<Longrightarrow> felt_act S (felt_from S (unat (push_bit i 1 :: u128))) (x :: 'g) = nsmul (2 ^ i) x"
proof -
  assume i: "i < 128"
  then have "(2 :: nat) ^ i < 2 ^ 128" by (intro power_strict_increasing) simp_all
  then show ?thesis
    by (simp only: unat_shl_one [OF i] felt_act_from less_PRIME_128)
qed

lemmas act_two_power = act_pow [simplified]

lemma nsmul_act: "nsmul k (felt_act S r x) = felt_act S r (nsmul k (x :: 'g))"
  by (simp add: felt_act_def nsmul_mult [symmetric] mult.commute)

section \<open>The prover\<close>

text \<open>
  The accumulation keeps the commitments and proofs in order, and its randomness is that of
  \<open>compute_total_randomness\<close>.
\<close>

lemma range_accumulate_Inr:
  assumes "range_accumulate S r xs = Inr (cms, pfs, r')"
  shows "list_all2 (\<lambda>(i, v, proof, r_inn) cm. i < 128 \<and> try_from_projective S v = Inr cm) xs cms"
    and "pfs = map (\<lambda>(i, v, proof, r_inn). proof) xs"
    and "total_randomness_loop S r (map (\<lambda>(i, v, proof, r_inn). (i, r_inn)) xs) = Inr r'"
  using assms
  by (induction xs arbitrary: r cms pfs)
    (auto simp: result_iffs Let_def shl_one_u128_def scalar_results split: if_splits)

lemma total_randomness_loop_act:
  assumes "total_randomness_loop S r xs = Inr r'"
  shows "felt_act S r' (x :: 'g) = felt_act S r x + (\<Sum>(i, r_inn)\<leftarrow>xs. nsmul (2 ^ i) (felt_act S r_inn x))"
  using assms
  by (induction xs arbitrary: r)
    (auto simp: result_iffs Let_def shl_one_u128_def scalar_results act_simps act_two_power nsmul_act algebra_simps
      split: if_splits)

lemma prove_bits_Inr:
  assumes "prove_bits S b_bin rs g1 g2 initial_prefix is w = Inr (xs, w')"
  shows "list_all2 (\<lambda>i (v, proof, r_inn). r_inn = rs ! i \<and>
      (\<exists>w w'. bit_prove S (b_bin ! i) (rs ! i) g1 g2 (felt_add S initial_prefix (felt_from S i)) w =
        Inr ((v, proof), w'))) is xs"
  using assms by (induction "is" arbitrary: w xs) (auto simp: result_iffs Let_def)

lemma felt_add_zero [simp]: "felt_add S f (felt_zero S) = f"
  by (rule iffD1 [OF felt_val_inj]) (simp add: felt_val_add felt_val_from felt_val_less)

lemma enumerate_map_pair: "map (\<lambda>(i, v, p, r). (i, r)) (enumerate k xs) = enumerate k (map (\<lambda>(v, p, r). r) xs)"
  by (induction xs arbitrary: k) auto

text \<open>What a successful call of the prover returns, index by index.\<close>

lemma prove_with_randomness_Inr:
  assumes "prove_with_randomness S b n g1 g2 prefix rs w = Inr ((rp, r), w')"
  shows "n \<le> 128" and "length rs = n" and "unat b < 2 ^ n"
    and "length (rg_commitments rp) = n" and "length (rg_proofs rp) = n"
    and "total_randomness_loop S (felt_zero S) (enumerate 0 rs) = Inr r"
    and "i < n \<Longrightarrow> \<exists>v w w'. bit_prove S (range_bits b n ! i) (rs ! i) g1 g2
      (felt_add S prefix (felt_from S i)) w = Inr ((v, rg_proofs rp ! i), w') \<and>
      try_from_projective S v = Inr (rg_commitments rp ! i)"
proof -
  show n: "n \<le> 128" and rs: "length rs = n"
    using assms by (auto simp: prove_with_randomness_def split: if_splits)
  show "unat b < 2 ^ n"
    using assms range_guard [OF n, of b] by (auto simp: prove_with_randomness_def split: if_splits)
  obtain xs w1 where xs: "prove_bits S (range_bits b n) rs g1 g2 prefix [0..<n] w = Inr (xs, w1)"
    and acc: "range_accumulate S (felt_zero S) (enumerate 0 xs) =
      Inr (rg_commitments rp, rg_proofs rp, r)"
    using assms by (auto simp: prove_with_randomness_def result_iffs Let_def split: if_splits)
  note bits = prove_bits_Inr [OF xs]
  note accs = range_accumulate_Inr [OF acc]
  have len: "length xs = n"
    using list_all2_lengthD [OF bits] by simp
  show "length (rg_commitments rp) = n" and "length (rg_proofs rp) = n"
    using list_all2_lengthD [OF accs(1)] accs(2) len by simp_all
  have "map (\<lambda>(v, p, r). r) xs = rs"
    by (rule nth_equalityI) (use bits len rs in \<open>auto simp: list_all2_conv_all_nth split: prod.splits\<close>)
  then show "total_randomness_loop S (felt_zero S) (enumerate 0 rs) = Inr r"
    using accs(3) by (simp add: enumerate_map_pair)
  assume i: "i < n"
  obtain v p r' where x: "xs ! i = (v, p, r')"
    by (metis prod_cases3)
  have "rg_proofs rp ! i = p"
    using accs(2) i len x by (simp add: nth_enumerate_eq)
  moreover have "try_from_projective S v = Inr (rg_commitments rp ! i)"
    using accs(1) i len x by (auto simp: list_all2_conv_all_nth nth_enumerate_eq)
  moreover have "\<exists>w w'. bit_prove S (range_bits b n ! i) (rs ! i) g1 g2
      (felt_add S prefix (felt_from S i)) w = Inr ((v, p), w')"
    using list_all2_nthD [OF bits, of i] i x by simp
  ultimately show "\<exists>v w w'. bit_prove S (range_bits b n ! i) (rs ! i) g1 g2
      (felt_add S prefix (felt_from S i)) w = Inr ((v, rg_proofs rp ! i), w') \<and>
      try_from_projective S v = Inr (rg_commitments rp ! i)"
    by blast
qed

end

section \<open>The verifier\<close>

text \<open>The bit proof at an index, and the point its commitment stands for.\<close>

definition bit_accepted ::
    "('f, 'p, 'a, 'r) starknet \<Rightarrow> 'f Range \<Rightarrow> 'p \<Rightarrow> 'p \<Rightarrow> 'f \<Rightarrow> nat \<Rightarrow> bool" where
  "bit_accepted S rp g1 g2 prefix i =
     (case to_affine S (rg_commitments rp ! i) of
        Inl e \<Rightarrow> False
      | Inr a \<Rightarrow> bit_verify S (affine_to_projective S a) g1 g2 (rg_proofs rp ! i)
          (felt_add S prefix (felt_from S i)) = Inr True)"

definition commitment_point ::
    "('f, 'p, 'a, 'r) starknet \<Rightarrow> 'f Range \<Rightarrow> nat \<Rightarrow> 'p" where
  "commitment_point S rp i = affine_to_projective S (projr (to_affine S (rg_commitments rp ! i)))"

text \<open>The openings that are computed at each index from two range proofs, and the number whose digits they give.\<close>

definition range_openings ::
    "('f, 'p, 'a, 'r) starknet \<Rightarrow> 'f Range \<Rightarrow> 'f Range \<Rightarrow> (nat \<Rightarrow> 'f) \<Rightarrow> nat \<Rightarrow> (nat \<times> 'f) list" where
  "range_openings S rp rp' d n = map (\<lambda>i. bit_opening S (rg_proofs rp ! i) (rg_proofs rp' ! i) (d i)) [0..<n]"

definition opened_value :: "(nat \<times> 'f) list \<Rightarrow> nat" where
  "opened_value openings = (\<Sum>i\<leftarrow>[0..<length openings]. fst (openings ! i) * 2 ^ i)"

context starknet_core
begin

lemma range_verify_loop_Inr:
  assumes "range_verify_loop S rp g1 g2 prefix is v = Inr V"
  shows "(\<forall>i \<in> set is. i < 128 \<and> bit_accepted S rp g1 g2 prefix i) \<and>
    pt V = pt v + (\<Sum>i\<leftarrow>is. nsmul (2 ^ i) (pt (commitment_point S rp i)))"
  using assms
proof (induction "is" arbitrary: v)
  case (Cons i "is")
  then obtain a where a: "i < 128" "to_affine S (rg_commitments rp ! i) = Inr a"
    "bit_verify S (affine_to_projective S a) g1 g2 (rg_proofs rp ! i) (felt_add S prefix (felt_from S i)) = Inr True"
    "range_verify_loop S rp g1 g2 prefix is
      (add S v (mul S (felt_from S (unat (push_bit i 1 :: u128))) (Some (affine_to_projective S a)))) = Inr V"
    by (auto simp: result_iffs Let_def shl_one_u128_def split: if_splits)
  from Cons.IH [OF a(4)] a(1-3) show ?case
    by (simp add: bit_accepted_def commitment_point_def act_two_power add.assoc)
qed simp

lemma range_verify_loop_accepts:
  assumes "\<And>i. i \<in> set is \<Longrightarrow> i < 128 \<and> bit_accepted S rp g1 g2 prefix i"
  shows "\<exists>V. range_verify_loop S rp g1 g2 prefix is v = Inr V"
  using assms
proof (induction "is" arbitrary: v)
  case (Cons i "is")
  then have "i < 128" and "bit_accepted S rp g1 g2 prefix i" by simp_all
  then obtain a where "to_affine S (rg_commitments rp ! i) = Inr a"
    "bit_verify S (affine_to_projective S a) g1 g2 (rg_proofs rp ! i)
      (felt_add S prefix (felt_from S i)) = Inr True"
    by (auto simp: bit_accepted_def split: sum.splits)
  then show ?case
    using \<open>i < 128\<close> Cons by (simp add: shl_one_u128_def Let_def)
qed simp

lemma range_verify_Inr:
  assumes "range_verify S rp n g1 g2 prefix = Inr V"
  shows "0 < n" and "n \<le> 128" and "length (rg_commitments rp) = n" and "length (rg_proofs rp) = n"
    and "i < n \<Longrightarrow> bit_accepted S rp g1 g2 prefix i"
    and "pt V = (\<Sum>i\<leftarrow>[0..<n]. nsmul (2 ^ i) (pt (commitment_point S rp i)))"
proof -
  show n: "0 < n" and "length (rg_commitments rp) = n" and "length (rg_proofs rp) = n"
    using assms by (auto simp: range_verify_def split: if_splits)
  obtain a where a: "to_affine S (rg_commitments rp ! 0) = Inr a"
    "bit_verify S (affine_to_projective S a) g1 g2 (rg_proofs rp ! 0) prefix = Inr True"
    and loop: "range_verify_loop S rp g1 g2 prefix [1..<n] (affine_to_projective S a) = Inr V"
    using assms by (auto simp: range_verify_def result_iffs Let_def split: if_splits)
  note l = range_verify_loop_Inr [OF loop]
  have "bit_accepted S rp g1 g2 prefix 0"
    using a by (simp add: bit_accepted_def)
  then show "bit_accepted S rp g1 g2 prefix i" if "i < n"
    using l that by (cases "i = 0") auto
  show "n \<le> 128"
  proof (rule ccontr)
    assume "\<not> n \<le> 128"
    then have "128 \<in> set [1..<n]" by simp
    then show False using l by blast
  qed
  have "[0..<n] = 0 # [1..<n]" using n by (simp add: upt_rec)
  then show "pt V = (\<Sum>i\<leftarrow>[0..<n]. nsmul (2 ^ i) (pt (commitment_point S rp i)))"
    using l a by (simp add: commitment_point_def)
qed

lemma range_verify_accepts:
  assumes "0 < n" and "n \<le> 128" and "length (rg_commitments rp) = n" and "length (rg_proofs rp) = n"
    and "\<And>i. i < n \<Longrightarrow> bit_accepted S rp g1 g2 prefix i"
  shows "\<exists>V. range_verify S rp n g1 g2 prefix = Inr V"
proof -
  obtain a where "to_affine S (rg_commitments rp ! 0) = Inr a"
    "bit_verify S (affine_to_projective S a) g1 g2 (rg_proofs rp ! 0) prefix = Inr True"
    using assms(5) [of 0] assms(1) by (auto simp: bit_accepted_def split: sum.splits)
  moreover have "\<exists>V. range_verify_loop S rp g1 g2 prefix [1..<n] (affine_to_projective S a) = Inr V"
    using assms by (intro range_verify_loop_accepts) auto
  ultimately show ?thesis
    using assms by (auto simp: range_verify_def)
qed

section \<open>Completeness and soundness\<close>

lemma sum_commitments:
  assumes "\<And>i. i < n \<Longrightarrow> pt (p i) = nsmul (b i) x + y i"
  shows "(\<Sum>i\<leftarrow>[0..<n]. nsmul (2 ^ i) (pt (p i))) =
    nsmul (\<Sum>i\<leftarrow>[0..<n]. b i * 2 ^ i) x + (\<Sum>i\<leftarrow>[0..<n]. nsmul (2 ^ i) (y i))"
  using assms
proof (induction n)
  case (Suc n)
  have "nsmul (2 ^ n) (pt (p n)) = nsmul (b n * 2 ^ n) x + nsmul (2 ^ n) (y n)"
    using Suc.prems [of n] nsmul_mult [of "2 ^ n" "b n" x] by (simp add: nsmul_add_right mult.commute)
  with Suc show ?case
    by (simp add: nsmul_add_left add_ac)
qed simp

lemma sum_enumerate:
  "(\<Sum>(i, r)\<leftarrow>enumerate 0 rs. f i r) = (\<Sum>i\<leftarrow>[0..<length rs]. f i (rs ! i))" for f :: "nat \<Rightarrow> 'b \<Rightarrow> 'g"
proof -
  have "enumerate 0 rs = map (\<lambda>i. (i, rs ! i)) [0..<length rs]"
    by (rule nth_equalityI) (simp_all add: nth_enumerate_eq)
  then show ?thesis by (simp add: comp_def)
qed

lemma range_complete:
  assumes prove: "prove_with_randomness S b n g1 g2 prefix rs w = Inr ((rp, r), w')"
    and n: "0 < n" and g1: "pt g1 \<noteq> 0"
    and resp: "\<And>p. p \<in> set (rg_proofs rp) \<Longrightarrow>
      felt_act S (bit_s0 p) (pt g2) \<noteq> 0 \<and> felt_act S (bit_s1 p) (pt g2) \<noteq> 0"
  shows "\<exists>V. range_verify S rp n g1 g2 prefix = Inr V \<and>
    pt V = nsmul (unat b) (pt g1) + felt_act S r (pt g2) \<and> compute_total_randomness S rs = Inr r"
proof -
  note p = prove_with_randomness_Inr [OF prove]
  have bit: "bit_accepted S rp g1 g2 prefix i \<and> pt (commitment_point S rp i) =
      nsmul (unat b div 2 ^ i mod 2) (pt g1) + felt_act S (rs ! i) (pt g2)" if i: "i < n" for i
  proof -
    obtain v w w' where v: "bit_prove S (range_bits b n ! i) (rs ! i) g1 g2
        (felt_add S prefix (felt_from S i)) w = Inr ((v, rg_proofs rp ! i), w')"
      "try_from_projective S v = Inr (rg_commitments rp ! i)"
      using p(7) [OF i] by blast
    obtain a where a: "rg_commitments rp ! i = from_affine S a" "pt (affine_to_projective S a) = pt v"
      by (rule try_from_projectiveE [OF v(2)])
    have "bit_verify S (affine_to_projective S a) g1 g2 (rg_proofs rp ! i)
        (felt_add S prefix (felt_from S i)) = Inr True"
      using bit_prove_verify [OF v(1) g1] resp [of "rg_proofs rp ! i"] i p(5)
        bit_verify_cong [OF a(2)] by simp
    then show ?thesis
      using bit_prove_pt [OF v(1)] i by (simp add: bit_accepted_def commitment_point_def a range_bits_nth)
  qed
  obtain V where V: "range_verify S rp n g1 g2 prefix = Inr V"
    using range_verify_accepts [OF n p(1,4,5)] bit by blast
  have "pt V = nsmul (\<Sum>i\<leftarrow>[0..<n]. unat b div 2 ^ i mod 2 * 2 ^ i) (pt g1) +
      (\<Sum>i\<leftarrow>[0..<n]. nsmul (2 ^ i) (felt_act S (rs ! i) (pt g2)))"
    unfolding range_verify_Inr(6) [OF V] by (rule sum_commitments) (use bit in blast)
  also have "(\<Sum>i\<leftarrow>[0..<n]. nsmul (2 ^ i) (felt_act S (rs ! i) (pt g2))) = felt_act S r (pt g2)"
    using total_randomness_loop_act [OF p(6), of "pt g2"]
    by (simp add: felt_act_zero_left sum_enumerate p(2))
  finally show ?thesis
    using V p by (simp add: digits_sum compute_total_randomness_def)
qed

lemma sum_digits_less:
  "(\<And>i. i < n \<Longrightarrow> b i \<le> 1) \<Longrightarrow> (\<Sum>i\<leftarrow>[0..<n]. b i * 2 ^ i) < (2 ^ n :: nat)"
proof (induction n)
  case (Suc n)
  have "b n = 0 \<or> b n = 1" using Suc.prems [of n] by auto
  moreover have "(\<Sum>i\<leftarrow>[0..<n]. b i * 2 ^ i) < 2 ^ n" using Suc by simp
  ultimately show ?case by auto
qed simp

lemma total_randomness_total:
  "\<forall>x \<in> set xs. fst x < 128 \<Longrightarrow> \<exists>r'. total_randomness_loop S r xs = Inr r'"
  by (induction xs arbitrary: r) (auto simp: shl_one_u128_def scalar_results Let_def)

lemma range_extract:
  assumes V: "range_verify S rp n g1 g2 prefix = Inr V" and "range_verify S rp' n g1 g2 prefix' = Inr V'"
    and "rg_commitments rp = rg_commitments rp'"
    and "\<And>i. i < n \<Longrightarrow> bit_fork S (commitment_point S rp i) (rg_proofs rp ! i)
      (felt_add S prefix (felt_from S i)) (rg_proofs rp' ! i) (felt_add S prefix' (felt_from S i)) (d i)"
    and o: "openings = range_openings S rp rp' d n"
  shows "\<exists>r. compute_total_randomness S (map snd openings) = Inr r \<and> opened_value openings < 2 ^ n \<and>
    pt V = nsmul (opened_value openings) (pt g1) + felt_act S r (pt g2)"
proof -
  have len: "length openings = n" by (simp add: o range_openings_def)
  have opens: "fst (openings ! i) \<le> 1 \<and>
      pt (commitment_point S rp i) = nsmul (fst (openings ! i)) (pt g1) + felt_act S (snd (openings ! i)) (pt g2)" if i: "i < n" for i
  proof -
    have "bit_verify S (commitment_point S rp i) g1 g2 (rg_proofs rp ! i)
        (felt_add S prefix (felt_from S i)) = Inr True"
      "bit_verify S (commitment_point S rp i) g1 g2 (rg_proofs rp' ! i)
        (felt_add S prefix' (felt_from S i)) = Inr True"
      using range_verify_Inr(5) [OF V i] range_verify_Inr(5) [OF assms(2) i] assms(3)
      by (auto simp: bit_accepted_def commitment_point_def split: sum.splits)
    from bit_extract [OF this assms(4) [OF i], of "fst (openings ! i)" "snd (openings ! i)"] i show ?thesis
      by (auto simp: o range_openings_def)
  qed
  have n: "n \<le> 128" by (rule range_verify_Inr(2) [OF V])
  then have "\<forall>x \<in> set (enumerate 0 (map snd openings)). fst x < 128" by (auto simp: in_set_enumerate_eq len)
  from total_randomness_total [OF this] obtain r
    where r: "total_randomness_loop S (felt_zero S) (enumerate 0 (map snd openings)) = Inr r" by blast
  have "pt V = nsmul (\<Sum>i\<leftarrow>[0..<n]. fst (openings ! i) * 2 ^ i) (pt g1) +
      (\<Sum>i\<leftarrow>[0..<n]. nsmul (2 ^ i) (felt_act S (snd (openings ! i)) (pt g2)))"
    unfolding range_verify_Inr(6) [OF V] by (rule sum_commitments) (use opens in blast)
  also have "(\<Sum>i\<leftarrow>[0..<n]. nsmul (2 ^ i) (felt_act S (snd (openings ! i)) (pt g2))) = felt_act S r (pt g2)"
  proof -
    have "(\<Sum>i\<leftarrow>[0..<n]. nsmul (2 ^ i) (felt_act S (snd (openings ! i)) (pt g2))) =
        (\<Sum>i\<leftarrow>[0..<n]. nsmul (2 ^ i) (felt_act S (map snd openings ! i) (pt g2)))"
      by (intro arg_cong [where f = sum_list] map_cong) (simp_all add: len)
    then show ?thesis
      using total_randomness_loop_act [OF r, of "pt g2"] by (simp add: felt_act_zero_left sum_enumerate len)
  qed
  finally have "pt V = nsmul (opened_value openings) (pt g1) + felt_act S r (pt g2)" by (simp add: opened_value_def len)
  moreover have "opened_value openings < 2 ^ n"
    unfolding opened_value_def len using opens by (intro sum_digits_less) blast
  ultimately show ?thesis using r n by (simp add: compute_total_randomness_def len)
qed

section \<open>Errors\<close>

text \<open>
  A bit prover fails only when a point is the identity or the random source panics.
\<close>

definition benign :: "KmsError \<Rightarrow> bool" where
  "benign e = (e = PointAtInfinity \<or> (\<exists>msg. e = Panic msg))"

lemma random_felt_error: "random_felt S w = Inl e \<Longrightarrow> benign e"
  by (auto simp: random_felt_def random_bytes_def fill_random_bytes_def result_iffs benign_def
      split: prod.splits option.splits)

lemma negate_point_error: "negate_point S p = Inl e \<Longrightarrow> benign e"
  using negate_point_zero [of p] negate_point_nonzero [of p] by (metis Inl_inject Inr_Inl_False benign_def)

lemma try_from_projective_error: "try_from_projective S p = Inl e \<Longrightarrow> benign e"
  by (auto simp: try_from_projective_def result_iffs benign_def)

lemma poseidon_challenge_error: "compute_poseidon_challenge S k ps = Inl e \<Longrightarrow> benign e"
  using push_coordinates_error [of "[k]" ps e]
  by (auto simp: compute_poseidon_challenge_def result_iffs benign_def scalar_results)

lemma simulate_poe_error: "simulate_poe S y gen w = Inl e \<Longrightarrow> benign e"
  by (auto simp: simulate_poe_def result_iffs Let_def dest: random_felt_error negate_point_error)

lemmas benign_errors = random_felt_error negate_point_error try_from_projective_error
  poseidon_challenge_error simulate_poe_error

lemma bit_prove_error: "b \<in> {0, 1} \<Longrightarrow> bit_prove S b r g1 g2 prefix w = Inl e \<Longrightarrow> benign e"
  by (auto simp: bit_prove_def prove_bit_0_def prove_bit_1_def result_iffs Let_def scalar_results
      dest: benign_errors split: if_splits)

lemma range_bits_01: "i < n \<Longrightarrow> range_bits b n ! i \<in> {0, 1}"
proof -
  assume "i < n"
  then have "unat (range_bits b n ! i) < 2" by (simp add: range_bits_nth)
  then have "unat (range_bits b n ! i) = 0 \<or> unat (range_bits b n ! i) = 1" by auto
  then show ?thesis by (metis insertCI unsigned_0 unsigned_1 unsigned_word_eqI)
qed

lemma prove_bits_error:
  "\<forall>i \<in> set is. i < n \<Longrightarrow> prove_bits S (range_bits b n) rs g1 g2 prefix is w = Inl e \<Longrightarrow> benign e"
  by (induction "is" arbitrary: w) (auto simp: result_iffs Let_def dest: bit_prove_error [OF range_bits_01])

lemma range_accumulate_error:
  "\<forall>x \<in> set xs. fst x < 128 \<Longrightarrow> range_accumulate S r xs = Inl e \<Longrightarrow> benign e"
  by (induction xs arbitrary: r)
    (auto simp: result_iffs Let_def scalar_results shl_one_u128_def dest: try_from_projective_error)

lemma enumerate_fst: "x \<in> set (enumerate 0 xs) \<Longrightarrow> fst x < length xs"
  by (auto simp: in_set_enumerate_eq)

lemma prove_with_randomness_guard:
  "(\<exists>msg. prove_with_randomness S b n g1 g2 prefix rs w = Inl (CryptoError msg)) \<longleftrightarrow>
     n > 128 \<or> length rs \<noteq> n \<or> 2 ^ n \<le> unat b"
proof (cases "n > 128 \<or> length rs \<noteq> n \<or> 2 ^ n \<le> unat b")
  case True
  then show ?thesis
    using range_guard [of n b] by (auto simp: prove_with_randomness_def)
next
  case False
  have "benign e" if "prove_with_randomness S b n g1 g2 prefix rs w = Inl e" for e
  proof -
    have "prove_bits S (range_bits b n) rs g1 g2 prefix [0..<n] w = Inl e \<or>
        (\<exists>xs w'. prove_bits S (range_bits b n) rs g1 g2 prefix [0..<n] w = Inr (xs, w') \<and>
          range_accumulate S (felt_zero S) (enumerate 0 xs) = Inl e)"
      using False range_guard [of n b] that
      by (auto simp: prove_with_randomness_def result_iffs Let_def split: if_splits)
    then show ?thesis
    proof (elim disjE exE conjE)
      assume "prove_bits S (range_bits b n) rs g1 g2 prefix [0..<n] w = Inl e"
      then show ?thesis by (intro prove_bits_error [of "[0..<n]"]) auto
    next
      fix xs w'
      assume xs: "prove_bits S (range_bits b n) rs g1 g2 prefix [0..<n] w = Inr (xs, w')"
        and e: "range_accumulate S (felt_zero S) (enumerate 0 xs) = Inl e"
      have "length xs = n" using list_all2_lengthD [OF prove_bits_Inr [OF xs]] by simp
      then have "\<forall>x \<in> set (enumerate 0 xs). fst x < 128"
        using False by (auto dest!: enumerate_fst)
      then show ?thesis using e by (rule range_accumulate_error)
    qed
  qed
  then show ?thesis using False by (auto simp: benign_def)
qed

end

context starknet_core
begin

text \<open>The verifier of a bit never panics, and that of a range only by its index and its shift.\<close>

lemma bit_verify_no_panic: "bit_verify S v g1 g2 p prefix \<noteq> Inl (Panic msg)"
proof
  assume "bit_verify S v g1 g2 p prefix = Inl (Panic msg)"
  then show False
    using negate_point_zero [of g1] negate_point_nonzero [of g1] push_coordinates_error [of "[prefix]"]
    by (auto simp: bit_verify_def to_affine_def compute_poseidon_challenge_def result_iffs Let_def scalar_results
        poe_verify_internal_eq split: if_splits)
qed

lemma range_verify_loop_no_panic:
  "\<forall>i \<in> set is. i < 128 \<Longrightarrow> range_verify_loop S rp g1 g2 prefix is v \<noteq> Inl (Panic msg)"
  by (induction "is" arbitrary: v)
    (auto simp: result_iffs Let_def shl_one_u128_def to_affine_def bit_verify_no_panic split: if_splits)

lemma range_verify_panic:
  assumes "range_verify S rp n g1 g2 prefix = Inl (Panic msg)"
  shows "n = 0 \<or> 128 < n"
proof (rule ccontr)
  assume "\<not> ?thesis"
  then have n: "0 < n" "\<forall>i \<in> set [1..<n]. i < 128" by auto
  then show False
    using assms range_verify_loop_no_panic [OF n(2)]
    by (auto simp: range_verify_def result_iffs Let_def to_affine_def bit_verify_no_panic split: if_splits)
qed

end

section \<open>Properties\<close>

text \<open>
  C6. Completeness of the range proof. If the prover returns a proof for \<open>b\<close> with per-bit randomness
  \<open>rs\<close>, then \<open>verify\<close> returns the commitment \<open>V = g1^b * g2^r\<close> to that very value, where \<open>r\<close> is the
  total randomness the prover reported and \<open>compute_total_randomness\<close> predicts. (The responses are
  required not to be multiples of the order, for which the bit verifier reports the identity.)
\<close>

theorem range_completeness:
  assumes "starknet_core S pt"
    and "prove_with_randomness S b n g1 g2 prefix rs w = Inr ((rp, r), w')"
    and "0 < n" and "pt g1 \<noteq> 0"
    and "\<And>p. p \<in> set (rg_proofs rp) \<Longrightarrow>
      felt_act S (bit_s0 p) (pt g2) \<noteq> 0 \<and> felt_act S (bit_s1 p) (pt g2) \<noteq> 0"
  shows "\<exists>V. range_verify S rp n g1 g2 prefix = Inr V \<and>
    pt V = nsmul (unat b) (pt g1) + felt_act S r (pt g2) \<and> compute_total_randomness S rs = Inr r"
  by (rule starknet_core.range_complete [OF assms])

text \<open>
  The witness proves the value 2 with two bits, over \<open>g1 = G\<close> and \<open>g2 = G^2\<close>.
\<close>

lemma two_indices: "[0..<2] = [0, 1]"
  by (simp add: upt_conv_Cons numeral_2_eq_2)

lemma dlog_two_bits:
  "\<exists>rp r w'. prove_with_randomness stark_dlog 2 2 (zgrp_of 1) (zgrp_of 2) (zfelt_of 7)
      [zfelt_of 9, zfelt_of 11] (os_rng 2) = Inr ((rp, r), w') \<and>
    (\<forall>p \<in> set (rg_proofs rp). felt_act stark_dlog (bit_s0 p) (zgrp_of 2) \<noteq> 0 \<and>
      felt_act stark_dlog (bit_s1 p) (zgrp_of 2) \<noteq> 0)"
  by (simp add: prove_with_randomness_def range_bits_def range_max_value_def two_indices Let_def bit_prove_def prove_bit_0_def prove_bit_1_def simulate_poe_def
      dlog_negate_point compute_poseidon_challenge_def scalar_results try_from_projective_def
      shl_one_u128_def dlog_num)

theorem range_completeness_witness:
  "\<exists>rp r V w'. prove_with_randomness stark_dlog 2 2 (zgrp_of 1) (zgrp_of 2) (zfelt_of 7)
      [zfelt_of 9, zfelt_of 11] (os_rng 2) = Inr ((rp, r), w') \<and>
    range_verify stark_dlog rp 2 (zgrp_of 1) (zgrp_of 2) (zfelt_of 7) = Inr V \<and>
    V = nsmul (unat (2 :: u128)) (zgrp_of 1) + felt_act stark_dlog r (zgrp_of 2)"
proof -
  obtain rp r w' where p: "prove_with_randomness stark_dlog 2 2 (zgrp_of 1) (zgrp_of 2) (zfelt_of 7)
      [zfelt_of 9, zfelt_of 11] (os_rng 2) = Inr ((rp, r), w')"
    and resp: "\<And>p. p \<in> set (rg_proofs rp) \<Longrightarrow> felt_act stark_dlog (bit_s0 p) (zgrp_of 2) \<noteq> 0 \<and>
      felt_act stark_dlog (bit_s1 p) (zgrp_of 2) \<noteq> 0"
    using dlog_two_bits by blast
  have "zgrp_of 1 \<noteq> 0" by (simp add: dlog_num)
  from range_completeness [OF dlog.starknet_core_axioms p _ this resp] p show ?thesis by auto
qed

text \<open>
  C4. Special soundness of the range proof, with its extractor. If two proofs over the same commitments are accepted and
  fork at every bit, then the digits that \<open>bit_opening\<close> computes from their responses make a number below
  \<open>2 ^ bit_size\<close>, and this number, with the randomness that \<open>compute_total_randomness\<close> makes of the extracted ones, opens
  the commitment that \<open>verify\<close> returns.
\<close>

theorem range_special_soundness:
  assumes "starknet_core S pt"
    and "range_verify S rp n g1 g2 prefix = Inr V" and "range_verify S rp' n g1 g2 prefix' = Inr V'"
    and "rg_commitments rp = rg_commitments rp'"
    and "\<And>i. i < n \<Longrightarrow> bit_fork S (commitment_point S rp i) (rg_proofs rp ! i)
      (felt_add S prefix (felt_from S i)) (rg_proofs rp' ! i) (felt_add S prefix' (felt_from S i)) (d i)"
    and "openings = range_openings S rp rp' d n"
  shows "\<exists>r. compute_total_randomness S (map snd openings) = Inr r \<and> opened_value openings < 2 ^ n \<and>
    pt V = nsmul (opened_value openings) (pt g1) + felt_act S r (pt g2)"
  by (rule starknet_core.range_extract [OF assms])

theorem range_special_soundness_witness:
  "\<exists>r. compute_total_randomness stark_dlog [zfelt_of 3] = Inr r \<and>
     zgrp_of 7 = nsmul (opened_value [(1, zfelt_of 3)]) (zgrp_of 1) + felt_act stark_dlog r (zgrp_of 2)"
  using range_special_soundness [OF dlog.starknet_core_axioms, of
      "\<lparr>rg_commitments = [from_affine stark_dlog (Abs_zaff (zgrp_of 7))], rg_proofs =
        [\<lparr>bit_a0 = from_affine stark_dlog (Abs_zaff (zgrp_of 10)),
          bit_a1 = from_affine stark_dlog (Abs_zaff (zgrp_of 12)),
          bit_c0 = zfelt_of 2, bit_s0 = zfelt_of 12, bit_s1 = zfelt_of 15\<rparr>]\<rparr>"
      1 "zgrp_of 1" "zgrp_of 2" "zfelt_of 5" "zgrp_of 7"
      "\<lparr>rg_commitments = [from_affine stark_dlog (Abs_zaff (zgrp_of 7))], rg_proofs =
        [\<lparr>bit_a0 = from_affine stark_dlog (Abs_zaff (zgrp_of 10)),
          bit_a1 = from_affine stark_dlog (Abs_zaff (zgrp_of 12)),
          bit_c0 = zfelt_of 2, bit_s0 = zfelt_of 12, bit_s1 = zfelt_of 12\<rparr>]\<rparr>"
      "zfelt_of 4" "zgrp_of 7" "\<lambda>_. zfelt_of 1" "[(1, zfelt_of 3)]"]
  by (simp add: range_verify_def range_openings_def bit_fork_def bit_opening_def challenge_inverse_def commitment_point_def
      bit_verify_def bit_c1_def Let_def poe_verify_internal_def projective_to_affine_def compute_poseidon_challenge_def
      scalar_results dlog_num dlog_negate_point) blast

text \<open>
  The parameter checks of the range prover are exact: it reports a parameter error precisely when
  more than 128 bits are asked for, when the number of random values is not the bit size, or when the
  value does not fit; any other failure is a point at infinity or a failed random source.
\<close>

theorem range_prover_guards:
  assumes "starknet_core S pt"
  shows "(\<exists>msg. prove_with_randomness S b n g1 g2 prefix rs w = Inl (CryptoError msg)) \<longleftrightarrow>
     n > 128 \<or> length rs \<noteq> n \<or> 2 ^ n \<le> unat b"
  by (rule starknet_core.prove_with_randomness_guard [OF assms])

theorem range_prover_guards_witness:
  "\<exists>msg. prove_with_randomness stark_dlog 4 2 (zgrp_of 1) (zgrp_of 2) (zfelt_of 7)
    [zfelt_of 9, zfelt_of 11] (os_rng 0) = Inl (CryptoError msg)"
  using range_prover_guards [OF dlog.starknet_core_axioms, of 4 2 "zgrp_of 1" "zgrp_of 2" "zfelt_of 7"
      "[zfelt_of 9, zfelt_of 11]" "os_rng 0"]
  by simp

text \<open>
  C38. A range proof of bit size zero makes the verifier panic, and so does nothing else within the sizes the prover allows.
  At bit size 0 the prover succeeds exactly on the value 0, and whatever it returns, the verifier panics on it, with any
  generators and prefix: it reads the first commitment before the loop. For the sizes from 1 to 128 the verifier never
  panics, whatever the proof.
\<close>

theorem range_zero_bits_panics:
  assumes "starknet_core S pt"
  shows "((\<exists>rp r w'. range_prove S b 0 g1 g2 prefix w = Inr ((rp, r), w')) \<longleftrightarrow> b = 0) \<and>
    (range_prove S b 0 g1 g2 prefix w = Inr ((rp, r), w') \<longrightarrow>
      range_verify S rp 0 g1' g2' prefix' = Inl (Panic ''index out of bounds: the len is 0 but the index is 0'')) \<and>
    (0 < n \<and> n \<le> 128 \<longrightarrow> range_verify S rp' n g1 g2 prefix \<noteq> Inl (Panic msg))"
proof -
  have "range_prove S b 0 g1 g2 prefix w =
      (if b = 0 then Inr ((\<lparr>rg_commitments = [], rg_proofs = []\<rparr>, felt_zero S), w)
       else Inl (CryptoError (''Value '' @ show_nat (unat b) @ '' is not in range [0, '' @ show_nat 0 @ '']'')))"
    by (simp add: range_prove_def prove_with_randomness_def range_max_value_def range_bits_def word_gt_0)
  then show ?thesis
    using starknet_core.range_verify_panic [OF assms, of rp' n g1 g2 prefix msg]
    by (auto simp: range_verify_def split: if_splits)
qed

theorem range_zero_bits_panics_witness:
  "range_prove stark_dlog 0 0 (zgrp_of 1) (zgrp_of 2) (zfelt_of 5) (os_rng 0) =
     Inr ((\<lparr>rg_commitments = [], rg_proofs = []\<rparr>, felt_zero stark_dlog), os_rng 0) \<and>
   range_verify stark_dlog \<lparr>rg_commitments = [], rg_proofs = []\<rparr> 0 (zgrp_of 1) (zgrp_of 2) (zfelt_of 5) =
     Inl (Panic ''index out of bounds: the len is 0 but the index is 0'') \<and>
   range_verify stark_dlog \<lparr>rg_commitments = [], rg_proofs = []\<rparr> 1 (zgrp_of 1) (zgrp_of 2) (zfelt_of 5) \<noteq> Inl (Panic [])"
proof -
  have "range_prove stark_dlog 0 0 (zgrp_of 1) (zgrp_of 2) (zfelt_of 5) (os_rng 0) =
     Inr ((\<lparr>rg_commitments = [], rg_proofs = []\<rparr>, felt_zero stark_dlog), os_rng 0)"
    by (simp add: range_prove_def prove_with_randomness_def range_max_value_def range_bits_def)
  then show ?thesis
    using range_zero_bits_panics [OF dlog.starknet_core_axioms, of 0 "zgrp_of 1" "zgrp_of 2" "zfelt_of 5" "os_rng 0"
        "\<lparr>rg_commitments = [], rg_proofs = []\<rparr>" "felt_zero stark_dlog" "os_rng 0" "zgrp_of 1" "zgrp_of 2" "zfelt_of 5" 1
        "\<lparr>rg_commitments = [], rg_proofs = []\<rparr>" "[]"] by simp
qed

end
