(* ===== verification/Key_Derivation.thy ===== *)
theory Key_Derivation
  imports Stark_Instance
begin

text \<open>
  \<open>crates/kms/src/derivation.rs\<close>, \<open>mnemonic.rs\<close> and \<open>zeroizing_hmac.rs\<close>: from a mnemonic to the keys of an
  account. The lemmas show that the wiped HMAC and HKDF are those of RFC 2104 and RFC 5869, that the walk along a
  path is the private derivation of BIP-32, and that grinding gives a uniform valid Stark key.
\<close>

section \<open>What the code uses of other crates\<close>

text \<open>
  \<open>sha2\<close>, \<open>bip39\<close> and \<open>k256\<close>: the opaque types are \<open>'m\<close> of mnemonics and \<open>'s\<close> of scalars of secp256k1.
  \<^item> \<open>bip39_parse\<close>: \<open>phrase.parse::<Mnemonic>()\<close>, with the debug text of its error;
  \<^item> \<open>k256_reduce\<close>: \<open>Reduce::reduce\<close> of the integer of 32 big-endian bytes; \<open>k256_to_bytes\<close>: \<open>to_bytes()\<close>;
  \<^item> \<open>k256_verifying_key key\<close>: the compressed encoding of the point of \<open>SigningKey::from_bytes(key)\<close>, with the text
    of its error; \<open>k256_point_x\<close>: the coordinate \<open>x()\<close> of the point with that encoding.
\<close>

record ('m, 's) wallet =
  sha512 :: "byte list \<Rightarrow> byte list"
  bip39_parse :: "string \<Rightarrow> string + 'm"
  bip39_to_seed :: "'m \<Rightarrow> string \<Rightarrow> byte list"
  bip39_from_entropy :: "byte list \<Rightarrow> string + 'm"
  bip39_to_string :: "'m \<Rightarrow> string"
  k256_reduce :: "byte list \<Rightarrow> 's"
  k256_add :: "'s \<Rightarrow> 's \<Rightarrow> 's"
  k256_is_zero :: "'s \<Rightarrow> bool"
  k256_to_bytes :: "'s \<Rightarrow> byte list"
  k256_verifying_key :: "byte list \<Rightarrow> string + byte list"
  k256_point_x :: "byte list \<Rightarrow> byte list option"

text \<open>\<open>Secp256k1::ORDER\<close>.\<close>

definition SECP256K1_ORDER :: nat where
  "SECP256K1_ORDER = 0xfffffffffffffffffffffffffffffffebaaedce6af48a03bbfd25e8cd0364141"

type_synonym u256 = "256 word"

definition u256_from_be_slice :: "byte list \<Rightarrow> u256" where
  "u256_from_be_slice bs = of_nat (be_val bs)"

section \<open>HMAC and HKDF\<close>

text \<open>A hash function as the trait \<open>Digest\<close> presents it.\<close>

record digest =
  dg_block_size :: nat
  dg_output_size :: nat
  dg_hash :: "byte list \<Rightarrow> byte list"

definition Sha256 :: "('f, 'p, 'a, 'r) starknet \<Rightarrow> digest" where
  "Sha256 S = \<lparr>dg_block_size = 64, dg_output_size = 32, dg_hash = sha256 S\<rparr>"

definition Sha512 :: "('m, 's) wallet \<Rightarrow> digest" where
  "Sha512 W = \<lparr>dg_block_size = 128, dg_output_size = 64, dg_hash = sha512 W\<rparr>"

definition MAX_HMAC_BLOCK :: nat where
  "MAX_HMAC_BLOCK = 128"

definition IPAD :: byte where
  "IPAD = 0x36"

definition OPAD :: byte where
  "OPAD = 0x5c"

definition SHA256_LEN :: nat where
  "SHA256_LEN = 32"

definition hmac :: "digest \<Rightarrow> nat \<Rightarrow> byte list \<Rightarrow> byte list list \<Rightarrow> byte list result" where
  "hmac D n key message =
     (let block = dg_block_size D
      in if length key > block \<or> block > MAX_HMAC_BLOCK \<or> n \<noteq> dg_output_size D
         then Inl (CryptoError ''HMAC key must fit one block and the output its digest'')
         else
           let pad = take block (replicate MAX_HMAC_BLOCK 0);
               pad = key @ drop (length key) pad;
               pad = map (\<lambda>byte. byte XOR IPAD) pad;
               inner_hash = dg_hash D (pad @ concat message);
               pad = map (\<lambda>byte. byte XOR (IPAD XOR OPAD)) pad
           in Inr (take n (dg_hash D (pad @ inner_hash))))"

text \<open>\<open>okm.chunks_mut(SHA256_LEN)\<close>, as the lengths of the chunks.\<close>

definition chunk_lengths :: "nat \<Rightarrow> nat list" where
  "chunk_lengths n =
     replicate (n div SHA256_LEN) SHA256_LEN @ (if n mod SHA256_LEN = 0 then [] else [n mod SHA256_LEN])"

fun hkdf_loop ::
    "('f, 'p, 'a, 'r) starknet \<Rightarrow> byte list \<Rightarrow> byte list \<Rightarrow> (byte \<times> nat) list \<Rightarrow> byte list \<Rightarrow> byte list result" where
  "hkdf_loop S prk info [] previous = Inr []"
| "hkdf_loop S prk info ((counter, chunk) # rest) previous =
     (let chained = (if counter = 1 then [] else previous)
      in and_then (hmac (Sha256 S) SHA256_LEN prk [chained, info, [counter]]) (\<lambda>block.
         and_then (hkdf_loop S prk info rest block) (\<lambda>okm. Inr (take chunk block @ okm))))"

definition hkdf_sha256_expand ::
    "('f, 'p, 'a, 'r) starknet \<Rightarrow> nat \<Rightarrow> byte list \<Rightarrow> byte list \<Rightarrow> byte list result" where
  "hkdf_sha256_expand S l prk info =
     (if l > 255 * SHA256_LEN then Inl (CryptoError ''HKDF-SHA256 output is limited to 8160 bytes'')
      else hkdf_loop S prk info (zip (map of_nat [1..<256]) (chunk_lengths l)) (replicate SHA256_LEN 0))"

section \<open>Mnemonics\<close>

definition parse_mnemonic :: "('m, 's) wallet \<Rightarrow> string \<Rightarrow> 'm result" where
  "parse_mnemonic W phrase = map_err InvalidMnemonic (bip39_parse W phrase)"

definition entropy_size :: "nat \<Rightarrow> nat result" where
  "entropy_size word_count =
     (if word_count = 12 then Inr 16 else if word_count = 15 then Inr 20 else if word_count = 18 then Inr 24
      else if word_count = 21 then Inr 28 else if word_count = 24 then Inr 32
      else Inl (InvalidMnemonic ''Word count must be 12, 15, 18, 21, or 24''))"

text \<open>The argument \<open>call\<close> is the number of requests the operating system has answered before.\<close>

definition generate_mnemonic ::
    "('f, 'p, 'a, 'r) starknet \<Rightarrow> ('m, 's) wallet \<Rightarrow> nat \<Rightarrow> nat \<Rightarrow> string result" where
  "generate_mnemonic S W call word_count =
     and_then (entropy_size word_count) (\<lambda>size.
     and_then (ok_or (Panic ''OS entropy source unavailable'') (getrandom S call size)) (\<lambda>entropy.
     and_then (map_err InvalidMnemonic (bip39_from_entropy W entropy)) (\<lambda>mnemonic.
       Inr (bip39_to_string W mnemonic))))"

definition validate_mnemonic :: "('m, 's) wallet \<Rightarrow> string \<Rightarrow> unit result" where
  "validate_mnemonic W phrase = and_then (parse_mnemonic W phrase) (\<lambda>_. Inr ())"

definition mnemonic_to_seed :: "('m, 's) wallet \<Rightarrow> string \<Rightarrow> string \<Rightarrow> byte list result" where
  "mnemonic_to_seed W mnemonic passphrase =
     and_then (parse_mnemonic W mnemonic) (\<lambda>m. Inr (bip39_to_seed W m passphrase))"

section \<open>Derivation\<close>

definition TONGO_COIN_TYPE :: u32 where
  "TONGO_COIN_TYPE = 5454"

definition STARKNET_COIN_TYPE :: u32 where
  "STARKNET_COIN_TYPE = 9004"

definition NOSTR_COIN_TYPE :: u32 where
  "NOSTR_COIN_TYPE = 1237"

definition STARK_ORDER :: u256 where
  "STARK_ORDER = 0x0800000000000010ffffffffffffffffb781126dcae7b2321e66a241adc64d2f"

definition GRIND_LIMIT :: u256 where
  "GRIND_LIMIT = - 1 - (- 1) mod STARK_ORDER"

record ('f, 'p) TongoKeyPair =
  kp_private_key :: 'f
  kp_public_key :: 'p

definition require_unhardened_component :: "u32 \<Rightarrow> string \<Rightarrow> unit result" where
  "require_unhardened_component v field =
     (if v AND 0x80000000 \<noteq> 0
      then Inl (InvalidDerivationPath
             (field @ '' '' @ show_nat (unat v) @ '' has the BIP-32 hardened bit set (must be < 2^31)''))
      else Inr ())"

definition split_key_and_chain :: "byte list \<Rightarrow> byte list \<times> byte list" where
  "split_key_and_chain output = (take 32 output, drop 32 output)"

definition derive_master_key :: "('m, 's) wallet \<Rightarrow> byte list \<Rightarrow> (byte list \<times> byte list) result" where
  "derive_master_key W seed =
     and_then (hmac (Sha512 W) 64 (map of_char ''Bitcoin seed'') [seed]) (\<lambda>output. Inr (split_key_and_chain output))"

definition child_scalar :: "('m, 's) wallet \<Rightarrow> byte list \<Rightarrow> byte list \<Rightarrow> 's result" where
  "child_scalar W il parent =
     (if \<not> unat (u256_from_be_slice il) < SECP256K1_ORDER
      then Inl (CryptoError ''BIP-32 child derivation failed: IL >= curve order n'')
      else
        let child = k256_add W (k256_reduce W il) (k256_reduce W parent)
        in if k256_is_zero W child
           then Inl (CryptoError ''BIP-32 child derivation failed: derived key is zero'')
           else Inr child)"

definition derive_child ::
    "('m, 's) wallet \<Rightarrow> byte list \<Rightarrow> byte list \<Rightarrow> u32 \<Rightarrow> (byte list \<times> byte list) result" where
  "derive_child W key chain_code index =
     (let index_bytes = be_bytes 4 (unat index)
      in and_then
           (if index AND 0x80000000 \<noteq> 0 then hmac (Sha512 W) 64 chain_code [[0], key, index_bytes]
            else
              and_then (map_err (\<lambda>e. CryptoError (''Invalid secp256k1 key: '' @ e)) (k256_verifying_key W key))
                (\<lambda>compressed_pubkey. hmac (Sha512 W) 64 chain_code [compressed_pubkey, index_bytes]))
           (\<lambda>output.
              let (derived_key, derived_chain) = split_key_and_chain output
              in and_then (child_scalar W derived_key key) (\<lambda>child. Inr (k256_to_bytes W child, derived_chain))))"

fun derive_path ::
    "('m, 's) wallet \<Rightarrow> byte list \<Rightarrow> byte list \<Rightarrow> u32 list \<Rightarrow> (byte list \<times> byte list) result" where
  "derive_path W key chain [] = Inr (key, chain)"
| "derive_path W key chain (index # path) =
     and_then (derive_child W key chain index) (\<lambda>(derived_key, derived_chain).
       derive_path W derived_key derived_chain path)"

fun grind_loop :: "('f, 'p, 'a, 'r) starknet \<Rightarrow> byte list \<Rightarrow> byte list \<Rightarrow> 'f result" where
  "grind_loop S key_seed [] = Inl (CryptoError ''Failed to grind key after 256 iterations'')"
| "grind_loop S key_seed (i # counters) =
     (let candidate = u256_from_be_slice (sha256 S (key_seed @ [i]))
      in if candidate \<ge> GRIND_LIMIT then grind_loop S key_seed counters
         else
           let k = candidate mod STARK_ORDER
           in if k = 0 then grind_loop S key_seed counters
              else Inr (felt_from_bytes_be S (be_bytes 32 (unat k))))"

definition grind_key :: "('f, 'p, 'a, 'r) starknet \<Rightarrow> byte list \<Rightarrow> 'f result" where
  "grind_key S key_seed = grind_loop S key_seed (map of_nat [0..<256])"

definition compute_public_key :: "('f, 'p, 'a, 'r) starknet \<Rightarrow> 'f \<Rightarrow> 'p result" where
  "compute_public_key S private_key = Inr (mul_generator S private_key)"

text \<open>The array of path components each of the functions below builds.\<close>

definition bip44_path :: "u32 \<Rightarrow> u32 \<Rightarrow> u32 \<Rightarrow> u32 list" where
  "bip44_path coin_type account_index index =
     [44 OR 0x80000000, coin_type OR 0x80000000, account_index OR 0x80000000, 0, index]"

definition derive_private_key_with_coin_type ::
    "('f, 'p, 'a, 'r) starknet \<Rightarrow> ('m, 's) wallet \<Rightarrow> string \<Rightarrow> u32 \<Rightarrow> u32 \<Rightarrow> u32 \<Rightarrow> string option \<Rightarrow> 'f result" where
  "derive_private_key_with_coin_type S W mnemonic index account_index coin_type passphrase =
     and_then (require_unhardened_component index ''index'') (\<lambda>_.
     and_then (require_unhardened_component account_index ''account_index'') (\<lambda>_.
     and_then (require_unhardened_component coin_type ''coin_type'') (\<lambda>_.
     and_then (mnemonic_to_seed W mnemonic (unwrap_or passphrase [])) (\<lambda>seed.
     and_then (derive_master_key W seed) (\<lambda>master.
     and_then (derive_path W (fst master) (snd master) (bip44_path coin_type account_index index)) (\<lambda>derived.
       grind_key S (fst derived)))))))"

definition derive_private_key ::
    "('f, 'p, 'a, 'r) starknet \<Rightarrow> ('m, 's) wallet \<Rightarrow> string \<Rightarrow> u32 \<Rightarrow> u32 \<Rightarrow> string option \<Rightarrow> 'f result" where
  "derive_private_key S W mnemonic index account_index passphrase =
     derive_private_key_with_coin_type S W mnemonic index account_index TONGO_COIN_TYPE passphrase"

definition derive_keypair_with_coin_type ::
    "('f, 'p, 'a, 'r) starknet \<Rightarrow> ('m, 's) wallet \<Rightarrow> string \<Rightarrow> u32 \<Rightarrow> u32 \<Rightarrow> u32 \<Rightarrow> string option \<Rightarrow>
      ('f, 'p) TongoKeyPair result" where
  "derive_keypair_with_coin_type S W mnemonic index account_index coin_type passphrase =
     and_then (derive_private_key_with_coin_type S W mnemonic index account_index coin_type passphrase) (\<lambda>private_key.
     and_then (compute_public_key S private_key) (\<lambda>public_key.
       Inr \<lparr>kp_private_key = private_key, kp_public_key = public_key\<rparr>))"

definition derive_keypair ::
    "('f, 'p, 'a, 'r) starknet \<Rightarrow> ('m, 's) wallet \<Rightarrow> string \<Rightarrow> u32 \<Rightarrow> u32 \<Rightarrow> string option \<Rightarrow>
      ('f, 'p) TongoKeyPair result" where
  "derive_keypair S W mnemonic index account_index passphrase =
     derive_keypair_with_coin_type S W mnemonic index account_index TONGO_COIN_TYPE passphrase"

record NostrKeyPair =
  nk_private_key :: "byte list"
  nk_public_key :: "byte list"

definition derive_nostr_private_key ::
    "('m, 's) wallet \<Rightarrow> string \<Rightarrow> u32 \<Rightarrow> u32 \<Rightarrow> string option \<Rightarrow> byte list result" where
  "derive_nostr_private_key W mnemonic index account_index passphrase =
     and_then (require_unhardened_component index ''index'') (\<lambda>_.
     and_then (require_unhardened_component account_index ''account_index'') (\<lambda>_.
     and_then (mnemonic_to_seed W mnemonic (unwrap_or passphrase [])) (\<lambda>seed.
     and_then (derive_master_key W seed) (\<lambda>master.
     and_then (derive_path W (fst master) (snd master) (bip44_path NOSTR_COIN_TYPE account_index index)) (\<lambda>derived.
       Inr (fst derived))))))"

definition derive_nostr_keypair ::
    "('m, 's) wallet \<Rightarrow> string \<Rightarrow> u32 \<Rightarrow> u32 \<Rightarrow> string option \<Rightarrow> NostrKeyPair result" where
  "derive_nostr_keypair W mnemonic index account_index passphrase =
     and_then (derive_nostr_private_key W mnemonic index account_index passphrase) (\<lambda>private_key.
     and_then (map_err (\<lambda>e. CryptoError (''Invalid secp256k1 key: '' @ e)) (k256_verifying_key W private_key))
       (\<lambda>verifying_key.
     and_then (ok_or (CryptoError ''Failed to get x coordinate'') (k256_point_x W verifying_key)) (\<lambda>x_bytes.
       Inr \<lparr>nk_private_key = private_key, nk_public_key = x_bytes\<rparr>)))"

definition derive_stark_from_eth_key ::
    "('f, 'p, 'a, 'r) starknet \<Rightarrow> ('m, 's) wallet \<Rightarrow> byte list \<Rightarrow> u32 \<Rightarrow> u32 \<Rightarrow> 'f result" where
  "derive_stark_from_eth_key S W eth_private_key index account_index =
     and_then (require_unhardened_component index ''index'') (\<lambda>_.
     and_then (require_unhardened_component account_index ''account_index'') (\<lambda>_.
     and_then (derive_master_key W eth_private_key) (\<lambda>master.
     and_then (derive_path W (fst master) (snd master) (bip44_path STARKNET_COIN_TYPE account_index index)) (\<lambda>derived.
       grind_key S (fst derived)))))"

definition derive_argent_legacy_private_key ::
    "('f, 'p, 'a, 'r) starknet \<Rightarrow> ('m, 's) wallet \<Rightarrow> string \<Rightarrow> u32 \<Rightarrow> u32 \<Rightarrow> 'f result" where
  "derive_argent_legacy_private_key S W mnemonic index account_index =
     and_then (mnemonic_to_seed W mnemonic []) (\<lambda>seed.
     and_then (derive_master_key W seed) (\<lambda>master.
     and_then (derive_path W (fst master) (snd master) (bip44_path 60 0 0)) (\<lambda>eth_derived.
       derive_stark_from_eth_key S W (fst eth_derived) index account_index)))"

section \<open>HMAC and HKDF are those of the RFCs\<close>

definition hmac_rfc :: "digest \<Rightarrow> byte list \<Rightarrow> byte list \<Rightarrow> byte list" where
  "hmac_rfc D key text =
     (let k0 = key @ replicate (dg_block_size D - length key) 0
      in dg_hash D (map (\<lambda>b. b XOR OPAD) k0 @ dg_hash D (map (\<lambda>b. b XOR IPAD) k0 @ text)))"

text \<open>What the code relies on of a hash function: the length of its output, and a block that fits the buffer.\<close>

locale digest_laws =
  fixes D :: digest
  assumes hash_length: "length (dg_hash D bs) = dg_output_size D"
    and block_fits: "dg_block_size D \<le> 128"
begin

lemma hmac_is_rfc:
  assumes "length key \<le> dg_block_size D"
  shows "hmac D (dg_output_size D) key message = Inr (hmac_rfc D key (concat message))"
proof -
  define k0 where "k0 = key @ replicate (dg_block_size D - length key) 0"
  have pad: "key @ drop (length key) (take (dg_block_size D) (replicate 128 0)) = k0"
    using block_fits by (simp add: k0_def min_def)
  have inner: "map (\<lambda>b. b XOR IPAD) (key @ drop (length key) (take (dg_block_size D) (replicate 128 0))) = map (\<lambda>b. b XOR IPAD) k0"
    by (simp only: pad)
  have "(b XOR IPAD) XOR (IPAD XOR OPAD) = b XOR OPAD" for b :: byte by (simp add: xor.assoc)
  then have twice: "map (\<lambda>b. b XOR (IPAD XOR OPAD)) (map (\<lambda>b. b XOR IPAD) k0) = map (\<lambda>b. b XOR OPAD) k0" by simp
  have guard: "\<not> (dg_block_size D < length key \<or> 128 < dg_block_size D \<or> dg_output_size D \<noteq> dg_output_size D)"
    using assms block_fits by simp
  have "hmac D (dg_output_size D) key message =
      Inr (take (dg_output_size D) (dg_hash D (map (\<lambda>b. b XOR OPAD) k0 @ dg_hash D (map (\<lambda>b. b XOR IPAD) k0 @ concat message))))"
    unfolding hmac_def MAX_HMAC_BLOCK_def Let_def inner twice if_not_P [OF guard] ..
  then show ?thesis by (simp add: hash_length hmac_rfc_def k0_def [symmetric])
qed

lemma length_hmac_rfc: "length (hmac_rfc D key text) = dg_output_size D"
  by (simp add: hmac_rfc_def Let_def hash_length)

end

text \<open>The blocks \<open>T(i)\<close> of RFC 5869.\<close>

fun hkdf_block :: "('f, 'p, 'a, 'r) starknet \<Rightarrow> byte list \<Rightarrow> byte list \<Rightarrow> nat \<Rightarrow> byte list" where
  "hkdf_block S prk info 0 = []"
| "hkdf_block S prk info (Suc i) =
     hmac_rfc (Sha256 S) prk (hkdf_block S prk info i @ info @ [of_nat (Suc i)])"

lemma digest_Sha256: "entropy_laws S \<Longrightarrow> digest_laws (Sha256 S)"
  by (simp add: digest_laws_def Sha256_def entropy_laws.sha256_length)

lemma hmac_Sha256:
  assumes "entropy_laws S" and "length key \<le> 64"
  shows "hmac (Sha256 S) SHA256_LEN key message = Inr (hmac_rfc (Sha256 S) key (concat message))"
  using digest_laws.hmac_is_rfc [OF digest_Sha256 [OF assms(1)], of key message] assms(2)
  by (simp add: Sha256_def SHA256_LEN_def)

lemma length_hkdf_block:
  assumes "entropy_laws S" and "0 < i"
  shows "length (hkdf_block S prk info i) = 32"
  using assms(2) digest_laws.length_hmac_rfc [OF digest_Sha256 [OF assms(1)]] by (cases i) (simp_all add: Sha256_def)

lemma hkdf_loop_blocks:
  assumes "entropy_laws S" and "length prk \<le> 64" and "i \<le> j" and "j \<le> 255" and "0 < i \<Longrightarrow> previous = hkdf_block S prk info i"
    and "length chunks = j - i"
  shows "hkdf_loop S prk info (zip (map of_nat [Suc i..<Suc j]) chunks) previous =
    Inr (concat (map (\<lambda>(k, c). take c (hkdf_block S prk info k)) (zip [Suc i..<Suc j] chunks)))"
  using assms(3-6)
proof (induction chunks arbitrary: i previous)
  case (Cons c chunks)
  then have lt: "i < j" by simp
  then have up: "[Suc i..<Suc j] = Suc i # [Suc (Suc i)..<Suc j]" by (simp add: upt_conv_Cons)
  have one: "(of_nat (Suc i) :: byte) = 1 \<longleftrightarrow> i = 0"
  proof
    assume "(of_nat (Suc i) :: byte) = 1"
    then have "unat (of_nat (Suc i) :: byte) = 1" by simp
    then show "i = 0" using lt Cons.prems(2) by (simp add: unat_of_nat_small del: of_nat_Suc)
  qed simp
  have chain: "(if (of_nat (Suc i) :: byte) = 1 then [] else previous) = hkdf_block S prk info i"
    using Cons.prems(3) unfolding one by (cases "i = 0") simp_all
  have block: "hmac (Sha256 S) SHA256_LEN prk [hkdf_block S prk info i, info, [of_nat (Suc i)]] = Inr (hkdf_block S prk info (Suc i))"
    by (simp add: hmac_Sha256 [OF assms(1,2)] del: of_nat_Suc)
  have IH: "hkdf_loop S prk info (zip (map of_nat [Suc (Suc i)..<Suc j]) chunks) (hkdf_block S prk info (Suc i)) =
      Inr (concat (map (\<lambda>(k, c). take c (hkdf_block S prk info k)) (zip [Suc (Suc i)..<Suc j] chunks)))"
    using lt Cons.prems by (intro Cons.IH) auto
  show ?case
    unfolding up by (simp only: list.map zip_Cons_Cons hkdf_loop.simps Let_def chain block and_then_Inr IH prod.case concat.simps)
qed simp

lemma chunk_lengths_step:
  "chunk_lengths l = (if l = 0 then [] else if l < 32 then [l] else 32 # chunk_lengths (l - 32))"
proof (cases "l < 32")
  case False
  then have "l div 32 = Suc ((l - 32) div 32)" "l mod 32 = (l - 32) mod 32"
    by (simp_all add: le_div_geq le_mod_geq)
  then show ?thesis using False by (simp add: chunk_lengths_def SHA256_LEN_def)
qed (simp add: chunk_lengths_def SHA256_LEN_def)

lemma length_chunk_lengths: "length (chunk_lengths l) = (l + 31) div 32"
proof -
  define q r where "q = l div 32" and "r = l mod 32"
  have l: "l = 32 * q + r" and r: "r < 32" by (simp_all add: q_def r_def)
  have "(l + 31) div 32 = q + (r + 31) div 32" unfolding l by simp
  moreover have "(r + 31) div 32 = (if r = 0 then 0 else 1)" using r by (auto intro: div_nat_eqI)
  ultimately show ?thesis by (simp add: chunk_lengths_def SHA256_LEN_def q_def r_def)
qed

lemma chunks_take:
  assumes "\<And>k. k \<in> set ks \<Longrightarrow> length (f k) = 32" and "length (chunk_lengths l) \<le> length ks"
  shows "concat (map (\<lambda>(k, c). take c (f k)) (zip ks (chunk_lengths l))) = take l (concat (map f ks))"
  using assms
proof (induction ks arbitrary: l)
  case (Cons k ks)
  have k: "length (f k) = 32" using Cons.prems(1) by simp
  have IH: "concat (map (\<lambda>(k, c). take c (f k)) (zip ks (chunk_lengths (l - 32)))) = take (l - 32) (concat (map f ks))"
    if "\<not> l < 32" using that Cons.prems chunk_lengths_step [of l] by (intro Cons.IH) auto
  show ?case
  proof (cases "l < 32")
    case True
    then have "chunk_lengths l = (if l = 0 then [] else [l])" by (simp add: chunk_lengths_step [of l])
    then show ?thesis using True k by simp
  next
    case False
    then have "chunk_lengths l = 32 # chunk_lengths (l - 32)" by (simp add: chunk_lengths_step [of l])
    then show ?thesis using IH [OF False] False k by simp
  qed
qed (simp add: chunk_lengths_step [of l] split: if_splits)

lemma hkdf_is_rfc:
  assumes "entropy_laws S" and "length prk \<le> 64" and "l \<le> 8160"
  shows "hkdf_sha256_expand S l prk info = Inr (take l (concat (map (hkdf_block S prk info) [1..<Suc ((l + 31) div 32)])))"
proof -
  define j where "j = (l + 31) div 32"
  have j: "j \<le> 255" using assms(3) by (simp add: j_def)
  have "zip (map of_nat [1..<256]) (chunk_lengths l) = take j (zip (map of_nat [1..<256]) (chunk_lengths l))"
    by (simp add: length_chunk_lengths j_def)
  also have "\<dots> = zip (map of_nat (take j [1..<256])) (chunk_lengths l)"
    by (simp add: take_zip take_map length_chunk_lengths j_def)
  also have "take j [1..<256] = [Suc 0..<Suc j]" using j by (simp add: take_upt)
  finally have zip: "zip (map of_nat [1..<256]) (chunk_lengths l) = zip (map of_nat [Suc 0..<Suc j]) (chunk_lengths l)" .
  have "hkdf_sha256_expand S l prk info =
      Inr (concat (map (\<lambda>(k, c). take c (hkdf_block S prk info k)) (zip [Suc 0..<Suc j] (chunk_lengths l))))"
    using assms(3) j hkdf_loop_blocks [OF assms(1,2), of 0 j "replicate SHA256_LEN 0" info "chunk_lengths l"]
    unfolding hkdf_sha256_expand_def zip by (simp add: SHA256_LEN_def length_chunk_lengths j_def del: upt_Suc)
  also have "concat (map (\<lambda>(k, c). take c (hkdf_block S prk info k)) (zip [Suc 0..<Suc j] (chunk_lengths l))) =
      take l (concat (map (hkdf_block S prk info) [Suc 0..<Suc j]))"
    by (intro chunks_take) (auto simp: length_hkdf_block [OF assms(1)] length_chunk_lengths j_def simp del: upt_Suc)
  finally show ?thesis by (simp add: j_def)
qed

section \<open>Grinding\<close>

lemma unat_STARK_ORDER: "unat STARK_ORDER = CURVE_ORDER"
  by (simp add: STARK_ORDER_def CURVE_ORDER_def)

lemma unat_GRIND_LIMIT: "unat GRIND_LIMIT = 2 ^ 256 - 2 ^ 256 mod CURVE_ORDER" "unat GRIND_LIMIT = 31 * CURVE_ORDER"
proof -
  have "(- 1 :: u256) mod STARK_ORDER \<le> - 1" by simp
  then have "unat GRIND_LIMIT = (2 ^ 256 - 1) - (2 ^ 256 - 1) mod CURVE_ORDER"
    by (simp add: GRIND_LIMIT_def unat_sub unat_mod unat_STARK_ORDER unat_max_word)
  then show "unat GRIND_LIMIT = 2 ^ 256 - 2 ^ 256 mod CURVE_ORDER" "unat GRIND_LIMIT = 31 * CURVE_ORDER"
    by (simp_all add: CURVE_ORDER_def)
qed

lemma unat_u256_from_be_slice: "length bs = 32 \<Longrightarrow> unat (u256_from_be_slice bs) = be_val bs"
  using be_val_less [of bs] by (simp add: u256_from_be_slice_def unat_of_nat_small)

text \<open>The integers below \<open>q * n\<close> with a given residue.\<close>

lemma card_residue:
  assumes "k < (n :: nat)"
  shows "card {c. c < q * n \<and> c mod n = k} = q"
proof -
  have "{c. c < q * n \<and> c mod n = k} = (\<lambda>j. j * n + k) ` {..<q}"
  proof (intro equalityI subsetI)
    fix c
    assume "c \<in> {c. c < q * n \<and> c mod n = k}"
    then have "c = (c div n) * n + k" "c div n < q" using div_mult_mod_eq [of c n] by (auto simp: less_mult_imp_div_less)
    then show "c \<in> (\<lambda>j. j * n + k) ` {..<q}" by blast
  next
    fix c
    assume "c \<in> (\<lambda>j. j * n + k) ` {..<q}"
    then obtain j where j: "j < q" "c = j * n + k" by auto
    then have "c < Suc j * n" using assms by simp
    also have "\<dots> \<le> q * n" using j(1) by (intro mult_le_mono1) simp
    finally show "c \<in> {c. c < q * n \<and> c mod n = k}" using assms j(2) by simp
  qed
  moreover have "inj_on (\<lambda>j. j * n + k) {..<q}" using assms by (auto simp: inj_on_def)
  ultimately show ?thesis by (simp add: card_image)
qed

lemma card_grind_candidates:
  assumes "k < CURVE_ORDER"
  shows "card {c :: u256. c < GRIND_LIMIT \<and> unat (c mod STARK_ORDER) = k} = 31"
proof -
  have "{c :: u256. c < GRIND_LIMIT \<and> unat (c mod STARK_ORDER) = k} = of_nat ` {c. c < 31 * CURVE_ORDER \<and> c mod CURVE_ORDER = k}"
  proof (intro equalityI subsetI)
    fix c :: u256
    assume "c \<in> {c. c < GRIND_LIMIT \<and> unat (c mod STARK_ORDER) = k}"
    then have "unat c \<in> {c. c < 31 * CURVE_ORDER \<and> c mod CURVE_ORDER = k}"
      by (simp add: word_less_nat_alt unat_GRIND_LIMIT(2) unat_mod unat_STARK_ORDER)
    then show "c \<in> of_nat ` {c. c < 31 * CURVE_ORDER \<and> c mod CURVE_ORDER = k}"
      by (intro image_eqI [of _ _ "unat c"]) simp_all
  next
    fix c :: u256
    assume "c \<in> of_nat ` {c. c < 31 * CURVE_ORDER \<and> c mod CURVE_ORDER = k}"
    then obtain d where d: "c = of_nat d" "d < 31 * CURVE_ORDER" "d mod CURVE_ORDER = k" by auto
    then have "unat c = d" by (simp add: unat_of_nat_small CURVE_ORDER_def)
    then show "c \<in> {c. c < GRIND_LIMIT \<and> unat (c mod STARK_ORDER) = k}"
      using d by (simp add: word_less_nat_alt unat_GRIND_LIMIT(2) unat_mod unat_STARK_ORDER)
  qed
  moreover have "inj_on (of_nat :: nat \<Rightarrow> u256) {c. c < 31 * CURVE_ORDER \<and> c mod CURVE_ORDER = k}"
    by (rule inj_onI) (simp add: CURVE_ORDER_def word_unat_eq_iff unat_of_nat_small)
  ultimately show ?thesis using card_residue [OF assms, of 31] by (simp add: card_image)
qed

text \<open>The digest of a counter is accepted when it gives a nonzero key without bias.\<close>

definition grind_accepts :: "('f, 'p, 'a, 'r) starknet \<Rightarrow> byte list \<Rightarrow> byte \<Rightarrow> bool" where
  "grind_accepts S key_seed i \<longleftrightarrow>
     be_val (sha256 S (key_seed @ [i])) < 31 * CURVE_ORDER \<and> be_val (sha256 S (key_seed @ [i])) mod CURVE_ORDER \<noteq> 0"

lemma grind_loop_find:
  assumes "felt_laws S" and "entropy_laws S"
  shows "grind_loop S key_seed is = Inr f \<longleftrightarrow>
    (\<exists>i. find (grind_accepts S key_seed) is = Some i \<and> felt_val S f = be_val (sha256 S (key_seed @ [i])) mod CURVE_ORDER)"
proof (induction "is")
  case (Cons i counters)
  define c where "c = be_val (sha256 S (key_seed @ [i]))"
  have c: "unat (u256_from_be_slice (sha256 S (key_seed @ [i]))) = c"
    by (simp add: c_def unat_u256_from_be_slice entropy_laws.sha256_length [OF assms(2)])
  have acc: "grind_accepts S key_seed i \<longleftrightarrow> c < 31 * CURVE_ORDER \<and> c mod CURVE_ORDER \<noteq> 0" by (simp add: grind_accepts_def c_def)
  have step: "grind_loop S key_seed (i # counters) =
      (if grind_accepts S key_seed i then Inr (felt_from_bytes_be S (be_bytes 32 (c mod CURVE_ORDER))) else grind_loop S key_seed counters)"
    by (simp add: Let_def word_le_nat_alt c unat_GRIND_LIMIT(2) word_unat_eq_iff unat_mod unat_STARK_ORDER acc linorder_not_le)
  have "c mod CURVE_ORDER < CURVE_ORDER" by (simp add: CURVE_ORDER_def)
  also have "CURVE_ORDER < FELT_PRIME" by (simp add: CURVE_ORDER_def FELT_PRIME_def)
  finally have less: "c mod CURVE_ORDER < FELT_PRIME" .
  moreover have "FELT_PRIME < 256 ^ 32" by (simp add: FELT_PRIME_def)
  ultimately have "be_val (be_bytes 32 (c mod CURVE_ORDER)) mod FELT_PRIME = c mod CURVE_ORDER"
    unfolding be_val_be_bytes by (metis mod_less order_less_trans)
  then have "felt_val S (felt_from_bytes_be S (be_bytes 32 (c mod CURVE_ORDER))) = c mod CURVE_ORDER"
    by (simp add: felt_val_def felt_laws.felt_to_from_bytes [OF assms(1)])
  then have "felt_val S f = c mod CURVE_ORDER \<longleftrightarrow> felt_from_bytes_be S (be_bytes 32 (c mod CURVE_ORDER)) = f"
    using felt_laws.felt_val_inj [OF assms(1)] by metis
  then show ?case using Cons.IH unfolding step by (simp add: c_def)
qed simp

lemma ground_key_range:
  assumes "felt_laws S" and "entropy_laws S" and "grind_key S key_seed = Inr f"
  shows "0 < felt_val S f" and "felt_val S f < CURVE_ORDER"
proof -
  obtain i where i: "find (grind_accepts S key_seed) (map of_nat [0..<256]) = Some i"
    and f: "felt_val S f = be_val (sha256 S (key_seed @ [i])) mod CURVE_ORDER"
    using assms(3) unfolding grind_key_def grind_loop_find [OF assms(1,2)] by blast
  have "grind_accepts S key_seed i" using i by (auto simp: find_Some_iff)
  then show "0 < felt_val S f" "felt_val S f < CURVE_ORDER" by (simp_all add: f grind_accepts_def CURVE_ORDER_def)
qed

section \<open>The walk along a path is that of BIP-32\<close>

text \<open>What the code relies on of \<open>k256\<close>, \<open>sha2\<close> and \<open>bip39\<close>.\<close>

locale wallet_laws =
  fixes W :: "('m, 's) wallet"
  assumes sha512_length: "length (sha512 W bs) = 64"
    and k256_bytes_length: "length (k256_to_bytes W a) = 32"
    and k256_reduce_val: "length bs = 32 \<Longrightarrow> be_val (k256_to_bytes W (k256_reduce W bs)) = be_val bs mod SECP256K1_ORDER"
    and k256_add_val: "be_val (k256_to_bytes W (k256_add W a b)) =
      (be_val (k256_to_bytes W a) + be_val (k256_to_bytes W b)) mod SECP256K1_ORDER"
    and k256_zero: "k256_is_zero W a \<longleftrightarrow> be_val (k256_to_bytes W a) = 0"
    and k256_key: "length bs = 32 \<Longrightarrow>
      (\<exists>pk. k256_verifying_key W bs = Inr pk) \<longleftrightarrow> 0 < be_val bs \<and> be_val bs < SECP256K1_ORDER"
    and bip39_entropy: "length bs \<in> {16, 20, 24, 28, 32} \<Longrightarrow> \<exists>m. bip39_from_entropy W bs = Inr m"
    and bip39_text: "bip39_parse W (bip39_to_string W m) = Inr m"

text \<open>
  \<open>CKDpriv\<close> of the specification, on integers: an index of at least \<open>2^31\<close> is hardened. The point of a key is
  encoded by \<open>k256\<close>.
\<close>

definition ckd_priv :: "('m, 's) wallet \<Rightarrow> nat \<Rightarrow> nat \<times> byte list \<Rightarrow> (nat \<times> byte list) option" where
  "ckd_priv W i = (\<lambda>(k, c).
     case (if 2 ^ 31 \<le> i then Some (0 # be_bytes 32 k)
           else case k256_verifying_key W (be_bytes 32 k) of Inr pk \<Rightarrow> Some pk | Inl _ \<Rightarrow> None) of
       None \<Rightarrow> None
     | Some data \<Rightarrow>
         let I = hmac_rfc (Sha512 W) c (data @ be_bytes 4 i);
             il = be_val (take 32 I);
             k' = (il + k) mod SECP256K1_ORDER
         in if SECP256K1_ORDER \<le> il \<or> k' = 0 then None else Some (k', drop 32 I))"

fun ckd_path :: "('m, 's) wallet \<Rightarrow> nat list \<Rightarrow> nat \<times> byte list \<Rightarrow> (nat \<times> byte list) option" where
  "ckd_path W [] node = Some node"
| "ckd_path W (i # path) node = Option.bind (ckd_priv W i node) (ckd_path W path)"

definition bip32_master :: "('m, 's) wallet \<Rightarrow> byte list \<Rightarrow> nat \<times> byte list" where
  "bip32_master W seed =
     (let I = hmac_rfc (Sha512 W) (map of_char ''Bitcoin seed'') seed in (be_val (take 32 I), drop 32 I))"

lemma hardened_bit: "i AND 0x80000000 \<noteq> 0 \<longleftrightarrow> 2 ^ 31 \<le> unat i" for i :: u32
proof -
  have "i AND 0x80000000 \<noteq> 0 \<longleftrightarrow> bit i 31" using and_exp_eq_0_iff_not_bit [of i 31] by simp
  also have "bit i 31 \<longleftrightarrow> odd (unat i div 2 ^ 31)"
    using bit_unsigned_iff [of i 31, where 'a = nat] bit_iff_odd [of "unat i" 31] by simp
  also have "\<dots> \<longleftrightarrow> 2 ^ 31 \<le> unat i"
  proof (cases "2 ^ 31 \<le> unat i")
    case True
    have "unat i div 2 ^ 31 < 2" using unsigned_less [of i, where 'a = nat] by (intro less_mult_imp_div_less) simp
    moreover have "0 < unat i div 2 ^ 31" using True by (subst div_greater_zero_iff) simp
    ultimately have "unat i div 2 ^ 31 = 1" by linarith
    then show ?thesis using True by simp
  next
    case False
    then have "unat i div 2 ^ 31 = 0" by (intro div_less) simp
    then show ?thesis using False by simp
  qed
  finally show ?thesis .
qed

context wallet_laws
begin

lemma hmac_Sha512:
  assumes "length key \<le> 128"
  shows "hmac (Sha512 W) 64 key message = Inr (hmac_rfc (Sha512 W) key (concat message))"
    and "length (hmac_rfc (Sha512 W) key msg) = 64"
proof -
  have d: "digest_laws (Sha512 W)" by (simp add: digest_laws_def Sha512_def sha512_length)
  show "hmac (Sha512 W) 64 key message = Inr (hmac_rfc (Sha512 W) key (concat message))"
    using digest_laws.hmac_is_rfc [OF d, of key message] assms by (simp add: Sha512_def)
  show "length (hmac_rfc (Sha512 W) key msg) = 64"
    using digest_laws.length_hmac_rfc [OF d, of key msg] by (simp add: Sha512_def)
qed

lemma child_scalar_val:
  assumes "length il = 32" and "length parent = 32"
  shows "and_then (child_scalar W il parent) (\<lambda>child. Inr (k256_to_bytes W child, c)) = Inr (bs, c') \<longleftrightarrow>
    length bs = 32 \<and> c' = c \<and> be_val il < SECP256K1_ORDER \<and>
    be_val bs = (be_val il + be_val parent) mod SECP256K1_ORDER \<and> be_val bs \<noteq> 0"
proof -
  define child where "child = k256_add W (k256_reduce W il) (k256_reduce W parent)"
  have v: "be_val (k256_to_bytes W child) = (be_val il + be_val parent) mod SECP256K1_ORDER"
    using assms by (simp add: child_def k256_add_val k256_reduce_val mod_simps)
  have bs: "k256_to_bytes W child = bs \<longleftrightarrow> length bs = 32 \<and> be_val bs = be_val (k256_to_bytes W child)"
    using be_val_inj [of "k256_to_bytes W child" bs] k256_bytes_length [of child] by auto
  have "child_scalar W il parent = (if be_val il < SECP256K1_ORDER \<and> be_val (k256_to_bytes W child) \<noteq> 0 then Inr child
      else if be_val il < SECP256K1_ORDER then Inl (CryptoError ''BIP-32 child derivation failed: derived key is zero'')
      else Inl (CryptoError ''BIP-32 child derivation failed: IL >= curve order n''))"
    using assms(1) by (simp add: child_scalar_def child_def unat_u256_from_be_slice k256_zero Let_def)
  then show ?thesis using bs v by auto
qed

lemma derive_child_ckd:
  assumes "length key = 32" and "length chain \<le> 128"
  shows "derive_child W key chain i = Inr (key', chain') \<longleftrightarrow>
    length key' = 32 \<and> ckd_priv W (unat i) (be_val key, chain) = Some (be_val key', chain')"
proof -
  have key: "be_bytes 32 (be_val key) = key" using be_bytes_be_val [of key] assms(1) by simp
  define data where "data = (if 2 ^ 31 \<le> unat i then Some (0 # key)
    else case k256_verifying_key W key of Inr pk \<Rightarrow> Some pk | Inl _ \<Rightarrow> None)"
  have I: "(if i AND 0x80000000 \<noteq> 0 then hmac (Sha512 W) 64 chain [[0], key, be_bytes 4 (unat i)]
      else and_then (map_err (\<lambda>e. CryptoError (''Invalid secp256k1 key: '' @ e)) (k256_verifying_key W key))
        (\<lambda>pk. hmac (Sha512 W) 64 chain [pk, be_bytes 4 (unat i)])) = Inr I \<longleftrightarrow>
    (\<exists>d. data = Some d \<and> I = hmac_rfc (Sha512 W) chain (d @ be_bytes 4 (unat i)))" for I
    unfolding hardened_bit data_def
    by (auto simp: hmac_Sha512(1) [OF assms(2)] result_iffs split: sum.splits)
  have "derive_child W key chain i = Inr (key', chain') \<longleftrightarrow>
    (\<exists>d I. data = Some d \<and> I = hmac_rfc (Sha512 W) chain (d @ be_bytes 4 (unat i)) \<and>
      and_then (child_scalar W (take 32 I) key) (\<lambda>child. Inr (k256_to_bytes W child, drop 32 I)) = Inr (key', chain'))"
    unfolding derive_child_def Let_def and_then_eq_Inr [of "if _ then _ else _"] I split_key_and_chain_def prod.case by blast
  also have "\<dots> \<longleftrightarrow> length key' = 32 \<and> ckd_priv W (unat i) (be_val key, chain) = Some (be_val key', chain')"
    unfolding ckd_priv_def prod.case key data_def [symmetric]
    using assms(1) hmac_Sha512(2) [OF assms(2)] by (cases data) (auto simp: child_scalar_val Let_def)
  finally show ?thesis .
qed

lemma ckd_chain:
  assumes "ckd_priv W i (k, c) = Some (k', c')" and "length c \<le> 128"
  shows "length c' = 32"
  using assms hmac_Sha512(2) [OF assms(2)] by (auto simp: ckd_priv_def Let_def split: option.splits if_splits)

lemma derive_path_ckd:
  assumes "length key = 32" and "length chain = 32"
  shows "derive_path W key chain path = Inr (key', chain') \<longleftrightarrow>
    length key' = 32 \<and> ckd_path W (map unat path) (be_val key, chain) = Some (be_val key', chain')"
  using assms
proof (induction path arbitrary: key chain)
  case Nil
  then show ?case using be_val_inj [of key key'] by auto
next
  case (Cons i path)
  show ?case
  proof (cases "ckd_priv W (unat i) (be_val key, chain)")
    case None
    then have "derive_child W key chain i \<noteq> Inr (k, c)" for k c
      using derive_child_ckd [of key chain i] Cons.prems by simp
    then show ?thesis using None by (auto simp: and_then_eq_Inr)
  next
    case (Some node)
    obtain k c where node: "node = (k, c)" by (cases node)
    have c: "length c = 32" using ckd_chain Some Cons.prems(2) by (simp add: node)
    have k: "k < SECP256K1_ORDER" using Some by (auto simp: node ckd_priv_def Let_def SECP256K1_ORDER_def split: option.splits if_splits)
    then have "k < 256 ^ 32" by (simp add: SECP256K1_ORDER_def)
    then have kb: "be_val (be_bytes 32 k) = k" by (simp add: be_val_be_bytes)
    have d: "derive_child W key chain i = Inr (be_bytes 32 k, c)"
      using derive_child_ckd [of key chain i] Cons.prems Some by (simp add: node kb)
    show ?thesis using Cons.IH [of "be_bytes 32 k" c] c by (simp add: d Some node kb)
  qed
qed

lemma derive_master_key_bip32:
  obtains key chain where "derive_master_key W seed = Inr (key, chain)" and "length key = 32" and "length chain = 32"
    and "bip32_master W seed = (be_val key, chain)"
proof -
  define I where "I = hmac_rfc (Sha512 W) (map of_char ''Bitcoin seed'') seed"
  have h: "hmac (Sha512 W) 64 (map of_char ''Bitcoin seed'') [seed] = Inr I" and l: "length I = 64"
    using hmac_Sha512 [of "map of_char ''Bitcoin seed''"] by (simp_all add: I_def)
  have "derive_master_key W seed = Inr (take 32 I, drop 32 I)"
    unfolding derive_master_key_def h split_key_and_chain_def by simp
  moreover have "bip32_master W seed = (be_val (take 32 I), drop 32 I)"
    unfolding bip32_master_def I_def by (simp only: Let_def)
  ultimately show ?thesis by (intro that [of "take 32 I" "drop 32 I"]) (simp_all add: l)
qed

lemma derive_from_seed:
  "and_then (derive_master_key W seed) (\<lambda>master. and_then (derive_path W (fst master) (snd master) path) f) = Inr y \<longleftrightarrow>
    (\<exists>k c. ckd_path W (map unat path) (bip32_master W seed) = Some (k, c) \<and> k < 256 ^ 32 \<and> f (be_bytes 32 k, c) = Inr y)"
proof -
  obtain key chain where m: "derive_master_key W seed = Inr (key, chain)" "length key = 32" "length chain = 32"
    "bip32_master W seed = (be_val key, chain)" by (rule derive_master_key_bip32)
  have "derive_path W key chain path = Inr (key', c) \<longleftrightarrow>
      (\<exists>k. key' = be_bytes 32 k \<and> k < 256 ^ 32 \<and> ckd_path W (map unat path) (be_val key, chain) = Some (k, c))" for key' c
    unfolding derive_path_ckd [OF m(2,3)]
    by (metis be_bytes_be_val be_val_be_bytes be_val_less length_be_bytes mod_less)
  then show ?thesis by (auto simp: m and_then_eq_Inr)
qed

end

lemma ckd_path_less: "ckd_path W (i # path) node = Some (k, c) \<Longrightarrow> k < SECP256K1_ORDER"
proof (induction path arbitrary: i node)
  case Nil
  then show ?case
    by (auto simp: ckd_priv_def Let_def SECP256K1_ORDER_def split: option.splits if_splits bind_splits prod.splits)
next
  case (Cons j path)
  then show ?case by (auto split: bind_splits)
qed

section \<open>Paths\<close>

lemma unhardened_ok: "require_unhardened_component v field = Inr u \<longleftrightarrow> unat v < 2 ^ 31"
  using hardened_bit [of v] by (simp add: require_unhardened_component_def not_le [symmetric])

lemma unat_harden:
  fixes v :: u32
  assumes "unat v < 2 ^ 31"
  shows "unat (v OR 0x80000000) = 2 ^ 31 + unat v"
proof -
  have "v AND 0x80000000 = 0" using hardened_bit [of v] assms by simp
  then have "v OR 0x80000000 = v + 0x80000000" using word_plus_and_or [of v "0x80000000"] by simp
  moreover have "unat v + unat (0x80000000 :: u32) < 2 ^ LENGTH(32)" using assms by simp
  ultimately show ?thesis by (simp add: unat_plus_simple [THEN iffD1] no_olen_add_nat unat_word_ariths)
qed

lemma bip44_path_indices:
  assumes "unat coin < 2 ^ 31" and "unat account < 2 ^ 31"
  shows "map unat (bip44_path coin account index) =
    [2 ^ 31 + 44, 2 ^ 31 + unat coin, 2 ^ 31 + unat account, 0, unat index]"
  using unat_harden [of 44] unat_harden [OF assms(1)] unat_harden [OF assms(2)] by (simp add: bip44_path_def)

section \<open>A concrete wallet\<close>

text \<open>An instance of the parameter: scalars are integers modulo the order, and the hash is constant.\<close>

definition zwallet :: "(string, nat) wallet" where
  "zwallet = \<lparr>
     sha512 = (\<lambda>bs. replicate 31 0 @ [1] @ replicate 32 0),
     bip39_parse = Inr,
     bip39_to_seed = (\<lambda>m passphrase. replicate 64 0),
     bip39_from_entropy = (\<lambda>bs. Inr (map (\<lambda>b. char_of (unat b)) bs)),
     bip39_to_string = (\<lambda>m. m),
     k256_reduce = (\<lambda>bs. be_val bs mod SECP256K1_ORDER),
     k256_add = (\<lambda>a b. (a + b) mod SECP256K1_ORDER),
     k256_is_zero = (\<lambda>a. a mod SECP256K1_ORDER = 0),
     k256_to_bytes = (\<lambda>a. be_bytes 32 (a mod SECP256K1_ORDER)),
     k256_verifying_key = (\<lambda>key. if 0 < be_val key \<and> be_val key < SECP256K1_ORDER then Inr (2 # key) else Inl ''signature error''),
     k256_point_x = (\<lambda>point. Some (drop 1 point))\<rparr>"

interpretation zw: wallet_laws zwallet
proof
  have small: "a mod SECP256K1_ORDER < 256 ^ 32" for a
  proof -
    have "a mod SECP256K1_ORDER < SECP256K1_ORDER" by (simp add: SECP256K1_ORDER_def)
    also have "\<dots> < 256 ^ 32" by (simp add: SECP256K1_ORDER_def)
    finally show ?thesis .
  qed
  have v: "be_val (be_bytes 32 (a mod SECP256K1_ORDER)) = a mod SECP256K1_ORDER" for a
    unfolding be_val_be_bytes using small [of a] by (rule mod_less)
  show "be_val (k256_to_bytes zwallet (k256_reduce zwallet bs)) = be_val bs mod SECP256K1_ORDER" for bs
    by (simp add: zwallet_def v)
  show "be_val (k256_to_bytes zwallet (k256_add zwallet a b)) =
      (be_val (k256_to_bytes zwallet a) + be_val (k256_to_bytes zwallet b)) mod SECP256K1_ORDER" for a b
    by (simp add: zwallet_def v mod_simps)
  show "k256_is_zero zwallet a \<longleftrightarrow> be_val (k256_to_bytes zwallet a) = 0" for a
    by (simp add: zwallet_def v)
qed (simp_all add: zwallet_def)

lemma hmac_zwallet: "hmac_rfc (Sha512 zwallet) key msg = replicate 31 0 @ [1] @ replicate 32 0"
  by (simp add: hmac_rfc_def Sha512_def zwallet_def Let_def)

lemma ckd_zwallet:
  assumes "0 < k" and "k + 1 < SECP256K1_ORDER"
  shows "ckd_priv zwallet i (k, c) = Some (k + 1, replicate 32 0)"
proof -
  have "k < 256 ^ 32" using assms(2) by (simp add: SECP256K1_ORDER_def)
  then have k: "be_val (be_bytes 32 k) = k" by (simp add: be_val_be_bytes)
  have one: "be_val (replicate 31 0 @ [1]) = 1" by (simp add: be_val_zero_iff [THEN iffD2])
  have "k256_verifying_key zwallet (be_bytes 32 k) = Inr (2 # be_bytes 32 k)" using assms k by (simp add: zwallet_def)
  then show ?thesis using assms one by (simp add: ckd_priv_def hmac_zwallet)
qed

definition zhash :: "(zfelt, zgrp, zaff, zgrp) starknet" where
  "zhash = stark_dlog\<lparr>sha256 := \<lambda>bs. replicate 31 0 @ [7]\<rparr>"

lemma zhash_laws: "felt_laws zhash" "entropy_laws zhash"
  using dlog.felt_laws_axioms dlog.entropy_laws_axioms by (simp_all add: zhash_def felt_laws_def entropy_laws_def)

lemma grind_zhash: "grind_key zhash seed = Inr (zfelt_of 7)"
proof -
  have seven: "be_val (sha256 zhash bs) = 7" for bs by (simp add: zhash_def be_val_zero_iff [THEN iffD2])
  have "grind_accepts zhash seed i" for i by (simp add: grind_accepts_def seven CURVE_ORDER_def)
  moreover have "map of_nat [0..<256] = (0 :: byte) # map of_nat [1..<256]" by (simp add: upt_conv_Cons)
  ultimately have "find (grind_accepts zhash seed) (map of_nat [0..<256]) = Some 0" by simp
  moreover have "felt_val zhash (zfelt_of 7) = 7"
    using dlog_felt_val [of 7] by (simp add: zhash_def felt_val_def FELT_PRIME_def be_val_be_bytes)
  ultimately show ?thesis
    unfolding grind_key_def grind_loop_find [OF zhash_laws] by (intro exI [of _ 0]) (simp add: seven CURVE_ORDER_def)
qed

section \<open>Properties\<close>



text \<open>
  C27. Grinding is unbiased. The key is the remainder of the first digest that is below the limit and not a multiple of
  the order, counting up from zero; it is a valid key; and every key has the same number of accepted digests, 31.
\<close>

theorem grinding_uniform:
  assumes "felt_laws S" and "entropy_laws S"
  shows "(grind_key S key_seed = Inr f \<longrightarrow> 0 < felt_val S f \<and> felt_val S f < CURVE_ORDER \<and>
      (\<exists>i. grind_accepts S key_seed i \<and> (\<forall>j < i. \<not> grind_accepts S key_seed j) \<and>
        felt_val S f = be_val (sha256 S (key_seed @ [i])) mod CURVE_ORDER)) \<and>
    (k < CURVE_ORDER \<longrightarrow> card {c :: u256. c < GRIND_LIMIT \<and> unat (c mod STARK_ORDER) = k} = 31)"
proof (intro conjI impI)
  assume f: "grind_key S key_seed = Inr f"
  from ground_key_range [OF assms f] show "0 < felt_val S f" "felt_val S f < CURVE_ORDER" .
  obtain i where i: "find (grind_accepts S key_seed) (map of_nat [0..<256]) = Some i"
    and v: "felt_val S f = be_val (sha256 S (key_seed @ [i])) mod CURVE_ORDER"
    using f unfolding grind_key_def grind_loop_find [OF assms] by blast
  then obtain n where n: "n < 256" "i = of_nat n" "grind_accepts S key_seed i" "\<And>m. m < n \<Longrightarrow> \<not> grind_accepts S key_seed (of_nat m)"
    by (auto simp: find_Some_iff)
  have "\<not> grind_accepts S key_seed j" if "j < i" for j
    using n(4) [of "unat j"] that n(1,2) by (simp add: word_less_nat_alt unat_of_nat_small)
  with n(3) v show "\<exists>i. grind_accepts S key_seed i \<and> (\<forall>j < i. \<not> grind_accepts S key_seed j) \<and>
      felt_val S f = be_val (sha256 S (key_seed @ [i])) mod CURVE_ORDER" by blast
next
  assume "k < CURVE_ORDER"
  then show "card {c :: u256. c < GRIND_LIMIT \<and> unat (c mod STARK_ORDER) = k} = 31" by (rule card_grind_candidates)
qed

theorem grinding_uniform_witness:
  "grind_key zhash [] = Inr (zfelt_of 7) \<and> 0 < felt_val zhash (zfelt_of 7) \<and>
   card {c :: u256. c < GRIND_LIMIT \<and> unat (c mod STARK_ORDER) = 5} = 31"
  using grinding_uniform [OF zhash_laws, of "[]" "zfelt_of 7" 5] by (simp add: grind_zhash CURVE_ORDER_def)

text \<open>
  The wiped implementations are the standard ones: for keys of at most one block the HMAC is that of RFC 2104 on
  the concatenated message, although the pad is reused in place, and the HKDF expansion is the first bytes of the
  blocks of RFC 5869.
\<close>

theorem hkdf_expand_exact:
  assumes "entropy_laws S" and "length prk = 32" and "l \<le> 8160"
  shows "hmac (Sha256 S) 32 prk message = Inr (hmac_rfc (Sha256 S) prk (concat message)) \<and>
    hkdf_sha256_expand S l prk info =
      Inr (take l (concat (map (hkdf_block S prk info) [1..<Suc ((l + 31) div 32)])))"
  using hmac_Sha256 [OF assms(1), of prk message] hkdf_is_rfc [OF assms(1) _ assms(3), of prk info] assms(2)
  by (simp add: SHA256_LEN_def)

theorem hkdf_expand_exact_witness:
  "hkdf_sha256_expand zhash 40 (replicate 32 5) [1] =
    Inr (take 40 (hkdf_block zhash (replicate 32 5) [1] 1 @ hkdf_block zhash (replicate 32 5) [1] 2))"
  using hkdf_expand_exact [OF zhash_laws(2), of "replicate 32 5" 40 "[]" "[1]"] by (simp add: numeral_2_eq_2)

text \<open>
  A generated mnemonic is valid: for the five word counts generation succeeds whenever the system delivers entropy,
  and the phrase is accepted by \<open>validate_mnemonic\<close>; other counts are refused.
\<close>

theorem generated_mnemonic_valid:
  assumes "entropy_laws S" and "wallet_laws W"
  shows "(word_count \<in> {12, 15, 18, 21, 24} \<longrightarrow>
      (getrandom S call (4 * word_count div 3) \<noteq> None \<longleftrightarrow>
       (\<exists>phrase. generate_mnemonic S W call word_count = Inr phrase \<and> validate_mnemonic W phrase = Inr ()))) \<and>
    (word_count \<notin> {12, 15, 18, 21, 24} \<longrightarrow>
      generate_mnemonic S W call word_count = Inl (InvalidMnemonic ''Word count must be 12, 15, 18, 21, or 24''))"
proof (intro conjI impI)
  assume w: "word_count \<in> {12, 15, 18, 21, 24}"
  then have size: "entropy_size word_count = Inr (4 * word_count div 3)" "4 * word_count div 3 \<in> {16, 20, 24, 28, 32}"
    by (auto simp: entropy_size_def)
  show "getrandom S call (4 * word_count div 3) \<noteq> None \<longleftrightarrow>
       (\<exists>phrase. generate_mnemonic S W call word_count = Inr phrase \<and> validate_mnemonic W phrase = Inr ())"
  proof (cases "getrandom S call (4 * word_count div 3)")
    case None
    then show ?thesis by (simp add: generate_mnemonic_def size(1))
  next
    case (Some bs)
    have "length bs \<in> {16, 20, 24, 28, 32}" using entropy_laws.getrandom_length [OF assms(1) Some] size(2) by simp
    then obtain m where "bip39_from_entropy W bs = Inr m" using wallet_laws.bip39_entropy [OF assms(2)] by blast
    with Some size(1) show ?thesis
      by (simp add: generate_mnemonic_def validate_mnemonic_def parse_mnemonic_def wallet_laws.bip39_text [OF assms(2)])
  qed
qed (simp add: generate_mnemonic_def entropy_size_def)

theorem generated_mnemonic_valid_witness:
  "\<exists>phrase. generate_mnemonic stark_dlog zwallet 0 12 = Inr phrase \<and> validate_mnemonic zwallet phrase = Inr ()"
  using generated_mnemonic_valid [OF dlog.entropy_laws_axioms zw.wallet_laws_axioms, of 12 0] by (simp add: dlog_num)

end
