(* ===== verification/Tongo_Account.thy ===== *)
theory Tongo_Account
  imports Elgamal Audit_Proof Audit_Hint Range_Proof Key_Derivation
begin

text \<open>
  \<open>crates/sdk/src/account.rs\<close>, the parameter and proof records of \<open>crates/sdk/src/operations.rs\<close>, and
  \<open>crates/sdk/src/operations/shared.rs\<close>: the account the operations run on, and the check that a
  stored ciphertext encrypts the account's balance.
\<close>

section \<open>The account\<close>

record ('f, 'p) TongoAccount =
  keypair :: "('f, 'p) TongoKeyPair"
  acc_state :: AccountState
  acc_contract_address :: 'f

definition default_state :: AccountState where
  "default_state = \<lparr>st_balance = 0, st_pending_balance = 0, st_nonce = 0\<rparr>"

definition from_mnemonic ::
    "('f, 'p, 'a, 'r) starknet \<Rightarrow> ('m, 's) wallet \<Rightarrow> string \<Rightarrow> u32 \<Rightarrow> u32 \<Rightarrow> 'f \<Rightarrow> string option \<Rightarrow>
      ('f, 'p) TongoAccount result" where
  "from_mnemonic S W mnemonic index account_index contract_address passphrase =
     and_then (derive_keypair S W mnemonic index account_index passphrase) (\<lambda>kp.
       Inr \<lparr>keypair = kp, acc_state = default_state, acc_contract_address = contract_address\<rparr>)"

definition from_private_key ::
    "('f, 'p, 'a, 'r) starknet \<Rightarrow> 'f \<Rightarrow> 'f \<Rightarrow> ('f, 'p) TongoAccount result" where
  "from_private_key S private_key contract_address =
     (let public_key = mul_generator S private_key
      in Inr \<lparr>keypair = \<lparr>kp_private_key = private_key, kp_public_key = public_key\<rparr>,
              acc_state = default_state, acc_contract_address = contract_address\<rparr>)"

definition owner_public_key :: "('f, 'p) TongoAccount \<Rightarrow> 'p" where
  "owner_public_key self = kp_public_key (keypair self)"

definition owner_private_key :: "('f, 'p) TongoAccount \<Rightarrow> 'f" where
  "owner_private_key self = kp_private_key (keypair self)"

definition contract_address :: "('f, 'p) TongoAccount \<Rightarrow> 'f" where
  "contract_address self = acc_contract_address self"

definition acc_balance :: "('f, 'p) TongoAccount \<Rightarrow> u128" where
  "acc_balance self = st_balance (acc_state self)"

definition pending_balance :: "('f, 'p) TongoAccount \<Rightarrow> u128" where
  "pending_balance self = st_pending_balance (acc_state self)"

definition acc_nonce :: "('f, 'p) TongoAccount \<Rightarrow> u64" where
  "acc_nonce self = st_nonce (acc_state self)"

definition update_state :: "('f, 'p) TongoAccount \<Rightarrow> AccountState \<Rightarrow> ('f, 'p) TongoAccount" where
  "update_state self state = self\<lparr>acc_state := state\<rparr>"

definition set_balance :: "('f, 'p) TongoAccount \<Rightarrow> u128 \<Rightarrow> ('f, 'p) TongoAccount" where
  "set_balance self b = self\<lparr>acc_state := (acc_state self)\<lparr>st_balance := b\<rparr>\<rparr>"

definition set_pending_balance :: "('f, 'p) TongoAccount \<Rightarrow> u128 \<Rightarrow> ('f, 'p) TongoAccount" where
  "set_pending_balance self b = self\<lparr>acc_state := (acc_state self)\<lparr>st_pending_balance := b\<rparr>\<rparr>"

definition set_nonce :: "('f, 'p) TongoAccount \<Rightarrow> u64 \<Rightarrow> ('f, 'p) TongoAccount" where
  "set_nonce self n = self\<lparr>acc_state := (acc_state self)\<lparr>st_nonce := n\<rparr>\<rparr>"

definition has_sufficient_balance :: "('f, 'p) TongoAccount \<Rightarrow> u128 \<Rightarrow> bool" where
  "has_sufficient_balance self amount = (st_balance (acc_state self) \<ge> amount)"

text \<open>\<open>u128::checked_add\<close>.\<close>

definition checked_add_u128 :: "u128 \<Rightarrow> u128 \<Rightarrow> u128 option" where
  "checked_add_u128 x y = (if unat x + unat y < 2 ^ 128 then Some (x + y) else None)"

definition total_balance :: "('f, 'p) TongoAccount \<Rightarrow> u128 result" where
  "total_balance self =
     ok_or (InvalidAmount ''account total balance overflow'')
       (checked_add_u128 (st_balance (acc_state self)) (st_pending_balance (acc_state self)))"

definition account_decrypt ::
    "('f, 'p, 'a, 'r) starknet \<Rightarrow> ('f, 'p) TongoAccount \<Rightarrow> 'p ElGamalCiphertext \<Rightarrow> 'p result" where
  "account_decrypt S self ciphertext = decrypt S ciphertext (owner_private_key self)"

section \<open>The records of the operations\<close>

record ('f, 'p) FundParams =
  fp_amount :: u128
  fp_nonce :: 'f
  fp_chain_id :: 'f
  fp_tongo_address :: 'f
  fp_sender_address :: 'f
  fp_auditor_pub_key :: "'p option"
  fp_current_balance :: "'p ElGamalCiphertext"

record ('f, 'p) TransferParams =
  tp_recipient_public_key :: 'p
  tp_amount :: u128
  tp_nonce :: 'f
  tp_chain_id :: 'f
  tp_tongo_address :: 'f
  tp_sender_address :: 'f
  tp_current_balance :: "'p ElGamalCiphertext"
  tp_bit_size :: nat
  tp_auditor_pub_key :: "'p option"

record 'f RolloverParams =
  rp_nonce :: 'f
  rp_chain_id :: 'f
  rp_tongo_address :: 'f
  rp_sender_address :: 'f

record ('f, 'p) WithdrawParams =
  wp_recipient_address :: 'f
  wp_amount :: u128
  wp_nonce :: 'f
  wp_chain_id :: 'f
  wp_tongo_address :: 'f
  wp_sender_address :: 'f
  wp_current_balance :: "'p ElGamalCiphertext"
  wp_bit_size :: nat
  wp_auditor_key :: "'p option"

record ('f, 'p) RagequitParams =
  qp_recipient_address :: 'f
  qp_nonce :: 'f
  qp_chain_id :: 'f
  qp_tongo_address :: 'f
  qp_sender_address :: 'f
  qp_current_balance :: "'p ElGamalCiphertext"
  qp_auditor_key :: "'p option"

record ('f, 'p) Audit =
  aud_audited_balance :: "'p ElGamalCiphertext"
  aud_hint_ciphertext :: "byte list"
  aud_hint_nonce :: "byte list"
  aud_proof :: "'f AuditProof"

record ('f, 'p) FundProof =
  fpr_y :: 'p
  fpr_proof :: "'f PoeProof"
  fpr_amount :: u128
  fpr_audit :: "('f, 'p) Audit option"

record ('f, 'p) TransferProof =
  tpr_transfer_balance_l :: 'p
  tpr_transfer_balance_r :: 'p
  tpr_transfer_balance_self_l :: 'p
  tpr_transfer_balance_self_r :: 'p
  tpr_proof :: "'f ProofOfTransfer"
  tpr_auxiliar_cipher :: "'p ElGamalCiphertext"
  tpr_auxiliar_cipher2 :: "'p ElGamalCiphertext"
  tpr_new_balance_cipher :: "'p ElGamalCiphertext"
  tpr_audit_balance :: "('f, 'p) Audit option"
  tpr_audit_transfer :: "('f, 'p) Audit option"

record ('f, 'p) RolloverProof =
  rpr_y :: 'p
  rpr_proof :: "'f PoeProof"
  rpr_pending_amount :: u128

record ('f, 'p) WithdrawProof =
  wpr_y :: 'p
  wpr_a_x :: 'p
  wpr_a_r :: 'p
  wpr_a :: 'p
  wpr_a_v :: 'p
  wpr_sx :: 'f
  wpr_sb :: 'f
  wpr_sr :: 'f
  wpr_auxiliar_cipher :: "'p ElGamalCiphertext"
  wpr_range :: "'f Range"
  wpr_amount :: u128
  wpr_recipient :: 'f
  wpr_audit :: "('f, 'p) Audit option"

record ('f, 'p) RagequitProof =
  qpr_y :: 'p
  qpr_a_x :: 'p
  qpr_a_r :: 'p
  qpr_sx :: 'f
  qpr_amount :: u128
  qpr_recipient :: 'f
  qpr_audit :: "('f, 'p) Audit option"

section \<open>The balance check\<close>

text \<open>
  \<open>shared.rs\<close> has its own copy of the \<open>create_affine_point\<close> of the ElGamal module, with the same body.
  Subtracting a point through its affine form:
\<close>

definition neg_affine :: "('f, 'p, 'a, 'r) starknet \<Rightarrow> 'p \<Rightarrow> 'p result" where
  "neg_affine S p =
     and_then (projective_to_affine S p) (\<lambda>affine.
     and_then (create_affine_point S (affine_x S affine) (felt_neg S (affine_y S affine))) (\<lambda>neg.
       Inr (affine_to_projective S neg)))"

definition verify_cipher_encrypts_balance ::
    "('f, 'p, 'a, 'r) starknet \<Rightarrow> 'p ElGamalCiphertext \<Rightarrow> 'f \<Rightarrow> u128 \<Rightarrow> 'p \<Rightarrow> unit result" where
  "verify_cipher_encrypts_balance S cipher x balance g =
     (let r0_x = mul S x (Some (ct_r cipher))
      in and_then (neg_affine S r0_x) (\<lambda>neg_r0_x.
         let g_b = add S (ct_l cipher) neg_r0_x;
             expected_g_b = mul S (felt_from S (unat balance)) (Some g)
         in and_then (projective_to_affine S g_b) (\<lambda>g_b_affine.
            and_then (projective_to_affine S expected_g_b) (\<lambda>expected_g_b_affine.
              if g_b_affine \<noteq> expected_g_b_affine then
                Inl (CryptoError ''storedBalance is not an encryption of balance'')
              else Inr ()))))"

text \<open>What it means for a ciphertext to encrypt a balance under a key.\<close>

definition encrypts ::
    "('f, 'p, 'a, 'r) starknet \<Rightarrow> ('p \<Rightarrow> 'g :: ab_group_add) \<Rightarrow> 'p ElGamalCiphertext \<Rightarrow> 'f \<Rightarrow> nat \<Rightarrow> bool" where
  "encrypts S pt ct x b =
     (pt (ct_l ct) - felt_act S x (pt (ct_r ct)) = nsmul b (pt (generator S)))"

context starknet_core
begin

lemma neg_affine_zero: "pt p = 0 \<Longrightarrow> neg_affine S p = Inl PointAtInfinity"
  by (simp add: neg_affine_def projective_to_affine_zero)

lemma neg_affine_nonzero:
  assumes "pt p \<noteq> 0"
  obtains q where "neg_affine S p = Inr q" and "pt q = - pt p"
proof -
  obtain a where a: "projective_to_affine S p = Inr a" "pt (affine_to_projective S a) = pt p"
    using assms by (rule projective_to_affine_nonzero)
  obtain b where "create_affine_point S (affine_x S a) (felt_neg S (affine_y S a)) = Inr b"
    and "pt (affine_to_projective S b) = - pt (affine_to_projective S a)"
    by (rule create_affine_point_neg)
  then show thesis
    using that by (simp add: neg_affine_def a)
qed

lemma neg_affine_Inr: "neg_affine S p = Inr q \<Longrightarrow> pt p \<noteq> 0 \<and> pt q = - pt p"
  using neg_affine_zero [of p] neg_affine_nonzero [of p] by (metis Inl_Inr_False Inr_inject)

lemma felt_act_balance: "felt_act S (felt_from S (unat (b :: u128))) (x :: 'g) = nsmul (unat b) x"
proof -
  have "unat b < 2 ^ LENGTH(128)" by (rule unsigned_less)
  then show ?thesis by (simp add: felt_act_from less_PRIME_128)
qed

end

context stark_curve
begin

lemma balance_zero_iff: "nsmul (unat (b :: u128)) (pt (generator S)) = 0 \<longleftrightarrow> b = 0"
proof
  assume "nsmul (unat b) (pt (generator S)) = 0"
  then have "unat b = 0"
    using G_order [of "unat b"] u128_less_order [of b] by (auto dest: dvd_imp_le)
  then show "b = 0" by (simp add: unat_eq_zero)
qed simp

text \<open>
  The check accepts exactly the ciphertexts of the balance, except that it cannot express a zero
  balance or randomness that vanishes under the key: those are reported as the point at infinity.
\<close>

lemma balance_check:
  "verify_cipher_encrypts_balance S ct x b (generator S) =
     (if felt_act S x (pt (ct_r ct)) = 0 \<or> pt (ct_l ct) - felt_act S x (pt (ct_r ct)) = 0 \<or> b = 0
      then Inl PointAtInfinity
      else if encrypts S pt ct x (unat b) then Inr ()
      else Inl (CryptoError ''storedBalance is not an encryption of balance''))"
proof (cases "felt_act S x (pt (ct_r ct)) = 0")
  case True
  then show ?thesis by (simp add: verify_cipher_encrypts_balance_def neg_affine_zero)
next
  case False
  then obtain q where q: "neg_affine S (mul S x (Some (ct_r ct))) = Inr q"
    "pt q = - felt_act S x (pt (ct_r ct))"
    using neg_affine_nonzero [of "mul S x (Some (ct_r ct))"] by auto
  define l where "l = add S (ct_l ct) q"
  define e where "e = mul S (felt_from S (unat b)) (Some (generator S))"
  have pts: "pt l = pt (ct_l ct) - felt_act S x (pt (ct_r ct))" "pt e = nsmul (unat b) (pt (generator S))"
    by (simp_all add: l_def e_def q felt_act_balance)
  have "verify_cipher_encrypts_balance S ct x b (generator S) =
      and_then (projective_to_affine S l) (\<lambda>a. and_then (projective_to_affine S e) (\<lambda>b.
        if a \<noteq> b then Inl (CryptoError ''storedBalance is not an encryption of balance'') else Inr ()))"
    by (simp add: verify_cipher_encrypts_balance_def Let_def q l_def e_def)
  also have "\<dots> = (if pt l = 0 \<or> pt e = 0 then Inl PointAtInfinity else if pt l = pt e then Inr ()
      else Inl (CryptoError ''storedBalance is not an encryption of balance''))"
    using compare_affine [of l e]
    by (cases "projective_to_affine S l"; cases "projective_to_affine S e") (auto split: if_splits)
  finally show ?thesis
    using False by (simp add: pts encrypts_def balance_zero_iff)
qed

lemma balance_check_Inr:
  "verify_cipher_encrypts_balance S ct x b (generator S) = Inr () \<longleftrightarrow>
     felt_act S x (pt (ct_r ct)) \<noteq> 0 \<and> b \<noteq> 0 \<and> encrypts S pt ct x (unat b)"
  using balance_zero_iff [of b] by (auto simp: balance_check encrypts_def)

end

lemma dlog_neg_affine:
  assumes "k mod CURVE_ORDER \<noteq> 0"
  shows "neg_affine stark_dlog (zgrp_of k) = Inr (zgrp_of (CURVE_ORDER - k mod CURVE_ORDER))"
proof -
  have "zgrp_of k \<noteq> 0" using assms by (simp add: dlog_group)
  then obtain q where "neg_affine stark_dlog (zgrp_of k) = Inr q" and "q = - zgrp_of k"
    by (rule dlog.neg_affine_nonzero)
  moreover have "- zgrp_of k = zgrp_of (CURVE_ORDER - k mod CURVE_ORDER)"
    by (simp add: zgrp_eq_iff uminus_zgrp.rep_eq Rep_zgrp_of)
  ultimately show ?thesis by simp
qed

section \<open>Properties\<close>

text \<open>
  The balance check every spending operation starts with is exact: it accepts a ciphertext if and only if
  it encrypts the balance under the key, apart from the balance zero and randomness that vanishes
  under the key, which are always reported as the point at infinity.
\<close>

theorem balance_check_exact:
  assumes "stark_curve S pt"
  shows "verify_cipher_encrypts_balance S ct x b (generator S) =
     (if felt_act S x (pt (ct_r ct)) = 0 \<or> pt (ct_l ct) - felt_act S x (pt (ct_r ct)) = 0 \<or> b = 0
      then Inl PointAtInfinity
      else if encrypts S pt ct x (unat b) then Inr ()
      else Inl (CryptoError ''storedBalance is not an encryption of balance''))"
  by (rule stark_curve.balance_check [OF assms])

theorem balance_check_exact_witness:
  "verify_cipher_encrypts_balance stark_dlog \<lparr>ct_l = zgrp_of 23, ct_r = zgrp_of 4\<rparr> (zfelt_of 5) 3 (zgrp_of 1) = Inr () \<and>
   verify_cipher_encrypts_balance stark_dlog \<lparr>ct_l = zgrp_of 23, ct_r = zgrp_of 4\<rparr> (zfelt_of 5) 2 (zgrp_of 1) =
     Inl (CryptoError ''storedBalance is not an encryption of balance'') \<and>
   verify_cipher_encrypts_balance stark_dlog \<lparr>ct_l = zgrp_of 20, ct_r = zgrp_of 4\<rparr> (zfelt_of 5) 0 (zgrp_of 1) =
     Inl PointAtInfinity"
  using balance_check_exact [OF dlog.stark_curve_axioms, of "\<lparr>ct_l = zgrp_of 23, ct_r = zgrp_of 4\<rparr>" "zfelt_of 5" 3]
    balance_check_exact [OF dlog.stark_curve_axioms, of "\<lparr>ct_l = zgrp_of 23, ct_r = zgrp_of 4\<rparr>" "zfelt_of 5" 2]
    balance_check_exact [OF dlog.stark_curve_axioms, of "\<lparr>ct_l = zgrp_of 20, ct_r = zgrp_of 4\<rparr>" "zfelt_of 5" 0]
  by (simp add: encrypts_def dlog_num)

end
