(* ===== verification/Tongo_Ops.thy ===== *)
theory Tongo_Ops
  imports Tongo_Account
begin

text \<open>
  \<open>crates/sdk/src/operations/{fund, rollover, ragequit, withdraw}.rs\<close>: the operations of a confidential
  account other than the transfer. The lemmas show that what each returns satisfies the equations of
  its verifier and speaks of the right amounts.
\<close>

section \<open>Fund and rollover\<close>

definition FUND_CAIRO_STRING :: nat where
  "FUND_CAIRO_STRING = 0x66756e64"

definition ROLLOVER_CAIRO_STRING :: nat where
  "ROLLOVER_CAIRO_STRING = 0x726f6c6c6f766572"

definition funded_balance :: "u128 \<Rightarrow> u128 \<Rightarrow> u128 result" where
  "funded_balance balance amount =
     ok_or (InvalidAmount ''funded balance overflow'') (checked_add_u128 balance amount)"

text \<open>
  The audit every operation makes for a new balance: the audit proof, then the hint for the auditor.
\<close>

definition make_audit ::
    "('f, 'p, 'a, 'r) starknet \<Rightarrow> 'f \<Rightarrow> u128 \<Rightarrow> 'p ElGamalCiphertext \<Rightarrow> 'p \<Rightarrow> bool
      \<Rightarrow> ('f, 'p) AuditPrefixData \<Rightarrow> ('f, 'p) Audit draw" where
  "make_audit S secret balance cipher auditor_key validate prefix_data w =
     and_then (prove_with_validation S secret balance cipher auditor_key validate (Some prefix_data) w)
       (\<lambda>((audit_proof, audited_balance), w).
     and_then (encrypt_for_auditor S balance secret auditor_key w) (\<lambda>((audit_hint_ct, audit_hint_nonce), w).
       Inr (\<lparr>aud_audited_balance = audited_balance, aud_hint_ciphertext = audit_hint_ct,
             aud_hint_nonce = audit_hint_nonce, aud_proof = audit_proof\<rparr>, w)))"

definition fund_prefix ::
    "('f, 'p, 'a, 'r) starknet \<Rightarrow> ('f, 'p) FundParams \<Rightarrow> 'a \<Rightarrow> 'f" where
  "fund_prefix S params y_affine =
     poseidon_hash_many S
       [fp_chain_id params, fp_tongo_address params, fp_sender_address params,
        felt_from S FUND_CAIRO_STRING, affine_x S y_affine, affine_y S y_affine,
        felt_from S (unat (fp_amount params)), fp_nonce params]"

text \<open>The ciphertext of the balance after the contract has added the funded amount.\<close>

definition funded_cipher ::
    "('f, 'p, 'a, 'r) starknet \<Rightarrow> ('f, 'p) TongoAccount \<Rightarrow> ('f, 'p) FundParams \<Rightarrow> 'p ElGamalCiphertext" where
  "funded_cipher S account params =
     (let g_amount = mul S (felt_from S (unat (fp_amount params))) (Some (generator S));
          y_r = mul S (felt_from S FUND_CAIRO_STRING) (Some (owner_public_key account));
          fund_cipher_l = add S g_amount y_r;
          fund_cipher_r = mul S (felt_from S FUND_CAIRO_STRING) (Some (generator S))
      in \<lparr>ct_l = add S (ct_l (fp_current_balance params)) fund_cipher_l,
          ct_r = add S (ct_r (fp_current_balance params)) fund_cipher_r\<rparr>)"

definition fund ::
    "('f, 'p, 'a, 'r) starknet \<Rightarrow> ('f, 'p) TongoAccount \<Rightarrow> ('f, 'p) FundParams \<Rightarrow> ('f, 'p) FundProof draw" where
  "fund S account params w =
     (if fp_amount params = 0 then Inl (InvalidAmount ''Amount must be greater than zero'')
      else
        let y = owner_public_key account
        in and_then (ok_or PointAtInfinity (proj_to_affine S y)) (\<lambda>y_affine.
           let prefix = fund_prefix S params y_affine
           in and_then (poe_prove S (owner_private_key account) prefix w) (\<lambda>((_, proof), w).
              and_then
                (case fp_auditor_pub_key params of
                   Some auditor_key \<Rightarrow>
                     and_then (funded_balance (acc_balance account) (fp_amount params)) (\<lambda>new_balance.
                     let new_cipher_balance = funded_cipher S account params;
                         audit_prefix = \<lparr>ad_chain_id = fp_chain_id params, ad_tongo_address = fp_tongo_address params,
                                         ad_sender_address = fp_sender_address params, ad_user_pub_key = y\<rparr>
                     in and_then (make_audit S (owner_private_key account) new_balance new_cipher_balance
                                    auditor_key True audit_prefix w) (\<lambda>(audit, w).
                          Inr (Some audit, w)))
                 | None \<Rightarrow> Inr (None, w))
                (\<lambda>(audit, w).
                   Inr (\<lparr>fpr_y = y, fpr_proof = proof, fpr_amount = fp_amount params, fpr_audit = audit\<rparr>, w)))))"

definition rollover_prefix ::
    "('f, 'p, 'a, 'r) starknet \<Rightarrow> 'f RolloverParams \<Rightarrow> 'a \<Rightarrow> 'f" where
  "rollover_prefix S params y_affine =
     poseidon_hash_many S
       [rp_chain_id params, rp_tongo_address params, rp_sender_address params,
        felt_from S ROLLOVER_CAIRO_STRING, affine_x S y_affine, affine_y S y_affine, rp_nonce params]"

definition rollover ::
    "('f, 'p, 'a, 'r) starknet \<Rightarrow> ('f, 'p) TongoAccount \<Rightarrow> 'f RolloverParams \<Rightarrow> ('f, 'p) RolloverProof draw" where
  "rollover S account params w =
     (let y = owner_public_key account
      in and_then (ok_or PointAtInfinity (proj_to_affine S y)) (\<lambda>y_affine.
         let prefix = rollover_prefix S params y_affine
         in and_then (poe_prove S (owner_private_key account) prefix w) (\<lambda>((_, proof), w).
              Inr (\<lparr>rpr_y = y, rpr_proof = proof, rpr_pending_amount = pending_balance account\<rparr>, w))))"

section \<open>Ragequit\<close>

definition RAGEQUIT_CAIRO_STRING :: nat where
  "RAGEQUIT_CAIRO_STRING = 0x7261676571756974"

definition ragequit_prefix ::
    "('f, 'p, 'a, 'r) starknet \<Rightarrow> ('f, 'p) RagequitParams \<Rightarrow> u128 \<Rightarrow> 'a \<Rightarrow> 'a \<Rightarrow> 'a \<Rightarrow> 'f" where
  "ragequit_prefix S params full_amount y_affine l0_affine r0_affine =
     poseidon_hash_many S
       [qp_chain_id params, qp_tongo_address params, qp_sender_address params,
        felt_from S RAGEQUIT_CAIRO_STRING, affine_x S y_affine, affine_y S y_affine, qp_nonce params,
        felt_from S (unat full_amount), qp_recipient_address params,
        affine_x S l0_affine, affine_y S l0_affine, affine_x S r0_affine, affine_y S r0_affine]"

definition ragequit_error :: "KmsError \<Rightarrow> KmsError" where
  "ragequit_error e =
     (case e of
        CryptoError _ \<Rightarrow> CryptoError ''storedBalance is not an encryption of full balance''
      | other \<Rightarrow> other)"

definition ragequit ::
    "('f, 'p, 'a, 'r) starknet \<Rightarrow> ('f, 'p) TongoAccount \<Rightarrow> ('f, 'p) RagequitParams \<Rightarrow> ('f, 'p) RagequitProof draw" where
  "ragequit S account params w =
     (let x = owner_private_key account;
          g = generator S;
          y = owner_public_key account
      in and_then (ok_or PointAtInfinity (proj_to_affine S y)) (\<lambda>y_affine.
         let l0 = ct_l (qp_current_balance params);
             r0 = ct_r (qp_current_balance params)
         in and_then (map_err ragequit_error
              (verify_cipher_encrypts_balance S (qp_current_balance params) x (acc_balance account) g)) (\<lambda>_.
         let full_amount = acc_balance account
         in and_then (ok_or PointAtInfinity (proj_to_affine S l0)) (\<lambda>l0_affine.
            and_then (ok_or PointAtInfinity (proj_to_affine S r0)) (\<lambda>r0_affine.
            let prefix = ragequit_prefix S params full_amount y_affine l0_affine r0_affine
            in and_then (random_felt S w) (\<lambda>(kx, w).
            let a_x = mul S kx (Some g);
                a_r = mul S kx (Some r0)
            in and_then (compute_poseidon_challenge S prefix [a_x, a_r]) (\<lambda>c.
               and_then (scalar_mul S c x) (\<lambda>c_x.
               and_then (scalar_add S kx c_x) (\<lambda>sx.
               and_then
                 (case qp_auditor_key params of
                    Some auditor_key \<Rightarrow>
                      let new_balance_cipher = \<lparr>ct_l = y, ct_r = g\<rparr>;
                          audit_prefix = \<lparr>ad_chain_id = qp_chain_id params, ad_tongo_address = qp_tongo_address params,
                                          ad_sender_address = qp_sender_address params, ad_user_pub_key = y\<rparr>
                      in and_then (make_audit S x 0 new_balance_cipher auditor_key True audit_prefix w)
                           (\<lambda>(audit, w). Inr (Some audit, w))
                  | None \<Rightarrow> Inr (None, w))
                 (\<lambda>(audit, w).
                    Inr (\<lparr>qpr_y = y, qpr_a_x = a_x, qpr_a_r = a_r, qpr_sx = sx, qpr_amount = full_amount,
                          qpr_recipient = qp_recipient_address params, qpr_audit = audit\<rparr>, w)))))))))))"

section \<open>Withdraw\<close>

definition WITHDRAW_CAIRO_STRING :: nat where
  "WITHDRAW_CAIRO_STRING = 0x7769746864726177"

definition withdraw_prefix ::
    "('f, 'p, 'a, 'r) starknet \<Rightarrow> ('f, 'p) WithdrawParams \<Rightarrow> 'a \<Rightarrow> 'a \<Rightarrow> 'a \<Rightarrow> 'a \<Rightarrow> 'a \<Rightarrow> 'f" where
  "withdraw_prefix S params y_affine l0_affine r0_affine v_affine r_aux_affine =
     poseidon_hash_many S
       [wp_chain_id params, wp_tongo_address params, wp_sender_address params,
        felt_from S WITHDRAW_CAIRO_STRING, affine_x S y_affine, affine_y S y_affine, wp_nonce params,
        felt_from S (unat (wp_amount params)), wp_recipient_address params,
        affine_x S l0_affine, affine_y S l0_affine, affine_x S r0_affine, affine_y S r0_affine,
        affine_x S v_affine, affine_y S v_affine, affine_x S r_aux_affine, affine_y S r_aux_affine]"

text \<open>The ciphertext of the leftover: the stored one minus that of the amount with fixed randomness.\<close>

definition leftover_cipher ::
    "('f, 'p, 'a, 'r) starknet \<Rightarrow> 'p \<Rightarrow> ('f, 'p) WithdrawParams \<Rightarrow> 'p ElGamalCiphertext result" where
  "leftover_cipher S y params =
     (let g = generator S;
          g_amount = mul S (felt_from S (unat (wp_amount params))) (Some g);
          y_r = mul S (felt_from S WITHDRAW_CAIRO_STRING) (Some y);
          cipher_l = add S g_amount y_r;
          cipher_r = mul S (felt_from S WITHDRAW_CAIRO_STRING) (Some g)
      in and_then (neg_affine S cipher_l) (\<lambda>neg_cipher_l.
         let l_left = add S (ct_l (wp_current_balance params)) neg_cipher_l
         in and_then (neg_affine S cipher_r) (\<lambda>neg_cipher_r.
            let r_left = add S (ct_r (wp_current_balance params)) neg_cipher_r
            in Inr \<lparr>ct_l = l_left, ct_r = r_left\<rparr>)))"

text \<open>
  \<open>withdraw\<close> in its three phases: the commitments and responses, the optional audit, and the whole.
\<close>

definition withdraw_respond ::
    "('f, 'p, 'a, 'r) starknet \<Rightarrow> 'f \<Rightarrow> u128 \<Rightarrow> 'f \<Rightarrow> 'f \<Rightarrow> 'p
      \<Rightarrow> ('p \<times> 'p \<times> 'p \<times> 'p \<times> 'f \<times> 'f \<times> 'f) draw" where
  "withdraw_respond S prefix left x r r0 w =
     (let g = generator S;
          h = generator_h S
      in and_then (random_felts S 3 w) (\<lambda>(commitment_randoms, w).
         let kb = commitment_randoms ! 0;
             kx = commitment_randoms ! 1;
             kr = commitment_randoms ! 2;
             a_x = mul S kx (Some g);
             a_r = mul S kr (Some g);
             g_kb = mul S kb (Some g);
             r0_kx = mul S kx (Some r0);
             h_kr = mul S kr (Some h);
             a = add S g_kb r0_kx;
             a_v = add S g_kb h_kr
         in and_then (compute_poseidon_challenge S prefix [a_x, a_r, a, a_v]) (\<lambda>c.
            and_then (scalar_mul S c (felt_from S (unat left))) (\<lambda>c_left.
            and_then (scalar_add S kb c_left) (\<lambda>sb.
            and_then (scalar_mul S c x) (\<lambda>c_x.
            and_then (scalar_add S kx c_x) (\<lambda>sx.
            and_then (scalar_mul S c r) (\<lambda>c_r.
            and_then (scalar_add S kr c_r) (\<lambda>sr.
              Inr ((a_x, a_r, a, a_v, sx, sb, sr), w))))))))))"

definition withdraw_audit ::
    "('f, 'p, 'a, 'r) starknet \<Rightarrow> ('f, 'p) TongoAccount \<Rightarrow> ('f, 'p) WithdrawParams \<Rightarrow> u128
      \<Rightarrow> ('f, 'p) Audit option draw" where
  "withdraw_audit S account params left w =
     (case wp_auditor_key params of
        Some auditor_key \<Rightarrow>
          and_then (leftover_cipher S (owner_public_key account) params) (\<lambda>leftover.
          let audit_prefix =
                \<lparr>ad_chain_id = wp_chain_id params, ad_tongo_address = wp_tongo_address params,
                 ad_sender_address = wp_sender_address params, ad_user_pub_key = owner_public_key account\<rparr>
          in and_then (make_audit S (owner_private_key account) left leftover auditor_key False audit_prefix w)
               (\<lambda>(audit, w). Inr (Some audit, w)))
      | None \<Rightarrow> Inr (None, w))"

definition withdraw ::
    "('f, 'p, 'a, 'r) starknet \<Rightarrow> ('f, 'p) TongoAccount \<Rightarrow> ('f, 'p) WithdrawParams \<Rightarrow> ('f, 'p) WithdrawProof draw" where
  "withdraw S account params w =
     (if wp_amount params = 0 then Inl (InvalidAmount ''Amount must be greater than zero'')
      else if \<not> has_sufficient_balance account (wp_amount params) then Inl InsufficientBalance
      else
        let x = owner_private_key account;
            g = generator S;
            h = generator_h S;
            y = owner_public_key account
        in and_then (ok_or PointAtInfinity (proj_to_affine S y)) (\<lambda>y_affine.
           let l0 = ct_l (wp_current_balance params);
               r0 = ct_r (wp_current_balance params)
           in and_then (verify_cipher_encrypts_balance S (wp_current_balance params) x (acc_balance account) g) (\<lambda>_.
           let left = acc_balance account - wp_amount params
           in and_then (random_felts S (wp_bit_size params) w) (\<lambda>(random_values, w).
              and_then (compute_total_randomness S random_values) (\<lambda>r.
              let r_aux = mul S r (Some g);
                  v = add S (mul S (felt_from S (unat left)) (Some g)) (mul S r (Some h))
              in and_then (ok_or PointAtInfinity (proj_to_affine S l0)) (\<lambda>l0_affine.
                 and_then (ok_or PointAtInfinity (proj_to_affine S r0)) (\<lambda>r0_affine.
                 and_then (ok_or PointAtInfinity (proj_to_affine S v)) (\<lambda>v_affine.
                 and_then (ok_or PointAtInfinity (proj_to_affine S r_aux)) (\<lambda>r_aux_affine.
                 let prefix = withdraw_prefix S params y_affine l0_affine r0_affine v_affine r_aux_affine
                 in and_then (prove_with_randomness S left (wp_bit_size params) g h prefix random_values w)
                      (\<lambda>(rp, w).
                    and_then (withdraw_respond S prefix left x r r0 w) (\<lambda>(resp, w).
                    and_then (withdraw_audit S account params left w) (\<lambda>(audit, w).
                    let (a_x, a_r, a, a_v, sx, sb, sr) = resp
                    in Inr (\<lparr>wpr_y = y, wpr_a_x = a_x, wpr_a_r = a_r, wpr_a = a, wpr_a_v = a_v,
                             wpr_sx = sx, wpr_sb = sb, wpr_sr = sr,
                             wpr_auxiliar_cipher = \<lparr>ct_l = v, ct_r = r_aux\<rparr>, wpr_range = fst rp,
                             wpr_amount = wp_amount params, wpr_recipient = wp_recipient_address params,
                             wpr_audit = audit\<rparr>, w)))))))))))))"

section \<open>What the operations rely on\<close>

text \<open>The curve with its generators, and the cipher of the audit hints.\<close>

locale tongo = stark_curve S pt + audit_channel S pt
  for S :: "('f, 'p, 'a, 'r) starknet" and pt :: "'p \<Rightarrow> 'g :: ab_group_add"

interpretation dlog: tongo stark_dlog "\<lambda>p. p"
  by unfold_locales

text \<open>The key pair of an account: the invariant of its constructor, which no setter touches.\<close>

definition account_keys ::
    "('f, 'p, 'a, 'r) starknet \<Rightarrow> ('p \<Rightarrow> 'g :: ab_group_add) \<Rightarrow> ('f, 'p) TongoAccount \<Rightarrow> bool" where
  "account_keys S pt account =
     (pt (owner_public_key account) = felt_act S (owner_private_key account) (pt (generator S)))"

text \<open>
  What an audit record is worth to the auditor: its proof is accepted for the ciphertext \<open>ct\<close>, and
  whoever holds the auditor's key reads \<open>b\<close> both from the hint and from the audited ciphertext.
\<close>

definition audit_ok ::
    "('f, 'p, 'a, 'r) starknet \<Rightarrow> ('p \<Rightarrow> 'g :: ab_group_add) \<Rightarrow> ('f, 'p) Audit \<Rightarrow> 'p \<Rightarrow> 'p ElGamalCiphertext
      \<Rightarrow> 'p \<Rightarrow> ('f, 'p) AuditPrefixData \<Rightarrow> u128 \<Rightarrow> bool" where
  "audit_ok S pt audit y ct auditor pd b =
     (audit_verify S (aud_proof audit) y ct (aud_audited_balance audit) auditor (Some pd) = Inr True \<and>
      (\<forall>k. pt auditor = felt_act S k (pt (generator S)) \<longrightarrow>
        decrypt_as_auditor S (aud_hint_ciphertext audit) (aud_hint_nonce audit) k y = Inr b \<and>
        encrypts S pt (aud_audited_balance audit) k (unat b)))"

text \<open>
  What a verifier checks of a ragequit and of a withdrawal: the challenge is recomputed from the
  published commitments, every response satisfies its equation, and (for a withdrawal) the range proof opens
  to the published auxiliary commitment. \<open>0 < bit_size\<close> and the non-zero responses are the
  conditions under which \<open>range_verify\<close> does not stop on the point at infinity.
\<close>

definition ragequit_valid ::
    "('f, 'p, 'a, 'r) starknet \<Rightarrow> ('p \<Rightarrow> 'g :: ab_group_add) \<Rightarrow> ('f, 'p) RagequitParams \<Rightarrow> ('f, 'p) RagequitProof
      \<Rightarrow> bool" where
  "ragequit_valid S pt params q =
     (\<exists>y l0 r0 c. proj_to_affine S (qpr_y q) = Some y \<and>
      proj_to_affine S (ct_l (qp_current_balance params)) = Some l0 \<and>
      proj_to_affine S (ct_r (qp_current_balance params)) = Some r0 \<and>
      compute_poseidon_challenge S (ragequit_prefix S params (qpr_amount q) y l0 r0) [qpr_a_x q, qpr_a_r q] = Inr c \<and>
      felt_act S (qpr_sx q) (pt (generator S)) = pt (qpr_a_x q) + felt_act S c (pt (qpr_y q)) \<and>
      felt_act S (qpr_sx q) (pt (ct_r (qp_current_balance params))) =
        pt (qpr_a_r q) + felt_act S c (pt (ct_l (qp_current_balance params)) -
          nsmul (unat (qpr_amount q)) (pt (generator S))))"

definition withdraw_valid ::
    "('f, 'p, 'a, 'r) starknet \<Rightarrow> ('p \<Rightarrow> 'g :: ab_group_add) \<Rightarrow> ('f, 'p) WithdrawParams \<Rightarrow> ('f, 'p) WithdrawProof
      \<Rightarrow> bool" where
  "withdraw_valid S pt params wd =
     (\<exists>y l0 r0 v r c.
      proj_to_affine S (wpr_y wd) = Some y \<and>
      proj_to_affine S (ct_l (wp_current_balance params)) = Some l0 \<and>
      proj_to_affine S (ct_r (wp_current_balance params)) = Some r0 \<and>
      proj_to_affine S (ct_l (wpr_auxiliar_cipher wd)) = Some v \<and>
      proj_to_affine S (ct_r (wpr_auxiliar_cipher wd)) = Some r \<and>
      compute_poseidon_challenge S (withdraw_prefix S params y l0 r0 v r)
        [wpr_a_x wd, wpr_a_r wd, wpr_a wd, wpr_a_v wd] = Inr c \<and>
      felt_act S (wpr_sx wd) (pt (generator S)) = pt (wpr_a_x wd) + felt_act S c (pt (wpr_y wd)) \<and>
      felt_act S (wpr_sr wd) (pt (generator S)) =
        pt (wpr_a_r wd) + felt_act S c (pt (ct_r (wpr_auxiliar_cipher wd))) \<and>
      felt_act S (wpr_sb wd) (pt (generator S)) + felt_act S (wpr_sx wd) (pt (ct_r (wp_current_balance params))) =
        pt (wpr_a wd) + felt_act S c (pt (ct_l (wp_current_balance params)) -
          nsmul (unat (wpr_amount wd)) (pt (generator S))) \<and>
      felt_act S (wpr_sb wd) (pt (generator S)) + felt_act S (wpr_sr wd) (pt (generator_h S)) =
        pt (wpr_a_v wd) + felt_act S c (pt (ct_l (wpr_auxiliar_cipher wd))) \<and>
      (0 < wp_bit_size params \<longrightarrow>
        (\<forall>p \<in> set (rg_proofs (wpr_range wd)). felt_act S (bit_s0 p) (pt (generator_h S)) \<noteq> 0 \<and>
          felt_act S (bit_s1 p) (pt (generator_h S)) \<noteq> 0) \<longrightarrow>
        (\<exists>V. range_verify S (wpr_range wd) (wp_bit_size params) (generator S) (generator_h S)
            (withdraw_prefix S params y l0 r0 v r) = Inr V \<and> pt V = pt (ct_l (wpr_auxiliar_cipher wd)))))"

context tongo
begin

lemma account_keys_from_private_key:
  "from_private_key S k addr = Inr account \<Longrightarrow> account_keys S pt account"
  by (auto simp: from_private_key_def Let_def account_keys_def owner_public_key_def owner_private_key_def)

lemma account_keys_setters:
  "account_keys S pt (update_state account st) = account_keys S pt account"
  "account_keys S pt (set_balance account b) = account_keys S pt account"
  "account_keys S pt (set_pending_balance account b) = account_keys S pt account"
  "account_keys S pt (set_nonce account n) = account_keys S pt account"
  by (simp_all add: account_keys_def owner_public_key_def owner_private_key_def update_state_def
      set_balance_def set_pending_balance_def set_nonce_def)

lemma encrypts_iff:
  "encrypts S pt ct x (unat (b :: u128)) \<longleftrightarrow> pt (ct_l ct) =
     felt_act S (felt_from S (unat b)) (pt (generator S)) + felt_act S x (pt (ct_r ct))"
  by (auto simp: encrypts_def felt_act_balance diff_eq_eq)

lemma make_audit_ok:
  assumes "make_audit S sk b ct auditor validate pd w = Inr (audit, w')"
    and y: "pt y = felt_act S sk (pt (generator S))"
    and valid: "validate \<or> encrypts S pt ct sk (unat b)"
  shows "audit_ok S pt audit y ct auditor pd b"
proof -
  obtain w1 where prove: "prove_with_validation S sk b ct auditor validate (Some pd) w =
      Inr ((aud_proof audit, aud_audited_balance audit), w1)"
    and hint: "encrypt_for_auditor S b sk auditor w1 =
      Inr ((aud_hint_ciphertext audit, aud_hint_nonce audit), w')"
    using assms(1) by (auto simp: make_audit_def result_iffs)
  from audit_complete [OF prove y] valid obtain r where
    v: "audit_verify S (aud_proof audit) y ct (aud_audited_balance audit) auditor (Some pd) = Inr True"
    and r: "pt (ct_l (aud_audited_balance audit)) =
        felt_act S (felt_from S (unat b)) (pt (generator S)) + felt_act S r (pt auditor)"
      "pt (ct_r (aud_audited_balance audit)) = felt_act S r (pt (generator S))"
    by (auto simp: encrypts_iff)
  have "encrypts S pt (aud_audited_balance audit) k (unat b)"
    if "pt auditor = felt_act S k (pt (generator S))" for k
    using that by (simp add: encrypts_iff r act_comm [of k r])
  with v auditor_round_trip [OF hint y] show ?thesis
    by (simp add: audit_ok_def)
qed

lemma make_audit_checked:
  assumes "make_audit S sk b ct auditor True pd w = Inr (audit, w')"
  shows "encrypts S pt ct sk (unat b)"
proof -
  obtain r1 cipher1 w1 where "audit_cipher1 S sk b ct auditor True w = Inr ((r1, cipher1), w1)"
    using assms by (auto simp: make_audit_def prove_with_validation_def result_iffs)
  from audit_cipher1_Inr(3) [OF this] show ?thesis by (simp add: encrypts_iff)
qed

text \<open>Every proof of exponentiation the prover returns is accepted for the key it belongs to.\<close>

lemma poe_prove_accepted:
  assumes "poe_prove S x prefix w = Inr ((y', proof), w')" and y: "pt y = felt_act S x (pt (generator S))"
  shows "poe_verify S y proof prefix =
    (if felt_val S (poe_s proof) = 0 then Inl PointAtInfinity else Inr True)"
proof -
  obtain r c where c: "compute_poseidon_challenge S prefix [mul S r (Some (generator S))] = Inr c"
    and a: "try_from_projective S (mul S r (Some (generator S))) = Inr (poe_a proof)"
    and pf: "poe_s proof = order_add S r (order_mul S c x)" "poe_c proof = c"
    using assms(1) by (auto simp: poe_prove_def Let_def result_iffs scalar_results)
  obtain b where b: "poe_a proof = from_affine S b"
    "pt (affine_to_projective S b) = pt (mul S r (Some (generator S)))"
    by (rule try_from_projectiveE [OF a])
  have "compute_poseidon_challenge S prefix [affine_to_projective S b] = Inr c"
    unfolding c [symmetric] by (rule poseidon_challenge_cong) (simp add: b)
  then show ?thesis
    using act_generator_zero [of "order_add S r (order_mul S c x)"]
    by (simp add: poe_verify_def Let_def compare_affine b pf y order_add_reduced response_eq)
qed

section \<open>Fund and rollover are authorised\<close>

lemma unat_checked_add:
  assumes "checked_add_u128 x y = Some z"
  shows "unat z = unat x + unat y"
  using assms by (auto simp: checked_add_u128_def unat_word_ariths split: if_splits)

lemma funded_cipher_encrypts:
  assumes keys: "account_keys S pt account"
  shows "encrypts S pt (funded_cipher S account params) (owner_private_key account) (b + unat (fp_amount params)) \<longleftrightarrow>
    encrypts S pt (fp_current_balance params) (owner_private_key account) b"
proof -
  define x where "x = owner_private_key account"
  define f where "f = felt_from S FUND_CAIRO_STRING"
  have "pt (ct_l (funded_cipher S account params)) - felt_act S x (pt (ct_r (funded_cipher S account params))) =
      pt (ct_l (fp_current_balance params)) - felt_act S x (pt (ct_r (fp_current_balance params))) +
      nsmul (unat (fp_amount params)) (pt (generator S))"
    using keys act_comm [of x f "pt (generator S)"]
    by (simp add: funded_cipher_def Let_def account_keys_def felt_act_balance act_plus
        flip: x_def f_def)
  then show ?thesis
    by (simp add: encrypts_def nsmul_add_left x_def)
qed

lemma fund_ok:
  assumes "fund S account params w = Inr (fp, w')" and keys: "account_keys S pt account"
  shows "fp_amount params \<noteq> 0 \<and> fpr_y fp = owner_public_key account \<and> fpr_amount fp = fp_amount params"
    and "\<exists>y_affine. proj_to_affine S (fpr_y fp) = Some y_affine \<and>
      poe_verify S (fpr_y fp) (fpr_proof fp) (fund_prefix S params y_affine) =
        (if felt_val S (poe_s (fpr_proof fp)) = 0 then Inl PointAtInfinity else Inr True)"
    and "fp_auditor_pub_key params = None \<Longrightarrow> fpr_audit fp = None"
    and "fp_auditor_pub_key params = Some auditor \<Longrightarrow> \<exists>audit b. fpr_audit fp = Some audit \<and>
      unat b = unat (acc_balance account) + unat (fp_amount params) \<and>
      encrypts S pt (fp_current_balance params) (owner_private_key account) (unat (acc_balance account)) \<and>
      audit_ok S pt audit (fpr_y fp) (funded_cipher S account params) auditor
        \<lparr>ad_chain_id = fp_chain_id params, ad_tongo_address = fp_tongo_address params,
         ad_sender_address = fp_sender_address params, ad_user_pub_key = owner_public_key account\<rparr> b"
proof -
  define x where "x = owner_private_key account"
  define y where "y = owner_public_key account"
  have xy: "pt y = felt_act S x (pt (generator S))" using keys by (simp add: account_keys_def x_def y_def)
  have "fp_amount params \<noteq> 0" using assms(1) by (auto simp: fund_def)
  then obtain y_affine y' w1 where aff: "proj_to_affine S y = Some y_affine"
    and poe: "poe_prove S x (fund_prefix S params y_affine) w = Inr ((y', fpr_proof fp), w1)"
    and fp: "fpr_y fp = y" "fpr_amount fp = fp_amount params"
    and audit: "(case fp_auditor_pub_key params of
        Some auditor_key \<Rightarrow> and_then (funded_balance (acc_balance account) (fp_amount params)) (\<lambda>b.
          and_then (make_audit S x b (funded_cipher S account params) auditor_key True
            \<lparr>ad_chain_id = fp_chain_id params, ad_tongo_address = fp_tongo_address params,
             ad_sender_address = fp_sender_address params, ad_user_pub_key = y\<rparr> w1) (\<lambda>(audit, w). Inr (Some audit, w)))
      | None \<Rightarrow> Inr (None, w1)) = Inr (fpr_audit fp, w')"
    using assms(1) unfolding fund_def Let_def x_def y_def if_False
    by (auto simp: ok_or_eq_Inr elim!: and_then_pairE and_thenE)
  show "fp_amount params \<noteq> 0 \<and> fpr_y fp = owner_public_key account \<and> fpr_amount fp = fp_amount params"
    using \<open>fp_amount params \<noteq> 0\<close> fp by (simp add: y_def)
  show "\<exists>y_affine. proj_to_affine S (fpr_y fp) = Some y_affine \<and>
      poe_verify S (fpr_y fp) (fpr_proof fp) (fund_prefix S params y_affine) =
        (if felt_val S (poe_s (fpr_proof fp)) = 0 then Inl PointAtInfinity else Inr True)"
    using poe_prove_accepted [OF poe xy] aff fp by auto
  show "fpr_audit fp = None" if "fp_auditor_pub_key params = None"
    using audit that by simp
  assume "fp_auditor_pub_key params = Some auditor"
  then obtain b audit_rec where b: "checked_add_u128 (acc_balance account) (fp_amount params) = Some b"
    and m: "make_audit S x b (funded_cipher S account params) auditor True
        \<lparr>ad_chain_id = fp_chain_id params, ad_tongo_address = fp_tongo_address params,
         ad_sender_address = fp_sender_address params, ad_user_pub_key = y\<rparr> w1 = Inr (audit_rec, w')"
    and a: "fpr_audit fp = Some audit_rec"
    using audit by (auto simp: funded_balance_def result_iffs)
  have "encrypts S pt (fp_current_balance params) x (unat (acc_balance account))"
    using make_audit_checked [OF m] funded_cipher_encrypts [OF keys, of params "unat (acc_balance account)"]
    by (simp add: unat_checked_add [OF b] x_def)
  then show "\<exists>audit b. fpr_audit fp = Some audit \<and>
      unat b = unat (acc_balance account) + unat (fp_amount params) \<and>
      encrypts S pt (fp_current_balance params) (owner_private_key account) (unat (acc_balance account)) \<and>
      audit_ok S pt audit (fpr_y fp) (funded_cipher S account params) auditor
        \<lparr>ad_chain_id = fp_chain_id params, ad_tongo_address = fp_tongo_address params,
         ad_sender_address = fp_sender_address params, ad_user_pub_key = owner_public_key account\<rparr> b"
    using a fp(1) unat_checked_add [OF b] make_audit_ok [OF m xy] by (auto simp: x_def y_def)
qed

lemma rollover_ok:
  assumes "rollover S account params w = Inr (rv, w')" and keys: "account_keys S pt account"
  shows "rpr_y rv = owner_public_key account \<and> rpr_pending_amount rv = pending_balance account \<and>
    (\<exists>y_affine. proj_to_affine S (rpr_y rv) = Some y_affine \<and>
      poe_verify S (rpr_y rv) (rpr_proof rv) (rollover_prefix S params y_affine) =
        (if felt_val S (poe_s (rpr_proof rv)) = 0 then Inl PointAtInfinity else Inr True))"
proof -
  obtain y_affine y' where aff: "proj_to_affine S (owner_public_key account) = Some y_affine"
    and poe: "poe_prove S (owner_private_key account) (rollover_prefix S params y_affine) w =
      Inr ((y', rpr_proof rv), w')"
    and rv: "rpr_y rv = owner_public_key account" "rpr_pending_amount rv = pending_balance account"
    using assms(1) unfolding rollover_def Let_def
    by (auto simp: ok_or_eq_Inr elim!: and_then_pairE and_thenE)
  show ?thesis
    using poe_prove_accepted [OF poe, of "owner_public_key account"] keys aff rv
    by (simp add: account_keys_def)
qed

section \<open>Ragequit exits with the whole balance\<close>

lemma ragequit_ok:
  assumes run: "ragequit S account params w = Inr (q, w')" and keys: "account_keys S pt account"
  shows "qpr_y q = owner_public_key account \<and> qpr_amount q = acc_balance account \<and> acc_balance account \<noteq> 0 \<and>
      encrypts S pt (qp_current_balance params) (owner_private_key account) (unat (qpr_amount q))"
    and "ragequit_valid S pt params q"
    and "qp_auditor_key params = Some auditor \<Longrightarrow> \<exists>audit. qpr_audit q = Some audit \<and>
      audit_ok S pt audit (qpr_y q) \<lparr>ct_l = qpr_y q, ct_r = generator S\<rparr> auditor
        \<lparr>ad_chain_id = qp_chain_id params, ad_tongo_address = qp_tongo_address params,
         ad_sender_address = qp_sender_address params, ad_user_pub_key = owner_public_key account\<rparr> 0"
proof -
  define x where "x = owner_private_key account"
  define ct where "ct = qp_current_balance params"
  obtain y l0 r0 kx w1 c where aff: "proj_to_affine S (owner_public_key account) = Some y"
    "proj_to_affine S (ct_l ct) = Some l0" "proj_to_affine S (ct_r ct) = Some r0"
    and chk: "verify_cipher_encrypts_balance S ct x (acc_balance account) (generator S) = Inr ()"
    and c: "compute_poseidon_challenge S (ragequit_prefix S params (acc_balance account) y l0 r0)
      [mul S kx (Some (generator S)), mul S kx (Some (ct_r ct))] = Inr c"
    and q: "qpr_y q = owner_public_key account" "qpr_a_x q = mul S kx (Some (generator S))"
      "qpr_a_r q = mul S kx (Some (ct_r ct))" "qpr_sx q = order_add S kx (order_mul S c x)"
      "qpr_amount q = acc_balance account"
    and audit: "(case qp_auditor_key params of
        Some auditor_key \<Rightarrow> and_then (make_audit S x 0 \<lparr>ct_l = owner_public_key account, ct_r = generator S\<rparr>
            auditor_key True \<lparr>ad_chain_id = qp_chain_id params, ad_tongo_address = qp_tongo_address params,
             ad_sender_address = qp_sender_address params, ad_user_pub_key = owner_public_key account\<rparr> w1)
            (\<lambda>(audit, w). Inr (Some audit, w))
      | None \<Rightarrow> Inr (None, w1)) = Inr (qpr_audit q, w')"
    using run unfolding ragequit_def Let_def scalar_results and_then_Inr x_def ct_def
    by (auto simp: ok_or_eq_Inr map_err_eq_Inr elim!: and_then_pairE and_thenE)
  have enc: "acc_balance account \<noteq> 0" "encrypts S pt ct x (unat (acc_balance account))"
    using chk by (simp_all add: balance_check_Inr)
  show "qpr_y q = owner_public_key account \<and> qpr_amount q = acc_balance account \<and> acc_balance account \<noteq> 0 \<and>
      encrypts S pt (qp_current_balance params) (owner_private_key account) (unat (qpr_amount q))"
    using enc q by (simp add: x_def ct_def)
  have "felt_act S (qpr_sx q) (pt (generator S)) = pt (qpr_a_x q) + felt_act S c (pt (qpr_y q))"
    using keys by (simp add: q response_eq account_keys_def x_def)
  moreover have "felt_act S x (pt (ct_r ct)) =
      pt (ct_l ct) - nsmul (unat (acc_balance account)) (pt (generator S))"
    using enc(2) by (simp add: encrypts_def algebra_simps)
  then have "felt_act S (qpr_sx q) (pt (ct_r ct)) =
      pt (qpr_a_r q) + felt_act S c (pt (ct_l ct) - nsmul (unat (qpr_amount q)) (pt (generator S)))"
    by (simp add: q response_eq)
  ultimately show "ragequit_valid S pt params q"
    using aff c unfolding ragequit_valid_def ct_def [symmetric] q(1-3,5) by blast
  assume "qp_auditor_key params = Some auditor"
  then obtain a where a: "Some a = qpr_audit q"
    and m: "make_audit S x 0 \<lparr>ct_l = owner_public_key account, ct_r = generator S\<rparr>
      auditor True \<lparr>ad_chain_id = qp_chain_id params, ad_tongo_address = qp_tongo_address params,
        ad_sender_address = qp_sender_address params, ad_user_pub_key = owner_public_key account\<rparr> w1 = Inr (a, w')"
    using audit by (auto simp: result_iffs)
  show "\<exists>audit. qpr_audit q = Some audit \<and>
      audit_ok S pt audit (qpr_y q) \<lparr>ct_l = qpr_y q, ct_r = generator S\<rparr> auditor
        \<lparr>ad_chain_id = qp_chain_id params, ad_tongo_address = qp_tongo_address params,
         ad_sender_address = qp_sender_address params, ad_user_pub_key = owner_public_key account\<rparr> 0"
    using make_audit_ok [OF m] keys a [symmetric] by (auto simp: q account_keys_def x_def)
qed

lemma ragequit_zero_balance:
  assumes "acc_balance account = 0"
  shows "ragequit S account params w = Inl PointAtInfinity"
  using assms
  by (cases "proj_to_affine S (owner_public_key account)")
    (simp_all add: ragequit_def balance_check ragequit_error_def Let_def)

section \<open>Withdraw leaves the right balance\<close>

lemma leftover_cipher_encrypts:
  assumes "leftover_cipher S y params = Inr ct" and "pt y = felt_act S x (pt (generator S))"
    and "encrypts S pt (wp_current_balance params) x (unat (wp_amount params) + b)"
  shows "encrypts S pt ct x b"
proof -
  define f where "f = felt_from S WITHDRAW_CAIRO_STRING"
  obtain nl nr where n: "neg_affine S (add S (mul S (felt_from S (unat (wp_amount params))) (Some (generator S)))
        (mul S f (Some y))) = Inr nl" "neg_affine S (mul S f (Some (generator S))) = Inr nr"
    and ct: "ct = \<lparr>ct_l = add S (ct_l (wp_current_balance params)) nl,
      ct_r = add S (ct_r (wp_current_balance params)) nr\<rparr>"
    using assms(1) by (auto simp: leftover_cipher_def Let_def result_iffs f_def)
  have "pt (ct_l ct) = pt (ct_l (wp_current_balance params)) -
      (nsmul (unat (wp_amount params)) (pt (generator S)) + felt_act S f (pt y))"
    using neg_affine_Inr [OF n(1)] by (simp add: felt_act_balance ct)
  moreover have "felt_act S x (pt (ct_r ct)) =
      felt_act S x (pt (ct_r (wp_current_balance params))) - felt_act S f (pt y)"
    using neg_affine_Inr [OF n(2)] act_comm [of x f "pt (generator S)"] assms(2) by (simp add: ct act_diff)
  ultimately have "pt (ct_l ct) - felt_act S x (pt (ct_r ct)) =
      (pt (ct_l (wp_current_balance params)) - felt_act S x (pt (ct_r (wp_current_balance params)))) -
        nsmul (unat (wp_amount params)) (pt (generator S))"
    by simp
  then show ?thesis
    using assms(3) by (simp add: encrypts_def nsmul_add_left)
qed

text \<open>The guards of the operation, in the order in which it checks them.\<close>

lemma withdraw_guards:
  "wp_amount params = 0 \<Longrightarrow>
     withdraw S account params w = Inl (InvalidAmount ''Amount must be greater than zero'')"
  "wp_amount params \<noteq> 0 \<Longrightarrow> acc_balance account < wp_amount params \<Longrightarrow>
     withdraw S account params w = Inl InsufficientBalance"
  by (auto simp: withdraw_def has_sufficient_balance_def acc_balance_def)

lemma withdraw_parts:
  assumes "withdraw S account params w = Inr (wd, w')"
  shows "\<exists>left y rs w1 r v r_aux l0 r0 va ra prefix rp w2 a_x a_r a a_v sx sb sr w3 audit.
    wp_amount params \<noteq> 0 \<and> wp_amount params \<le> acc_balance account \<and>
    left = acc_balance account - wp_amount params \<and>
    proj_to_affine S (owner_public_key account) = Some y \<and>
    verify_cipher_encrypts_balance S (wp_current_balance params) (owner_private_key account)
      (acc_balance account) (generator S) = Inr () \<and>
    random_felts S (wp_bit_size params) w = Inr (rs, w1) \<and>
    compute_total_randomness S rs = Inr r \<and>
    v = add S (mul S (felt_from S (unat left)) (Some (generator S))) (mul S r (Some (generator_h S))) \<and>
    r_aux = mul S r (Some (generator S)) \<and>
    proj_to_affine S (ct_l (wp_current_balance params)) = Some l0 \<and>
    proj_to_affine S (ct_r (wp_current_balance params)) = Some r0 \<and>
    proj_to_affine S v = Some va \<and> proj_to_affine S r_aux = Some ra \<and>
    prefix = withdraw_prefix S params y l0 r0 va ra \<and>
    prove_with_randomness S left (wp_bit_size params) (generator S) (generator_h S) prefix rs w1 = Inr (rp, w2) \<and>
    withdraw_respond S prefix left (owner_private_key account) r (ct_r (wp_current_balance params)) w2 =
      Inr ((a_x, a_r, a, a_v, sx, sb, sr), w3) \<and>
    withdraw_audit S account params left w3 = Inr (audit, w') \<and>
    wd = \<lparr>wpr_y = owner_public_key account, wpr_a_x = a_x, wpr_a_r = a_r, wpr_a = a, wpr_a_v = a_v,
          wpr_sx = sx, wpr_sb = sb, wpr_sr = sr, wpr_auxiliar_cipher = \<lparr>ct_l = v, ct_r = r_aux\<rparr>,
          wpr_range = fst rp, wpr_amount = wp_amount params, wpr_recipient = wp_recipient_address params,
          wpr_audit = audit\<rparr>"
proof -
  have amount: "wp_amount params \<noteq> 0" "wp_amount params \<le> acc_balance account"
    using assms withdraw_guards [of params account w] by (auto simp: not_le [symmetric])
  then have suff: "has_sufficient_balance account (wp_amount params)"
    by (simp add: has_sufficient_balance_def acc_balance_def)
  show ?thesis
    using assms amount suff unfolding withdraw_def Let_def
    by (simp only: if_False not_True_eq_False)
      (elim and_then_pairE and_thenE, simp only: ok_or_eq_Inr split: prod.splits, clarsimp)
qed

lemma withdraw_respond_eqs:
  assumes "withdraw_respond S prefix left x r r0 w = Inr ((a_x, a_r, a, a_v, sx, sb, sr), w')"
  shows "\<exists>c. compute_poseidon_challenge S prefix [a_x, a_r, a, a_v] = Inr c \<and>
    felt_act S sx (pt (generator S)) = pt a_x + felt_act S c (felt_act S x (pt (generator S))) \<and>
    felt_act S sr (pt (generator S)) = pt a_r + felt_act S c (felt_act S r (pt (generator S))) \<and>
    felt_act S sb (pt (generator S)) + felt_act S sx (pt r0) =
      pt a + felt_act S c (nsmul (unat left) (pt (generator S)) + felt_act S x (pt r0)) \<and>
    felt_act S sb (pt (generator S)) + felt_act S sr (pt (generator_h S)) =
      pt a_v + felt_act S c (nsmul (unat left) (pt (generator S)) + felt_act S r (pt (generator_h S)))"
proof -
  obtain ks c where c: "compute_poseidon_challenge S prefix [a_x, a_r, a, a_v] = Inr c"
    and com: "a_x = mul S (ks ! 1) (Some (generator S))" "a_r = mul S (ks ! 2) (Some (generator S))"
      "a = add S (mul S (ks ! 0) (Some (generator S))) (mul S (ks ! 1) (Some r0))"
      "a_v = add S (mul S (ks ! 0) (Some (generator S))) (mul S (ks ! 2) (Some (generator_h S)))"
    and resp: "sx = order_add S (ks ! 1) (order_mul S c x)" "sr = order_add S (ks ! 2) (order_mul S c r)"
      "sb = order_add S (ks ! 0) (order_mul S c (felt_from S (unat left)))"
    using assms unfolding withdraw_respond_def Let_def scalar_results and_then_Inr
    by (auto simp del: One_nat_def elim!: and_then_pairE and_thenE)
  then show ?thesis
    by (intro exI [of _ c] conjI) (simp_all add: response_eq act_plus felt_act_balance add_ac)
qed

lemma withdraw_ok:
  assumes run: "withdraw S account params w = Inr (wd, w')" and keys: "account_keys S pt account"
  shows "wpr_y wd = owner_public_key account \<and> wpr_amount wd = wp_amount params \<and>
      wpr_recipient wd = wp_recipient_address params \<and> wpr_amount wd \<noteq> 0 \<and> wpr_amount wd \<le> acc_balance account \<and>
      encrypts S pt (wp_current_balance params) (owner_private_key account) (unat (acc_balance account))"
    and "withdraw_valid S pt params wd"
    and "wp_auditor_key params = Some auditor \<Longrightarrow> \<exists>leftover audit.
      leftover_cipher S (wpr_y wd) params = Inr leftover \<and> wpr_audit wd = Some audit \<and>
      encrypts S pt leftover (owner_private_key account) (unat (acc_balance account) - unat (wpr_amount wd)) \<and>
      audit_ok S pt audit (wpr_y wd) leftover auditor
        \<lparr>ad_chain_id = wp_chain_id params, ad_tongo_address = wp_tongo_address params,
         ad_sender_address = wp_sender_address params, ad_user_pub_key = owner_public_key account\<rparr>
        (acc_balance account - wpr_amount wd)"
proof -
  define x where "x = owner_private_key account"
  define ct where "ct = wp_current_balance params"
  obtain left y rs w1 r v r_aux l0 r0 va ra prefix rp rr w2 a_x a_r a a_v sx sb sr w3 audit where
    amount: "wp_amount params \<noteq> 0" "wp_amount params \<le> acc_balance account"
    and left: "left = acc_balance account - wp_amount params"
    and aff: "proj_to_affine S (owner_public_key account) = Some y" "proj_to_affine S (ct_l ct) = Some l0"
      "proj_to_affine S (ct_r ct) = Some r0" "proj_to_affine S v = Some va" "proj_to_affine S r_aux = Some ra"
    and chk: "verify_cipher_encrypts_balance S ct x (acc_balance account) (generator S) = Inr ()"
    and total: "compute_total_randomness S rs = Inr r"
    and v: "v = add S (mul S (felt_from S (unat left)) (Some (generator S))) (mul S r (Some (generator_h S)))"
    and r_aux: "r_aux = mul S r (Some (generator S))"
    and prefix: "prefix = withdraw_prefix S params y l0 r0 va ra"
    and range: "prove_with_randomness S left (wp_bit_size params) (generator S) (generator_h S) prefix rs w1 =
      Inr ((rp, rr), w2)"
    and resp: "withdraw_respond S prefix left x r (ct_r ct) w2 = Inr ((a_x, a_r, a, a_v, sx, sb, sr), w3)"
    and audit: "withdraw_audit S account params left w3 = Inr (audit, w')"
    and wd: "wd = \<lparr>wpr_y = owner_public_key account, wpr_a_x = a_x, wpr_a_r = a_r, wpr_a = a, wpr_a_v = a_v,
        wpr_sx = sx, wpr_sb = sb, wpr_sr = sr, wpr_auxiliar_cipher = \<lparr>ct_l = v, ct_r = r_aux\<rparr>,
        wpr_range = rp, wpr_amount = wp_amount params, wpr_recipient = wp_recipient_address params,
        wpr_audit = audit\<rparr>"
    using withdraw_parts [OF run] unfolding x_def ct_def by (elim exE conjE) (metis prod.collapse)
  have enc: "encrypts S pt ct x (unat (acc_balance account))"
    using chk by (simp add: balance_check_Inr)
  have un: "unat left = unat (acc_balance account) - unat (wp_amount params)"
    "unat (wp_amount params) + unat left = unat (acc_balance account)"
    using amount(2) by (simp_all add: left unat_sub word_le_nat_alt)
  have y: "pt (owner_public_key account) = felt_act S x (pt (generator S))"
    using keys by (simp add: account_keys_def x_def)
  show "wpr_y wd = owner_public_key account \<and> wpr_amount wd = wp_amount params \<and>
      wpr_recipient wd = wp_recipient_address params \<and> wpr_amount wd \<noteq> 0 \<and> wpr_amount wd \<le> acc_balance account \<and>
      encrypts S pt (wp_current_balance params) (owner_private_key account) (unat (acc_balance account))"
    using amount enc by (simp add: wd x_def ct_def)
  have bal: "nsmul (unat left) (pt (generator S)) + felt_act S x (pt (ct_r ct)) =
      pt (ct_l ct) - nsmul (unat (wp_amount params)) (pt (generator S))"
    using enc by (simp add: encrypts_def un(2) [symmetric] nsmul_add_left algebra_simps)
  have pv: "pt v = nsmul (unat left) (pt (generator S)) + felt_act S r (pt (generator_h S))"
    "pt r_aux = felt_act S r (pt (generator S))"
    by (simp_all add: v r_aux felt_act_balance)
  have rng: "\<exists>V. range_verify S rp (wp_bit_size params) (generator S) (generator_h S) prefix = Inr V \<and> pt V = pt v"
    if "0 < wp_bit_size params" "\<forall>p \<in> set (rg_proofs rp). felt_act S (bit_s0 p) (pt (generator_h S)) \<noteq> 0 \<and>
          felt_act S (bit_s1 p) (pt (generator_h S)) \<noteq> 0"
    using range_complete [OF range that(1)] that(2) total by (auto simp: pv)
  show "withdraw_valid S pt params wd"
    using aff withdraw_respond_eqs [OF resp] rng 
    unfolding withdraw_valid_def bal pv [symmetric] y [symmetric] prefix ct_def [symmetric] wd
    by (clarsimp simp: y)
  assume aud: "wp_auditor_key params = Some auditor"
  define pd where "pd = \<lparr>ad_chain_id = wp_chain_id params, ad_tongo_address = wp_tongo_address params,
      ad_sender_address = wp_sender_address params, ad_user_pub_key = owner_public_key account\<rparr>"
  obtain leftover ad where lo: "leftover_cipher S (owner_public_key account) params = Inr leftover"
    and m: "make_audit S x left leftover auditor False pd w3 = Inr (ad, w')" and ad: "audit = Some ad"
    using audit aud unfolding withdraw_audit_def x_def pd_def by (auto simp: result_iffs)
  have "encrypts S pt leftover x (unat left)"
    by (rule leftover_cipher_encrypts [OF lo y]) (use enc un in \<open>simp add: ct_def\<close>)
  then show "\<exists>leftover audit.
      leftover_cipher S (wpr_y wd) params = Inr leftover \<and> wpr_audit wd = Some audit \<and>
      encrypts S pt leftover (owner_private_key account) (unat (acc_balance account) - unat (wpr_amount wd)) \<and>
      audit_ok S pt audit (wpr_y wd) leftover auditor
        \<lparr>ad_chain_id = wp_chain_id params, ad_tongo_address = wp_tongo_address params,
         ad_sender_address = wp_sender_address params, ad_user_pub_key = owner_public_key account\<rparr>
        (acc_balance account - wpr_amount wd)"
    using lo make_audit_ok [OF m y] unfolding pd_def [symmetric] wd
    by (simp add: ad x_def un(1) [symmetric] left [symmetric])
qed

end

section \<open>A concrete account\<close>

text \<open>
  Inputs for the witnesses below, on the concrete instance: an account with the secret 5 and the balance 3, whose
  stored ciphertext has the randomness 4, and an auditor with the secret 11.
\<close>

definition alice :: "(zfelt, zgrp) TongoAccount" where
  "alice = \<lparr>keypair = \<lparr>kp_private_key = zfelt_of 5, kp_public_key = zgrp_of 5\<rparr>,
     acc_state = \<lparr>st_balance = 3, st_pending_balance = 2, st_nonce = 0\<rparr>, acc_contract_address = zfelt_of 9\<rparr>"

definition alice_balance :: "zgrp ElGamalCiphertext" where
  "alice_balance = \<lparr>ct_l = zgrp_of 23, ct_r = zgrp_of 4\<rparr>"

definition alice_funds :: "(zfelt, zgrp) FundParams" where
  "alice_funds = \<lparr>fp_amount = 6, fp_nonce = zfelt_of 9, fp_chain_id = zfelt_of 7, fp_tongo_address = zfelt_of 9,
     fp_sender_address = zfelt_of 9, fp_auditor_pub_key = Some (zgrp_of 11), fp_current_balance = alice_balance\<rparr>"

definition alice_rolls :: "zfelt RolloverParams" where
  "alice_rolls = \<lparr>rp_nonce = zfelt_of 9, rp_chain_id = zfelt_of 7, rp_tongo_address = zfelt_of 9,
     rp_sender_address = zfelt_of 9\<rparr>"

definition alice_quits :: "(zfelt, zgrp) RagequitParams" where
  "alice_quits = \<lparr>qp_recipient_address = zfelt_of 9, qp_nonce = zfelt_of 9, qp_chain_id = zfelt_of 7,
     qp_tongo_address = zfelt_of 9, qp_sender_address = zfelt_of 9, qp_current_balance = alice_balance,
     qp_auditor_key = Some (zgrp_of 11)\<rparr>"

definition alice_withdraws :: "(zfelt, zgrp) WithdrawParams" where
  "alice_withdraws = \<lparr>wp_recipient_address = zfelt_of 9, wp_amount = 2, wp_nonce = zfelt_of 9,
     wp_chain_id = zfelt_of 7, wp_tongo_address = zfelt_of 9, wp_sender_address = zfelt_of 9,
     wp_current_balance = alice_balance, wp_bit_size = 1, wp_auditor_key = Some (zgrp_of 11)\<rparr>"

lemma alice_checked:
  "verify_cipher_encrypts_balance stark_dlog \<lparr>ct_l = zgrp_of 23, ct_r = zgrp_of 4\<rparr> (zfelt_of 5) 3 (zgrp_of 1) = Inr ()"
  using dlog.balance_check [of "\<lparr>ct_l = zgrp_of 23, ct_r = zgrp_of 4\<rparr>" "zfelt_of 5" 3]
  by (simp add: encrypts_def dlog_num)

lemmas alice_eval = alice_def alice_balance_def alice_funds_def alice_rolls_def alice_quits_def alice_withdraws_def
  owner_public_key_def owner_private_key_def acc_balance_def has_sufficient_balance_def poseidon_hash_many_def
  alice_checked encrypts_def

lemmas proof_eval = compute_poseidon_challenge_def try_from_projective_def scalar_results

lemmas range_eval = prove_with_randomness_def range_max_value_def range_bits_def bit_prove_def prove_bit_0_def
  prove_bit_1_def simulate_poe_def shl_one_u128_def dlog_negate_point

lemmas audit_eval = prove_with_validation_def audit_cipher1_def audit_respond_def reject_if_def is_infinity_def
  Option.is_none_def dlog_audit_random_felt audit_prefix_def AUDIT_CAIRO_STRING_def

lemma alice_keys: "account_keys stark_dlog (\<lambda>p. p) alice"
  by (simp add: account_keys_def alice_eval dlog_num)

lemma dlog_hint:
  "\<exists>ct nonce. encrypt_for_auditor stark_dlog b (zfelt_of 5) (zgrp_of 11) (os_rng k) = Inr ((ct, nonce), os_rng (k + 1))"
  by (simp add: encrypt_for_auditor_def derive_shared_secret_def encrypt_audit_hint_def aead_key_def
      random_bytes_def fill_random_bytes_def try_fill_random_bytes_def os_rng_def Let_def dlog_num)

lemma dlog_make_audit:
  assumes "\<exists>p. prove_with_validation stark_dlog (zfelt_of 5) b ct (zgrp_of 11) v (Some pd) w = Inr (p, os_rng k)"
  shows "\<exists>a. make_audit stark_dlog (zfelt_of 5) b ct (zgrp_of 11) v pd w = Inr (a, os_rng (k + 1))"
  using assms dlog_hint [of b k] by (auto simp: make_audit_def)

lemma dlog_random_felts3:
  assumes "k + 3 < FELT_PRIME"
  shows "random_felts stark_dlog 3 (os_rng k) = Inr ([zfelt_of (k + 1), zfelt_of (k + 2), zfelt_of (k + 3)], os_rng (k + 3))"
  using assms by (simp add: eval_nat_numeral dlog_random_felt)

section \<open>Properties\<close>

text \<open>
  C8. Funding. When \<open>fund\<close> succeeds, the amount is not zero and is the one asked for, the proof of
  ownership it returns is accepted over the prefix of the operation (unless its response is zero, on which the
  verifier reports the point at infinity), and with an auditor the audit is accepted for the ciphertext
  of the balance after funding and the auditor reads exactly the sum, which has not overflowed.
\<close>

theorem fund_correct:
  assumes "tongo S pt" and "fund S account params w = Inr (fp, w')" and "account_keys S pt account"
  shows "fp_amount params \<noteq> 0 \<and> fpr_y fp = owner_public_key account \<and> fpr_amount fp = fp_amount params \<and>
    (\<exists>y_affine. proj_to_affine S (fpr_y fp) = Some y_affine \<and>
      poe_verify S (fpr_y fp) (fpr_proof fp) (fund_prefix S params y_affine) =
        (if felt_val S (poe_s (fpr_proof fp)) = 0 then Inl PointAtInfinity else Inr True)) \<and>
    (\<forall>auditor. fp_auditor_pub_key params = Some auditor \<longrightarrow> (\<exists>audit b. fpr_audit fp = Some audit \<and>
      unat b = unat (acc_balance account) + unat (fp_amount params) \<and>
      encrypts S pt (fp_current_balance params) (owner_private_key account) (unat (acc_balance account)) \<and>
      audit_ok S pt audit (fpr_y fp) (funded_cipher S account params) auditor
        \<lparr>ad_chain_id = fp_chain_id params, ad_tongo_address = fp_tongo_address params,
         ad_sender_address = fp_sender_address params, ad_user_pub_key = owner_public_key account\<rparr> b))"
  using tongo.fund_ok [OF assms] by blast

lemma alice_fund: "\<exists>fp w'. fund stark_dlog alice alice_funds (os_rng 2) = Inr (fp, w')"
proof -
  have "\<exists>p. prove_with_validation stark_dlog (zfelt_of 5) 9 (funded_cipher stark_dlog alice alice_funds) (zgrp_of 11)
      True (Some \<lparr>ad_chain_id = zfelt_of 7, ad_tongo_address = zfelt_of 9, ad_sender_address = zfelt_of 9,
        ad_user_pub_key = zgrp_of 5\<rparr>) (os_rng 3) = Inr (p, os_rng 7)"
    by (simp add: audit_eval proof_eval funded_cipher_def FUND_CAIRO_STRING_def alice_eval Let_def dlog_num
        cong: and_then_weak_cong)
  from dlog_make_audit [OF this] show ?thesis
    by (auto simp: fund_def fund_prefix_def poe_prove_def funded_balance_def checked_add_u128_def proof_eval alice_eval
        Let_def dlog_num cong: and_then_weak_cong)
qed

theorem fund_correct_witness:
  "\<exists>fp w' audit. fund stark_dlog alice alice_funds (os_rng 2) = Inr (fp, w') \<and> fpr_amount fp = 6 \<and>
    fpr_audit fp = Some audit \<and> decrypt_as_auditor stark_dlog (aud_hint_ciphertext audit) (aud_hint_nonce audit)
      (zfelt_of 11) (zgrp_of 5) = Inr 9"
proof -
  obtain fp w' where run: "fund stark_dlog alice alice_funds (os_rng 2) = Inr (fp, w')"
    using alice_fund by blast
  have aud: "zgrp_of 11 = felt_act stark_dlog (zfelt_of 11) (zgrp_of 1)"
    by (simp add: dlog_num)
  from fund_correct [OF dlog.tongo_axioms run alice_keys] run aud show ?thesis
    by (auto simp: audit_ok_def alice_eval word_unat_eq_iff)
qed

text \<open>
  Rollover. The proof of ownership \<open>rollover\<close> returns is accepted over the prefix of the operation,
  and the pending amount it reports is the account's.
\<close>

theorem rollover_correct:
  assumes "tongo S pt" and "rollover S account params w = Inr (rv, w')" and "account_keys S pt account"
  shows "rpr_y rv = owner_public_key account \<and> rpr_pending_amount rv = pending_balance account \<and>
    (\<exists>y_affine. proj_to_affine S (rpr_y rv) = Some y_affine \<and>
      poe_verify S (rpr_y rv) (rpr_proof rv) (rollover_prefix S params y_affine) =
        (if felt_val S (poe_s (rpr_proof rv)) = 0 then Inl PointAtInfinity else Inr True))"
  by (rule tongo.rollover_ok [OF assms])

theorem rollover_correct_witness:
  "\<exists>rv w'. rollover stark_dlog alice alice_rolls (os_rng 2) = Inr (rv, w') \<and> rpr_pending_amount rv = 2"
proof -
  have "\<exists>rv w'. rollover stark_dlog alice alice_rolls (os_rng 2) = Inr (rv, w')"
    by (simp add: rollover_def rollover_prefix_def poe_prove_def proof_eval alice_eval Let_def dlog_num
        cong: and_then_weak_cong)
  then obtain rv w' where run: "rollover stark_dlog alice alice_rolls (os_rng 2) = Inr (rv, w')"
    by blast
  from rollover_correct [OF dlog.tongo_axioms run alice_keys] run show ?thesis
    by (simp add: pending_balance_def alice_def)
qed

text \<open>
  C7. Ragequit. When \<open>ragequit\<close> succeeds the whole balance leaves, the stored ciphertext encrypts it, the proof
  satisfies the equations of its verifier for exactly that amount, and with an auditor the audit is
  accepted for the ciphertext of the empty balance and the auditor reads 0.
\<close>

theorem ragequit_correct:
  assumes "tongo S pt" and "ragequit S account params w = Inr (q, w')" and "account_keys S pt account"
  shows "qpr_y q = owner_public_key account \<and> qpr_amount q = acc_balance account \<and> acc_balance account \<noteq> 0 \<and>
      encrypts S pt (qp_current_balance params) (owner_private_key account) (unat (qpr_amount q)) \<and>
    ragequit_valid S pt params q \<and>
    (\<forall>auditor. qp_auditor_key params = Some auditor \<longrightarrow> (\<exists>audit. qpr_audit q = Some audit \<and>
      audit_ok S pt audit (qpr_y q) \<lparr>ct_l = qpr_y q, ct_r = generator S\<rparr> auditor
        \<lparr>ad_chain_id = qp_chain_id params, ad_tongo_address = qp_tongo_address params,
         ad_sender_address = qp_sender_address params, ad_user_pub_key = owner_public_key account\<rparr> 0))"
  using tongo.ragequit_ok [OF assms] by blast

lemma alice_ragequit: "\<exists>q w'. ragequit stark_dlog alice alice_quits (os_rng 2) = Inr (q, w')"
proof -
  have "\<exists>p. prove_with_validation stark_dlog (zfelt_of 5) 0 \<lparr>ct_l = zgrp_of 5, ct_r = zgrp_of 1\<rparr> (zgrp_of 11)
      True (Some \<lparr>ad_chain_id = zfelt_of 7, ad_tongo_address = zfelt_of 9, ad_sender_address = zfelt_of 9,
        ad_user_pub_key = zgrp_of 5\<rparr>) (os_rng 3) = Inr (p, os_rng 7)"
    by (simp add: audit_eval proof_eval Let_def dlog_num cong: and_then_weak_cong)
  from dlog_make_audit [OF this] show ?thesis
    by (auto simp: ragequit_def ragequit_prefix_def proof_eval alice_eval Let_def dlog_num simp del: One_nat_def
        cong: and_then_weak_cong)
qed

theorem ragequit_correct_witness:
  "\<exists>q w' audit. ragequit stark_dlog alice alice_quits (os_rng 2) = Inr (q, w') \<and> qpr_amount q = 3 \<and>
    ragequit_valid stark_dlog (\<lambda>p. p) alice_quits q \<and> qpr_audit q = Some audit \<and>
    decrypt_as_auditor stark_dlog (aud_hint_ciphertext audit) (aud_hint_nonce audit) (zfelt_of 11) (zgrp_of 5) = Inr 0"
proof -
  obtain q w' where run: "ragequit stark_dlog alice alice_quits (os_rng 2) = Inr (q, w')"
    using alice_ragequit by blast
  have aud: "zgrp_of 11 = felt_act stark_dlog (zfelt_of 11) (zgrp_of 1)"
    by (simp add: dlog_num)
  from ragequit_correct [OF dlog.tongo_axioms run alice_keys] run aud show ?thesis
    by (auto simp: audit_ok_def alice_eval)
qed

text \<open>
  C39. An account whose balance is zero cannot ragequit: whatever the stored ciphertext, the operation fails with
  the point at infinity.
\<close>

theorem ragequit_empty_account:
  assumes "tongo S pt" and "acc_balance account = 0"
  shows "ragequit S account params w = Inl PointAtInfinity"
  by (rule tongo.ragequit_zero_balance [OF assms])

theorem ragequit_empty_account_witness:
  "acc_balance (set_balance alice 0) = 0 \<and> ragequit stark_dlog (set_balance alice 0) alice_quits (os_rng 2) =
     Inl PointAtInfinity"
  using ragequit_empty_account [OF dlog.tongo_axioms, of "set_balance alice 0" alice_quits "os_rng 2"]
  by (simp add: set_balance_def acc_balance_def)

text \<open>
  C3. Withdrawal. When \<open>withdraw\<close> succeeds, the amount is the one asked for, is not zero and is covered by the
  balance, the stored ciphertext encrypts the balance, and the proof satisfies the equations of its
  verifier, with a range proof that opens to the published commitment of the leftover.
  With an auditor, the ciphertext of the leftover encrypts the balance minus the amount, the audit is accepted
  for it and the auditor reads the leftover.
\<close>

theorem withdraw_correct:
  assumes "tongo S pt" and "withdraw S account params w = Inr (wd, w')" and "account_keys S pt account"
  shows "wpr_y wd = owner_public_key account \<and> wpr_amount wd = wp_amount params \<and>
      wpr_recipient wd = wp_recipient_address params \<and> wpr_amount wd \<noteq> 0 \<and> wpr_amount wd \<le> acc_balance account \<and>
      encrypts S pt (wp_current_balance params) (owner_private_key account) (unat (acc_balance account)) \<and>
    withdraw_valid S pt params wd \<and>
    (\<forall>auditor. wp_auditor_key params = Some auditor \<longrightarrow> (\<exists>leftover audit.
      leftover_cipher S (wpr_y wd) params = Inr leftover \<and> wpr_audit wd = Some audit \<and>
      encrypts S pt leftover (owner_private_key account) (unat (acc_balance account) - unat (wpr_amount wd)) \<and>
      audit_ok S pt audit (wpr_y wd) leftover auditor
        \<lparr>ad_chain_id = wp_chain_id params, ad_tongo_address = wp_tongo_address params,
         ad_sender_address = wp_sender_address params, ad_user_pub_key = owner_public_key account\<rparr>
        (acc_balance account - wpr_amount wd)))"
  using tongo.withdraw_ok [OF assms] by blast

lemma alice_withdraw_audit: "\<exists>a. withdraw_audit stark_dlog alice alice_withdraws 1 (os_rng 9) = Inr (Some a, os_rng 14)"
proof -
  have l: "leftover_cipher stark_dlog (zgrp_of 5) alice_withdraws =
      Inr \<lparr>ct_l = zgrp_of (CURVE_ORDER - 43022682773893408574), ct_r = zgrp_of (CURVE_ORDER - 8604536554778681715)\<rparr>"
    by (simp add: leftover_cipher_def WITHDRAW_CAIRO_STRING_def alice_eval dlog_neg_affine Let_def dlog_num
        cong: and_then_weak_cong)
  have "\<exists>p. prove_with_validation stark_dlog (zfelt_of 5) 1
      \<lparr>ct_l = zgrp_of (CURVE_ORDER - 43022682773893408574), ct_r = zgrp_of (CURVE_ORDER - 8604536554778681715)\<rparr> (zgrp_of 11)
      False (Some \<lparr>ad_chain_id = zfelt_of 7, ad_tongo_address = zfelt_of 9, ad_sender_address = zfelt_of 9,
        ad_user_pub_key = zgrp_of 5\<rparr>) (os_rng 9) = Inr (p, os_rng 13)"
    by (simp add: audit_eval proof_eval Let_def dlog_num cong: and_then_weak_cong)
  from dlog_make_audit [OF this] show ?thesis
    by (auto simp: withdraw_audit_def alice_eval l [unfolded alice_withdraws_def alice_balance_def] Let_def
        simp del: One_nat_def)
qed

lemma alice_withdraw: "\<exists>wd w'. withdraw stark_dlog alice alice_withdraws (os_rng 2) = Inr (wd, w')"
proof -
  have rp: "\<exists>rp. prove_with_randomness stark_dlog 1 1 (zgrp_of 1) (zgrp_of 2) (zfelt_of 7) [zfelt_of 3] (os_rng 3) =
      Inr (rp, os_rng 6)"
    by (simp add: range_eval proof_eval Let_def dlog_num cong: and_then_weak_cong)
  have resp: "\<exists>a b c d e f g. withdraw_respond stark_dlog (zfelt_of 7) 1 (zfelt_of 5) (zfelt_of 3) (zgrp_of 4) (os_rng 6) =
      Inr ((a, b, c, d, e, f, g), os_rng 9)"
    by (simp add: withdraw_respond_def dlog_random_felts3 proof_eval Let_def dlog_num cong: and_then_weak_cong)
  have r: "random_felts stark_dlog 1 (os_rng 2) = Inr ([zfelt_of 3], os_rng 3)"
    by (simp add: dlog_num)
  have t: "compute_total_randomness stark_dlog [zfelt_of 3] = Inr (zfelt_of 3)"
    by (simp add: compute_total_randomness_def shl_one_u128_def scalar_results dlog_num)
  show ?thesis
    using rp resp alice_withdraw_audit
    by (auto simp: withdraw_def withdraw_prefix_def r t Let_def alice_eval dlog_num
        simp del: One_nat_def random_felts.simps cong: and_then_weak_cong)
qed

theorem withdraw_correct_witness:
  "\<exists>wd w' audit. withdraw stark_dlog alice alice_withdraws (os_rng 2) = Inr (wd, w') \<and> wpr_amount wd = 2 \<and>
    withdraw_valid stark_dlog (\<lambda>p. p) alice_withdraws wd \<and> wpr_audit wd = Some audit \<and>
    decrypt_as_auditor stark_dlog (aud_hint_ciphertext audit) (aud_hint_nonce audit) (zfelt_of 11) (zgrp_of 5) = Inr 1"
proof -
  obtain wd w' where run: "withdraw stark_dlog alice alice_withdraws (os_rng 2) = Inr (wd, w')"
    using alice_withdraw by blast
  have aud: "zgrp_of 11 = felt_act stark_dlog (zfelt_of 11) (zgrp_of 1)"
    by (simp add: dlog_num)
  from withdraw_correct [OF dlog.tongo_axioms run alice_keys] run aud show ?thesis
    by (auto simp: audit_ok_def alice_eval)
qed

text \<open>
  The guards of the withdrawal: a zero amount and an amount above the balance are refused, in this order and
  before anything is drawn from the random source.
\<close>

theorem withdraw_refuses:
  "wp_amount params = 0 \<or> acc_balance account < wp_amount params \<Longrightarrow>
    withdraw S account params w =
      Inl (if wp_amount params = 0 then InvalidAmount ''Amount must be greater than zero'' else InsufficientBalance)"
  by (auto simp: withdraw_def has_sufficient_balance_def acc_balance_def)

theorem withdraw_refuses_witness:
  "withdraw stark_dlog alice (alice_withdraws\<lparr>wp_amount := 4\<rparr>) (os_rng 0) = Inl InsufficientBalance"
  using withdraw_refuses [of "alice_withdraws\<lparr>wp_amount := 4\<rparr>" alice stark_dlog "os_rng 0"]
  by (simp add: alice_eval)

end
