(* ===== verification/Tongo_Transfer.thy ===== *)
theory Tongo_Transfer
  imports Tongo_Ops
begin

text \<open>
  \<open>crates/sdk/src/operations/transfer_state.rs\<close> and \<open>transfer.rs\<close>: the confidential
  transfer, phase by phase. The lemmas show that a transfer moves exactly the amount, that its proof
  satisfies the equations of its verifier, and that its audits are accepted.

  \<open>prove_ranges\<close> runs both range proofs and then looks at their results (\<open>join\<close> of the
  sequential build). A failing first proof makes the call fail with its error, so what the second one draws
  after that is not observable except through a panic of the operating system's generator.
\<close>

section \<open>Model\<close>

definition TRANSFER_CAIRO_STRING :: nat where
  "TRANSFER_CAIRO_STRING = 0x7472616e73666572"

record ('f, 'p) TransferBuildState =
  ts_params :: "('f, 'p) TransferParams"
  ts_secret :: 'f
  ts_owner :: 'p
  ts_amount :: u128
  ts_leftover :: u128
  ts_generator :: 'p
  ts_generator_h :: 'p

record ('f, 'p) PreparedCiphertexts =
  pc_randomness :: 'f
  pc_leftover_randomness :: 'f
  pc_amount_randomness :: "'f list"
  pc_leftover_randomness_values :: "'f list"
  pc_transfer_balance_l :: 'p
  pc_transfer_balance_r :: 'p
  pc_transfer_balance_self_l :: 'p
  pc_transfer_balance_self_r :: 'p
  pc_auxiliar_cipher :: "'p ElGamalCiphertext"
  pc_auxiliar_cipher2 :: "'p ElGamalCiphertext"

definition transfer_affine :: "('f, 'p, 'a, 'r) starknet \<Rightarrow> 'p \<Rightarrow> 'a result" where
  "transfer_affine S point = ok_or PointAtInfinity (proj_to_affine S point)"

definition add_scaled :: "('f, 'p, 'a, 'r) starknet \<Rightarrow> 'f \<Rightarrow> 'p \<Rightarrow> 'f \<Rightarrow> 'p \<Rightarrow> 'p" where
  "add_scaled S first_scalar first_point second_scalar second_point =
     add S (mul S first_scalar (Some first_point)) (mul S second_scalar (Some second_point))"

definition response :: "('f, 'p, 'a, 'r) starknet \<Rightarrow> 'f \<Rightarrow> 'f \<Rightarrow> 'f \<Rightarrow> 'f result" where
  "response S randomness challenge val =
     and_then (scalar_mul S challenge val) (\<lambda>product. scalar_add S randomness product)"

definition subtract_point :: "('f, 'p, 'a, 'r) starknet \<Rightarrow> 'p \<Rightarrow> 'p \<Rightarrow> 'p result" where
  "subtract_point S minuend subtrahend =
     and_then (neg_affine S subtrahend) (\<lambda>negated. Inr (add S minuend negated))"

definition transfer_new ::
    "('f, 'p, 'a, 'r) starknet \<Rightarrow> ('f, 'p) TongoAccount \<Rightarrow> ('f, 'p) TransferParams
      \<Rightarrow> ('f, 'p) TransferBuildState result" where
  "transfer_new S account params =
     (if tp_amount params = 0 then Inl (InvalidAmount ''Amount must be greater than zero'')
      else if \<not> has_sufficient_balance account (tp_amount params) then Inl InsufficientBalance
      else
        let secret = owner_private_key account;
            g = generator S
        in and_then (verify_cipher_encrypts_balance S (tp_current_balance params) secret (acc_balance account) g) (\<lambda>_.
           Inr \<lparr>ts_params = params, ts_secret = secret, ts_owner = owner_public_key account,
                ts_amount = tp_amount params, ts_leftover = acc_balance account - tp_amount params,
                ts_generator = g, ts_generator_h = generator_h S\<rparr>))"

definition prepare_ciphertexts ::
    "('f, 'p, 'a, 'r) starknet \<Rightarrow> ('f, 'p) TransferBuildState \<Rightarrow> ('f, 'p) PreparedCiphertexts draw" where
  "prepare_ciphertexts S st w =
     and_then (random_felts S (tp_bit_size (ts_params st)) w) (\<lambda>(amount_randomness, w).
     and_then (random_felts S (tp_bit_size (ts_params st)) w) (\<lambda>(leftover_randomness_values, w).
     and_then (compute_total_randomness S amount_randomness) (\<lambda>randomness.
     and_then (compute_total_randomness S leftover_randomness_values) (\<lambda>leftover_randomness.
     let amount = felt_from S (unat (ts_amount st));
         leftover = felt_from S (unat (ts_leftover st));
         g = ts_generator st
     in Inr (\<lparr>pc_randomness = randomness, pc_leftover_randomness = leftover_randomness,
              pc_amount_randomness = amount_randomness,
              pc_leftover_randomness_values = leftover_randomness_values,
              pc_transfer_balance_l = add_scaled S amount g randomness (tp_recipient_public_key (ts_params st)),
              pc_transfer_balance_r = mul S randomness (Some g),
              pc_transfer_balance_self_l = add_scaled S amount g randomness (ts_owner st),
              pc_transfer_balance_self_r = mul S randomness (Some g),
              pc_auxiliar_cipher =
                \<lparr>ct_l = add_scaled S amount g randomness (ts_generator_h st), ct_r = mul S randomness (Some g)\<rparr>,
              pc_auxiliar_cipher2 =
                \<lparr>ct_l = add_scaled S leftover g leftover_randomness (ts_generator_h st),
                 ct_r = mul S leftover_randomness (Some g)\<rparr>\<rparr>, w)))))"

definition protocol_prefix ::
    "('f, 'p, 'a, 'r) starknet \<Rightarrow> ('f, 'p) TransferBuildState \<Rightarrow> ('f, 'p) PreparedCiphertexts \<Rightarrow> 'f result" where
  "protocol_prefix S st prepared =
     and_then (transfer_affine S (ts_owner st)) (\<lambda>own.
     and_then (transfer_affine S (tp_recipient_public_key (ts_params st))) (\<lambda>recipient.
     and_then (transfer_affine S (ct_l (tp_current_balance (ts_params st)))) (\<lambda>current_l.
     and_then (transfer_affine S (ct_r (tp_current_balance (ts_params st)))) (\<lambda>current_r.
     and_then (transfer_affine S (pc_transfer_balance_self_l prepared)) (\<lambda>tbs_l.
     and_then (transfer_affine S (pc_transfer_balance_self_r prepared)) (\<lambda>tbs_r.
     and_then (transfer_affine S (pc_transfer_balance_l prepared)) (\<lambda>tb_l.
     and_then (transfer_affine S (pc_transfer_balance_r prepared)) (\<lambda>tb_r.
     and_then (transfer_affine S (ct_l (pc_auxiliar_cipher prepared))) (\<lambda>auxiliary.
     and_then (transfer_affine S (ct_r (pc_auxiliar_cipher prepared))) (\<lambda>auxiliary_r.
     and_then (transfer_affine S (ct_l (pc_auxiliar_cipher2 prepared))) (\<lambda>auxiliary2.
     and_then (transfer_affine S (ct_r (pc_auxiliar_cipher2 prepared))) (\<lambda>auxiliary2_r.
       Inr (poseidon_hash_many S
         [tp_chain_id (ts_params st), tp_tongo_address (ts_params st), tp_sender_address (ts_params st),
          felt_from S TRANSFER_CAIRO_STRING,
          affine_x S own, affine_y S own, affine_x S recipient, affine_y S recipient,
          tp_nonce (ts_params st),
          affine_x S current_l, affine_y S current_l, affine_x S current_r, affine_y S current_r,
          affine_x S tbs_l, affine_y S tbs_l, affine_x S tbs_r, affine_y S tbs_r,
          affine_x S tb_l, affine_y S tb_l, affine_x S tb_r, affine_y S tb_r,
          affine_x S auxiliary, affine_y S auxiliary, affine_x S auxiliary_r, affine_y S auxiliary_r,
          affine_x S auxiliary2, affine_y S auxiliary2, affine_x S auxiliary2_r, affine_y S auxiliary2_r])
     ))))))))))))"

definition transfer_prove_range ::
    "('f, 'p, 'a, 'r) starknet \<Rightarrow> ('f, 'p) TransferBuildState \<Rightarrow> u128 \<Rightarrow> 'f list \<Rightarrow> 'f \<Rightarrow> ('f Range \<times> 'f) draw" where
  "transfer_prove_range S st val randomness prefix w =
     prove_with_randomness S val (tp_bit_size (ts_params st)) (ts_generator st) (ts_generator_h st) prefix randomness w"

text \<open>
  The source runs both provers before it looks at their results. When the first one fails, the second one can change
  neither the error nor a state that an error returns, except by a panic of the random source; the model returns at once.
\<close>

definition prove_ranges ::
    "('f, 'p, 'a, 'r) starknet \<Rightarrow> ('f, 'p) TransferBuildState \<Rightarrow> ('f, 'p) PreparedCiphertexts \<Rightarrow> 'f
      \<Rightarrow> ('f Range \<times> 'f Range) draw" where
  "prove_ranges S st prepared prefix w =
     and_then (transfer_prove_range S st (ts_amount st) (pc_amount_randomness prepared) prefix w)
       (\<lambda>(amount, w).
     and_then (transfer_prove_range S st (ts_leftover st) (pc_leftover_randomness_values prepared) prefix w)
       (\<lambda>(leftover, w). Inr ((fst amount, fst leftover), w)))"

text \<open>The protocol proof: five nonces, eight commitments, one challenge, five responses.\<close>

definition build_protocol_proof ::
    "('f, 'p, 'a, 'r) starknet \<Rightarrow> ('f, 'p) TransferBuildState \<Rightarrow> ('f, 'p) PreparedCiphertexts \<Rightarrow> 'f
      \<Rightarrow> 'f Range \<Rightarrow> 'f Range \<Rightarrow> 'f ProofOfTransfer draw" where
  "build_protocol_proof S st prepared prefix rng rng2 w =
     and_then (neg_affine S (pc_transfer_balance_self_r prepared)) (\<lambda>neg_transfer_r.
     let g = ts_generator st;
         g_point = add S (ct_r (tp_current_balance (ts_params st))) neg_transfer_r
     in and_then (random_felt S w) (\<lambda>(kx, w).
        and_then (random_felt S w) (\<lambda>(kb, w).
        and_then (random_felt S w) (\<lambda>(kr, w).
        and_then (random_felt S w) (\<lambda>(kb2, w).
        and_then (random_felt S w) (\<lambda>(kr2, w).
        let a_x = mul S kx (Some g);
            a_r = mul S kr (Some g);
            a_r2 = mul S kr2 (Some g);
            a_b = add_scaled S kb g kr (ts_owner st);
            a_bar = add_scaled S kb g kr (tp_recipient_public_key (ts_params st));
            a_v = add_scaled S kb g kr (ts_generator_h st);
            a_b2 = add_scaled S kb2 g kx g_point;
            a_v2 = add_scaled S kb2 g kr2 (ts_generator_h st)
        in and_then (compute_poseidon_challenge S prefix [a_x, a_r, a_r2, a_b, a_b2, a_v, a_v2, a_bar]) (\<lambda>challenge.
           and_then (try_from_projective S a_x) (\<lambda>sa_x.
           and_then (try_from_projective S a_r) (\<lambda>sa_r.
           and_then (try_from_projective S a_r2) (\<lambda>sa_r2.
           and_then (try_from_projective S a_b) (\<lambda>sa_b.
           and_then (try_from_projective S a_b2) (\<lambda>sa_b2.
           and_then (try_from_projective S a_v) (\<lambda>sa_v.
           and_then (try_from_projective S a_v2) (\<lambda>sa_v2.
           and_then (try_from_projective S a_bar) (\<lambda>sa_bar.
           and_then (response S kx challenge (ts_secret st)) (\<lambda>s_x.
           and_then (response S kr challenge (pc_randomness prepared)) (\<lambda>s_r.
           and_then (response S kb challenge (felt_from S (unat (ts_amount st)))) (\<lambda>s_b.
           and_then (response S kb2 challenge (felt_from S (unat (ts_leftover st)))) (\<lambda>s_b2.
           and_then (response S kr2 challenge (pc_leftover_randomness prepared)) (\<lambda>s_r2.
             Inr (\<lparr>tr_a_x = sa_x, tr_a_r = sa_r, tr_a_r2 = sa_r2, tr_a_b = sa_b, tr_a_b2 = sa_b2, tr_a_v = sa_v,
                   tr_a_v2 = sa_v2, tr_a_bar = sa_bar, tr_s_x = s_x, tr_s_r = s_r, tr_s_b = s_b, tr_s_b2 = s_b2,
                   tr_s_r2 = s_r2, tr_range = rng, tr_range2 = rng2\<rparr>, w)))))))))))))))))))))"

definition new_balance_cipher ::
    "('f, 'p, 'a, 'r) starknet \<Rightarrow> ('f, 'p) TransferBuildState \<Rightarrow> ('f, 'p) PreparedCiphertexts
      \<Rightarrow> 'p ElGamalCiphertext result" where
  "new_balance_cipher S st prepared =
     and_then (subtract_point S (ct_l (tp_current_balance (ts_params st))) (pc_transfer_balance_self_l prepared)) (\<lambda>l.
     and_then (subtract_point S (ct_r (tp_current_balance (ts_params st))) (pc_transfer_balance_self_r prepared)) (\<lambda>r.
       Inr \<lparr>ct_l = l, ct_r = r\<rparr>))"

text \<open>
  The audits of the new balance, not validated again, and of the transferred amount, validated
  (\<open>AuditProver::prove\<close> is \<open>prove_with_validation\<close> with \<open>validate = true\<close>).
\<close>

definition build_audits ::
    "('f, 'p, 'a, 'r) starknet \<Rightarrow> ('f, 'p) TransferBuildState \<Rightarrow> ('f, 'p) PreparedCiphertexts
      \<Rightarrow> 'p ElGamalCiphertext \<Rightarrow> (('f, 'p) Audit option \<times> ('f, 'p) Audit option) draw" where
  "build_audits S st prepared new_balance w =
     (case tp_auditor_pub_key (ts_params st) of
        None \<Rightarrow> Inr ((None, None), w)
      | Some auditor \<Rightarrow>
          let prefix = \<lparr>ad_chain_id = tp_chain_id (ts_params st), ad_tongo_address = tp_tongo_address (ts_params st),
                        ad_sender_address = tp_sender_address (ts_params st), ad_user_pub_key = ts_owner st\<rparr>
          in and_then (make_audit S (ts_secret st) (ts_leftover st) new_balance auditor False prefix w)
               (\<lambda>(audit_balance, w).
             let transfer_self = \<lparr>ct_l = pc_transfer_balance_self_l prepared, ct_r = pc_transfer_balance_self_r prepared\<rparr>
             in and_then (make_audit S (ts_secret st) (ts_amount st) transfer_self auditor True prefix w)
                  (\<lambda>(audit_transfer, w).
                Inr ((Some audit_balance, Some audit_transfer), w))))"

definition transfer_execute ::
    "('f, 'p, 'a, 'r) starknet \<Rightarrow> ('f, 'p) TransferBuildState \<Rightarrow> ('f, 'p) TransferProof draw" where
  "transfer_execute S st w =
     and_then (prepare_ciphertexts S st w) (\<lambda>(prepared, w).
     and_then (protocol_prefix S st prepared) (\<lambda>prefix.
     and_then (prove_ranges S st prepared prefix w) (\<lambda>(ranges, w).
     and_then (build_protocol_proof S st prepared prefix (fst ranges) (snd ranges) w) (\<lambda>(proof, w).
     and_then (new_balance_cipher S st prepared) (\<lambda>new_balance.
     and_then (build_audits S st prepared new_balance w) (\<lambda>(audits, w).
       Inr (\<lparr>tpr_transfer_balance_l = pc_transfer_balance_l prepared,
             tpr_transfer_balance_r = pc_transfer_balance_r prepared,
             tpr_transfer_balance_self_l = pc_transfer_balance_self_l prepared,
             tpr_transfer_balance_self_r = pc_transfer_balance_self_r prepared,
             tpr_proof = proof, tpr_auxiliar_cipher = pc_auxiliar_cipher prepared,
             tpr_auxiliar_cipher2 = pc_auxiliar_cipher2 prepared, tpr_new_balance_cipher = new_balance,
             tpr_audit_balance = fst audits, tpr_audit_transfer = snd audits\<rparr>, w)))))))"

definition transfer ::
    "('f, 'p, 'a, 'r) starknet \<Rightarrow> ('f, 'p) TongoAccount \<Rightarrow> ('f, 'p) TransferParams \<Rightarrow> ('f, 'p) TransferProof draw" where
  "transfer S account params w = and_then (transfer_new S account params) (\<lambda>st. transfer_execute S st w)"

section \<open>Specification\<close>

text \<open>
  A build state made by \<open>transfer_new\<close> for an account whose keys belong together: the stored
  ciphertext holds the amount and the leftover.
\<close>

definition transfer_state_ok ::
    "('f, 'p, 'a, 'r) starknet \<Rightarrow> ('p \<Rightarrow> 'g :: ab_group_add) \<Rightarrow> ('f, 'p) TransferBuildState \<Rightarrow> bool" where
  "transfer_state_ok S pt st =
     (ts_generator st = generator S \<and> ts_generator_h st = generator_h S \<and>
      pt (ts_owner st) = felt_act S (ts_secret st) (pt (generator S)) \<and>
      encrypts S pt (tp_current_balance (ts_params st)) (ts_secret st)
        (unat (ts_amount st) + unat (ts_leftover st)))"

text \<open>The published ciphertexts, as functions of the two randomness totals.\<close>

definition prepared_ok ::
    "('f, 'p, 'a, 'r) starknet \<Rightarrow> ('p \<Rightarrow> 'g :: ab_group_add) \<Rightarrow> ('f, 'p) TransferBuildState
      \<Rightarrow> ('f, 'p) PreparedCiphertexts \<Rightarrow> bool" where
  "prepared_ok S pt st pc =
     (let g = pt (generator S); h = pt (generator_h S);
          r = pc_randomness pc; r2 = pc_leftover_randomness pc
      in compute_total_randomness S (pc_amount_randomness pc) = Inr r \<and>
         compute_total_randomness S (pc_leftover_randomness_values pc) = Inr r2 \<and>
         pt (pc_transfer_balance_l pc) =
           nsmul (unat (ts_amount st)) g + felt_act S r (pt (tp_recipient_public_key (ts_params st))) \<and>
         pt (pc_transfer_balance_r pc) = felt_act S r g \<and>
         pt (pc_transfer_balance_self_l pc) = nsmul (unat (ts_amount st)) g + felt_act S r (pt (ts_owner st)) \<and>
         pt (pc_transfer_balance_self_r pc) = felt_act S r g \<and>
         pt (ct_l (pc_auxiliar_cipher pc)) = nsmul (unat (ts_amount st)) g + felt_act S r h \<and>
         pt (ct_r (pc_auxiliar_cipher pc)) = felt_act S r g \<and>
         pt (ct_l (pc_auxiliar_cipher2 pc)) = nsmul (unat (ts_leftover st)) g + felt_act S r2 h \<and>
         pt (ct_r (pc_auxiliar_cipher2 pc)) = felt_act S r2 g)"

text \<open>
  The verifier of a transfer: it reads the commitments back from their coordinates, recomputes the challenge
  and checks one equation per commitment, all over published values: the owner's key \<open>y\<close>, the
  recipient's key \<open>ybar\<close>, the stored ciphertext and the ciphertexts of the proof.
\<close>

definition transfer_equations ::
    "('f, 'p, 'a, 'r) starknet \<Rightarrow> ('p \<Rightarrow> 'g :: ab_group_add) \<Rightarrow> 'p \<Rightarrow> 'p \<Rightarrow> 'p ElGamalCiphertext
      \<Rightarrow> ('f, 'p) PreparedCiphertexts \<Rightarrow> 'f \<Rightarrow> 'f ProofOfTransfer \<Rightarrow> bool" where
  "transfer_equations S pt y ybar current pc prefix proof =
     (let g = pt (generator S); h = pt (generator_h S); act = felt_act S
      in \<exists>a_x a_r a_r2 a_b a_b2 a_v a_v2 a_bar c.
         try_from_projective S a_x = Inr (tr_a_x proof) \<and> try_from_projective S a_r = Inr (tr_a_r proof) \<and>
         try_from_projective S a_r2 = Inr (tr_a_r2 proof) \<and> try_from_projective S a_b = Inr (tr_a_b proof) \<and>
         try_from_projective S a_b2 = Inr (tr_a_b2 proof) \<and> try_from_projective S a_v = Inr (tr_a_v proof) \<and>
         try_from_projective S a_v2 = Inr (tr_a_v2 proof) \<and> try_from_projective S a_bar = Inr (tr_a_bar proof) \<and>
         compute_poseidon_challenge S prefix [a_x, a_r, a_r2, a_b, a_b2, a_v, a_v2, a_bar] = Inr c \<and>
         act (tr_s_x proof) g = pt a_x + act c (pt y) \<and>
         act (tr_s_r proof) g = pt a_r + act c (pt (pc_transfer_balance_self_r pc)) \<and>
         act (tr_s_r2 proof) g = pt a_r2 + act c (pt (ct_r (pc_auxiliar_cipher2 pc))) \<and>
         act (tr_s_b proof) g + act (tr_s_r proof) (pt y) =
           pt a_b + act c (pt (pc_transfer_balance_self_l pc)) \<and>
         act (tr_s_b proof) g + act (tr_s_r proof) (pt ybar) = pt a_bar + act c (pt (pc_transfer_balance_l pc)) \<and>
         act (tr_s_b proof) g + act (tr_s_r proof) h = pt a_v + act c (pt (ct_l (pc_auxiliar_cipher pc))) \<and>
         act (tr_s_b2 proof) g + act (tr_s_x proof) (pt (ct_r current) - pt (pc_transfer_balance_self_r pc)) =
           pt a_b2 + act c (pt (ct_l current) - pt (pc_transfer_balance_self_l pc)) \<and>
         act (tr_s_b2 proof) g + act (tr_s_r2 proof) h = pt a_v2 + act c (pt (ct_l (pc_auxiliar_cipher2 pc))))"

context tongo
begin

lemma transfer_new_Inr:
  assumes "transfer_new S account params = Inr st" and "account_keys S pt account"
  shows "transfer_state_ok S pt st"
    and "ts_params st = params \<and> ts_secret st = owner_private_key account \<and> ts_owner st = owner_public_key account \<and>
      ts_amount st = tp_amount params \<and> tp_amount params \<noteq> 0 \<and> tp_amount params \<le> acc_balance account \<and>
      unat (ts_leftover st) = unat (acc_balance account) - unat (tp_amount params)"
proof -
  have le: "tp_amount params \<noteq> 0" "tp_amount params \<le> acc_balance account"
    and enc: "encrypts S pt (tp_current_balance params) (owner_private_key account) (unat (acc_balance account))"
    and st: "st = \<lparr>ts_params = params, ts_secret = owner_private_key account, ts_owner = owner_public_key account,
                ts_amount = tp_amount params, ts_leftover = acc_balance account - tp_amount params,
                ts_generator = generator S, ts_generator_h = generator_h S\<rparr>"
    using assms(1)
    by (auto simp: transfer_new_def Let_def has_sufficient_balance_def acc_balance_def result_iffs
      balance_check_Inr split: if_splits)
  have un: "unat (acc_balance account - tp_amount params) = unat (acc_balance account) - unat (tp_amount params)"
    "unat (tp_amount params) \<le> unat (acc_balance account)"
    using le(2) by (simp_all add: unat_sub word_le_nat_alt)
  show "transfer_state_ok S pt st"
    using assms(2) enc un by (simp add: st transfer_state_ok_def account_keys_def)
  show "ts_params st = params \<and> ts_secret st = owner_private_key account \<and> ts_owner st = owner_public_key account \<and>
      ts_amount st = tp_amount params \<and> tp_amount params \<noteq> 0 \<and> tp_amount params \<le> acc_balance account \<and>
      unat (ts_leftover st) = unat (acc_balance account) - unat (tp_amount params)"
    using le un by (simp add: st)
qed

lemma pt_add_scaled [simp]: "pt (add_scaled S a p b q) = felt_act S a (pt p) + felt_act S b (pt q)"
  by (simp add: add_scaled_def)

lemma prepare_ciphertexts_ok:
  assumes "prepare_ciphertexts S st w = Inr (pc, w')" and "transfer_state_ok S pt st"
  shows "prepared_ok S pt st pc"
  using assms
  by (auto simp: prepare_ciphertexts_def Let_def transfer_state_ok_def prepared_ok_def felt_act_balance
    elim!: and_then_pairE and_thenE)

lemma subtract_point_Inr: "subtract_point S p q = Inr d \<Longrightarrow> pt d = pt p - pt q"
  by (auto simp: subtract_point_def result_iffs dest: neg_affine_Inr)

lemma response_Inr [simp]: "response S k c v = Inr (order_add S k (order_mul S c v))"
  by (simp add: response_def scalar_results)

text \<open>Subtracting the transferred ciphertext from the stored one leaves an encryption of the leftover.\<close>

lemma transfer_leftover:
  assumes ok: "transfer_state_ok S pt st" and pc: "prepared_ok S pt st pc"
  shows "pt (ct_l (tp_current_balance (ts_params st))) - pt (pc_transfer_balance_self_l pc) =
    nsmul (unat (ts_leftover st)) (pt (generator S)) + felt_act S (ts_secret st)
      (pt (ct_r (tp_current_balance (ts_params st))) - pt (pc_transfer_balance_self_r pc))"
proof -
  define ct where "ct = tp_current_balance (ts_params st)"
  have "pt (ct_l ct) = nsmul (unat (ts_amount st)) (pt (generator S)) +
      nsmul (unat (ts_leftover st)) (pt (generator S)) + felt_act S (ts_secret st) (pt (ct_r ct))"
    using ok by (simp add: transfer_state_ok_def encrypts_def nsmul_add_left ct_def algebra_simps)
  then show ?thesis
    using ok pc act_comm [of "ts_secret st" "pc_randomness pc" "pt (generator S)"]
    by (simp add: transfer_state_ok_def prepared_ok_def Let_def act_diff ct_def algebra_simps)
qed

lemma new_balance_cipher_encrypts:
  assumes "new_balance_cipher S st pc = Inr ct" and "transfer_state_ok S pt st" and "prepared_ok S pt st pc"
  shows "encrypts S pt ct (ts_secret st) (unat (ts_leftover st))"
proof -
  have "pt (ct_l ct) = pt (ct_l (tp_current_balance (ts_params st))) - pt (pc_transfer_balance_self_l pc)"
    "pt (ct_r ct) = pt (ct_r (tp_current_balance (ts_params st))) - pt (pc_transfer_balance_self_r pc)"
    using assms(1) by (auto simp: new_balance_cipher_def result_iffs dest: subtract_point_Inr)
  then show ?thesis
    using transfer_leftover [OF assms(2,3)] by (simp add: encrypts_def)
qed

lemma build_protocol_proof_equations:
  assumes "build_protocol_proof S st pc prefix rng rng2 w = Inr (proof, w')"
    and ok: "transfer_state_ok S pt st" and pc: "prepared_ok S pt st pc"
  shows "transfer_equations S pt (ts_owner st) (tp_recipient_public_key (ts_params st))
      (tp_current_balance (ts_params st)) pc prefix proof"
    and "tr_range proof = rng \<and> tr_range2 proof = rng2"
proof -
  define g h where "g = generator S" and "h = generator_h S"
  define y where "y = ts_owner st"
  define yb where "yb = tp_recipient_public_key (ts_params st)"
  define gp where "gp ng = add S (ct_r (tp_current_balance (ts_params st))) ng" for ng
  have gs: "ts_generator st = g" "ts_generator_h st = h"
    using ok by (simp_all add: transfer_state_ok_def g_def h_def)
  obtain ng kx kb kr kb2 kr2 c where ng: "neg_affine S (pc_transfer_balance_self_r pc) = Inr ng"
    and c: "compute_poseidon_challenge S prefix
      [mul S kx (Some g), mul S kr (Some g), mul S kr2 (Some g), add_scaled S kb g kr y, add_scaled S kb2 g kx (gp ng),
       add_scaled S kb g kr h, add_scaled S kb2 g kr2 h, add_scaled S kb g kr yb] = Inr c"
    and a: "try_from_projective S (mul S kx (Some g)) = Inr (tr_a_x proof)"
      "try_from_projective S (mul S kr (Some g)) = Inr (tr_a_r proof)"
      "try_from_projective S (mul S kr2 (Some g)) = Inr (tr_a_r2 proof)"
      "try_from_projective S (add_scaled S kb g kr y) = Inr (tr_a_b proof)"
      "try_from_projective S (add_scaled S kb2 g kx (gp ng)) = Inr (tr_a_b2 proof)"
      "try_from_projective S (add_scaled S kb g kr h) = Inr (tr_a_v proof)"
      "try_from_projective S (add_scaled S kb2 g kr2 h) = Inr (tr_a_v2 proof)"
      "try_from_projective S (add_scaled S kb g kr yb) = Inr (tr_a_bar proof)"
    and s: "tr_s_x proof = order_add S kx (order_mul S c (ts_secret st))"
      "tr_s_r proof = order_add S kr (order_mul S c (pc_randomness pc))"
      "tr_s_b proof = order_add S kb (order_mul S c (felt_from S (unat (ts_amount st))))"
      "tr_s_b2 proof = order_add S kb2 (order_mul S c (felt_from S (unat (ts_leftover st))))"
      "tr_s_r2 proof = order_add S kr2 (order_mul S c (pc_leftover_randomness pc))"
    and ranges: "tr_range proof = rng" "tr_range2 proof = rng2"
    using assms(1) unfolding build_protocol_proof_def Let_def response_Inr and_then_Inr gs gp_def y_def yb_def
    by (auto elim!: and_then_pairE and_thenE)
  show "tr_range proof = rng \<and> tr_range2 proof = rng2"
    using ranges by simp
  have pts: "pt y = felt_act S (ts_secret st) (pt g)" "pt (pc_transfer_balance_self_r pc) = felt_act S (pc_randomness pc) (pt g)"
    "pt (ct_r (pc_auxiliar_cipher2 pc)) = felt_act S (pc_leftover_randomness pc) (pt g)"
    "pt (pc_transfer_balance_self_l pc) = nsmul (unat (ts_amount st)) (pt g) + felt_act S (pc_randomness pc) (pt y)"
    "pt (pc_transfer_balance_l pc) = nsmul (unat (ts_amount st)) (pt g) + felt_act S (pc_randomness pc) (pt yb)"
    "pt (ct_l (pc_auxiliar_cipher pc)) = nsmul (unat (ts_amount st)) (pt g) + felt_act S (pc_randomness pc) (pt h)"
    "pt (ct_l (pc_auxiliar_cipher2 pc)) =
      nsmul (unat (ts_leftover st)) (pt g) + felt_act S (pc_leftover_randomness pc) (pt h)"
    using ok pc by (simp_all add: transfer_state_ok_def prepared_ok_def Let_def g_def h_def y_def yb_def)
  have left: "pt (ct_l (tp_current_balance (ts_params st))) - pt (pc_transfer_balance_self_l pc) =
      nsmul (unat (ts_leftover st)) (pt g) + felt_act S (ts_secret st) (pt (gp ng))"
    "pt (ct_r (tp_current_balance (ts_params st))) - pt (pc_transfer_balance_self_r pc) = pt (gp ng)"
    using transfer_leftover [OF ok pc] neg_affine_Inr [OF ng] by (simp_all add: g_def gp_def)
  show "transfer_equations S pt (ts_owner st) (tp_recipient_public_key (ts_params st))
      (tp_current_balance (ts_params st)) pc prefix proof"
    unfolding transfer_equations_def Let_def y_def [symmetric] yb_def [symmetric] g_def [symmetric] h_def [symmetric] left
    by (intro exI conjI, (rule a)+, rule c)
      (simp_all add: s response_eq act_plus felt_act_balance pts(2-) add_ac, simp add: pts(1))
qed

text \<open>The whole operation.\<close>

lemma transfer_parts:
  assumes "transfer S account params w = Inr (t, w')"
  obtains st pc prefix rng rng2 w1 w2 w3 where "transfer_new S account params = Inr st"
    and "prepare_ciphertexts S st w = Inr (pc, w1)" and "protocol_prefix S st pc = Inr prefix"
    and "prove_ranges S st pc prefix w1 = Inr ((rng, rng2), w2)"
    and "build_protocol_proof S st pc prefix rng rng2 w2 = Inr (tpr_proof t, w3)"
    and "new_balance_cipher S st pc = Inr (tpr_new_balance_cipher t)"
    and "build_audits S st pc (tpr_new_balance_cipher t) w3 = Inr ((tpr_audit_balance t, tpr_audit_transfer t), w')"
    and "pc_transfer_balance_l pc = tpr_transfer_balance_l t" and "pc_transfer_balance_r pc = tpr_transfer_balance_r t"
    and "pc_transfer_balance_self_l pc = tpr_transfer_balance_self_l t"
    and "pc_transfer_balance_self_r pc = tpr_transfer_balance_self_r t"
    and "pc_auxiliar_cipher pc = tpr_auxiliar_cipher t" and "pc_auxiliar_cipher2 pc = tpr_auxiliar_cipher2 t"
  using assms unfolding transfer_def transfer_execute_def
  by (auto elim!: and_then_pairE and_thenE)

text \<open>The two range proofs inside the protocol proof.\<close>

lemma transfer_ranges:
  assumes "transfer S account params w = Inr (t, w')"
  shows "\<exists>st rs rs2 prefix w1 q q2 w3 w4. transfer_new S account params = Inr st \<and>
    transfer_prove_range S st (ts_amount st) rs prefix w1 =
      Inr ((tr_range (tpr_proof t), q), w3) \<and>
    transfer_prove_range S st (ts_leftover st) rs2 prefix w3 =
      Inr ((tr_range2 (tpr_proof t), q2), w4)"
proof -
  obtain st pc prefix rng rng2 w1 w2 w3 where new: "transfer_new S account params = Inr st"
    and ranges: "prove_ranges S st pc prefix w1 = Inr ((rng, rng2), w2)"
    and bp: "build_protocol_proof S st pc prefix rng rng2 w2 = Inr (tpr_proof t, w3)"
    using transfer_parts [OF assms] by metis
  have keeps: "tr_range p = rng \<and> tr_range2 p = rng2"
    if "build_protocol_proof S st pc prefix rng rng2 w2 = Inr (p, w3)" for p
    using that unfolding build_protocol_proof_def Let_def by (auto elim!: and_then_pairE and_thenE)
  have "tr_range (tpr_proof t) = rng" "tr_range2 (tpr_proof t) = rng2"
    using keeps [OF bp] by simp_all
  moreover obtain q q2 w4 where
    "transfer_prove_range S st (ts_amount st) (pc_amount_randomness pc) prefix w1 = Inr ((rng, q), w4)"
    "transfer_prove_range S st (ts_leftover st) (pc_leftover_randomness_values pc) prefix w4 = Inr ((rng2, q2), w2)"
    using ranges by (auto simp: prove_ranges_def elim!: and_then_pairE)
  ultimately show ?thesis using new by blast
qed

lemma transfer_amounts:
  assumes run: "transfer S account params w = Inr (t, w')" and keys: "account_keys S pt account"
  shows "0 < tp_amount params \<and> tp_amount params \<le> acc_balance account \<and>
      encrypts S pt (tp_current_balance params) (owner_private_key account) (unat (acc_balance account))"
    and "encrypts S pt (tpr_new_balance_cipher t) (owner_private_key account)
      (unat (acc_balance account) - unat (tp_amount params))"
    and "encrypts S pt \<lparr>ct_l = tpr_transfer_balance_self_l t, ct_r = tpr_transfer_balance_self_r t\<rparr>
      (owner_private_key account) (unat (tp_amount params))"
    and "pt (tp_recipient_public_key params) = felt_act S k (pt (generator S)) \<Longrightarrow>
      encrypts S pt \<lparr>ct_l = tpr_transfer_balance_l t, ct_r = tpr_transfer_balance_r t\<rparr> k (unat (tp_amount params))"
proof -
  obtain st pc w1 where new: "transfer_new S account params = Inr st"
    and prep: "prepare_ciphertexts S st w = Inr (pc, w1)"
    and nb: "new_balance_cipher S st pc = Inr (tpr_new_balance_cipher t)"
    and pub: "pc_transfer_balance_l pc = tpr_transfer_balance_l t" "pc_transfer_balance_r pc = tpr_transfer_balance_r t"
      "pc_transfer_balance_self_l pc = tpr_transfer_balance_self_l t"
      "pc_transfer_balance_self_r pc = tpr_transfer_balance_self_r t"
    using transfer_parts [OF run] by metis
  note st = transfer_new_Inr [OF new keys]
  note pc = prepare_ciphertexts_ok [OF prep st(1)]
  show "0 < tp_amount params \<and> tp_amount params \<le> acc_balance account \<and>
      encrypts S pt (tp_current_balance params) (owner_private_key account) (unat (acc_balance account))"
    using st by (auto simp: transfer_state_ok_def word_le_nat_alt word_gt_0)
  show "encrypts S pt (tpr_new_balance_cipher t) (owner_private_key account)
      (unat (acc_balance account) - unat (tp_amount params))"
    using new_balance_cipher_encrypts [OF nb st(1) pc] st(2) by simp
  show "encrypts S pt \<lparr>ct_l = tpr_transfer_balance_self_l t, ct_r = tpr_transfer_balance_self_r t\<rparr>
      (owner_private_key account) (unat (tp_amount params))"
    using pc st act_comm [of "ts_secret st" "pc_randomness pc" "pt (generator S)"]
    by (simp add: encrypts_def prepared_ok_def transfer_state_ok_def Let_def pub)
  assume "pt (tp_recipient_public_key params) = felt_act S k (pt (generator S))"
  then show "encrypts S pt \<lparr>ct_l = tpr_transfer_balance_l t, ct_r = tpr_transfer_balance_r t\<rparr> k (unat (tp_amount params))"
    using pc st(2) act_comm [of k "pc_randomness pc" "pt (generator S)"]
    by (simp add: encrypts_def prepared_ok_def Let_def pub)
qed

text \<open>A range proof of the transfer opens to the auxiliary commitment published with it.\<close>

lemma transfer_range_ok:
  assumes "transfer_prove_range S st b rs prefix w = Inr ((rp, q), w')" and ok: "transfer_state_ok S pt st"
    and "compute_total_randomness S rs = Inr r" and "pt v = nsmul (unat b) (pt (generator S)) + felt_act S r (pt (generator_h S))"
    and "0 < tp_bit_size (ts_params st)"
    and "\<forall>p \<in> set (rg_proofs rp). felt_act S (bit_s0 p) (pt (generator_h S)) \<noteq> 0 \<and>
      felt_act S (bit_s1 p) (pt (generator_h S)) \<noteq> 0"
  shows "\<exists>V. range_verify S rp (tp_bit_size (ts_params st)) (generator S) (generator_h S) prefix = Inr V \<and> pt V = pt v"
proof -
  have "prove_with_randomness S b (tp_bit_size (ts_params st)) (generator S) (generator_h S) prefix rs w = Inr ((rp, q), w')"
    using assms(1) ok by (simp add: transfer_prove_range_def transfer_state_ok_def)
  from range_complete [OF this assms(5)] show ?thesis
    using assms(3,4,6) by auto
qed

lemma transfer_proof_ok:
  assumes run: "transfer S account params w = Inr (t, w')" and keys: "account_keys S pt account"
  shows "\<exists>st pc prefix. transfer_new S account params = Inr st \<and> protocol_prefix S st pc = Inr prefix \<and>
    pc_transfer_balance_l pc = tpr_transfer_balance_l t \<and> pc_transfer_balance_r pc = tpr_transfer_balance_r t \<and>
    pc_transfer_balance_self_l pc = tpr_transfer_balance_self_l t \<and>
    pc_transfer_balance_self_r pc = tpr_transfer_balance_self_r t \<and>
    pc_auxiliar_cipher pc = tpr_auxiliar_cipher t \<and> pc_auxiliar_cipher2 pc = tpr_auxiliar_cipher2 t \<and>
    transfer_equations S pt (owner_public_key account) (tp_recipient_public_key params) (tp_current_balance params)
      pc prefix (tpr_proof t) \<and>
    (0 < tp_bit_size params \<longrightarrow>
      (\<forall>p \<in> set (rg_proofs (tr_range (tpr_proof t))) \<union> set (rg_proofs (tr_range2 (tpr_proof t))).
        felt_act S (bit_s0 p) (pt (generator_h S)) \<noteq> 0 \<and> felt_act S (bit_s1 p) (pt (generator_h S)) \<noteq> 0) \<longrightarrow>
      (\<exists>V V2. range_verify S (tr_range (tpr_proof t)) (tp_bit_size params) (generator S) (generator_h S) prefix = Inr V \<and>
        pt V = pt (ct_l (tpr_auxiliar_cipher t)) \<and>
        range_verify S (tr_range2 (tpr_proof t)) (tp_bit_size params) (generator S) (generator_h S) prefix = Inr V2 \<and>
        pt V2 = pt (ct_l (tpr_auxiliar_cipher2 t))))"
proof -
  obtain st pc prefix rng rng2 w1 w2 w3 where new: "transfer_new S account params = Inr st"
    and prep: "prepare_ciphertexts S st w = Inr (pc, w1)" and prefix: "protocol_prefix S st pc = Inr prefix"
    and ranges: "prove_ranges S st pc prefix w1 = Inr ((rng, rng2), w2)"
    and bp: "build_protocol_proof S st pc prefix rng rng2 w2 = Inr (tpr_proof t, w3)"
    and pub: "pc_transfer_balance_l pc = tpr_transfer_balance_l t" "pc_transfer_balance_r pc = tpr_transfer_balance_r t"
      "pc_transfer_balance_self_l pc = tpr_transfer_balance_self_l t"
      "pc_transfer_balance_self_r pc = tpr_transfer_balance_self_r t"
      "pc_auxiliar_cipher pc = tpr_auxiliar_cipher t" "pc_auxiliar_cipher2 pc = tpr_auxiliar_cipher2 t"
    using transfer_parts [OF run] by metis
  note st = transfer_new_Inr [OF new keys]
  note pc = prepare_ciphertexts_ok [OF prep st(1)]
  note pf = build_protocol_proof_equations [OF bp st(1) pc]
  obtain q q2 w4 where r: "transfer_prove_range S st (ts_amount st) (pc_amount_randomness pc) prefix w1 = Inr ((rng, q), w4)"
    "transfer_prove_range S st (ts_leftover st) (pc_leftover_randomness_values pc) prefix w4 = Inr ((rng2, q2), w2)"
    using ranges by (auto simp: prove_ranges_def elim!: and_then_pairE)
  have aux: "compute_total_randomness S (pc_amount_randomness pc) = Inr (pc_randomness pc)"
    "compute_total_randomness S (pc_leftover_randomness_values pc) = Inr (pc_leftover_randomness pc)"
    "pt (ct_l (pc_auxiliar_cipher pc)) =
      nsmul (unat (ts_amount st)) (pt (generator S)) + felt_act S (pc_randomness pc) (pt (generator_h S))"
    "pt (ct_l (pc_auxiliar_cipher2 pc)) =
      nsmul (unat (ts_leftover st)) (pt (generator S)) + felt_act S (pc_leftover_randomness pc) (pt (generator_h S))"
    using pc by (simp_all add: prepared_ok_def Let_def)
  have ps: "ts_params st = params" "ts_owner st = owner_public_key account"
    using st(2) by simp_all
  note rv = transfer_range_ok [OF r(1) st(1) aux(1,3), unfolded ps]
    transfer_range_ok [OF r(2) st(1) aux(2,4), unfolded ps]
  show ?thesis
    using pf(1) unfolding ps pf(2) [THEN conjunct1] pf(2) [THEN conjunct2]
    by (intro exI [of _ st] exI [of _ pc] exI [of _ prefix] conjI impI new prefix pub)
      (use rv pub in auto)
qed

lemma transfer_audits_ok:
  assumes run: "transfer S account params w = Inr (t, w')" and keys: "account_keys S pt account"
    and auditor: "tp_auditor_pub_key params = Some auditor"
  shows "\<exists>audit audit2. tpr_audit_balance t = Some audit \<and> tpr_audit_transfer t = Some audit2 \<and>
    audit_ok S pt audit (owner_public_key account) (tpr_new_balance_cipher t) auditor
      \<lparr>ad_chain_id = tp_chain_id params, ad_tongo_address = tp_tongo_address params,
       ad_sender_address = tp_sender_address params, ad_user_pub_key = owner_public_key account\<rparr>
      (acc_balance account - tp_amount params) \<and>
    audit_ok S pt audit2 (owner_public_key account)
      \<lparr>ct_l = tpr_transfer_balance_self_l t, ct_r = tpr_transfer_balance_self_r t\<rparr> auditor
      \<lparr>ad_chain_id = tp_chain_id params, ad_tongo_address = tp_tongo_address params,
       ad_sender_address = tp_sender_address params, ad_user_pub_key = owner_public_key account\<rparr>
      (tp_amount params)"
proof -
  obtain st pc w1 w3 where new: "transfer_new S account params = Inr st"
    and prep: "prepare_ciphertexts S st w = Inr (pc, w1)"
    and nb: "new_balance_cipher S st pc = Inr (tpr_new_balance_cipher t)"
    and audits: "build_audits S st pc (tpr_new_balance_cipher t) w3 =
      Inr ((tpr_audit_balance t, tpr_audit_transfer t), w')"
    and pub: "pc_transfer_balance_self_l pc = tpr_transfer_balance_self_l t"
      "pc_transfer_balance_self_r pc = tpr_transfer_balance_self_r t"
    using transfer_parts [OF run] by metis
  note st = transfer_new_Inr [OF new keys]
  note pc = prepare_ciphertexts_ok [OF prep st(1)]
  define pd where "pd = \<lparr>ad_chain_id = tp_chain_id params, ad_tongo_address = tp_tongo_address params,
      ad_sender_address = tp_sender_address params, ad_user_pub_key = owner_public_key account\<rparr>"
  obtain a a2 w4 where a: "Some a = tpr_audit_balance t" "Some a2 = tpr_audit_transfer t"
    and m: "make_audit S (ts_secret st) (ts_leftover st) (tpr_new_balance_cipher t) auditor False pd w3 = Inr (a, w4)"
      "make_audit S (ts_secret st) (ts_amount st)
        \<lparr>ct_l = tpr_transfer_balance_self_l t, ct_r = tpr_transfer_balance_self_r t\<rparr> auditor True pd w4 = Inr (a2, w')"
    using audits st(2) auditor unfolding build_audits_def Let_def pd_def pub
    by (auto elim!: and_then_pairE)
  have y: "pt (owner_public_key account) = felt_act S (ts_secret st) (pt (generator S))"
    using keys st(2) by (simp add: account_keys_def)
  have left: "ts_leftover st = acc_balance account - tp_amount params"
    using st(2) by (simp add: word_unat_eq_iff unat_sub word_le_nat_alt)
  show ?thesis
    using make_audit_ok [OF m(1) y] make_audit_ok [OF m(2) y] new_balance_cipher_encrypts [OF nb st(1) pc]
      st(2) a [symmetric] unfolding pd_def [symmetric] by (auto simp: left)
qed

lemma transfer_guards:
  "tp_amount params = 0 \<Longrightarrow> transfer S account params w = Inl (InvalidAmount ''Amount must be greater than zero'')"
  "tp_amount params \<noteq> 0 \<Longrightarrow> acc_balance account < tp_amount params \<Longrightarrow>
    transfer S account params w = Inl InsufficientBalance"
  by (auto simp: transfer_def transfer_new_def has_sufficient_balance_def acc_balance_def)

end

section \<open>A concrete transfer\<close>

text \<open>The account of before with the balance 2 sends 1 to the owner of the secret 6, in one-bit range proofs.\<close>

definition alice_pays :: "(zfelt, zgrp) TransferParams" where
  "alice_pays = \<lparr>tp_recipient_public_key = zgrp_of 6, tp_amount = 1, tp_nonce = zfelt_of 9, tp_chain_id = zfelt_of 7,
     tp_tongo_address = zfelt_of 9, tp_sender_address = zfelt_of 9,
     tp_current_balance = \<lparr>ct_l = zgrp_of 22, ct_r = zgrp_of 4\<rparr>, tp_bit_size = 1,
     tp_auditor_pub_key = Some (zgrp_of 11)\<rparr>"

definition paying_state :: "(zfelt, zgrp) TransferBuildState" where
  "paying_state = \<lparr>ts_params = alice_pays, ts_secret = zfelt_of 5, ts_owner = zgrp_of 5, ts_amount = 1, ts_leftover = 1,
     ts_generator = zgrp_of 1, ts_generator_h = zgrp_of 2\<rparr>"

definition paying_ciphers :: "(zfelt, zgrp) PreparedCiphertexts" where
  "paying_ciphers = \<lparr>pc_randomness = zfelt_of 3, pc_leftover_randomness = zfelt_of 4,
     pc_amount_randomness = [zfelt_of 3], pc_leftover_randomness_values = [zfelt_of 4],
     pc_transfer_balance_l = zgrp_of 19, pc_transfer_balance_r = zgrp_of 3,
     pc_transfer_balance_self_l = zgrp_of 16, pc_transfer_balance_self_r = zgrp_of 3,
     pc_auxiliar_cipher = \<lparr>ct_l = zgrp_of 7, ct_r = zgrp_of 3\<rparr>,
     pc_auxiliar_cipher2 = \<lparr>ct_l = zgrp_of 9, ct_r = zgrp_of 4\<rparr>\<rparr>"

lemma paying_keys: "account_keys stark_dlog (\<lambda>p. p) (set_balance alice 2)"
  using alice_keys by (simp add: account_keys_def set_balance_def owner_public_key_def owner_private_key_def)

lemma paying_new: "transfer_new stark_dlog (set_balance alice 2) alice_pays = Inr paying_state"
proof -
  have "verify_cipher_encrypts_balance stark_dlog \<lparr>ct_l = zgrp_of 22, ct_r = zgrp_of 4\<rparr> (zfelt_of 5) 2 (zgrp_of 1) = Inr ()"
    using dlog.balance_check [of "\<lparr>ct_l = zgrp_of 22, ct_r = zgrp_of 4\<rparr>" "zfelt_of 5" 2]
    by (simp add: encrypts_def dlog_num)
  then show ?thesis
    by (simp add: transfer_new_def alice_pays_def set_balance_def alice_eval paying_state_def Let_def del: One_nat_def)
qed

lemma paying_prepare: "prepare_ciphertexts stark_dlog paying_state (os_rng 2) = Inr (paying_ciphers, os_rng 4)"
  by (simp add: prepare_ciphertexts_def paying_state_def alice_pays_def paying_ciphers_def add_scaled_def
      compute_total_randomness_def shl_one_u128_def scalar_results Let_def dlog_num)

lemma paying_prefix: "protocol_prefix stark_dlog paying_state paying_ciphers = Inr (zfelt_of 7)"
  by (simp add: protocol_prefix_def transfer_affine_def paying_state_def alice_pays_def paying_ciphers_def
      poseidon_hash_many_def dlog_num cong: and_then_weak_cong)

lemma paying_ranges:
  "\<exists>r r2. prove_ranges stark_dlog paying_state paying_ciphers (zfelt_of 7) (os_rng 4) = Inr ((r, r2), os_rng 10)"
proof -
  have "\<exists>r q. prove_with_randomness stark_dlog 1 1 (zgrp_of 1) (zgrp_of 2) (zfelt_of 7) [zfelt_of 3] (os_rng 4) =
      Inr ((r, q), os_rng 7)"
    by (simp add: range_eval proof_eval Let_def dlog_num cong: and_then_weak_cong)
  moreover have "\<exists>r q. prove_with_randomness stark_dlog 1 1 (zgrp_of 1) (zgrp_of 2) (zfelt_of 7) [zfelt_of 4] (os_rng 7) =
      Inr ((r, q), os_rng 10)"
    by (simp add: range_eval proof_eval Let_def dlog_num cong: and_then_weak_cong)
  ultimately show ?thesis
    by (auto simp: prove_ranges_def transfer_prove_range_def paying_state_def alice_pays_def paying_ciphers_def
        simp del: One_nat_def)
qed

lemma paying_proof:
  "\<exists>p. build_protocol_proof stark_dlog paying_state paying_ciphers (zfelt_of 7) r r2 (os_rng 10) = Inr (p, os_rng 15)"
  by (simp add: build_protocol_proof_def add_scaled_def paying_state_def alice_pays_def paying_ciphers_def proof_eval
      dlog_neg_affine Let_def dlog_num cong: and_then_weak_cong)

lemma paying_new_balance:
  "new_balance_cipher stark_dlog paying_state paying_ciphers = Inr \<lparr>ct_l = zgrp_of 6, ct_r = zgrp_of 1\<rparr>"
  by (simp add: new_balance_cipher_def subtract_point_def paying_state_def alice_pays_def paying_ciphers_def
      dlog_neg_affine dlog_num)

lemma paying_audits:
  "\<exists>a a2. build_audits stark_dlog paying_state paying_ciphers \<lparr>ct_l = zgrp_of 6, ct_r = zgrp_of 1\<rparr> (os_rng 15) =
    Inr ((Some a, Some a2), os_rng 25)"
proof -
  have 1: "\<exists>p. prove_with_validation stark_dlog (zfelt_of 5) 1 \<lparr>ct_l = zgrp_of 6, ct_r = zgrp_of 1\<rparr> (zgrp_of 11)
      False (Some \<lparr>ad_chain_id = zfelt_of 7, ad_tongo_address = zfelt_of 9, ad_sender_address = zfelt_of 9,
        ad_user_pub_key = zgrp_of 5\<rparr>) (os_rng 15) = Inr (p, os_rng 19)"
    by (simp add: audit_eval proof_eval Let_def dlog_num cong: and_then_weak_cong)
  have 2: "\<exists>p. prove_with_validation stark_dlog (zfelt_of 5) 1 \<lparr>ct_l = zgrp_of 16, ct_r = zgrp_of 3\<rparr> (zgrp_of 11)
      True (Some \<lparr>ad_chain_id = zfelt_of 7, ad_tongo_address = zfelt_of 9, ad_sender_address = zfelt_of 9,
        ad_user_pub_key = zgrp_of 5\<rparr>) (os_rng 20) = Inr (p, os_rng 24)"
    by (simp add: audit_eval proof_eval Let_def dlog_num cong: and_then_weak_cong)
  from dlog_make_audit [OF 1] dlog_make_audit [OF 2] show ?thesis
    by (auto simp: build_audits_def paying_state_def alice_pays_def paying_ciphers_def Let_def simp del: One_nat_def)
qed

lemma alice_transfer: "\<exists>t w'. transfer stark_dlog (set_balance alice 2) alice_pays (os_rng 2) = Inr (t, w')"
proof -
  obtain r r2 where r: "prove_ranges stark_dlog paying_state paying_ciphers (zfelt_of 7) (os_rng 4) =
      Inr ((r, r2), os_rng 10)"
    using paying_ranges by blast
  obtain p where p: "build_protocol_proof stark_dlog paying_state paying_ciphers (zfelt_of 7) r r2 (os_rng 10) =
      Inr (p, os_rng 15)"
    using paying_proof by blast
  from r p paying_audits show ?thesis
    by (auto simp: transfer_def transfer_execute_def paying_new paying_prepare paying_prefix paying_new_balance
        simp del: One_nat_def)
qed

section \<open>Properties\<close>

text \<open>
  C1. A transfer moves exactly the amount. When \<open>transfer\<close> succeeds, the amount is positive and covered by the
  balance, which the stored ciphertext encrypts; the ciphertext to be subtracted from the sender and the one to be
  added to the recipient, each under its owner's key, both encrypt the amount; and the new balance
  ciphertext encrypts the balance minus the amount.
\<close>

theorem transfer_moves_amount:
  assumes "tongo S pt" and "transfer S account params w = Inr (t, w')" and "account_keys S pt account"
    and "pt (tp_recipient_public_key params) = felt_act S k (pt (generator S))"
  shows "0 < tp_amount params \<and> tp_amount params \<le> acc_balance account \<and>
    encrypts S pt (tp_current_balance params) (owner_private_key account) (unat (acc_balance account)) \<and>
    encrypts S pt \<lparr>ct_l = tpr_transfer_balance_self_l t, ct_r = tpr_transfer_balance_self_r t\<rparr>
      (owner_private_key account) (unat (tp_amount params)) \<and>
    encrypts S pt \<lparr>ct_l = tpr_transfer_balance_l t, ct_r = tpr_transfer_balance_r t\<rparr> k (unat (tp_amount params)) \<and>
    encrypts S pt (tpr_new_balance_cipher t) (owner_private_key account)
      (unat (acc_balance account) - unat (tp_amount params))"
  using tongo.transfer_amounts [OF assms(1-3)] assms(4) by blast

theorem transfer_moves_amount_witness:
  "\<exists>t w'. transfer stark_dlog (set_balance alice 2) alice_pays (os_rng 2) = Inr (t, w') \<and>
    encrypts stark_dlog (\<lambda>p. p) \<lparr>ct_l = tpr_transfer_balance_l t, ct_r = tpr_transfer_balance_r t\<rparr> (zfelt_of 6) 1 \<and>
    encrypts stark_dlog (\<lambda>p. p) (tpr_new_balance_cipher t) (zfelt_of 5) 1"
proof -
  obtain t w' where run: "transfer stark_dlog (set_balance alice 2) alice_pays (os_rng 2) = Inr (t, w')"
    using alice_transfer by blast
  have k: "tp_recipient_public_key alice_pays = felt_act stark_dlog (zfelt_of 6) (generator stark_dlog)"
    by (simp add: alice_pays_def dlog_num)
  have v: "owner_private_key (set_balance alice 2) = zfelt_of 5" "unat (acc_balance (set_balance alice 2)) = 2"
    "unat (tp_amount alice_pays) = 1"
    by (simp_all add: owner_private_key_def acc_balance_def set_balance_def alice_def alice_pays_def)
  from transfer_moves_amount [OF dlog.tongo_axioms run paying_keys k, unfolded v] run show ?thesis
    by auto
qed

text \<open>
  C2. The proof of a transfer is accepted: there is a prefix, the hash of the published values, for which all eight
  commitments satisfy the verifier's equations, and both range proofs open to the published commitments of the
  amount and of the leftover (for a positive bit size and bit responses that do not vanish, on which
  \<open>range_verify\<close> reports the point at infinity).
\<close>

theorem transfer_proof_accepted:
  assumes "tongo S pt" and "transfer S account params w = Inr (t, w')" and "account_keys S pt account"
  shows "\<exists>st pc prefix. transfer_new S account params = Inr st \<and> protocol_prefix S st pc = Inr prefix \<and>
    pc_transfer_balance_l pc = tpr_transfer_balance_l t \<and> pc_transfer_balance_r pc = tpr_transfer_balance_r t \<and>
    pc_transfer_balance_self_l pc = tpr_transfer_balance_self_l t \<and>
    pc_transfer_balance_self_r pc = tpr_transfer_balance_self_r t \<and>
    pc_auxiliar_cipher pc = tpr_auxiliar_cipher t \<and> pc_auxiliar_cipher2 pc = tpr_auxiliar_cipher2 t \<and>
    transfer_equations S pt (owner_public_key account) (tp_recipient_public_key params) (tp_current_balance params)
      pc prefix (tpr_proof t) \<and>
    (0 < tp_bit_size params \<longrightarrow>
      (\<forall>p \<in> set (rg_proofs (tr_range (tpr_proof t))) \<union> set (rg_proofs (tr_range2 (tpr_proof t))).
        felt_act S (bit_s0 p) (pt (generator_h S)) \<noteq> 0 \<and> felt_act S (bit_s1 p) (pt (generator_h S)) \<noteq> 0) \<longrightarrow>
      (\<exists>V V2. range_verify S (tr_range (tpr_proof t)) (tp_bit_size params) (generator S) (generator_h S) prefix = Inr V \<and>
        pt V = pt (ct_l (tpr_auxiliar_cipher t)) \<and>
        range_verify S (tr_range2 (tpr_proof t)) (tp_bit_size params) (generator S) (generator_h S) prefix = Inr V2 \<and>
        pt V2 = pt (ct_l (tpr_auxiliar_cipher2 t))))"
  by (rule tongo.transfer_proof_ok [OF assms])

theorem transfer_proof_accepted_witness:
  "\<exists>t w' pc prefix. transfer stark_dlog (set_balance alice 2) alice_pays (os_rng 2) = Inr (t, w') \<and>
    protocol_prefix stark_dlog paying_state pc = Inr prefix \<and>
    transfer_equations stark_dlog (\<lambda>p. p) (zgrp_of 5) (zgrp_of 6) \<lparr>ct_l = zgrp_of 22, ct_r = zgrp_of 4\<rparr> pc prefix (tpr_proof t)"
proof -
  obtain t w' where run: "transfer stark_dlog (set_balance alice 2) alice_pays (os_rng 2) = Inr (t, w')"
    using alice_transfer by blast
  have v: "owner_public_key (set_balance alice 2) = zgrp_of 5" "tp_recipient_public_key alice_pays = zgrp_of 6"
    "tp_current_balance alice_pays = \<lparr>ct_l = zgrp_of 22, ct_r = zgrp_of 4\<rparr>"
    by (simp_all add: owner_public_key_def set_balance_def alice_def alice_pays_def)
  from transfer_proof_accepted [OF dlog.tongo_axioms run paying_keys, unfolded v paying_new] run show ?thesis
    by blast
qed

text \<open>
  With an auditor, both audits of a transfer are accepted, the first for the new balance ciphertext and the second
  for the transferred one, and the auditor reads the leftover and the amount.
\<close>

theorem transfer_audits_accepted:
  assumes "tongo S pt" and "transfer S account params w = Inr (t, w')" and "account_keys S pt account"
    and "tp_auditor_pub_key params = Some auditor"
  shows "\<exists>audit audit2. tpr_audit_balance t = Some audit \<and> tpr_audit_transfer t = Some audit2 \<and>
    audit_ok S pt audit (owner_public_key account) (tpr_new_balance_cipher t) auditor
      \<lparr>ad_chain_id = tp_chain_id params, ad_tongo_address = tp_tongo_address params,
       ad_sender_address = tp_sender_address params, ad_user_pub_key = owner_public_key account\<rparr>
      (acc_balance account - tp_amount params) \<and>
    audit_ok S pt audit2 (owner_public_key account)
      \<lparr>ct_l = tpr_transfer_balance_self_l t, ct_r = tpr_transfer_balance_self_r t\<rparr> auditor
      \<lparr>ad_chain_id = tp_chain_id params, ad_tongo_address = tp_tongo_address params,
       ad_sender_address = tp_sender_address params, ad_user_pub_key = owner_public_key account\<rparr>
      (tp_amount params)"
  by (rule tongo.transfer_audits_ok [OF assms])

theorem transfer_audits_accepted_witness:
  "\<exists>t w' audit. transfer stark_dlog (set_balance alice 2) alice_pays (os_rng 2) = Inr (t, w') \<and>
    tpr_audit_balance t = Some audit \<and> decrypt_as_auditor stark_dlog (aud_hint_ciphertext audit)
      (aud_hint_nonce audit) (zfelt_of 11) (zgrp_of 5) = Inr 1"
proof -
  obtain t w' where run: "transfer stark_dlog (set_balance alice 2) alice_pays (os_rng 2) = Inr (t, w')"
    using alice_transfer by blast
  have aud: "tp_auditor_pub_key alice_pays = Some (zgrp_of 11)" by (simp add: alice_pays_def)
  have k: "zgrp_of 11 = felt_act stark_dlog (zfelt_of 11) (zgrp_of 1)" by (simp add: dlog_num)
  have v: "owner_public_key (set_balance alice 2) = zgrp_of 5"
    "acc_balance (set_balance alice 2) - tp_amount alice_pays = 1"
    by (simp_all add: owner_public_key_def acc_balance_def set_balance_def alice_def alice_pays_def)
  from transfer_audits_accepted [OF dlog.tongo_axioms run paying_keys aud, unfolded v] run k show ?thesis
    by (auto simp: audit_ok_def)
qed

end
