(* ===== verification/Serialization.thy ===== *)
theory Serialization
  imports Types Stark_Instance
begin

text \<open>
  \<open>crates/common/src/serialization.rs\<close>: the calldata layout of the Tongo contract. The sources only write
  calldata; the readers below are the specification of the layout, and the lemmas show that
  every layout can be read back without knowing where it ends.
\<close>

section \<open>Model\<close>

definition serialize_projective_point :: "('f, 'p, 'a, 'r) starknet \<Rightarrow> 'p \<Rightarrow> ('f \<times> 'f) result" where
  "serialize_projective_point S point =
     and_then (ok_or (CryptoError ''Invalid point'') (proj_to_affine S point)) (\<lambda>affine.
       Inr (affine_x S affine, affine_y S affine))"

definition deserialize_projective_point :: "('f, 'p, 'a, 'r) starknet \<Rightarrow> 'f \<Rightarrow> 'f \<Rightarrow> 'p result" where
  "deserialize_projective_point S x y =
     ok_or (CryptoError ''Invalid point coordinates'') (proj_from_affine S x y)"

definition serialize_poe_proof :: "'f PoeProof \<Rightarrow> 'f list result" where
  "serialize_poe_proof proof = Inr [sp_x (poe_a proof), sp_y (poe_a proof), poe_s proof]"

definition serialize_poe2_proof :: "'f Poe2Proof \<Rightarrow> 'f list result" where
  "serialize_poe2_proof proof = Inr [sp_x (poe2_a proof), sp_y (poe2_a proof), poe2_s1 proof, poe2_s2 proof]"

definition serialize_elgamal_proof :: "'f ElGamalProof \<Rightarrow> 'f list result" where
  "serialize_elgamal_proof proof =
     Inr [sp_x (eg_al proof), sp_y (eg_al proof), sp_x (eg_ar proof), sp_y (eg_ar proof), eg_sb proof, eg_sr proof]"

definition u128_to_u256 :: "('f, 'p, 'a, 'r) starknet \<Rightarrow> u128 \<Rightarrow> 'f \<times> 'f" where
  "u128_to_u256 S v = (felt_from S (unat v), felt_zero S)"

definition u256_to_u128 :: "('f, 'p, 'a, 'r) starknet \<Rightarrow> 'f \<Rightarrow> 'f \<Rightarrow> u128 result" where
  "u256_to_u128 S low high =
     (if high \<noteq> felt_zero S then Inl (CryptoError ''Value too large for u128'')
      else
        let bytes = felt_to_bytes_be S low
        in if \<exists>byte \<in> set (take 16 bytes). byte \<noteq> 0 then Inl (CryptoError ''Value too large for u128'')
           else Inr (of_nat (be_val (drop 16 (take 32 bytes)))))"

definition bytes_to_u512 :: "('f, 'p, 'a, 'r) starknet \<Rightarrow> byte list \<Rightarrow> 'f \<times> 'f \<times> 'f \<times> 'f" where
  "bytes_to_u512 S bytes =
     (let limb0 = take 16 bytes;
          limb1 = take 16 (drop 16 bytes);
          limb2 = take 16 (drop 32 bytes);
          limb3 = take 16 (drop 48 bytes)
      in (felt_from S (be_val limb0), felt_from S (be_val limb1),
          felt_from S (be_val limb2), felt_from S (be_val limb3)))"

definition bytes_to_u256 :: "('f, 'p, 'a, 'r) starknet \<Rightarrow> byte list \<Rightarrow> 'f \<times> 'f" where
  "bytes_to_u256 S bytes =
     (let low_bytes = take 16 (drop 16 bytes);
          high_bytes = take 16 bytes
      in (felt_from S (be_val low_bytes), felt_from S (be_val high_bytes)))"

definition serialize_ae_balance ::
    "('f, 'p, 'a, 'r) starknet \<Rightarrow> byte list \<Rightarrow> byte list \<Rightarrow> 'f list result" where
  "serialize_ae_balance S ciphertext_bytes nonce_bytes =
     (if length ciphertext_bytes \<noteq> 64
      then Inl (CryptoError (''Ciphertext must be 64 bytes, got '' @ show_nat (length ciphertext_bytes)))
      else if length nonce_bytes \<noteq> 24
      then Inl (CryptoError (''Nonce must be 24 bytes, got '' @ show_nat (length nonce_bytes)))
      else
        let ct_felts = bytes_to_u512 S ciphertext_bytes;
            nonce_padded = nonce_bytes @ replicate 8 0;
            nonce_felts = bytes_to_u256 S nonce_padded
        in Inr [fst ct_felts, fst (snd ct_felts), fst (snd (snd ct_felts)), snd (snd (snd ct_felts)),
                fst nonce_felts, snd nonce_felts])"

definition serialize_cairo_some :: "('f, 'p, 'a, 'r) starknet \<Rightarrow> 'f list \<Rightarrow> 'f list" where
  "serialize_cairo_some S data = [felt_zero S] @ data"

definition serialize_cairo_none :: "('f, 'p, 'a, 'r) starknet \<Rightarrow> 'f list" where
  "serialize_cairo_none S = [felt_one S]"

definition serialize_audit_proof :: "'f AuditProof \<Rightarrow> 'f list result" where
  "serialize_audit_proof proof =
     Inr [sp_x (au_ax proof), sp_y (au_ax proof), sp_x (au_al0 proof), sp_y (au_al0 proof),
          sp_x (au_al1 proof), sp_y (au_al1 proof), sp_x (au_ar1 proof), sp_y (au_ar1 proof),
          au_sx proof, au_sb proof, au_sr proof]"

definition serialize_cipher_balance ::
    "('f, 'p, 'a, 'r) starknet \<Rightarrow> 'p ElGamalCiphertext \<Rightarrow> 'f list result" where
  "serialize_cipher_balance S cipher =
     and_then (serialize_projective_point S (ct_l cipher)) (\<lambda>(l_x, l_y).
     and_then (serialize_projective_point S (ct_r cipher)) (\<lambda>(r_x, r_y).
       Inr [l_x, l_y, r_x, r_y]))"

record ('f, 'p) AuditCalldata =
  cd_audited_balance :: "'p ElGamalCiphertext"
  cd_hint_ciphertext :: "byte list"
  cd_hint_nonce :: "byte list"
  cd_proof :: "'f AuditProof"

definition serialize_audit_option ::
    "('f, 'p, 'a, 'r) starknet \<Rightarrow> ('f, 'p) AuditCalldata option \<Rightarrow> 'f list result" where
  "serialize_audit_option S audit =
     (case audit of
        None \<Rightarrow> Inr (serialize_cairo_none S)
      | Some audit \<Rightarrow>
          let felts = serialize_cairo_some S []
          in and_then (serialize_cipher_balance S (cd_audited_balance audit)) (\<lambda>balance.
             and_then (serialize_ae_balance S (cd_hint_ciphertext audit) (cd_hint_nonce audit)) (\<lambda>hint.
             and_then (serialize_audit_proof (cd_proof audit)) (\<lambda>proof.
               Inr (felts @ balance @ hint @ proof)))))"

definition serialize_bit_proof :: "'f ProofOfBit \<Rightarrow> 'f list result" where
  "serialize_bit_proof proof =
     Inr [sp_x (bit_a0 proof), sp_y (bit_a0 proof), sp_x (bit_a1 proof), sp_y (bit_a1 proof),
          bit_c0 proof, bit_s0 proof, bit_s1 proof]"

definition push_point :: "'f SerializablePoint \<Rightarrow> 'f list" where
  "push_point point = [sp_x point, sp_y point]"

definition serialize_range :: "('f, 'p, 'a, 'r) starknet \<Rightarrow> 'f Range \<Rightarrow> 'f list result" where
  "serialize_range S rp =
     (let felts = [felt_from S (length (rg_commitments rp))] @ concat (map push_point (rg_commitments rp))
                    @ [felt_from S (length (rg_proofs rp))]
      in and_then (collect serialize_bit_proof (rg_proofs rp)) (\<lambda>proofs. Inr (felts @ concat proofs)))"

definition serialize_proof_of_transfer ::
    "('f, 'p, 'a, 'r) starknet \<Rightarrow> 'f ProofOfTransfer \<Rightarrow> 'f list result" where
  "serialize_proof_of_transfer S proof =
     (let felts = concat (map push_point
            [tr_a_x proof, tr_a_r proof, tr_a_r2 proof, tr_a_b proof, tr_a_b2 proof, tr_a_v proof,
             tr_a_v2 proof, tr_a_bar proof])
          @ [tr_s_x proof, tr_s_r proof, tr_s_b proof, tr_s_b2 proof, tr_s_r2 proof]
      in and_then (serialize_range S (tr_range proof)) (\<lambda>r.
         and_then (serialize_range S (tr_range2 proof)) (\<lambda>r2.
           Inr (felts @ r @ r2))))"

section \<open>Self-delimiting layouts\<close>

text \<open>
  The contract of a layout: whatever calldata follows, a reader that starts at the first felt
  finds the value and the rest. Such layouts are injective and may be concatenated.
\<close>

locale codec =
  fixes wr :: "'v \<Rightarrow> 'f list"
    and rd :: "'f list \<Rightarrow> ('v \<times> 'f list) option"
    and ok :: "'v \<Rightarrow> bool"
  assumes rd_wr: "ok v \<Longrightarrow> rd (wr v @ rest) = Some (v, rest)"
begin

lemma wr_append_inject:
  assumes "ok v" and "ok u" and "wr v @ xs = wr u @ ys"
  shows "v = u \<and> xs = ys"
  using rd_wr [OF assms(1), of xs] rd_wr [OF assms(2), of ys] unfolding assms(3) by (metis option.inject prod.inject)

lemma wr_inject: "ok v \<Longrightarrow> ok u \<Longrightarrow> wr v = wr u \<longleftrightarrow> v = u"
  using wr_append_inject [of v u "[]" "[]"] by (metis append_Nil2)

end

text \<open>Reading a known number of values.\<close>

fun read_many :: "('f list \<Rightarrow> ('v \<times> 'f list) option) \<Rightarrow> nat \<Rightarrow> 'f list \<Rightarrow> ('v list \<times> 'f list) option" where
  "read_many rd 0 fs = Some ([], fs)"
| "read_many rd (Suc n) fs =
     Option.bind (rd fs) (\<lambda>(v, fs). Option.bind (read_many rd n fs) (\<lambda>(vs, fs). Some (v # vs, fs)))"

context codec
begin

lemma read_many_concat:
  "list_all ok vs \<Longrightarrow> read_many rd (length vs) (concat (map wr vs) @ rest) = Some (vs, rest)"
  by (induction vs) (simp_all add: rd_wr)

end

section \<open>Readers\<close>

fun read_felt :: "'f list \<Rightarrow> ('f \<times> 'f list) option" where
  "read_felt [] = None"
| "read_felt (f # fs) = Some (f, fs)"

fun read_point :: "'f list \<Rightarrow> ('f SerializablePoint \<times> 'f list) option" where
  "read_point (x # y # fs) = Some (\<lparr>sp_x = x, sp_y = y\<rparr>, fs)"
| "read_point fs = None"

definition read_bit_proof :: "'f list \<Rightarrow> ('f ProofOfBit \<times> 'f list) option" where
  "read_bit_proof fs =
     Option.bind (read_point fs) (\<lambda>(a0, fs).
     Option.bind (read_point fs) (\<lambda>(a1, fs).
     Option.bind (read_many read_felt 3 fs) (\<lambda>(ss, fs).
       Some (\<lparr>bit_a0 = a0, bit_a1 = a1, bit_c0 = ss ! 0, bit_s0 = ss ! 1, bit_s1 = ss ! 2\<rparr>, fs))))"

definition read_array ::
    "('f, 'p, 'a, 'r) starknet \<Rightarrow> ('f list \<Rightarrow> ('v \<times> 'f list) option) \<Rightarrow> 'f list \<Rightarrow> ('v list \<times> 'f list) option" where
  "read_array S rd fs = Option.bind (read_felt fs) (\<lambda>(n, fs). read_many rd (felt_val S n) fs)"

definition read_range :: "('f, 'p, 'a, 'r) starknet \<Rightarrow> 'f list \<Rightarrow> ('f Range \<times> 'f list) option" where
  "read_range S fs =
     Option.bind (read_array S read_point fs) (\<lambda>(cs, fs).
     Option.bind (read_array S read_bit_proof fs) (\<lambda>(ps, fs).
       Some (\<lparr>rg_commitments = cs, rg_proofs = ps\<rparr>, fs)))"

definition read_transfer :: "('f, 'p, 'a, 'r) starknet \<Rightarrow> 'f list \<Rightarrow> ('f ProofOfTransfer \<times> 'f list) option" where
  "read_transfer S fs =
     Option.bind (read_many read_point 8 fs) (\<lambda>(as, fs).
     Option.bind (read_many read_felt 5 fs) (\<lambda>(ss, fs).
     Option.bind (read_range S fs) (\<lambda>(r, fs).
     Option.bind (read_range S fs) (\<lambda>(r2, fs).
       Some (\<lparr>tr_a_x = as ! 0, tr_a_r = as ! 1, tr_a_r2 = as ! 2, tr_a_b = as ! 3, tr_a_b2 = as ! 4, tr_a_v = as ! 5,
              tr_a_v2 = as ! 6, tr_a_bar = as ! 7, tr_s_x = ss ! 0, tr_s_r = ss ! 1, tr_s_b = ss ! 2,
              tr_s_b2 = ss ! 3, tr_s_r2 = ss ! 4, tr_range = r, tr_range2 = r2\<rparr>, fs)))))"

text \<open>The audit hint: 64 bytes of ciphertext and 24 of nonce.\<close>

definition limb_bytes :: "('f, 'p, 'a, 'r) starknet \<Rightarrow> 'f \<Rightarrow> byte list" where
  "limb_bytes S f = be_bytes 16 (felt_val S f)"

definition read_ae_balance :: "('f, 'p, 'a, 'r) starknet \<Rightarrow> 'f list \<Rightarrow> ((byte list \<times> byte list) \<times> 'f list) option" where
  "read_ae_balance S fs =
     Option.bind (read_many read_felt 6 fs) (\<lambda>(l, fs).
       Some ((concat (map (limb_bytes S) (take 4 l)), take 24 (limb_bytes S (l ! 5) @ limb_bytes S (l ! 4))), fs))"

section \<open>The layouts are self-delimiting\<close>

interpretation felts: codec "\<lambda>f. [f]" read_felt "\<lambda>_. True"
  by unfold_locales simp

interpretation points: codec push_point read_point "\<lambda>_. True"
  by unfold_locales (simp add: push_point_def)

text \<open>The serializers that cannot fail, as functions.\<close>

abbreviation written :: "'e + 'v \<Rightarrow> 'v" where
  "written r \<equiv> projr r"

lemma read_felts: "read_many read_felt (length fs) (fs @ rest) = Some (fs, rest)"
  using felts.read_many_concat [of fs rest] by (simp add: list_all_iff)

lemma read_three: "read_many read_felt 3 (a # b # c # rest) = Some ([a, b, c], rest)"
  by (simp add: eval_nat_numeral)

interpretation bit_proofs: codec "\<lambda>p. written (serialize_bit_proof p)" read_bit_proof "\<lambda>_. True"
  by unfold_locales (simp add: read_bit_proof_def serialize_bit_proof_def read_three)

lemma read_five: "read_many read_felt 5 (a # b # c # d # e # rest) = Some ([a, b, c, d, e], rest)"
  by (simp add: eval_nat_numeral)

lemma read_six: "read_many read_felt 6 (a # b # c # d # e # f # rest) = Some ([a, b, c, d, e, f], rest)"
  by (simp add: eval_nat_numeral)

lemma read_eight:
  "read_many read_point 8 (a # a' # b # b' # c # c' # d # d' # e # e' # f # f' # g # g' # h # h' # rest) =
     Some ([\<lparr>sp_x = a, sp_y = a'\<rparr>, \<lparr>sp_x = b, sp_y = b'\<rparr>, \<lparr>sp_x = c, sp_y = c'\<rparr>, \<lparr>sp_x = d, sp_y = d'\<rparr>,
       \<lparr>sp_x = e, sp_y = e'\<rparr>, \<lparr>sp_x = f, sp_y = f'\<rparr>, \<lparr>sp_x = g, sp_y = g'\<rparr>, \<lparr>sp_x = h, sp_y = h'\<rparr>], rest)"
  by (simp add: eval_nat_numeral)

text \<open>The lengths of Rust vectors: at most \<open>usize::MAX\<close>.\<close>

definition range_fits :: "'f Range \<Rightarrow> bool" where
  "range_fits r = (length (rg_commitments r) < 2 ^ 64 \<and> length (rg_proofs r) < 2 ^ 64)"

context felt_laws
begin

lemma read_array_counted:
  assumes "codec wr rd ok" and "list_all ok vs" and "length vs < FELT_PRIME"
  shows "read_array S rd (felt_from S (length vs) # concat (map wr vs) @ rest) = Some (vs, rest)"
  using codec.read_many_concat [OF assms(1,2)] assms(3) by (simp add: read_array_def felt_val_from)

lemma serialize_range_eq:
  "serialize_range S rp = Inr (felt_from S (length (rg_commitments rp)) # concat (map push_point (rg_commitments rp)) @
     felt_from S (length (rg_proofs rp)) # concat (map (\<lambda>p. written (serialize_bit_proof p)) (rg_proofs rp)))"
proof -
  have "collect serialize_bit_proof ps = Inr (map (\<lambda>p. written (serialize_bit_proof p)) ps)" for ps :: "'f ProofOfBit list"
    by (induction ps) (simp_all add: serialize_bit_proof_def)
  then show ?thesis by (simp add: serialize_range_def Let_def)
qed

lemma range_codec: "codec (\<lambda>r. written (serialize_range S r)) (read_range S) range_fits"
proof
  fix v :: "'f Range" and rest
  assume "range_fits v"
  then show "read_range S (written (serialize_range S v) @ rest) = Some (v, rest)"
    using read_array_counted [OF points.codec_axioms, of "rg_commitments v"]
      read_array_counted [OF bit_proofs.codec_axioms, of "rg_proofs v" rest]
    by (simp add: serialize_range_eq read_range_def list_all_iff range_fits_def FELT_PRIME_def)
qed

lemma transfer_codec:
  "codec (\<lambda>p. written (serialize_proof_of_transfer S p)) (read_transfer S)
    (\<lambda>p. range_fits (tr_range p) \<and> range_fits (tr_range2 p))"
proof
  fix v :: "'f ProofOfTransfer" and rest
  assume ok: "range_fits (tr_range v) \<and> range_fits (tr_range2 v)"
  define r r2 where "r = written (serialize_range S (tr_range v))" and "r2 = written (serialize_range S (tr_range2 v))"
  have ser: "serialize_range S (tr_range v) = Inr r" "serialize_range S (tr_range2 v) = Inr r2"
    by (simp_all add: r_def r2_def serialize_range_eq)
  have rd: "read_range S (r @ xs) = Some (tr_range v, xs)" "read_range S (r2 @ xs) = Some (tr_range2 v, xs)" for xs
    using codec.rd_wr [OF range_codec, of "tr_range v" xs] codec.rd_wr [OF range_codec, of "tr_range2 v" xs] ok
    by (simp_all add: r_def r2_def)
  show "read_transfer S (written (serialize_proof_of_transfer S v) @ rest) = Some (v, rest)"
    by (simp add: serialize_proof_of_transfer_def Let_def ser read_transfer_def push_point_def read_eight read_five rd)
qed

text \<open>The 16-byte limbs of the audit hint.\<close>

lemma limb_bytes_be_val: "length bs = 16 \<Longrightarrow> limb_bytes S (felt_from S (be_val bs)) = bs"
  using be_val_less [of bs] be_bytes_be_val [of bs]
  by (simp add: limb_bytes_def felt_val_from FELT_PRIME_def)

lemma ae_balance_readable:
  assumes "serialize_ae_balance S ct nonce = Inr fs"
  shows "length ct = 64 \<and> length nonce = 24 \<and> read_ae_balance S (fs @ rest) = Some ((ct, nonce), rest)"
proof -
  define b where "b k = take 16 (drop k ct)" for k
  define low high where "low = drop 16 nonce @ replicate 8 (0 :: byte)" and "high = take 16 nonce"
  have len: "length ct = 64" "length nonce = 24"
    using assms by (auto simp: serialize_ae_balance_def split: if_splits)
  have fs: "fs = [felt_from S (be_val (b 0)), felt_from S (be_val (b 16)), felt_from S (be_val (b 32)),
      felt_from S (be_val (b 48)), felt_from S (be_val low), felt_from S (be_val high)]"
    using assms len by (simp add: serialize_ae_balance_def Let_def bytes_to_u512_def bytes_to_u256_def b_def low_def high_def)
  have "take 16 (drop 32 ct) @ drop 48 ct = drop 32 ct" "take 16 (drop 16 ct) @ drop 32 ct = drop 16 ct"
    using append_take_drop_id [of 16 "drop 32 ct"] append_take_drop_id [of 16 "drop 16 ct"] by simp_all
  then have ct: "b 0 @ b 16 @ b 32 @ b 48 = ct"
    using len by (simp add: b_def)
  have limbs: "limb_bytes S (felt_from S (be_val (b k))) = b k" if "k \<le> 48" for k
    using len that by (intro limb_bytes_be_val) (simp add: b_def)
  have hints: "limb_bytes S (felt_from S (be_val low)) = low" "limb_bytes S (felt_from S (be_val high)) = high"
    using len by (simp_all add: limb_bytes_be_val low_def high_def)
  have "take 24 (high @ low) = nonce"
    using len by (simp add: high_def low_def)
  with len ct show ?thesis
    by (simp add: read_ae_balance_def fs read_six limbs hints)
qed

text \<open>The two limbs of a \<open>u256\<close> that holds a \<open>u128\<close>.\<close>

lemma felt_val_low:
  "(\<exists>byte \<in> set (take 16 (felt_to_bytes_be S f)). byte \<noteq> 0) \<longleftrightarrow> 2 ^ 128 \<le> felt_val S f"
  "be_val (drop 16 (take 32 (felt_to_bytes_be S f))) = felt_val S f mod 2 ^ 128"
proof -
  define hi lo where "hi = take 16 (felt_to_bytes_be S f)" and "lo = drop 16 (felt_to_bytes_be S f)"
  have len: "length hi = 16" "length lo = 16" by (simp_all add: hi_def lo_def felt_bytes_length)
  have split: "felt_val S f = be_val hi * 2 ^ 128 + be_val lo"
    using be_val_append [of hi lo] len by (simp add: felt_val_def hi_def lo_def)
  have lo: "be_val lo < 2 ^ 128" using be_val_less [of lo] len by simp
  have "(\<exists>byte \<in> set hi. byte \<noteq> 0) \<longleftrightarrow> be_val hi \<noteq> 0"
    by (simp add: be_val_zero_iff)
  also have "\<dots> \<longleftrightarrow> 2 ^ 128 \<le> felt_val S f"
    using split lo by (cases "be_val hi") auto
  finally show "(\<exists>byte \<in> set (take 16 (felt_to_bytes_be S f)). byte \<noteq> 0) \<longleftrightarrow> 2 ^ 128 \<le> felt_val S f"
    by (simp add: hi_def)
  show "be_val (drop 16 (take 32 (felt_to_bytes_be S f))) = felt_val S f mod 2 ^ 128"
    using split lo by (simp add: lo_def felt_bytes_length)
qed

lemma u256_exact: "u256_to_u128 S low high = Inr v \<longleftrightarrow> (low, high) = u128_to_u256 S v"
proof -
  have v: "unat v < 2 ^ 128" using unsigned_less [of v, where 'a = nat] by simp
  have "low = felt_from S (unat v) \<longleftrightarrow> felt_val S low = unat v"
    using v less_PRIME_128 [of "unat v"] felt_val_inj [of low "felt_from S (unat v)"] by (simp add: felt_val_from)
  also have "\<dots> \<longleftrightarrow> felt_val S low < 2 ^ 128 \<and> of_nat (felt_val S low) = v"
    using v by (auto simp: word_unat_eq_iff unat_of_nat)
  finally show ?thesis
    by (auto simp: u256_to_u128_def u128_to_u256_def Let_def felt_val_low)
qed

end

context starknet_core
begin

lemma point_round_trip:
  assumes "serialize_projective_point S p = Inr (x, y)"
  shows "\<exists>q. deserialize_projective_point S x y = Inr q \<and> pt q = pt p"
proof -
  obtain a where a: "proj_to_affine S p = Some a" "x = affine_x S a" "y = affine_y S a"
    using assms by (auto simp: serialize_projective_point_def result_iffs)
  obtain q where "proj_from_affine S x y = Some q" "proj_to_affine S q = Some a"
    unfolding a(2,3) by (rule from_affine_valid)
  then show ?thesis
    using affine_of_eq [OF _ a(1)] by (simp add: deserialize_projective_point_def)
qed

end

text \<open>An audit in the calldata: the option tag, the ciphertext, the hint, the proof without its challenge.\<close>

lemma serialize_audit_option_Some:
  assumes "serialize_audit_option S (Some a) = Inr fs"
  obtains l_x l_y r_x r_y hint where
    "serialize_projective_point S (ct_l (cd_audited_balance a)) = Inr (l_x, l_y)"
    "serialize_projective_point S (ct_r (cd_audited_balance a)) = Inr (r_x, r_y)"
    "serialize_ae_balance S (cd_hint_ciphertext a) (cd_hint_nonce a) = Inr hint"
    "fs = felt_zero S # l_x # l_y # r_x # r_y # hint @ written (serialize_audit_proof (cd_proof a))"
  using assms
  by (auto simp: serialize_audit_option_def serialize_cipher_balance_def serialize_cairo_some_def
      serialize_audit_proof_def result_iffs)

lemma serialize_ae_balance_length: "serialize_ae_balance S ct nonce = Inr fs \<Longrightarrow> length fs = 6"
  by (auto simp: serialize_ae_balance_def Let_def split: if_splits)

context starknet_core
begin

lemma audit_option_readable:
  assumes "serialize_audit_option S (Some a) = Inr fs"
  shows "length fs = 22 \<and> hd fs = felt_zero S \<and>
    (\<exists>l r. deserialize_projective_point S (fs ! 1) (fs ! 2) = Inr l \<and> pt l = pt (ct_l (cd_audited_balance a)) \<and>
      deserialize_projective_point S (fs ! 3) (fs ! 4) = Inr r \<and> pt r = pt (ct_r (cd_audited_balance a))) \<and>
    read_ae_balance S (drop 5 fs) =
      Some ((cd_hint_ciphertext a, cd_hint_nonce a), written (serialize_audit_proof (cd_proof a)))"
proof -
  obtain l_x l_y r_x r_y hint where
    p: "serialize_projective_point S (ct_l (cd_audited_balance a)) = Inr (l_x, l_y)"
      "serialize_projective_point S (ct_r (cd_audited_balance a)) = Inr (r_x, r_y)"
    and h: "serialize_ae_balance S (cd_hint_ciphertext a) (cd_hint_nonce a) = Inr hint"
    and fs: "fs = felt_zero S # l_x # l_y # r_x # r_y # hint @ written (serialize_audit_proof (cd_proof a))"
    using assms by (rule serialize_audit_option_Some)
  have "length (written (serialize_audit_proof (cd_proof a))) = 11" by (simp add: serialize_audit_proof_def)
  then show ?thesis
    using point_round_trip [OF p(1)] point_round_trip [OF p(2)] ae_balance_readable [OF h]
      serialize_ae_balance_length [OF h] by (simp add: fs nth_Cons')
qed

end

section \<open>Properties\<close>

text \<open>
  The calldata of a transfer proof can be read back. Serializing a \<open>ProofOfTransfer\<close> never fails, and a reader that
  is given the calldata followed by anything else recovers the proof and the rest: no two proofs share
  their calldata, and nothing after the proof can be taken for a part of it.
\<close>

theorem transfer_calldata_round_trip:
  assumes "felt_laws S" and "range_fits (tr_range p)" and "range_fits (tr_range2 p)"
  shows "\<exists>fs. serialize_proof_of_transfer S p = Inr fs \<and> (\<forall>rest. read_transfer S (fs @ rest) = Some (p, rest))"
  using codec.rd_wr [OF felt_laws.transfer_codec [OF assms(1)], of p] assms(2,3)
  by (simp add: serialize_proof_of_transfer_def Let_def felt_laws.serialize_range_eq [OF assms(1)])

definition sample_point :: "zfelt SerializablePoint" where
  "sample_point = \<lparr>sp_x = zfelt_of 2, sp_y = zfelt_of 3\<rparr>"

definition sample_range :: "zfelt Range" where
  "sample_range = \<lparr>rg_commitments = [sample_point], rg_proofs =
     [\<lparr>bit_a0 = sample_point, bit_a1 = sample_point, bit_c0 = zfelt_of 4, bit_s0 = zfelt_of 5, bit_s1 = zfelt_of 6\<rparr>]\<rparr>"

definition sample_transfer :: "zfelt ProofOfTransfer" where
  "sample_transfer = \<lparr>tr_a_x = sample_point, tr_a_r = sample_point, tr_a_r2 = sample_point, tr_a_b = sample_point,
     tr_a_b2 = sample_point, tr_a_v = sample_point, tr_a_v2 = sample_point, tr_a_bar = sample_point,
     tr_s_x = zfelt_of 7, tr_s_r = zfelt_of 8, tr_s_b = zfelt_of 9, tr_s_b2 = zfelt_of 10, tr_s_r2 = zfelt_of 11,
     tr_range = sample_range, tr_range2 = sample_range\<rparr>"

theorem transfer_calldata_round_trip_witness:
  "\<exists>fs. serialize_proof_of_transfer stark_dlog sample_transfer = Inr fs \<and> length fs = 43 \<and>
     read_transfer stark_dlog (fs @ [zfelt_of 1]) = Some (sample_transfer, [zfelt_of 1])"
proof -
  have fit: "range_fits (tr_range sample_transfer)" "range_fits (tr_range2 sample_transfer)"
    by (simp_all add: sample_transfer_def sample_range_def range_fits_def)
  obtain fs where fs: "serialize_proof_of_transfer stark_dlog sample_transfer = Inr fs"
    and rd: "read_transfer stark_dlog (fs @ [zfelt_of 1]) = Some (sample_transfer, [zfelt_of 1])"
    using transfer_calldata_round_trip [OF dlog.felt_laws_axioms fit] by blast
  then have "length fs = 43"
    by (auto simp: serialize_proof_of_transfer_def Let_def dlog.serialize_range_eq sample_transfer_def sample_range_def
        push_point_def serialize_bit_proof_def)
  with fs rd show ?thesis by blast
qed

text \<open>
  The \<open>u256\<close> calldata of an amount is exact: \<open>u256_to_u128\<close> returns \<open>v\<close> on a pair of felts if and only
  if the pair is the encoding \<open>u128_to_u256\<close> gives of \<open>v\<close>, so a value above \<open>u128::MAX\<close> is refused and
  never truncated.
\<close>

theorem u256_calldata_exact:
  assumes "felt_laws S"
  shows "u256_to_u128 S low high = Inr v \<longleftrightarrow> (low, high) = u128_to_u256 S v"
  by (rule felt_laws.u256_exact [OF assms])

theorem u256_calldata_exact_witness:
  "u256_to_u128 stark_dlog (zfelt_of 1000) (zfelt_of 0) = Inr 1000 \<and>
   u256_to_u128 stark_dlog (zfelt_of (2 ^ 128)) (zfelt_of 0) \<noteq> Inr 0"
  using u256_calldata_exact [OF dlog.felt_laws_axioms, of "zfelt_of 1000" "zfelt_of 0" 1000]
    u256_calldata_exact [OF dlog.felt_laws_axioms, of "zfelt_of (2 ^ 128)" "zfelt_of 0" 0]
  by (simp add: u128_to_u256_def dlog_num)

text \<open>
  The calldata of an audit can be read back: it has 22 felts and the tag of \<open>Some\<close>, the points of the
  audited ciphertext read back to the same points, the hint to the same 64 and 24 bytes, and the felts of the proof
  follow.
\<close>

theorem audit_calldata_round_trip:
  assumes "starknet_core S pt" and "serialize_audit_option S (Some a) = Inr fs"
  shows "length fs = 22 \<and> hd fs = felt_zero S \<and>
    (\<exists>l r. deserialize_projective_point S (fs ! 1) (fs ! 2) = Inr l \<and> pt l = pt (ct_l (cd_audited_balance a)) \<and>
      deserialize_projective_point S (fs ! 3) (fs ! 4) = Inr r \<and> pt r = pt (ct_r (cd_audited_balance a))) \<and>
    read_ae_balance S (drop 5 fs) =
      Some ((cd_hint_ciphertext a, cd_hint_nonce a), written (serialize_audit_proof (cd_proof a)))"
  by (rule starknet_core.audit_option_readable [OF assms])

definition sample_audit :: "(zfelt, zgrp) AuditCalldata" where
  "sample_audit = \<lparr>cd_audited_balance = \<lparr>ct_l = zgrp_of 5, ct_r = zgrp_of 3\<rparr>, cd_hint_ciphertext = replicate 64 7,
     cd_hint_nonce = replicate 24 9, cd_proof = \<lparr>au_ax = sample_point, au_al0 = sample_point, au_al1 = sample_point,
       au_ar1 = sample_point, au_sx = zfelt_of 1, au_sb = zfelt_of 2, au_sr = zfelt_of 3, au_c = zfelt_of 4\<rparr>\<rparr>"

theorem audit_calldata_round_trip_witness:
  "\<exists>fs. serialize_audit_option stark_dlog (Some sample_audit) = Inr fs \<and> length fs = 22 \<and>
     (\<exists>l. deserialize_projective_point stark_dlog (fs ! 1) (fs ! 2) = Inr l \<and> l = zgrp_of 5)"
proof -
  have "\<exists>fs. serialize_audit_option stark_dlog (Some sample_audit) = Inr fs"
    by (simp add: serialize_audit_option_def serialize_cipher_balance_def serialize_projective_point_def
        serialize_ae_balance_def serialize_audit_proof_def sample_audit_def Let_def dlog_num)
  then obtain fs where fs: "serialize_audit_option stark_dlog (Some sample_audit) = Inr fs"
    by blast
  from audit_calldata_round_trip [OF dlog.starknet_core_axioms fs] fs show ?thesis
    by (auto simp: sample_audit_def)
qed

end
