(* ===== verification/Fee_Ceiling.thy ===== *)
theory Fee_Ceiling
  imports Prelude
begin

text \<open>
  \<open>crates/common/src/fee.rs\<close>: the caller's ceiling on the resource bounds a wallet signs. The lemmas show that
  what is admitted is exactly what is below the ceiling, that the scaled estimate leaves headroom
  above the estimate in spite of floating-point rounding, and that the worst fee is the ceiling's.
\<close>

section \<open>The floating-point multiplier\<close>

text \<open>
  \<open>(n as f64 * 1.5) as u64\<close> on an unsigned integer. An \<open>f64\<close> keeps 53 significant bits and rounds to nearest,
  ties to even; \<open>f64_round\<close> is that rounding of an integer. The product \<open>1.5 * v\<close> of an \<open>f64\<close> that holds the
  integer \<open>v\<close> is rounded in the same way, and rounding commutes with halving, so it is half of the
  rounding of \<open>3 * v\<close>; the conversion back truncates.
\<close>

fun bit_length :: "nat \<Rightarrow> nat" where
  "bit_length n = (if n = 0 then 0 else Suc (bit_length (n div 2)))"

declare bit_length.simps [simp del]

definition round_half_even :: "nat \<Rightarrow> nat \<Rightarrow> nat" where
  "round_half_even n s =
     (let q = n div 2 ^ s;
          r = n mod 2 ^ s;
          half = 2 ^ (s - 1)
      in if half < r \<or> r = half \<and> odd q then q + 1 else q)"

definition f64_round :: "nat \<Rightarrow> nat" where
  "f64_round n =
     (let s = bit_length n - 53
      in if s = 0 then n else round_half_even n s * 2 ^ s)"

definition estimate_scaled :: "nat \<Rightarrow> nat" where
  "estimate_scaled n = f64_round (3 * f64_round n) div 2"

section \<open>Model\<close>

definition DEFAULT_TIP :: u64 where
  "DEFAULT_TIP = 0"

definition DIMENSIONS :: "string list" where
  "DIMENSIONS = [''l1_gas'', ''l2_gas'', ''l1_data_gas'']"

datatype FeeCeilingError =
    ZeroCeiling string string
  | EstimateOutOfRange
  | Exceeded string string u128 u128

record MaxBound =
  max_amount :: u64
  max_price_per_unit :: u128

record ProposedResourceBounds =
  pr_l1_gas :: MaxBound
  pr_l2_gas :: MaxBound
  pr_l1_data_gas :: MaxBound

record ResourceBoundsCeiling =
  ce_l1_gas :: MaxBound
  ce_l2_gas :: MaxBound
  ce_l1_data_gas :: MaxBound
  ce_max_tip :: u64

text \<open>\<open>u64::try_from\<close> of a \<open>u128\<close>, and the saturating float-to-integer casts.\<close>

definition bound_from_estimate :: "u64 \<Rightarrow> u128 \<Rightarrow> FeeCeilingError + MaxBound" where
  "bound_from_estimate consumed price_per_unit =
     (if 2 ^ 64 \<le> unat price_per_unit then Inl EstimateOutOfRange
      else Inr \<lparr>max_amount = of_nat (min (estimate_scaled (unat consumed)) (2 ^ 64 - 1)),
                max_price_per_unit = of_nat (min (estimate_scaled (unat price_per_unit)) (2 ^ 128 - 1))\<rparr>)"

definition bound_fields :: "MaxBound \<Rightarrow> (string \<times> u128) list" where
  "bound_fields self = [(''max_amount'', ucast (max_amount self)), (''max_price_per_unit'', max_price_per_unit self)]"

definition proposed_from_estimate ::
    "u64 \<times> u128 \<Rightarrow> u64 \<times> u128 \<Rightarrow> u64 \<times> u128 \<Rightarrow> FeeCeilingError + ProposedResourceBounds" where
  "proposed_from_estimate l1_gas l2_gas l1_data_gas =
     and_then (bound_from_estimate (fst l1_gas) (snd l1_gas)) (\<lambda>l1.
     and_then (bound_from_estimate (fst l2_gas) (snd l2_gas)) (\<lambda>l2.
     and_then (bound_from_estimate (fst l1_data_gas) (snd l1_data_gas)) (\<lambda>l1d.
       Inr \<lparr>pr_l1_gas = l1, pr_l2_gas = l2, pr_l1_data_gas = l1d\<rparr>)))"

definition proposed_bounds :: "ProposedResourceBounds \<Rightarrow> MaxBound list" where
  "proposed_bounds self = [pr_l1_gas self, pr_l2_gas self, pr_l1_data_gas self]"

definition ceiling_bounds :: "ResourceBoundsCeiling \<Rightarrow> MaxBound list" where
  "ceiling_bounds self = [ce_l1_gas self, ce_l2_gas self, ce_l1_data_gas self]"

fun validate_loop :: "(string \<times> MaxBound) list \<Rightarrow> FeeCeilingError + unit" where
  "validate_loop [] = Inr ()"
| "validate_loop ((dimension, bound) # rest) =
     (case List.find (\<lambda>(_, v). v = 0) (bound_fields bound) of
        Some (field, _) \<Rightarrow> Inl (ZeroCeiling dimension field)
      | None \<Rightarrow> validate_loop rest)"

definition ceiling_validate :: "ResourceBoundsCeiling \<Rightarrow> FeeCeilingError + unit" where
  "ceiling_validate self = validate_loop (zip DIMENSIONS (ceiling_bounds self))"

definition ceiling_new :: "MaxBound \<Rightarrow> MaxBound \<Rightarrow> MaxBound \<Rightarrow> FeeCeilingError + ResourceBoundsCeiling" where
  "ceiling_new l1_gas l2_gas l1_data_gas =
     (let ceiling = \<lparr>ce_l1_gas = l1_gas, ce_l2_gas = l2_gas, ce_l1_data_gas = l1_data_gas, ce_max_tip = DEFAULT_TIP\<rparr>
      in and_then (ceiling_validate ceiling) (\<lambda>_. Inr ceiling))"

definition with_max_tip :: "ResourceBoundsCeiling \<Rightarrow> u64 \<Rightarrow> ResourceBoundsCeiling" where
  "with_max_tip self max_tip = self\<lparr>ce_max_tip := max_tip\<rparr>"

fun admit_fields :: "string \<Rightarrow> ((string \<times> u128) \<times> (string \<times> u128)) list \<Rightarrow> FeeCeilingError + unit" where
  "admit_fields dimension [] = Inr ()"
| "admit_fields dimension (((field, ceiling), (_, proposed)) # rest) =
     (if proposed > ceiling then Inl (Exceeded dimension field proposed ceiling)
      else admit_fields dimension rest)"

fun admit_loop :: "((string \<times> MaxBound) \<times> MaxBound) list \<Rightarrow> FeeCeilingError + unit" where
  "admit_loop [] = Inr ()"
| "admit_loop (((dimension, ceiling), proposed) # rest) =
     and_then (admit_fields dimension (zip (bound_fields ceiling) (bound_fields proposed))) (\<lambda>_. admit_loop rest)"

definition admit :: "ResourceBoundsCeiling \<Rightarrow> ProposedResourceBounds \<Rightarrow> FeeCeilingError + unit" where
  "admit self proposed =
     and_then (ceiling_validate self) (\<lambda>_.
       admit_loop (zip (zip DIMENSIONS (ceiling_bounds self)) (proposed_bounds proposed)))"

definition admit_estimate ::
    "ResourceBoundsCeiling \<Rightarrow> u64 \<times> u128 \<Rightarrow> u64 \<times> u128 \<Rightarrow> u64 \<times> u128 \<Rightarrow> FeeCeilingError + ProposedResourceBounds" where
  "admit_estimate self l1_gas l2_gas l1_data_gas =
     and_then (proposed_from_estimate l1_gas l2_gas l1_data_gas) (\<lambda>proposed.
     and_then (admit self proposed) (\<lambda>_. Inr proposed))"

section \<open>Rounding\<close>

lemma bit_length_lower: "0 < n \<Longrightarrow> 2 ^ (bit_length n - 1) \<le> n"
proof (induction n rule: bit_length.induct)
  case (1 n)
  show ?case
  proof (cases "n div 2 = 0")
    case True
    with 1 show ?thesis by (subst bit_length.simps) (simp add: bit_length.simps [of 0])
  next
    case False
    then have "2 ^ (bit_length (n div 2) - 1) \<le> n div 2" and "0 < bit_length (n div 2)"
      using 1 by (auto simp: bit_length.simps [of "n div 2"])
    then have "2 * 2 ^ (bit_length (n div 2) - 1) \<le> n" by simp
    then show ?thesis
      using False \<open>0 < bit_length (n div 2)\<close>
      by (subst bit_length.simps) (cases "bit_length (n div 2)", auto)
  qed
qed

lemma bit_length_less: "n < 2 ^ k \<Longrightarrow> bit_length n \<le> k"
proof (rule ccontr)
  assume n: "n < 2 ^ k" and "\<not> bit_length n \<le> k"
  then have "k \<le> bit_length n - 1" and "0 < n"
    by (auto simp: bit_length.simps [of n] split: if_splits)
  then have "2 ^ k \<le> n"
    using bit_length_lower [of n] power_increasing [of k "bit_length n - 1" "2 :: nat"] by linarith
  with n show False by simp
qed

lemma f64_round_exact: "n < 2 ^ 53 \<Longrightarrow> f64_round n = n"
  using bit_length_less [of n 53] by (simp add: f64_round_def)

text \<open>The relative error of the rounding is at most \<open>2 ^ -53\<close>.\<close>

lemma round_half_even_error:
  assumes "0 < s"
  shows "n \<le> round_half_even n s * 2 ^ s + 2 ^ (s - 1)" and "round_half_even n s * 2 ^ s \<le> n + 2 ^ (s - 1)"
proof -
  define q r half where "q = n div 2 ^ s" and "r = n mod 2 ^ s" and "half = (2 :: nat) ^ (s - 1)"
  have n: "n = q * 2 ^ s + r" by (simp only: q_def r_def div_mult_mod_eq)
  have two: "2 ^ s = 2 * half" using assms by (cases s) (simp_all add: half_def)
  have r: "r < 2 * half" by (simp add: r_def flip: two)
  have e: "round_half_even n s = (if half < r \<or> r = half \<and> odd q then q + 1 else q)"
    by (simp add: round_half_even_def q_def r_def half_def Let_def)
  show "n \<le> round_half_even n s * 2 ^ s + 2 ^ (s - 1)" "round_half_even n s * 2 ^ s \<le> n + 2 ^ (s - 1)"
    unfolding half_def [symmetric] e two using r n [unfolded two] by (auto simp: algebra_simps)
qed

lemma f64_round_error:
  shows "(2 ^ 53 - 1) * n \<le> 2 ^ 53 * f64_round n" and "2 ^ 53 * f64_round n \<le> (2 ^ 53 + 1) * n"
proof -
  define s where "s = bit_length n - 53"
  have "(2 ^ 53 - 1) * n \<le> 2 ^ 53 * f64_round n \<and> 2 ^ 53 * f64_round n \<le> (2 ^ 53 + 1) * n"
  proof (cases "s = 0")
    case True
    then show ?thesis by (simp add: f64_round_def s_def)
  next
    case False
    then have "0 < n" by (auto simp: s_def bit_length.simps [of 0] intro: ccontr)
    have "2 ^ (s - 1 + 53) \<le> n"
    proof -
      have "s - 1 + 53 = bit_length n - 1" using False by (simp add: s_def)
      then show ?thesis using bit_length_lower [OF \<open>0 < n\<close>] by simp
    qed
    then have small: "2 ^ 53 * 2 ^ (s - 1) \<le> n" by (simp add: power_add mult.commute)
    have f: "f64_round n = round_half_even n s * 2 ^ s" using False by (simp add: f64_round_def s_def Let_def)
    show ?thesis
      using round_half_even_error [of s n] False small unfolding f [symmetric] by simp
  qed
  then show "(2 ^ 53 - 1) * n \<le> 2 ^ 53 * f64_round n" "2 ^ 53 * f64_round n \<le> (2 ^ 53 + 1) * n" by simp_all
qed

lemma estimate_headroom: "n \<le> estimate_scaled n"
  using f64_round_error(1) [of n] f64_round_error(1) [of "3 * f64_round n"] by (simp add: estimate_scaled_def)

lemma estimate_scaled_exact: "n < 2 ^ 51 \<Longrightarrow> estimate_scaled n = 3 * n div 2"
  by (simp add: estimate_scaled_def f64_round_exact)

section \<open>Admission\<close>

text \<open>One bound below another, in both fields, and a ceiling without a zero.\<close>

definition bound_le :: "MaxBound \<Rightarrow> MaxBound \<Rightarrow> bool" where
  "bound_le b c = (max_amount b \<le> max_amount c \<and> max_price_per_unit b \<le> max_price_per_unit c)"

definition bound_positive :: "MaxBound \<Rightarrow> bool" where
  "bound_positive b = (max_amount b \<noteq> 0 \<and> max_price_per_unit b \<noteq> 0)"

definition ceiling_ok :: "ResourceBoundsCeiling \<Rightarrow> bool" where
  "ceiling_ok c = list_all bound_positive (ceiling_bounds c)"

lemma unat_ucast_u64: "unat (ucast (a :: u64) :: u128) = unat a"
proof -
  have "unat a < 2 ^ 64" using unsigned_less [of a, where 'a = nat] by simp
  then show ?thesis by (simp add: unsigned_ucast_eq take_bit_nat_eq_self)
qed

lemma ucast_u64_u128:
  "ucast (a :: u64) \<le> (ucast b :: u128) \<longleftrightarrow> a \<le> b" "ucast (a :: u64) = (0 :: u128) \<longleftrightarrow> a = 0"
  "ucast (b :: u64) < (ucast a :: u128) \<longleftrightarrow> b < a"
  by (simp_all add: word_le_nat_alt word_less_nat_alt unat_ucast_u64 word_unat_eq_iff)

lemma admit_fields_Inr:
  "admit_fields d (zip (bound_fields c) (bound_fields p)) = Inr () \<longleftrightarrow> bound_le p c"
  by (auto simp: bound_fields_def bound_le_def ucast_u64_u128 not_le [symmetric])

lemma find_zero_field: "List.find (\<lambda>(_, v). v = 0) (bound_fields b) = None \<longleftrightarrow> bound_positive b"
  by (simp add: bound_fields_def bound_positive_def ucast_u64_u128)

lemma validate_loop_Inr: "validate_loop xs = Inr () \<longleftrightarrow> list_all (\<lambda>(d, b). bound_positive b) xs"
proof (induction xs)
  case (Cons x xs)
  then show ?case
    using find_zero_field [of "snd x"]
    by (cases x; cases "List.find (\<lambda>(_, v). v = 0) (bound_fields (snd x))") auto
qed simp

lemma ceiling_validate_Inr: "ceiling_validate c = Inr () \<longleftrightarrow> ceiling_ok c"
  unfolding ceiling_validate_def validate_loop_Inr
  by (simp add: ceiling_ok_def ceiling_bounds_def DIMENSIONS_def)

lemma admit_loop_Inr: "admit_loop xs = Inr () \<longleftrightarrow> list_all (\<lambda>((d, c), p). bound_le p c) xs"
  by (induction xs rule: admit_loop.induct) (auto simp: and_then_eq_Inr admit_fields_Inr)

lemma admit_Inr:
  "admit c p = Inr () \<longleftrightarrow> ceiling_ok c \<and> list_all2 bound_le (proposed_bounds p) (ceiling_bounds c)"
  unfolding admit_def and_then_eq_Inr admit_loop_Inr using ceiling_validate_Inr [of c]
  by (auto simp: DIMENSIONS_def ceiling_bounds_def proposed_bounds_def)

text \<open>A refusal names a field of the proposal that is above the same field of the ceiling.\<close>

lemma admit_fields_Exceeded:
  "admit_fields d (zip (bound_fields c) (bound_fields p)) = Inl e \<Longrightarrow>
     \<exists>f x y. e = Exceeded d f x y \<and> (f, x) \<in> set (bound_fields p) \<and> (f, y) \<in> set (bound_fields c) \<and> y < x"
  by (auto simp: bound_fields_def split: if_splits)

lemma admit_loop_Exceeded:
  "admit_loop xs = Inl e \<Longrightarrow> \<exists>d c p f x y. ((d, c), p) \<in> set xs \<and> e = Exceeded d f x y \<and>
     (f, x) \<in> set (bound_fields p) \<and> (f, y) \<in> set (bound_fields c) \<and> y < x"
proof (induction xs)
  case (Cons z rest)
  obtain d c p where z: "z = ((d, c), p)" by (metis prod.collapse)
  from Cons.prems consider "admit_fields d (zip (bound_fields c) (bound_fields p)) = Inl e" | "admit_loop rest = Inl e"
    by (auto simp: and_then_eq_Inl z)
  then show ?case
  proof cases
    case 1
    from admit_fields_Exceeded [OF this] show ?thesis unfolding z by (metis list.set_intros(1))
  next
    case 2
    from Cons.IH [OF this] show ?thesis by (metis list.set_intros(2))
  qed
qed simp

section \<open>The worst fee\<close>

definition bound_fee :: "MaxBound \<Rightarrow> nat" where
  "bound_fee b = unat (max_amount b) * unat (max_price_per_unit b)"

text \<open>The sum over the dimensions, plus the tip per unit of \<open>l2_gas\<close>.\<close>

definition proposed_fee :: "ProposedResourceBounds \<Rightarrow> u64 \<Rightarrow> nat" where
  "proposed_fee p tip = sum_list (map bound_fee (proposed_bounds p)) + unat (max_amount (pr_l2_gas p)) * unat tip"

definition ceiling_fee :: "ResourceBoundsCeiling \<Rightarrow> nat" where
  "ceiling_fee c = sum_list (map bound_fee (ceiling_bounds c)) + unat (max_amount (ce_l2_gas c)) * unat (ce_max_tip c)"

lemma bound_fee_mono: "bound_le b c \<Longrightarrow> bound_fee b \<le> bound_fee c"
  by (simp add: bound_le_def bound_fee_def word_le_nat_alt mult_le_mono)

lemma admitted_fee:
  assumes "admit c p = Inr ()"
  shows "proposed_fee p (ce_max_tip c) \<le> ceiling_fee c"
proof -
  have le: "bound_le (pr_l1_gas p) (ce_l1_gas c)" "bound_le (pr_l2_gas p) (ce_l2_gas c)"
    "bound_le (pr_l1_data_gas p) (ce_l1_data_gas c)"
    using assms by (simp_all add: admit_Inr proposed_bounds_def ceiling_bounds_def)
  then have "unat (max_amount (pr_l2_gas p)) * unat (ce_max_tip c) \<le> unat (max_amount (ce_l2_gas c)) * unat (ce_max_tip c)"
    by (intro mult_right_mono) (simp_all add: bound_le_def word_le_nat_alt)
  then show ?thesis
    using le [THEN bound_fee_mono] unfolding proposed_fee_def ceiling_fee_def proposed_bounds_def ceiling_bounds_def
    by (intro add_mono) simp_all
qed

lemma bound_from_estimate_headroom:
  assumes "bound_from_estimate consumed price = Inr b"
  shows "consumed \<le> max_amount b \<and> price \<le> max_price_per_unit b"
proof -
  have c: "unat consumed \<le> 2 ^ 64 - 1" using unsigned_less [of consumed, where 'a = nat] by simp
  have p: "unat price \<le> 2 ^ 128 - 1" using unsigned_less [of price, where 'a = nat] by simp
  have b: "b = \<lparr>max_amount = of_nat (min (estimate_scaled (unat consumed)) (2 ^ 64 - 1)),
      max_price_per_unit = of_nat (min (estimate_scaled (unat price)) (2 ^ 128 - 1))\<rparr>"
    using assms by (auto simp: bound_from_estimate_def split: if_splits)
  have "unat (of_nat (min (estimate_scaled (unat consumed)) (2 ^ 64 - 1)) :: u64) =
      min (estimate_scaled (unat consumed)) (2 ^ 64 - 1)"
    by (intro unat_of_nat_small) simp
  moreover have "unat (of_nat (min (estimate_scaled (unat price)) (2 ^ 128 - 1)) :: u128) =
      min (estimate_scaled (unat price)) (2 ^ 128 - 1)"
    by (intro unat_of_nat_small) simp
  ultimately show ?thesis
    using c p estimate_headroom [of "unat consumed"] estimate_headroom [of "unat price"]
    by (simp add: b word_le_nat_alt)
qed

lemma admit_estimate_Inr:
  assumes "admit_estimate c l1 l2 l1d = Inr p"
  shows "bound_from_estimate (fst l1) (snd l1) = Inr (pr_l1_gas p)"
    and "bound_from_estimate (fst l2) (snd l2) = Inr (pr_l2_gas p)"
    and "bound_from_estimate (fst l1d) (snd l1d) = Inr (pr_l1_data_gas p)"
    and "admit c p = Inr ()"
  using assms by (auto simp: admit_estimate_def proposed_from_estimate_def result_iffs)

section \<open>Properties\<close>

text \<open>
  Admission is exact: a ceiling admits proposed bounds if and only if no field of the ceiling is zero and every
  amount and every price of the proposal is at most the ceiling's, in all three dimensions.
\<close>

theorem admission_exact:
  "admit c p = Inr () \<longleftrightarrow> ceiling_ok c \<and>
     bound_le (pr_l1_gas p) (ce_l1_gas c) \<and> bound_le (pr_l2_gas p) (ce_l2_gas c) \<and>
     bound_le (pr_l1_data_gas p) (ce_l1_data_gas c)"
  by (simp add: admit_Inr proposed_bounds_def ceiling_bounds_def)

text \<open>
  C34. An admitted estimate is safe and usable. The bounds \<open>admit_estimate\<close> returns cost at most the worst fee of
  the ceiling, tip included, and are never below the estimate itself, although they are computed in floating
  point.
\<close>

theorem admitted_estimate_bounded:
  assumes "admit_estimate c l1 l2 l1d = Inr p"
  shows "proposed_fee p (ce_max_tip c) \<le> ceiling_fee c \<and>
    fst l1 \<le> max_amount (pr_l1_gas p) \<and> snd l1 \<le> max_price_per_unit (pr_l1_gas p) \<and>
    fst l2 \<le> max_amount (pr_l2_gas p) \<and> snd l2 \<le> max_price_per_unit (pr_l2_gas p) \<and>
    fst l1d \<le> max_amount (pr_l1_data_gas p) \<and> snd l1d \<le> max_price_per_unit (pr_l1_data_gas p)"
  using admit_estimate_Inr(4) [OF assms, THEN admitted_fee]
    admit_estimate_Inr(1-3) [OF assms, THEN bound_from_estimate_headroom] by blast

definition sample_ceiling :: ResourceBoundsCeiling where
  "sample_ceiling = \<lparr>ce_l1_gas = \<lparr>max_amount = 200, max_price_per_unit = 30\<rparr>,
     ce_l2_gas = \<lparr>max_amount = 200, max_price_per_unit = 30\<rparr>,
     ce_l1_data_gas = \<lparr>max_amount = 200, max_price_per_unit = 30\<rparr>, ce_max_tip = 1\<rparr>"

lemma sample_bound: "bound_from_estimate 101 20 = Inr \<lparr>max_amount = 151, max_price_per_unit = 30\<rparr>"
  by (simp add: bound_from_estimate_def estimate_scaled_exact)

theorem admitted_estimate_bounded_witness:
  "\<exists>p. admit_estimate sample_ceiling (101, 20) (101, 20) (101, 20) = Inr p \<and> max_amount (pr_l2_gas p) = 151 \<and>
     101 \<le> max_amount (pr_l2_gas p) \<and> proposed_fee p 1 \<le> 18200"
proof -
  define b where "b = \<lparr>max_amount = (151 :: u64), max_price_per_unit = (30 :: u128)\<rparr>"
  define p where "p = \<lparr>pr_l1_gas = b, pr_l2_gas = b, pr_l1_data_gas = b\<rparr>"
  have "admit sample_ceiling p = Inr ()"
    by (simp add: admit_Inr p_def b_def sample_ceiling_def ceiling_ok_def bound_positive_def bound_le_def
        ceiling_bounds_def proposed_bounds_def)
  then have e: "admit_estimate sample_ceiling (101, 20) (101, 20) (101, 20) = Inr p"
    by (simp add: admit_estimate_def proposed_from_estimate_def sample_bound p_def b_def)
  have "ceiling_fee sample_ceiling = 18200" "ce_max_tip sample_ceiling = 1"
    by (simp_all add: ceiling_fee_def sample_ceiling_def ceiling_bounds_def bound_fee_def)
  with admitted_estimate_bounded [OF e] e show ?thesis
    by (simp add: p_def b_def)
qed

end
