(* ===== verification/Token_Amount.thy ===== *)
theory Token_Amount
  imports Prelude
begin

text \<open>
  \<open>crates/common/src/amount.rs\<close>: token amounts as decimal text. The lemmas show that printing and
  parsing are inverse and that parsing computes the decimal value of its input exactly.

  A \<open>str\<close> is a \<open>string\<close>, one character per Unicode scalar value: the model covers texts whose characters are below
  256 (\<open>str::len\<close> counts two bytes for those from 128 on).
\<close>

section \<open>What the code uses of the standard library\<close>

type_synonym u8 = "8 word"

text \<open>\<open>char::is_whitespace\<close> and \<open>str::trim\<close>.\<close>

definition is_whitespace :: "char \<Rightarrow> bool" where
  "is_whitespace c = (of_char c \<in> {9, 10, 11, 12, 13, 32, 0x85, 0xA0 :: nat})"

definition trim :: "string \<Rightarrow> string" where
  "trim s = rev (dropWhile is_whitespace (rev (dropWhile is_whitespace s)))"

definition str_len :: "string \<Rightarrow> nat" where
  "str_len s = sum_list (map (\<lambda>c. if of_char c < (128 :: nat) then 1 else 2) s)"

definition is_digit :: "char \<Rightarrow> bool" where
  "is_digit c = (48 \<le> (of_char c :: nat) \<and> (of_char c :: nat) \<le> 57)"

definition digit_val :: "char \<Rightarrow> nat" where
  "digit_val c = of_char c - 48"

text \<open>\<open>str::parse::<u128>\<close>: an optional plus sign, then digits, checked for overflow at each digit.\<close>

fun parse_digits :: "nat \<Rightarrow> string \<Rightarrow> nat option" where
  "parse_digits acc [] = Some acc"
| "parse_digits acc (c # cs) =
     (if \<not> is_digit c then None
      else let v = acc * 10 + digit_val c
           in if v < 2 ^ 128 then parse_digits v cs else None)"

definition parse_u128 :: "string \<Rightarrow> nat option" where
  "parse_u128 s =
     (case s of
        [] \<Rightarrow> None
      | c # cs \<Rightarrow> if c = CHR ''+'' then (if cs = [] then None else parse_digits 0 cs) else parse_digits 0 s)"

text \<open>\<open>10u128.checked_pow(d)\<close>, \<open>checked_mul\<close> and \<open>checked_add\<close> on the values.\<close>

definition fits_u128 :: "nat \<Rightarrow> nat option" where
  "fits_u128 v = (if v < 2 ^ 128 then Some v else None)"

text \<open>\<open>format!("{:0<w$}")\<close>, \<open>format!("{:0>w$}")\<close> and \<open>trim_end_matches('0')\<close>.\<close>

definition pad_right :: "nat \<Rightarrow> string \<Rightarrow> string" where
  "pad_right w s = s @ replicate (w - length s) CHR ''0''"

definition pad_left :: "nat \<Rightarrow> string \<Rightarrow> string" where
  "pad_left w s = replicate (w - length s) CHR ''0'' @ s"

definition trim_end_zeros :: "string \<Rightarrow> string" where
  "trim_end_zeros s = rev (dropWhile (\<lambda>c. c = CHR ''0'') (rev s))"

section \<open>Model\<close>

record Amount =
  am_raw :: u128
  am_decimals :: u8

definition from_raw :: "u128 \<Rightarrow> u8 \<Rightarrow> Amount" where
  "from_raw raw decimals = \<lparr>am_raw = raw, am_decimals = decimals\<rparr>"

definition from_human_fraction :: "string \<Rightarrow> u8 \<Rightarrow> nat \<Rightarrow> nat result" where
  "from_human_fraction s decimals factor =
     (let integer_part = takeWhile (\<lambda>c. c \<noteq> CHR ''.'') s;
          frac_part = tl (dropWhile (\<lambda>c. c \<noteq> CHR ''.'') s)
      in if str_len frac_part > unat decimals
         then Inl (InvalidAmount (''too many decimal places (max '' @ show_nat (unat decimals) @ '')''))
         else
           and_then (if integer_part = [] then Inr 0
                     else ok_or (InvalidAmount (''invalid number: '' @ s)) (parse_u128 integer_part)) (\<lambda>int_val.
           let padded_frac = pad_right (unat decimals) frac_part
           in and_then (ok_or (InvalidAmount (''invalid fraction: '' @ s)) (parse_u128 padded_frac)) (\<lambda>frac_val.
              ok_or (InvalidAmount ''overflow'')
                (Option.bind (fits_u128 (int_val * factor)) (\<lambda>v. fits_u128 (v + frac_val))))))"

definition from_human :: "string \<Rightarrow> u8 \<Rightarrow> Amount result" where
  "from_human text decimals =
     (let s = trim text
      in and_then (ok_or (InvalidAmount ''decimals too large'') (fits_u128 (10 ^ unat decimals))) (\<lambda>factor.
         and_then
           (if CHR ''.'' \<in> set s then from_human_fraction s decimals factor
            else
              and_then (ok_or (InvalidAmount (''invalid number: '' @ s)) (parse_u128 s)) (\<lambda>int_val.
                ok_or (InvalidAmount ''overflow'') (fits_u128 (int_val * factor)))) (\<lambda>raw.
           Inr \<lparr>am_raw = of_nat raw, am_decimals = decimals\<rparr>)))"

definition to_human :: "Amount \<Rightarrow> string" where
  "to_human self =
     (let raw = unat (am_raw self);
          decimals = unat (am_decimals self)
      in if decimals = 0 then show_nat raw
         else case fits_u128 (10 ^ decimals) of
           None \<Rightarrow>
             let trimmed = trim_end_zeros (pad_left decimals (show_nat raw))
             in if trimmed = [] then ''0.0'' else ''0.'' @ trimmed
         | Some factor \<Rightarrow>
             let integer = raw div factor;
                 fraction = raw mod factor
             in if fraction = 0 then show_nat integer @ ''.0''
                else show_nat integer @ ''.'' @ trim_end_zeros (pad_left decimals (show_nat fraction)))"

definition amount_to_u256 :: "(nat \<Rightarrow> 'f) \<Rightarrow> Amount \<Rightarrow> 'f \<times> 'f" where
  "amount_to_u256 felt_from self = (felt_from (unat (am_raw self)), felt_from 0)"

definition amount_checked_add :: "Amount \<Rightarrow> Amount \<Rightarrow> Amount result" where
  "amount_checked_add self other =
     (if am_decimals self \<noteq> am_decimals other
      then Inl (InvalidAmount ''cannot add amounts with different decimals'')
      else and_then (ok_or (InvalidAmount ''overflow'') (fits_u128 (unat (am_raw self) + unat (am_raw other)))) (\<lambda>raw.
        Inr \<lparr>am_raw = of_nat raw, am_decimals = am_decimals self\<rparr>))"

definition amount_checked_sub :: "Amount \<Rightarrow> Amount \<Rightarrow> Amount result" where
  "amount_checked_sub self other =
     (if am_decimals self \<noteq> am_decimals other
      then Inl (InvalidAmount ''cannot subtract amounts with different decimals'')
      else and_then (ok_or (InvalidAmount ''underflow'')
             (if unat (am_raw other) \<le> unat (am_raw self) then Some (unat (am_raw self) - unat (am_raw other)) else None)) (\<lambda>raw.
        Inr \<lparr>am_raw = of_nat raw, am_decimals = am_decimals self\<rparr>))"

definition amount_is_zero :: "Amount \<Rightarrow> bool" where
  "amount_is_zero self = (am_raw self = 0)"

section \<open>Digits\<close>

definition digits_val :: "string \<Rightarrow> nat" where
  "digits_val s = foldl (\<lambda>acc c. acc * 10 + digit_val c) 0 s"

lemma digits_val_snoc [simp]: "digits_val (s @ [c]) = digits_val s * 10 + digit_val c"
  by (simp add: digits_val_def)

lemma digits_val_Nil [simp]: "digits_val [] = 0"
  by (simp add: digits_val_def)

lemma digits_val_append: "digits_val (s @ t) = digits_val s * 10 ^ length t + digits_val t"
proof (induction t rule: rev_induct)
  case (snoc c t)
  then show ?case
    by (simp only: append_assoc [symmetric] digits_val_snoc length_append_singleton power_Suc) (simp add: algebra_simps)
qed simp

lemma digits_val_Cons: "digits_val (c # s) = digit_val c * 10 ^ length s + digits_val s"
  using digits_val_append [of "[c]" s] by (simp add: digits_val_def)

lemma digit_val_less: "is_digit c \<Longrightarrow> digit_val c < 10"
  by (auto simp: is_digit_def digit_val_def)

lemma digits_val_less: "list_all is_digit s \<Longrightarrow> digits_val s < 10 ^ length s"
proof (induction s)
  case (Cons c s)
  have "digit_val c * 10 ^ length s + digits_val s < (digit_val c + 1) * 10 ^ length s"
    using Cons by simp
  also have "\<dots> \<le> 10 * 10 ^ length s"
    using Cons.prems digit_val_less [of c] by (intro mult_right_mono) auto
  finally show ?case by (simp add: digits_val_Cons)
qed simp

lemma digits_val_zeros [simp]: "digits_val (replicate n CHR ''0'') = 0"
  by (induction n) (simp_all add: digits_val_Cons digit_val_def)

lemma parse_digits_eq:
  "list_all is_digit s \<Longrightarrow> acc < 2 ^ 128 \<Longrightarrow> parse_digits acc s = fits_u128 (acc * 10 ^ length s + digits_val s)"
proof (induction s arbitrary: acc)
  case Nil
  then show ?case by (simp add: fits_u128_def)
next
  case (Cons c s)
  define v where "v = acc * 10 + digit_val c"
  have e: "acc * 10 ^ length (c # s) + digits_val (c # s) = v * 10 ^ length s + digits_val s"
    by (simp add: v_def digits_val_Cons algebra_simps)
  show ?case
  proof (cases "v < 2 ^ 128")
    case True
    then show ?thesis
      using Cons.prems Cons.IH [of v] unfolding e by (simp add: v_def)
  next
    case False
    then have "\<not> v * 10 ^ length s + digits_val s < 2 ^ 128"
      by (metis le_add1 le_trans mult.right_neutral mult_le_mono2 not_le one_le_numeral one_le_power)
    then show ?thesis
      using Cons.prems False unfolding e by (simp add: v_def [symmetric] fits_u128_def)
  qed
qed

lemma parse_u128_digits: "list_all is_digit s \<Longrightarrow> s \<noteq> [] \<Longrightarrow> parse_u128 s = fits_u128 (digits_val s)"
  using parse_digits_eq [of s 0]
  by (cases s) (auto simp: parse_u128_def is_digit_def simp del: parse_digits.simps)

lemma char_digit: "d < 10 \<Longrightarrow> is_digit (char_of (48 + d)) \<and> digit_val (char_of (48 + d)) = d"
  by (simp add: is_digit_def digit_val_def)

lemma show_nat_digits: "list_all is_digit (show_nat n) \<and> show_nat n \<noteq> [] \<and> digits_val (show_nat n) = n"
proof (induction n rule: show_nat.induct)
  case (1 n)
  show ?case
  proof (cases "n < 10")
    case True
    then show ?thesis using char_digit [of n] by (simp add: show_nat.simps [of n] digits_val_def)
  next
    case False
    then have "list_all is_digit (show_nat (n div 10)) \<and> digits_val (show_nat (n div 10)) = n div 10"
      using 1 by blast
    then show ?thesis
      using False char_digit [of "n mod 10"] by (simp add: show_nat.simps [of n])
  qed
qed

lemma length_show_nat: "n < 10 ^ d \<Longrightarrow> 0 < d \<Longrightarrow> length (show_nat n) \<le> d"
proof (induction n arbitrary: d rule: show_nat.induct)
  case (1 n)
  show ?case
  proof (cases "n < 10")
    case True
    then show ?thesis using 1(3) by (simp add: show_nat.simps [of n])
  next
    case False
    obtain k where d: "d = Suc k" using 1(3) by (cases d) auto
    then have "n div 10 < 10 ^ k" "0 < k"
      using 1(2) False by (simp_all add: less_mult_imp_div_less, cases k, simp_all)
    then have "length (show_nat (n div 10)) \<le> k" using 1(1) [OF False] by blast
    then show ?thesis
      using False by (simp add: show_nat.simps [of n] d)
  qed
qed

section \<open>Padding and trimming\<close>

lemma pad_right_trim_end_zeros: "length s = w \<Longrightarrow> pad_right w (trim_end_zeros s) = s"
proof -
  assume w: "length s = w"
  define z where "z = takeWhile (\<lambda>c. c = CHR ''0'') (rev s)"
  have split: "s = trim_end_zeros s @ rev z"
    unfolding trim_end_zeros_def z_def by (metis rev_append rev_rev_ident takeWhile_dropWhile_id)
  have "z = replicate (length z) CHR ''0''"
    by (rule replicate_length_same [symmetric]) (auto simp: z_def dest: set_takeWhileD)
  then have "rev z = replicate (length z) CHR ''0''" by (metis rev_replicate)
  moreover have "w - length (trim_end_zeros s) = length z"
    using w split by (metis add_diff_cancel_left' length_append length_rev)
  ultimately show ?thesis using split by (simp add: pad_right_def)
qed

lemma length_trim_end_zeros: "length (trim_end_zeros s) \<le> length s"
  by (simp add: trim_end_zeros_def) (metis length_dropWhile_le length_rev)

lemma list_all_trim_end_zeros: "list_all P s \<Longrightarrow> list_all P (trim_end_zeros s)"
  by (auto simp: trim_end_zeros_def list_all_iff dest: set_dropWhileD)

lemma str_len_digits: "list_all is_digit s \<Longrightarrow> str_len s = length s"
  by (induction s) (auto simp: str_len_def is_digit_def)

lemma digit_facts:
  assumes "is_digit c"
  shows "c \<noteq> CHR ''.''" and "\<not> is_whitespace c" and "c \<noteq> CHR ''+''"
  using assms by (auto simp: is_digit_def is_whitespace_def)

text \<open>A text that neither starts nor ends with white space is not changed by \<open>trim\<close>.\<close>

lemma trim_id:
  assumes "s \<noteq> []" and "\<not> is_whitespace (hd s)" and "\<not> is_whitespace (last s)"
  shows "trim s = s"
proof -
  have "dropWhile is_whitespace s = s" using assms(1,2) by (cases s) auto
  moreover have "dropWhile is_whitespace (rev s) = rev s"
    using assms(1,3) by (cases s rule: rev_cases) auto
  ultimately show ?thesis by (simp add: trim_def)
qed

lemma dot_not_whitespace: "\<not> is_whitespace CHR ''.''"
  by (simp add: is_whitespace_def)

lemma trim_decimal:
  assumes "list_all is_digit i" and "list_all is_digit f"
  shows "trim (i @ CHR ''.'' # f) = i @ CHR ''.'' # f"
proof (rule trim_id)
  show "\<not> is_whitespace (hd (i @ CHR ''.'' # f))"
    using assms(1) dot_not_whitespace by (cases i) (auto simp: digit_facts)
  show "\<not> is_whitespace (last (i @ CHR ''.'' # f))"
    using assms(2) dot_not_whitespace by (cases f rule: rev_cases) (auto simp: digit_facts)
qed simp

lemma split_decimal:
  assumes "list_all is_digit i"
  shows "takeWhile (\<lambda>c. c \<noteq> CHR ''.'') (i @ CHR ''.'' # f) = i"
    and "tl (dropWhile (\<lambda>c. c \<noteq> CHR ''.'') (i @ CHR ''.'' # f)) = f"
proof -
  have "\<And>c. c \<in> set i \<Longrightarrow> c \<noteq> CHR ''.''" using assms by (auto simp: list_all_iff digit_facts)
  then show "takeWhile (\<lambda>c. c \<noteq> CHR ''.'') (i @ CHR ''.'' # f) = i"
    "tl (dropWhile (\<lambda>c. c \<noteq> CHR ''.'') (i @ CHR ''.'' # f)) = f"
    by (simp_all add: takeWhile_append2 dropWhile_append2)
qed

section \<open>Parsing a decimal\<close>

lemma fits_bind: "Option.bind (fits_u128 a) (\<lambda>v. fits_u128 (v + b)) = fits_u128 (a + b)"
  by (simp add: fits_u128_def)

lemma from_human_decimal:
  assumes i: "list_all is_digit i" and f: "list_all is_digit f" and d: "length f \<le> unat decimals" "0 < unat decimals"
    and ten: "10 ^ unat decimals < (2 :: nat) ^ 128" and fits: "digits_val i < 2 ^ 128"
  shows "from_human (i @ ''.'' @ f) decimals =
    and_then (ok_or (InvalidAmount ''overflow'')
      (fits_u128 (digits_val i * 10 ^ unat decimals + digits_val f * 10 ^ (unat decimals - length f)))) (\<lambda>raw.
      Inr \<lparr>am_raw = of_nat raw, am_decimals = decimals\<rparr>)"
proof -
  define w where "w = unat decimals"
  have pf: "list_all is_digit (pad_right w f)" "pad_right w f \<noteq> []"
    using f d by (auto simp: pad_right_def w_def list_all_iff is_digit_def)
  have pv: "digits_val (pad_right w f) = digits_val f * 10 ^ (w - length f)"
    by (simp add: pad_right_def digits_val_append)
  have "digits_val (pad_right w f) < 10 ^ length (pad_right w f)" by (rule digits_val_less) (rule pf)
  then have pl: "digits_val f * 10 ^ (w - length f) < 2 ^ 128"
    using d ten by (simp add: pv) (simp add: pad_right_def w_def)
  have "from_human_fraction (i @ ''.'' @ f) decimals (10 ^ w) =
      ok_or (InvalidAmount ''overflow'') (fits_u128 (digits_val i * 10 ^ w + digits_val f * 10 ^ (w - length f)))"
    using d pl fits parse_u128_digits [OF i] parse_u128_digits [OF pf]
    by (cases "i = []") (simp_all add: from_human_fraction_def Let_def split_decimal [OF i] str_len_digits [OF f]
      w_def [symmetric] pv fits_bind, simp_all add: fits_u128_def)
  then show ?thesis
    using ten by (simp add: from_human_def trim_decimal [OF i f] Let_def w_def fits_u128_def)
qed

text \<open>A fraction that begins with a plus sign: the sign takes the place of its first digit.\<close>

lemma from_human_plus:
  assumes i: "list_all is_digit i" and f: "list_all is_digit f" and d: "length f < unat decimals" "1 < unat decimals"
    and ten: "10 ^ unat decimals < (2 :: nat) ^ 128" and fits: "digits_val i < 2 ^ 128"
  shows "from_human (i @ ''.+'' @ f) decimals =
    and_then (ok_or (InvalidAmount ''overflow'')
      (fits_u128 (digits_val i * 10 ^ unat decimals + digits_val f * 10 ^ (unat decimals - 1 - length f)))) (\<lambda>raw.
      Inr \<lparr>am_raw = of_nat raw, am_decimals = decimals\<rparr>)"
proof -
  define w where "w = unat decimals - 1"
  have w: "unat decimals = Suc w" "0 < w" "length f \<le> w" using d by (simp_all add: w_def)
  have padded: "pad_right (Suc w) (CHR ''+'' # f) = CHR ''+'' # pad_right w f" by (simp add: pad_right_def)
  have pf: "list_all is_digit (pad_right w f)" "pad_right w f \<noteq> []"
    using f w by (auto simp: pad_right_def list_all_iff is_digit_def)
  have pv: "digits_val (pad_right w f) = digits_val f * 10 ^ (w - length f)"
    by (simp add: pad_right_def digits_val_append)
  have "digits_val (pad_right w f) < 10 ^ length (pad_right w f)" by (rule digits_val_less) (rule pf)
  also have "\<dots> \<le> 10 ^ unat decimals" using w by (intro power_increasing) (simp_all add: pad_right_def)
  finally have pl: "digits_val f * 10 ^ (w - length f) < 2 ^ 128" using ten by (simp add: pv)
  then have "parse_u128 (CHR ''+'' # pad_right w f) = Some (digits_val f * 10 ^ (w - length f))"
    using pf parse_digits_eq [OF pf(1), of 0] by (simp add: parse_u128_def pv fits_u128_def)
  moreover have "str_len (CHR ''+'' # f) = Suc (length f)" using str_len_digits [OF f] by (simp add: str_len_def)
  ultimately have "from_human_fraction (i @ ''.+'' @ f) decimals (10 ^ Suc w) =
      ok_or (InvalidAmount ''overflow'') (fits_u128 (digits_val i * 10 ^ Suc w + digits_val f * 10 ^ (w - length f)))"
    using w fits parse_u128_digits [OF i]
    by (cases "i = []") (simp_all add: from_human_fraction_def Let_def split_decimal [OF i] padded fits_bind,
      simp_all add: fits_u128_def)
  moreover have "trim (i @ ''.+'' @ f) = i @ ''.+'' @ f"
  proof (rule trim_id)
    show "\<not> is_whitespace (hd (i @ ''.+'' @ f))"
      using i dot_not_whitespace by (cases i) (auto simp: digit_facts)
    show "\<not> is_whitespace (last (i @ ''.+'' @ f))"
      using f by (cases f rule: rev_cases) (auto simp: digit_facts, simp add: is_whitespace_def)
  qed simp
  ultimately show ?thesis
    using ten by (simp add: from_human_def Let_def w(1) fits_u128_def)
qed

lemma from_human_integer:
  assumes i: "list_all is_digit i" "i \<noteq> []" and ten: "10 ^ unat decimals < (2 :: nat) ^ 128"
    and fits: "digits_val i < 2 ^ 128"
  shows "from_human i decimals =
    and_then (ok_or (InvalidAmount ''overflow'') (fits_u128 (digits_val i * 10 ^ unat decimals))) (\<lambda>raw.
      Inr \<lparr>am_raw = of_nat raw, am_decimals = decimals\<rparr>)"
proof -
  have "trim i = i"
    using i digit_facts(2) by (intro trim_id) (auto simp: list_all_iff)
  moreover have "CHR ''.'' \<notin> set i" using i digit_facts(1) by (auto simp: list_all_iff)
  moreover have "parse_u128 i = Some (digits_val i)" using parse_u128_digits [OF i] fits by (simp add: fits_u128_def)
  ultimately show ?thesis
    using ten by (simp add: from_human_def Let_def fits_u128_def)
qed

section \<open>Printing and parsing\<close>

lemma fraction_digits:
  assumes "fraction < 10 ^ d" and "0 < d"
  defines "f \<equiv> trim_end_zeros (pad_left d (show_nat fraction))"
  shows "list_all is_digit f" and "length f \<le> d" and "digits_val f * 10 ^ (d - length f) = fraction"
proof -
  define p where "p = pad_left d (show_nat fraction)"
  have lp: "length p = d" using length_show_nat [OF assms(1,2)] by (simp add: p_def pad_left_def)
  have dp: "list_all is_digit p"
    using show_nat_digits [of fraction] by (auto simp: p_def pad_left_def list_all_iff is_digit_def)
  have vp: "digits_val p = fraction"
    using show_nat_digits [of fraction] by (simp add: p_def pad_left_def digits_val_append)
  have f: "f = trim_end_zeros p" by (simp add: f_def p_def)
  show "list_all is_digit f" using dp by (simp add: f list_all_trim_end_zeros)
  show "length f \<le> d" using length_trim_end_zeros [of p] lp by (simp add: f)
  have "digits_val (pad_right d f) = fraction"
    using pad_right_trim_end_zeros [OF lp] vp by (simp add: f)
  then show "digits_val f * 10 ^ (d - length f) = fraction"
    by (simp add: pad_right_def digits_val_append)
qed

lemma human_round_trip:
  assumes ten: "10 ^ unat (am_decimals a) < (2 :: nat) ^ 128"
  shows "from_human (to_human a) (am_decimals a) = Inr a"
proof -
  define raw d where "raw = unat (am_raw a)" and "d = unat (am_decimals a)"
  have raw: "raw < 2 ^ 128" using unsigned_less [of "am_raw a", where 'a = nat] by (simp add: raw_def)
  have a: "\<lparr>am_raw = of_nat raw, am_decimals = am_decimals a\<rparr> = a" by (simp add: raw_def)
  note sh = show_nat_digits [of "raw div 10 ^ d"]
  have int: "digits_val (show_nat (raw div 10 ^ d)) < 2 ^ 128"
    using sh raw div_le_dividend [of raw "10 ^ d"] by linarith
  show ?thesis
  proof (cases "d = 0")
    case True
    have "from_human (show_nat raw) (am_decimals a) = Inr a"
      using show_nat_digits [of raw] raw ten True
      by (subst from_human_integer) (simp_all add: d_def fits_u128_def a)
    then show ?thesis using True by (simp add: to_human_def raw_def d_def)
  next
    case False
    have dec: "from_human (show_nat (raw div 10 ^ d) @ CHR ''.'' # f) (am_decimals a) = Inr a"
      if "list_all is_digit f" "length f \<le> d" "digits_val f * 10 ^ (d - length f) = raw mod 10 ^ d" for f
      using that sh int raw ten False from_human_decimal [of "show_nat (raw div 10 ^ d)" f "am_decimals a"]
      by (simp add: d_def [symmetric] fits_u128_def a div_mult_mod_eq del: of_nat_add of_nat_mult)
    have "to_human a = show_nat (raw div 10 ^ d) @ CHR ''.'' #
        (if raw mod 10 ^ d = 0 then ''0'' else trim_end_zeros (pad_left d (show_nat (raw mod 10 ^ d))))"
      using False ten by (simp add: to_human_def raw_def d_def Let_def fits_u128_def)
    then show ?thesis
      using dec [of "''0''"] dec fraction_digits [of "raw mod 10 ^ d" d] False
      by (auto simp: is_digit_def digits_val_def digit_val_def)
  qed
qed

section \<open>Properties\<close>

text \<open>
  Printing and parsing an amount are inverse: for every number of decimals whose power of ten fits a \<open>u128\<close>,
  \<open>from_human\<close> reads what \<open>to_human\<close> prints as the same amount.
\<close>

theorem amount_round_trip:
  assumes "10 ^ unat (am_decimals a) < (2 :: nat) ^ 128"
  shows "from_human (to_human a) (am_decimals a) = Inr a"
  by (rule human_round_trip [OF assms])

theorem amount_round_trip_witness:
  "from_human (to_human \<lparr>am_raw = 1050, am_decimals = 3\<rparr>) 3 = Inr \<lparr>am_raw = 1050, am_decimals = 3\<rparr>"
  using amount_round_trip [of "\<lparr>am_raw = 1050, am_decimals = 3\<rparr>"] by simp

text \<open>
  C37. Parsing is exact. A decimal text \<open>i.f\<close> of digits with at most \<open>decimals\<close> fraction digits is read as the
  integer \<open>i * 10 ^ decimals + f * 10 ^ (decimals - length f)\<close>, or refused as an overflow when that does not fit a
  \<open>u128\<close>: nothing is rounded or wrapped.
\<close>

theorem from_human_exact:
  assumes "list_all is_digit i" and "list_all is_digit f" and "length f \<le> unat decimals" and "0 < unat decimals"
    and "10 ^ unat decimals < (2 :: nat) ^ 128" and "digits_val i < 2 ^ 128"
  shows "from_human (i @ CHR ''.'' # f) decimals =
    (let v = digits_val i * 10 ^ unat decimals + digits_val f * 10 ^ (unat decimals - length f)
     in if v < 2 ^ 128 then Inr \<lparr>am_raw = of_nat v, am_decimals = decimals\<rparr> else Inl (InvalidAmount ''overflow''))"
  using from_human_decimal [OF assms] by (simp add: fits_u128_def Let_def)

theorem from_human_exact_witness:
  "from_human ''12.5'' 2 = Inr \<lparr>am_raw = 1250, am_decimals = 2\<rparr>"
  using from_human_exact [of "''12''" "''5''" 2]
  by (simp add: is_digit_def digits_val_def digit_val_def Let_def)

text \<open>
  C40. A plus sign in the fraction is accepted and divides the fraction by ten. The fraction is padded with zeros and
  then parsed as an integer of its own, which may begin with a sign: so for all digits \<open>i\<close> and \<open>f\<close> the text \<open>i.+f\<close> is read
  as the number that \<open>i.0f\<close> stands for, and not refused.
\<close>

theorem from_human_signed_fraction:
  assumes "list_all is_digit i" and "list_all is_digit f" and "length f < unat decimals" and "1 < unat decimals"
    and "10 ^ unat decimals < (2 :: nat) ^ 128"
    and "digits_val i * 10 ^ unat decimals + digits_val f * 10 ^ (unat decimals - 1 - length f) < 2 ^ 128"
  shows "from_human (i @ ''.+'' @ f) decimals =
      Inr \<lparr>am_raw = of_nat (digits_val i * 10 ^ unat decimals + digits_val f * 10 ^ (unat decimals - 1 - length f)),
        am_decimals = decimals\<rparr> \<and>
    from_human (i @ ''.+'' @ f) decimals = from_human (i @ ''.0'' @ f) decimals"
proof -
  have "digits_val i \<le> digits_val i * 10 ^ unat decimals" by simp
  then have fits: "digits_val i < 2 ^ 128" using assms(6) by linarith
  have "list_all is_digit (CHR ''0'' # f)" "digits_val (CHR ''0'' # f) = digits_val f"
    using assms(2) by (simp_all add: is_digit_def digits_val_Cons digit_val_def)
  with from_human_decimal [OF assms(1) this(1) _ _ assms(5) fits] from_human_plus [OF assms(1-5) fits] assms(3,4,6)
  show ?thesis by (simp add: fits_u128_def)
qed

theorem from_human_signed_fraction_witness:
  "from_human ''1.+5'' 2 = Inr \<lparr>am_raw = 105, am_decimals = 2\<rparr> \<and> from_human ''1.+5'' 2 = from_human ''1.05'' 2"
  using from_human_signed_fraction [of "''1''" "''5''" 2] by (auto simp: is_digit_def digits_val_def digit_val_def)

end
