(* ===== verification/Units.thy ===== *)
theory Units
  imports Token_Amount Stark_Instance
begin

text \<open>
  \<open>crates/common/src/utils.rs\<close>: conversions between STRK, base units and Tongo units, and public keys as hex
  text. The lemmas show that the conversions never undercharge and invert each other, and that a printed
  key is read back.
\<close>

section \<open>Unit conversions\<close>

definition STRK_DECIMALS :: u8 where
  "STRK_DECIMALS = 18"

lemma shorter: "suf \<noteq> [] \<Longrightarrow> length suf \<le> length s \<Longrightarrow> length s - length suf < length s"
  by (cases suf; cases s) auto

text \<open>\<open>trim_end_matches("STRK")\<close> removes the suffix as often as it occurs.\<close>

function trim_end_suffix :: "string \<Rightarrow> string \<Rightarrow> string" where
  "trim_end_suffix suf s =
     (if suf \<noteq> [] \<and> length suf \<le> length s \<and> drop (length s - length suf) s = suf
      then trim_end_suffix suf (take (length s - length suf) s) else s)"
  by pat_completeness auto
termination by (relation "measure (\<lambda>(suf, s). length s)") (auto simp: shorter)

declare trim_end_suffix.simps [simp del]

definition strk_to_fri :: "string \<Rightarrow> nat result" where
  "strk_to_fri strk =
     (let strk_clean = trim (trim_end_suffix ''STRK'' (trim strk))
      in if strk_clean \<noteq> [] \<and> hd strk_clean = CHR ''-'' then Inl (InvalidAmount ''Amount cannot be negative'')
         else and_then (from_human strk_clean STRK_DECIMALS) (\<lambda>amount. Inr (unat (am_raw amount))))"

definition fri_to_strk :: "u128 \<Rightarrow> Amount" where
  "fri_to_strk fri = from_raw fri STRK_DECIMALS"

definition validate_rate :: "u128 \<Rightarrow> unit result" where
  "validate_rate rate = (if rate = 0 then Inl (InvalidAmount ''Rate must be greater than zero'') else Inr ())"

text \<open>\<open>u128::div_ceil\<close>.\<close>

definition div_ceil :: "u128 \<Rightarrow> u128 \<Rightarrow> u128" where
  "div_ceil a b = (if a mod b = 0 then a div b else a div b + 1)"

definition base_units_to_tongo :: "u128 \<Rightarrow> u128 \<Rightarrow> u128 result" where
  "base_units_to_tongo amount rate =
     and_then (validate_rate rate) (\<lambda>_. Inr (div_ceil amount rate))"

definition tongo_to_base_units :: "u128 \<Rightarrow> u128 \<Rightarrow> u128 result" where
  "tongo_to_base_units tongo_amount rate =
     and_then (validate_rate rate) (\<lambda>_.
       and_then (ok_or (InvalidAmount ''Amount overflow'') (fits_u128 (unat tongo_amount * unat rate))) (\<lambda>v.
         Inr (of_nat v)))"

definition tongo_to_strk :: "u128 \<Rightarrow> u128 \<Rightarrow> Amount result" where
  "tongo_to_strk tongo_amount rate = and_then (tongo_to_base_units tongo_amount rate) (\<lambda>fri. Inr (fri_to_strk fri))"

definition strk_to_tongo :: "string \<Rightarrow> u128 \<Rightarrow> u128 result" where
  "strk_to_tongo strk rate = and_then (strk_to_fri strk) (\<lambda>fri. base_units_to_tongo (of_nat fri) rate)"

definition ten_pow :: "nat \<Rightarrow> nat result" where
  "ten_pow e = ok_or (InvalidAmount ''Amount overflow'') (fits_u128 (10 ^ e))"

definition round_div :: "nat \<Rightarrow> nat \<Rightarrow> nat result" where
  "round_div v divisor =
     (let half = divisor div 2
      in and_then (ok_or (InvalidAmount ''Amount overflow'') (fits_u128 (v + half))) (\<lambda>adjusted.
           Inr (adjusted div divisor)))"

definition format_scaled_integer :: "nat \<Rightarrow> nat \<Rightarrow> string result" where
  "format_scaled_integer v scale =
     and_then (ten_pow scale) (\<lambda>factor.
       let integer = v div factor;
           fraction = v mod factor
       in Inr (show_nat integer @ ''.'' @ pad_left scale (show_nat fraction)))"

definition format_amount_with_scale :: "Amount \<Rightarrow> nat \<Rightarrow> string result" where
  "format_amount_with_scale amount scale =
     (let decimals = unat (am_decimals amount);
          raw = unat (am_raw amount)
      in if scale = 0 then
           and_then (ten_pow decimals) (\<lambda>divisor.
           and_then (round_div raw divisor) (\<lambda>rounded. Inr (show_nat rounded)))
         else if decimals > scale then
           and_then (ten_pow (decimals - scale)) (\<lambda>divisor.
           and_then (round_div raw divisor) (\<lambda>rounded. format_scaled_integer rounded scale))
         else
           and_then (ten_pow (scale - decimals)) (\<lambda>multiplier.
           and_then (ok_or (InvalidAmount ''Amount overflow'') (fits_u128 (raw * multiplier))) (\<lambda>scaled.
             format_scaled_integer scaled scale)))"

definition format_tongo_balance :: "u128 \<Rightarrow> u128 \<Rightarrow> string result" where
  "format_tongo_balance tongo_amount rate =
     and_then (tongo_to_strk tongo_amount rate) (\<lambda>strk.
     and_then (format_amount_with_scale strk 2) (\<lambda>text. Inr (text @ '' STRK'')))"

section \<open>Public keys as text\<close>

text \<open>
  The text forms of \<open>Felt\<close> are third-party: \<open>hex_of\<close> is the \<open>{:#x}\<close> format and \<open>of_hex\<close> is
  \<open>Felt::from_hex\<close>, with the text of its error.
\<close>

definition strip_prefix :: "string \<Rightarrow> string \<Rightarrow> string option" where
  "strip_prefix pre s = (if take (length pre) s = pre then Some (drop (length pre) s) else None)"

definition parse_hex_to_felt :: "(string \<Rightarrow> string + 'f) \<Rightarrow> string \<Rightarrow> 'f result" where
  "parse_hex_to_felt of_hex hex = map_err DeserializationError (of_hex hex)"

definition felt_to_hex :: "('f \<Rightarrow> string) \<Rightarrow> 'f \<Rightarrow> string" where
  "felt_to_hex hex_of felt = hex_of felt"

definition left_pad_hex :: "string \<Rightarrow> nat \<Rightarrow> string" where
  "left_pad_hex hex len =
     (let hex_clean = (case strip_prefix ''0x'' hex of Some s \<Rightarrow> s | None \<Rightarrow> hex)
      in if str_len hex_clean \<ge> len then hex_clean else pad_left len hex_clean)"

text \<open>\<open>trim_start_matches("0x")\<close>.\<close>

function trim_start_prefix :: "string \<Rightarrow> string \<Rightarrow> string" where
  "trim_start_prefix pre s =
     (if pre \<noteq> [] \<and> length pre \<le> length s \<and> take (length pre) s = pre
      then trim_start_prefix pre (drop (length pre) s) else s)"
  by pat_completeness auto
termination by (relation "measure (\<lambda>(pre, s). length s)") (auto simp: shorter)

declare trim_start_prefix.simps [simp del]

definition serialize_public_key_hex :: "('f \<Rightarrow> string) \<Rightarrow> 'f \<Rightarrow> 'f \<Rightarrow> string" where
  "serialize_public_key_hex hex_of x y =
     (let x_hex = left_pad_hex (trim_start_prefix ''0x'' (hex_of x)) 64;
          y_hex = left_pad_hex (trim_start_prefix ''0x'' (hex_of y)) 64
      in ''0x'' @ x_hex @ y_hex)"

definition is_ascii_hexdigit :: "char \<Rightarrow> bool" where
  "is_ascii_hexdigit c =
     (let n = of_char c :: nat in 48 \<le> n \<and> n \<le> 57 \<or> 65 \<le> n \<and> n \<le> 70 \<or> 97 \<le> n \<and> n \<le> 102)"

definition parse_public_key_digits :: "(string \<Rightarrow> string + 'f) \<Rightarrow> string \<Rightarrow> ('f \<times> 'f) result" where
  "parse_public_key_digits of_hex digits =
     (if \<not> list_all is_ascii_hexdigit digits
      then Inl (InvalidPublicKey ''Public key must contain only hex digits'')
      else if str_len digits \<noteq> 128
      then Inl (InvalidPublicKey (''Expected 128 hex chars, got '' @ show_nat (str_len digits)))
      else
        let x_hex = take 64 digits;
            y_hex = drop 64 digits
        in and_then (map_err InvalidPublicKey (of_hex (''0x'' @ x_hex))) (\<lambda>x.
           and_then (map_err InvalidPublicKey (of_hex (''0x'' @ y_hex))) (\<lambda>y.
             Inr (x, y))))"

definition parse_public_key_hex :: "(string \<Rightarrow> string + 'f) \<Rightarrow> string \<Rightarrow> ('f \<times> 'f) result" where
  "parse_public_key_hex of_hex hex =
     (let cleaned = (case strip_prefix ''0x'' hex of
            Some s \<Rightarrow> if take 2 s = ''04'' \<and> str_len s = 130 then drop 2 s else s
          | None \<Rightarrow> if take 2 hex = ''04'' \<and> str_len hex = 130 then drop 2 hex else hex)
      in parse_public_key_digits of_hex cleaned)"

definition parse_prefixed_public_key_hex :: "(string \<Rightarrow> string + 'f) \<Rightarrow> string \<Rightarrow> ('f \<times> 'f) result" where
  "parse_prefixed_public_key_hex of_hex hex =
     and_then (ok_or (InvalidPublicKey ''Public key must start with 0x'')
       (case strip_prefix ''0x'' hex of Some s \<Rightarrow> Some s | None \<Rightarrow> strip_prefix ''0X'' hex)) (\<lambda>digits.
     parse_public_key_digits of_hex digits)"

section \<open>Conversions do not undercharge\<close>

lemma unat_div_ceil:
  assumes "rate \<noteq> 0"
  shows "unat (div_ceil a rate) = (unat a + unat rate - 1) div unat rate"
proof -
  have r: "0 < unat rate" using assms by (metis gr0I unat_eq_zero)
  have m: "a mod rate = 0 \<longleftrightarrow> unat a mod unat rate = 0" by (simp add: unat_mod word_unat_eq_iff)
  define q m where "q = unat a div unat rate" and "m = unat a mod unat rate"
  have a: "unat a = q * unat rate + m" by (simp add: q_def m_def)
  have mr: "m < unat rate" using r by (simp add: m_def)
  show ?thesis
  proof (cases "m = 0")
    case True
    then have "(unat a + unat rate - 1) div unat rate = q" using a r True by (intro div_nat_eqI) (simp_all add: algebra_simps)
    then show ?thesis using True by (simp add: div_ceil_def m m_def q_def unat_div)
  next
    case False
    have lt: "q + 1 \<le> unat a"
    proof (cases "q = 0")
      case True
      then show ?thesis using a False by simp
    next
      case q0: False
      then have "q \<le> q * unat rate" using r by simp
      then show ?thesis using a False by linarith
    qed
    then have "unat (a div rate + 1) = q + 1"
      using unsigned_less [of a, where 'a = nat] by (simp add: unat_word_ariths unat_div q_def [symmetric])
    moreover have "(unat a + unat rate - 1) div unat rate = q + 1"
      using a mr False by (intro div_nat_eqI) (simp_all add: algebra_simps)
    ultimately show ?thesis using False by (simp add: div_ceil_def m m_def)
  qed
qed

text \<open>\<open>base_units_to_tongo\<close> gives the least number of Tongo units that covers the base units.\<close>

lemma covers:
  assumes "0 < (r :: nat)"
  shows "a \<le> (a + r - 1) div r * r" and "(a + r - 1) div r * r < a + r"
proof -
  define q m where "q = (a + r - 1) div r" and "m = (a + r - 1) mod r"
  have "a + r - 1 = q * r + m" "m < r" using assms by (simp_all add: q_def m_def)
  then show "a \<le> (a + r - 1) div r * r" "(a + r - 1) div r * r < a + r"
    using assms unfolding q_def [symmetric] by linarith+
qed

lemma base_units_to_tongo_Inr:
  assumes "base_units_to_tongo a rate = Inr t"
  shows "unat a \<le> unat t * unat rate \<and> unat t * unat rate < unat a + unat rate"
proof -
  have "rate \<noteq> 0" and t: "t = div_ceil a rate"
    using assms by (auto simp: base_units_to_tongo_def validate_rate_def result_iffs split: if_splits)
  then have "0 < unat rate" by (metis gr0I unat_eq_zero)
  from covers [OF this, of "unat a"] show ?thesis
    by (simp add: t unat_div_ceil [OF \<open>rate \<noteq> 0\<close>])
qed

lemma tongo_round_trip:
  assumes "tongo_to_base_units t rate = Inr b"
  shows "unat b = unat t * unat rate \<and> base_units_to_tongo b rate = Inr t"
proof -
  have r: "rate \<noteq> 0" and f: "unat t * unat rate < 2 ^ 128" and b: "b = of_nat (unat t * unat rate)"
    using assms by (auto simp: tongo_to_base_units_def validate_rate_def fits_u128_def result_iffs split: if_splits)
  then have r0: "0 < unat rate" by (metis gr0I unat_eq_zero)
  have ub: "unat b = unat t * unat rate"
    unfolding b by (rule unat_of_nat_small) (use f in simp)
  have "(unat t * unat rate + unat rate - 1) div unat rate = unat t"
    using r0 by (intro div_nat_eqI) (simp_all add: algebra_simps)
  then have "div_ceil b rate = t" by (simp add: word_unat_eq_iff unat_div_ceil [OF r] ub)
  with ub show ?thesis by (simp add: base_units_to_tongo_def validate_rate_def r)
qed

section \<open>Hex text\<close>

definition hex_digit :: "nat \<Rightarrow> char" where
  "hex_digit d = char_of (if d < 10 then 48 + d else 87 + d)"

definition hex_digit_val :: "char \<Rightarrow> nat" where
  "hex_digit_val c = (let n = of_char c in if n \<le> 57 then n - 48 else if n \<le> 70 then n - 55 else n - 87)"

definition hex_val :: "string \<Rightarrow> nat" where
  "hex_val s = foldl (\<lambda>acc c. acc * 16 + hex_digit_val c) 0 s"

fun show_hex :: "nat \<Rightarrow> string" where
  "show_hex n = (if n < 16 then [hex_digit n] else show_hex (n div 16) @ [hex_digit (n mod 16)])"

declare show_hex.simps [simp del]

lemma hex_digit_ok: "d < 16 \<Longrightarrow> is_ascii_hexdigit (hex_digit d) \<and> hex_digit_val (hex_digit d) = d"
  by (auto simp: hex_digit_def is_ascii_hexdigit_def hex_digit_val_def Let_def)

lemma show_hex_ok: "list_all is_ascii_hexdigit (show_hex n) \<and> show_hex n \<noteq> [] \<and> hex_val (show_hex n) = n"
proof (induction n rule: show_hex.induct)
  case (1 n)
  show ?case
  proof (cases "n < 16")
    case True
    then show ?thesis using hex_digit_ok [of n] by (simp add: show_hex.simps [of n] hex_val_def)
  next
    case False
    then show ?thesis using 1 hex_digit_ok [of "n mod 16"] by (simp add: show_hex.simps [of n] hex_val_def)
  qed
qed

lemma length_show_hex: "n < 16 ^ d \<Longrightarrow> 0 < d \<Longrightarrow> length (show_hex n) \<le> d"
proof (induction n arbitrary: d rule: show_hex.induct)
  case (1 n)
  show ?case
  proof (cases "n < 16")
    case True
    then show ?thesis using 1(3) by (simp add: show_hex.simps [of n])
  next
    case False
    obtain k where d: "d = Suc k" using 1(3) by (cases d) auto
    then have "n div 16 < 16 ^ k" "0 < k"
      using 1(2) False by (simp_all add: less_mult_imp_div_less, cases k, simp_all)
    then have "length (show_hex (n div 16)) \<le> k" using 1(1) [OF False] by blast
    then show ?thesis using False by (simp add: show_hex.simps [of n] d)
  qed
qed

lemma hex_val_zeros: "hex_val (replicate k CHR ''0'' @ s) = hex_val s"
proof -
  have "foldl (\<lambda>acc c. acc * 16 + hex_digit_val c) 0 (replicate k CHR ''0'') = 0"
    by (induction k) (simp_all add: hex_digit_val_def Let_def)
  then show ?thesis by (simp add: hex_val_def)
qed

lemma hexdigit_facts: "is_ascii_hexdigit c \<Longrightarrow> c \<noteq> CHR ''x'' \<and> c \<noteq> CHR ''X'' \<and> of_char c < (128 :: nat)"
  by (auto simp: is_ascii_hexdigit_def Let_def)

lemma str_len_hex: "list_all is_ascii_hexdigit s \<Longrightarrow> str_len s = length s"
  by (induction s) (auto simp: str_len_def dest: hexdigit_facts)

text \<open>
  What the code relies on of the text forms of \<open>Felt\<close>: the lower-case hex format is the number without leading
  zeros, and reading \<open>0x\<close> and at most 64 hex digits of a number below the prime gives that number.
\<close>

locale felt_text = felt_laws S
  for S :: "('f, 'p, 'a, 'r) starknet" +
  fixes hex_of :: "'f \<Rightarrow> string" and of_hex :: "string \<Rightarrow> string + 'f"
  assumes hex_of_felt: "hex_of f = ''0x'' @ show_hex (felt_val S f)"
    and of_hex_digits: "list_all is_ascii_hexdigit ds \<Longrightarrow> ds \<noteq> [] \<Longrightarrow> length ds \<le> 64 \<Longrightarrow> hex_val ds < FELT_PRIME \<Longrightarrow>
      of_hex (''0x'' @ ds) = Inr (felt_from S (hex_val ds))"
begin

lemma trim_hex: "trim_start_prefix ''0x'' (hex_of f) = show_hex (felt_val S f)"
proof -
  have "take 2 (show_hex (felt_val S f)) \<noteq> ''0x''"
  proof
    assume "take 2 (show_hex (felt_val S f)) = ''0x''"
    then have "CHR ''x'' \<in> set (show_hex (felt_val S f))" by (metis in_set_takeD list.set_intros(1,2))
    then show False using show_hex_ok [of "felt_val S f"] hexdigit_facts by (auto simp: list_all_iff)
  qed
  then show ?thesis
    by (simp add: hex_of_felt trim_start_prefix.simps [of _ "CHR ''0'' # CHR ''x'' # show_hex (felt_val S f)"]
        trim_start_prefix.simps [of _ "show_hex (felt_val S f)"] numeral_2_eq_2)
qed

lemma padded_hex:
  fixes f :: 'f
  defines "h \<equiv> left_pad_hex (trim_start_prefix ''0x'' (hex_of f)) 64"
  shows "list_all is_ascii_hexdigit h" and "length h = 64" and "of_hex (''0x'' @ h) = Inr f"
proof -
  define d where "d = show_hex (felt_val S f)"
  note ok = show_hex_ok [of "felt_val S f", folded d_def]
  have "felt_val S f < 16 ^ 64"
    using felt_val_less [of f] by (simp add: FELT_PRIME_def)
  then have len: "length d \<le> 64" unfolding d_def by (rule length_show_hex) simp
  have "strip_prefix ''0x'' d = None"
  proof -
    have "take 2 d \<noteq> ''0x''"
    proof
      assume "take 2 d = ''0x''"
      then have "CHR ''x'' \<in> set d" by (metis in_set_takeD list.set_intros(1,2))
      then show False using ok hexdigit_facts by (auto simp: list_all_iff)
    qed
    then show ?thesis by (simp add: strip_prefix_def numeral_2_eq_2)
  qed
  then have h: "h = pad_left 64 d"
    using ok len str_len_hex [of d] by (auto simp: h_def trim_hex left_pad_hex_def d_def [symmetric] pad_left_def)
  show dig: "list_all is_ascii_hexdigit h"
    using ok by (auto simp: h pad_left_def list_all_iff is_ascii_hexdigit_def Let_def)
  show hl: "length h = 64" using len by (simp add: h pad_left_def)
  have hv: "hex_val h = felt_val S f" using ok by (simp add: h pad_left_def hex_val_zeros)
  have "of_hex (''0x'' @ h) = Inr (felt_from S (hex_val h))"
    using dig hl hv felt_val_less [of f] by (intro of_hex_digits) auto
  then show "of_hex (''0x'' @ h) = Inr f" by (simp add: hv felt_from_val)
qed

lemma public_key_hex_round_trip:
  shows "parse_public_key_hex of_hex (serialize_public_key_hex hex_of x y) = Inr (x, y)"
    and "parse_prefixed_public_key_hex of_hex (serialize_public_key_hex hex_of x y) = Inr (x, y)"
proof -
  define hx hy where "hx = left_pad_hex (trim_start_prefix ''0x'' (hex_of x)) 64"
    and "hy = left_pad_hex (trim_start_prefix ''0x'' (hex_of y)) 64"
  note px = padded_hex [of x, folded hx_def] and py = padded_hex [of y, folded hy_def]
  have ser: "serialize_public_key_hex hex_of x y = ''0x'' @ hx @ hy"
    by (simp add: serialize_public_key_hex_def Let_def hx_def hy_def)
  have len: "str_len (hx @ hy) = 128" using px py str_len_hex [of "hx @ hy"] by simp
  have strip: "strip_prefix ''0x'' (''0x'' @ hx @ hy) = Some (hx @ hy)" by (simp add: strip_prefix_def)
  have dig: "parse_public_key_digits of_hex (hx @ hy) = Inr (x, y)"
    using px py len by (simp add: parse_public_key_digits_def Let_def)
  show "parse_public_key_hex of_hex (serialize_public_key_hex hex_of x y) = Inr (x, y)"
    unfolding ser parse_public_key_hex_def strip using dig len by (simp add: Let_def)
  show "parse_prefixed_public_key_hex of_hex (serialize_public_key_hex hex_of x y) = Inr (x, y)"
    unfolding ser parse_prefixed_public_key_hex_def strip using dig by simp
qed

end

text \<open>The text forms on the concrete instance.\<close>

definition zfelt_hex :: "zfelt \<Rightarrow> string" where
  "zfelt_hex f = ''0x'' @ show_hex (felt_val stark_dlog f)"

definition zfelt_of_hex :: "string \<Rightarrow> string + zfelt" where
  "zfelt_of_hex s =
     (if take 2 s = ''0x'' \<and> list_all is_ascii_hexdigit (drop 2 s) then Inr (zfelt_of (hex_val (drop 2 s)))
      else Inl ''invalid hex'')"

interpretation dlog: felt_text stark_dlog zfelt_hex zfelt_of_hex
  by unfold_locales (simp_all add: zfelt_hex_def zfelt_of_hex_def)

section \<open>Properties\<close>

text \<open>
  Converting base units to Tongo units never undercharges and overcharges by less than one unit: the result
  \<open>t\<close> satisfies \<open>a \<le> t * rate < a + rate\<close>.
\<close>

theorem tongo_units_cover:
  assumes "base_units_to_tongo a rate = Inr t"
  shows "unat a \<le> unat t * unat rate \<and> unat t * unat rate < unat a + unat rate"
  by (rule base_units_to_tongo_Inr [OF assms])

theorem tongo_units_cover_witness:
  "base_units_to_tongo 10 3 = Inr 4 \<and> unat (10 :: u128) \<le> unat (4 :: u128) * unat (3 :: u128)"
proof -
  have "base_units_to_tongo 10 3 = Inr 4"
    by (simp add: base_units_to_tongo_def validate_rate_def div_ceil_def)
  with tongo_units_cover [OF this] show ?thesis by blast
qed

text \<open>
  Tongo units converted to base units and back are unchanged, and the product is exact: when
  \<open>tongo_to_base_units\<close> succeeds nothing has overflowed.
\<close>

theorem tongo_units_round_trip:
  assumes "tongo_to_base_units t rate = Inr b"
  shows "unat b = unat t * unat rate \<and> base_units_to_tongo b rate = Inr t"
  by (rule tongo_round_trip [OF assms])

theorem tongo_units_round_trip_witness:
  "tongo_to_base_units 7 50 = Inr 350 \<and> base_units_to_tongo 350 50 = Inr 7"
proof -
  have "tongo_to_base_units 7 50 = Inr 350"
    by (simp add: tongo_to_base_units_def validate_rate_def fits_u128_def)
  with tongo_units_round_trip [OF this] show ?thesis by blast
qed

text \<open>
  A public key printed as hex is read back by both parsers, the one that accepts several formats and the one
  that requires the prefix.
\<close>

theorem public_key_text_round_trip:
  assumes "felt_text S hex_of of_hex"
  shows "parse_public_key_hex of_hex (serialize_public_key_hex hex_of x y) = Inr (x, y) \<and>
    parse_prefixed_public_key_hex of_hex (serialize_public_key_hex hex_of x y) = Inr (x, y)"
  using felt_text.public_key_hex_round_trip [OF assms] by blast

theorem public_key_text_round_trip_witness:
  "parse_public_key_hex zfelt_of_hex (serialize_public_key_hex zfelt_hex (zfelt_of 10) (zfelt_of 255)) =
     Inr (zfelt_of 10, zfelt_of 255)"
  using public_key_text_round_trip [OF dlog.felt_text_axioms] by blast

end
