(* ===== verification/System_Clock.thy ===== *)
theory System_Clock
  imports Prelude
begin

text \<open>
  \<open>crates/gateway/src/clock.rs\<close>: the clock every expiry decision of the gateway is based on. A wall clock that may
  jump in both directions is turned into readings that never decrease and never freeze.
\<close>

section \<open>Model\<close>

text \<open>
  An \<open>Instant\<close> of the monotonic clock and a \<open>Duration\<close> are numbers of nanoseconds; a \<open>SystemTime\<close> is the
  number of nanoseconds since the Unix epoch, negative before it.
\<close>

type_synonym nanos = nat

record Anchor =
  epoch_ms :: u64
  started :: nanos

definition saturating_duration_ms :: "nanos \<Rightarrow> u64" where
  "saturating_duration_ms duration = saturate (duration div 1000000)"

definition saturating_unix_time_ms :: "int \<Rightarrow> u64" where
  "saturating_unix_time_ms now = (if 0 \<le> now then saturating_duration_ms (nat now) else 0)"

text \<open>\<open>now.saturating_duration_since(a.started)\<close> is the subtraction of natural numbers.\<close>

definition anchored_reading :: "Anchor \<Rightarrow> nanos \<Rightarrow> u64" where
  "anchored_reading a now = saturating_add (epoch_ms a) (saturating_duration_ms (now - started a))"

definition advance :: "Anchor option \<Rightarrow> u64 \<Rightarrow> nanos \<Rightarrow> u64 \<times> Anchor option" where
  "advance anchor wall_ms now =
     (case anchor of
        Some a \<Rightarrow>
          if anchored_reading a now \<ge> wall_ms then (anchored_reading a now, anchor)
          else (wall_ms, Some \<lparr>epoch_ms = wall_ms, started = now\<rparr>)
      | None \<Rightarrow> (wall_ms, Some \<lparr>epoch_ms = wall_ms, started = now\<rparr>))"

text \<open>\<open>SystemClock::now_ms\<close> samples both clocks while it holds the lock of the shared anchor.\<close>

definition clock_now_ms :: "Anchor option \<Rightarrow> int \<Rightarrow> nanos \<Rightarrow> u64 \<times> Anchor option" where
  "clock_now_ms anchor wall now = advance anchor (saturating_unix_time_ms wall) now"

text \<open>The readings of the process, one for each acquisition of the lock, in that order.\<close>

fun readings :: "Anchor option \<Rightarrow> (int \<times> nanos) list \<Rightarrow> u64 list" where
  "readings anchor [] = []"
| "readings anchor ((wall, now) # samples) =
     (case clock_now_ms anchor wall now of (t, anchor) \<Rightarrow> t # readings anchor samples)"

section \<open>Readings keep up with the monotonic clock\<close>

text \<open>
  A reading \<open>t\<close> was taken at \<open>n\<close>; from the instant \<open>m\<close> on, the timeline of the anchor is ahead of \<open>t\<close> by at
  least the whole milliseconds that have passed.
\<close>

definition keeps_up :: "Anchor \<Rightarrow> u64 \<Rightarrow> nanos \<Rightarrow> nanos \<Rightarrow> bool" where
  "keeps_up a t n m \<longleftrightarrow> (\<forall>now \<ge> m. saturating_add t (saturating_duration_ms (now - n)) \<le> anchored_reading a now)"

lemma div_add_le: "(a :: nat) div c + b div c \<le> (a + b) div c"
proof (cases "c = 0")
  case False
  have "a div c * c + b div c * c \<le> a + b" by (intro add_mono) simp_all
  then have "(a div c + b div c) * c div c \<le> (a + b) div c" by (intro div_le_mono) (simp add: add_mult_distrib)
  with False show ?thesis by simp
qed simp

lemma sat_ms_le:
  assumes "unat t \<le> unat e + k div 1000000" and "k + (now - n) \<le> l"
  shows "saturating_add t (saturating_duration_ms (now - n)) \<le> saturating_add e (saturating_duration_ms l)"
proof -
  have "k div 1000000 + (now - n) div 1000000 \<le> (k + (now - n)) div 1000000" by (rule div_add_le)
  also have "\<dots> \<le> l div 1000000" using assms(2) by (rule div_le_mono)
  finally have "unat t + (now - n) div 1000000 \<le> unat e + l div 1000000" using assms(1) by linarith
  then show ?thesis
    unfolding word_le_nat_alt saturating_duration_ms_def unat_saturating by (simp add: min_def)
qed

lemma advance_keeps_up:
  assumes "advance anchor wall n = (t, anchor')" and "\<forall>a \<in> set_option anchor. started a \<le> n"
  obtains a where "anchor' = Some a" and "keeps_up a t n n" and "wall \<le> t" and "started a \<le> n"
proof -
  have fresh: "keeps_up \<lparr>epoch_ms = wall, started = n\<rparr> wall n n"
    unfolding keeps_up_def anchored_reading_def by (auto intro!: sat_ms_le [of _ _ 0])
  show thesis
  proof (cases "\<exists>a. anchor = Some a \<and> wall \<le> anchored_reading a n")
    case True
    then obtain a where a: "anchor = Some a" "wall \<le> anchored_reading a n" by blast
    have "keeps_up a (anchored_reading a n) n n"
      unfolding keeps_up_def
    proof (intro allI impI)
      fix now
      assume "n \<le> now"
      then have "n - started a + (now - n) \<le> now - started a" using assms(2) a by simp
      then show "saturating_add (anchored_reading a n) (saturating_duration_ms (now - n)) \<le> anchored_reading a now"
        unfolding anchored_reading_def by (rule sat_ms_le [rotated]) (simp add: saturating_duration_ms_def unat_saturating)
    qed
    with assms a that [of a] show ?thesis by (simp add: advance_def)
  next
    case False
    then have "t = wall" "anchor' = Some \<lparr>epoch_ms = wall, started = n\<rparr>"
      using assms by (auto simp: advance_def split: option.splits if_splits)
    with fresh show ?thesis by (intro that [of "\<lparr>epoch_ms = wall, started = n\<rparr>"]) simp_all
  qed
qed

text \<open>A new anchor is never behind the old one: it is set only when the wall clock is strictly ahead.\<close>

lemma advance_ahead:
  assumes "advance (Some a) wall m = (t, Some a')" and "m \<le> now"
  shows "anchored_reading a now \<le> anchored_reading a' now" and "anchored_reading a m \<le> t"
proof -
  show "anchored_reading a m \<le> t" using assms(1) by (auto simp: advance_def split: if_splits)
  show "anchored_reading a now \<le> anchored_reading a' now"
  proof (cases "wall \<le> anchored_reading a m")
    case True
    then show ?thesis using assms(1) by (simp add: advance_def)
  next
    case False
    define M where "M = (1000000 :: nat)"
    have a': "a' = \<lparr>epoch_ms = wall, started = m\<rparr>" using assms(1) False by (auto simp: advance_def)
    have "(now - started a) div M \<le> ((m - started a) + (now - m)) div M"
      using assms(2) by (intro div_le_mono) simp
    also have "\<dots> \<le> (m - started a) div M + (now - m) div M + 1"
      by (simp add: M_def div_add1_eq [of "m - started a"])
    finally have "(now - started a) div M \<le> (m - started a) div M + (now - m) div M + 1" .
    moreover have "unat (anchored_reading a m) < unat wall" using False by (simp add: word_le_nat_alt)
    ultimately show ?thesis
      unfolding word_le_nat_alt anchored_reading_def a' saturating_duration_ms_def unat_saturating M_def
      by (auto simp: min_def split: if_splits)
  qed
qed

lemma readings_ahead:
  assumes "keeps_up a t n m" and "sorted (m # map snd samples)" and "j < length samples"
  shows "saturating_add t (saturating_duration_ms (snd (samples ! j) - n)) \<le> readings (Some a) samples ! j"
  using assms
proof (induction samples arbitrary: a m j)
  case (Cons x samples)
  obtain wall m' where x: "x = (wall, m')" by (cases x)
  obtain t' a' where adv: "clock_now_ms (Some a) wall m' = (t', Some a')"
    by (cases "clock_now_ms (Some a) wall m'") (auto simp: clock_now_ms_def advance_def split: if_splits)
  have m: "m \<le> m'" "sorted (m' # map snd samples)" using Cons.prems(2) by (simp_all add: x)
  note ahead = advance_ahead [OF adv [unfolded clock_now_ms_def]]
  show ?case
  proof (cases j)
    case 0
    then show ?thesis
      using Cons.prems(1) m(1) ahead(2) [of m'] adv by (fastforce simp: keeps_up_def x)
  next
    case (Suc k)
    have "keeps_up a' t n m'"
      using Cons.prems(1) m(1) ahead(1) unfolding keeps_up_def by (meson order_trans)
    from Cons.IH [OF this m(2), of k] Cons.prems(3) show ?thesis by (simp add: Suc x adv)
  qed
qed simp

lemma readings_split:
  assumes "i < length samples" and "sorted (map snd samples)"
    and "\<forall>a \<in> set_option anchor. \<forall>x \<in> set samples. started a \<le> snd x"
  obtains a t where "drop i (readings anchor samples) = t # readings (Some a) (drop (Suc i) samples)"
    and "keeps_up a t (snd (samples ! i)) (snd (samples ! i))"
    and "saturating_unix_time_ms (fst (samples ! i)) \<le> t"
  using assms
proof (induction samples arbitrary: anchor i thesis)
  case (Cons x samples)
  obtain wall m where x: "x = (wall, m)" by (cases x)
  obtain t anchor' where adv: "clock_now_ms anchor wall m = (t, anchor')" by fastforce
  from advance_keeps_up [OF this [unfolded clock_now_ms_def]] Cons.prems(4) obtain a where
    a: "anchor' = Some a" "keeps_up a t m m" "saturating_unix_time_ms wall \<le> t" "started a \<le> m" by (auto simp: x)
  show ?case
  proof (cases i)
    case 0
    then show ?thesis using Cons.prems(1) [of t a] adv a by (simp add: x)
  next
    case (Suc k)
    have "\<forall>y \<in> set samples. started a \<le> snd y" using Cons.prems(3) a(4) by (auto simp: x intro: order_trans)
    then show ?thesis
      using Cons.prems(2,3) adv a(1) Suc by (intro Cons.IH [of k anchor', OF Cons.prems(1)]) (auto simp: x)
  qed
qed simp

lemma length_readings [simp]: "length (readings anchor samples) = length samples"
  by (induction anchor samples rule: readings.induct) (auto split: prod.splits)

section \<open>Properties\<close>

text \<open>
  The clock of the gateway never goes back and never freezes. Whatever the wall clock does between the samples,
  a later reading is at least the earlier one plus the whole milliseconds the monotonic clock has advanced (up to the
  largest \<open>u64\<close>), and no reading is behind the wall clock it was taken from.
\<close>

theorem clock_monotone:
  assumes "sorted (map snd samples)" and "i \<le> j" and "j < length samples"
  defines "r \<equiv> readings None samples"
  shows "saturating_add (r ! i) (saturating_duration_ms (snd (samples ! j) - snd (samples ! i))) \<le> r ! j \<and>
    r ! i \<le> r ! j \<and> saturating_unix_time_ms (fst (samples ! i)) \<le> r ! i"
proof -
  have i: "i < length samples" using assms by simp
  obtain a t where d: "drop i r = t # readings (Some a) (drop (Suc i) samples)"
    and k: "keeps_up a t (snd (samples ! i)) (snd (samples ! i))" and w: "saturating_unix_time_ms (fst (samples ! i)) \<le> t"
    unfolding r_def using readings_split [OF i assms(1), where anchor = None] by (metis empty_iff option.set(1))
  have ri: "r ! i = t" using arg_cong [OF d, of hd] i by (simp add: hd_drop_conv_nth r_def)
  have main: "saturating_add t (saturating_duration_ms (snd (samples ! j) - snd (samples ! i))) \<le> r ! j"
  proof (cases "i = j")
    case True
    then show ?thesis using ri by (simp add: word_le_nat_alt unat_saturating saturating_duration_ms_def)
  next
    case False
    define k' where "k' = j - Suc i"
    have j: "j = Suc i + k'" "k' < length (drop (Suc i) samples)" using assms(2,3) False by (auto simp: k'_def)
    have "sorted (map snd (drop i samples))" using assms(1) by (metis drop_map sorted_wrt_drop)
    then have "sorted (snd (samples ! i) # map snd (drop (Suc i) samples))"
      by (simp add: Cons_nth_drop_Suc [OF i, symmetric])
    from readings_ahead [OF k this j(2)]
    have "saturating_add t (saturating_duration_ms (snd (samples ! j) - snd (samples ! i)))
      \<le> readings (Some a) (drop (Suc i) samples) ! k'"
      using assms(3) by (simp add: j(1))
    moreover have "drop i r ! Suc k' = r ! j"
      using i by (simp add: j(1) r_def)
    then have "readings (Some a) (drop (Suc i) samples) ! k' = r ! j" by (simp add: d)
    ultimately show ?thesis by simp
  qed
  have "t \<le> saturating_add t d" for d
    using unsigned_less [of t, where 'a = nat] by (auto simp: word_le_nat_alt unat_saturating min_def)
  from main w order_trans [OF this main] show ?thesis unfolding ri by blast
qed

text \<open>A wall clock that jumps forward and is then set back by seven seconds.\<close>

theorem clock_monotone_witness:
  "let samples = [(1000000000, 5), (9000000000, 100000005), (2000000000, 200000005)] in
     readings None samples = [1000, 9000, 9100] \<and>
     saturating_add (readings None samples ! 1) (saturating_duration_ms 100000000) \<le> readings None samples ! 2"
proof -
  have "readings None [(1000000000, 5), (9000000000, 100000005), (2000000000, 200000005)] = [1000, 9000, 9100]"
    by (simp add: clock_now_ms_def advance_def saturating_unix_time_ms_def saturating_duration_ms_def saturate_def
        anchored_reading_def saturating_add_def)
  with clock_monotone [of "[(1000000000, 5), (9000000000, 100000005), (2000000000, 200000005)]" 1 2]
  show ?thesis by (simp add: Let_def)
qed

end
