(* ===== verification/Hex_Text.thy ===== *)
theory Hex_Text
  imports Units
begin

text \<open>
  Hex text as the sources read and write it: lower case, padding with zeros, leading zeros, and the \<open>hex\<close> crate's
  two digits per byte. A number of fixed width has one lower-case text.
\<close>

text \<open>\<open>str::to_ascii_lowercase\<close>.\<close>

definition ascii_lower :: "char \<Rightarrow> char" where
  "ascii_lower c = (let n = of_char c :: nat in if 65 \<le> n \<and> n \<le> 90 then char_of (n + 32) else c)"

definition to_ascii_lowercase :: "string \<Rightarrow> string" where
  "to_ascii_lowercase s = map ascii_lower s"

section \<open>Hex digits\<close>

definition is_lower_hexdigit :: "char \<Rightarrow> bool" where
  "is_lower_hexdigit c = (let n = of_char c :: nat in 48 \<le> n \<and> n \<le> 57 \<or> 97 \<le> n \<and> n \<le> 102)"

lemma lower_is_hexdigit: "is_lower_hexdigit c \<Longrightarrow> is_ascii_hexdigit c"
  by (auto simp: is_lower_hexdigit_def is_ascii_hexdigit_def Let_def)

lemma ascii_lower_hexdigit:
  assumes "is_ascii_hexdigit c"
  shows "is_lower_hexdigit (ascii_lower c)" and "hex_digit_val (ascii_lower c) = hex_digit_val c"
  using assms by (auto simp: is_ascii_hexdigit_def is_lower_hexdigit_def ascii_lower_def hex_digit_val_def Let_def)

lemma ascii_lower_id: "is_lower_hexdigit c \<Longrightarrow> ascii_lower c = c"
  by (auto simp: is_lower_hexdigit_def ascii_lower_def Let_def)

lemma hex_digit_val_less: "is_ascii_hexdigit c \<Longrightarrow> hex_digit_val c < 16"
  by (auto simp: is_ascii_hexdigit_def hex_digit_val_def Let_def)

text \<open>The same on the codes of the characters.\<close>

lemma hex_code_inj:
  fixes m n :: nat
  assumes "48 \<le> m \<and> m \<le> 57 \<or> 97 \<le> m \<and> m \<le> 102" and "48 \<le> n \<and> n \<le> 57 \<or> 97 \<le> n \<and> n \<le> 102"
    and "(if m \<le> 57 then m - 48 else if m \<le> 70 then m - 55 else m - 87) =
         (if n \<le> 57 then n - 48 else if n \<le> 70 then n - 55 else n - 87)"
  shows "m = n"
  using assms by (auto split: if_splits)

lemma hex_digit_val_inj:
  assumes "is_lower_hexdigit c" and "is_lower_hexdigit d" and "hex_digit_val c = hex_digit_val d"
  shows "c = d"
proof -
  have "(of_char c :: nat) = of_char d"
    by (rule hex_code_inj) (use assms in \<open>simp_all only: is_lower_hexdigit_def hex_digit_val_def Let_def\<close>)
  then show ?thesis by simp
qed

lemma hex_digit_val_pos: "is_ascii_hexdigit c \<Longrightarrow> c \<noteq> CHR ''0'' \<Longrightarrow> 1 \<le> hex_digit_val c"
proof -
  assume c: "is_ascii_hexdigit c" "c \<noteq> CHR ''0''"
  define m where "m = (of_char c :: nat)"
  have "(of_char c :: nat) = of_char CHR ''0'' \<longleftrightarrow> c = CHR ''0''" by (rule of_char_eq_iff)
  then have "m \<noteq> 48" using c(2) by (simp add: m_def)
  moreover have "48 \<le> m \<and> m \<le> 57 \<or> 65 \<le> m \<and> m \<le> 70 \<or> 97 \<le> m \<and> m \<le> 102"
    using c(1) by (simp only: is_ascii_hexdigit_def Let_def m_def)
  ultimately show ?thesis unfolding hex_digit_val_def Let_def m_def [symmetric] by auto
qed

lemma hex_val_snoc [simp]: "hex_val (s @ [c]) = hex_val s * 16 + hex_digit_val c"
  by (simp add: hex_val_def)

lemma hex_val_Nil [simp]: "hex_val [] = 0"
  by (simp add: hex_val_def)

lemma hex_val_less: "list_all is_ascii_hexdigit s \<Longrightarrow> hex_val s < 16 ^ length s"
proof (induction s rule: rev_induct)
  case (snoc c s)
  then have "hex_digit_val c < 16" "hex_val s + 1 \<le> 16 ^ length s" using hex_digit_val_less by auto
  then have "hex_val s * 16 + hex_digit_val c < (hex_val s + 1) * 16" by simp
  also have "\<dots> \<le> 16 ^ length s * 16" using \<open>hex_val s + 1 \<le> 16 ^ length s\<close> by (rule mult_right_mono) simp
  finally show ?case by (simp add: mult.commute)
qed simp

lemma hex_val_inj:
  "list_all is_lower_hexdigit s \<Longrightarrow> list_all is_lower_hexdigit t \<Longrightarrow> length s = length t \<Longrightarrow> hex_val s = hex_val t \<Longrightarrow> s = t"
proof (induction s arbitrary: t rule: rev_induct)
  case (snoc c s)
  obtain d u where t: "t = u @ [d]" using snoc.prems(3) by (cases t rule: rev_cases) auto
  have cd: "hex_digit_val c < 16" "hex_digit_val d < 16"
    using snoc.prems(1,2) by (auto simp: t intro: hex_digit_val_less lower_is_hexdigit)
  have "hex_digit_val c = (hex_val s * 16 + hex_digit_val c) mod 16" "hex_val s = (hex_val s * 16 + hex_digit_val c) div 16"
    using cd by simp_all
  moreover have "hex_digit_val d = (hex_val u * 16 + hex_digit_val d) mod 16" "hex_val u = (hex_val u * 16 + hex_digit_val d) div 16"
    using cd by simp_all
  ultimately have "hex_digit_val c = hex_digit_val d" "hex_val s = hex_val u"
    using snoc.prems(4) unfolding t by (metis hex_val_snoc)+
  then show ?case using snoc t hex_digit_val_inj by auto
qed simp

lemma lower_hex_digit: "d < 16 \<Longrightarrow> is_lower_hexdigit (hex_digit d)"
  by (auto simp: hex_digit_def is_lower_hexdigit_def Let_def)

lemma show_hex_lower: "list_all is_lower_hexdigit (show_hex n)"
proof (induction n rule: show_hex.induct)
  case (1 n)
  then show ?case by (cases "n < 16") (simp_all add: show_hex.simps [of n] lower_hex_digit)
qed

lemma pad_left_hex:
  assumes "length s \<le> 64" and "list_all is_lower_hexdigit s"
  shows "length (pad_left 64 s) = 64" and "list_all is_lower_hexdigit (pad_left 64 s)" and "hex_val (pad_left 64 s) = hex_val s"
  using assms by (auto simp: pad_left_def hex_val_zeros list_all_iff is_lower_hexdigit_def Let_def)

lemma to_ascii_lowercase_hex:
  assumes "list_all is_ascii_hexdigit s"
  shows "list_all is_lower_hexdigit (to_ascii_lowercase s)" and "hex_val (to_ascii_lowercase s) = hex_val s"
    and "length (to_ascii_lowercase s) = length s"
proof -
  show "hex_val (to_ascii_lowercase s) = hex_val s"
    using assms by (induction s rule: rev_induct) (simp_all add: to_ascii_lowercase_def ascii_lower_hexdigit)
qed (use assms in \<open>auto simp: to_ascii_lowercase_def list_all_iff ascii_lower_hexdigit\<close>)

lemma to_ascii_lowercase_id: "list_all is_lower_hexdigit s \<Longrightarrow> to_ascii_lowercase s = s"
  by (induction s) (simp_all add: to_ascii_lowercase_def ascii_lower_id)

text \<open>The leading zeros of a number do not count, and what remains is as long as the number is large.\<close>

abbreviation significant :: "string \<Rightarrow> string" where
  "significant s \<equiv> dropWhile (\<lambda>c. c = CHR ''0'') s"

lemma hex_val_significant: "hex_val (significant s) = hex_val s"
proof -
  have "takeWhile (\<lambda>c. c = CHR ''0'') s = replicate (length (takeWhile (\<lambda>c. c = CHR ''0'') s)) CHR ''0''"
    by (induction s) auto
  then show ?thesis by (metis hex_val_zeros takeWhile_dropWhile_id)
qed

lemma hex_val_append: "hex_val (s @ t) = hex_val s * 16 ^ length t + hex_val t"
  by (induction t rule: rev_induct) (simp_all add: append_assoc [symmetric] algebra_simps del: append_assoc)

lemma significant_length:
  assumes "list_all is_ascii_hexdigit s"
  shows "hex_val s < 16 ^ k \<Longrightarrow> length (significant s) \<le> k"
    and "16 ^ k \<le> hex_val s \<Longrightarrow> k < length (significant s)"
proof -
  define t where "t = significant s"
  have ok: "list_all is_ascii_hexdigit t" using assms by (auto simp: t_def list_all_iff dest: set_dropWhileD)
  have v: "hex_val t = hex_val s" unfolding t_def by (rule hex_val_significant)
  show "k < length (significant s)" if "16 ^ k \<le> hex_val s"
  proof -
    have "(16 :: nat) ^ k < 16 ^ length t" using that hex_val_less [OF ok] unfolding v by (rule le_less_trans)
    then show ?thesis by (simp add: t_def)
  qed
  show "length (significant s) \<le> k" if lt: "hex_val s < 16 ^ k"
  proof (cases t)
    case (Cons c u)
    have "c \<noteq> CHR ''0''" using Cons hd_dropWhile [of "\<lambda>c. c = CHR ''0''" s] by (simp add: t_def)
    moreover have "is_ascii_hexdigit c" using ok Cons by simp
    ultimately have "1 \<le> hex_digit_val c" by (intro hex_digit_val_pos)
    then have "1 * 16 ^ length u \<le> hex_digit_val c * 16 ^ length u" by (rule mult_right_mono) simp
    moreover have "hex_val t = hex_digit_val c * 16 ^ length u + hex_val u"
      using hex_val_append [of "[c]" u] by (simp add: Cons hex_val_def)
    ultimately have "16 ^ length u \<le> hex_val t" by linarith
    then have "(16 :: nat) ^ length u < 16 ^ k" using lt unfolding v by (rule le_less_trans)
    then show ?thesis using Cons by (simp add: t_def)
  next
    case Nil
    then show ?thesis by (simp add: t_def [symmetric])
  qed
qed

section \<open>Two digits per byte\<close>

definition hex_byte :: "byte \<Rightarrow> string" where
  "hex_byte b = [hex_digit (unat b div 16), hex_digit (unat b mod 16)]"

fun hex_bytes :: "string \<Rightarrow> byte list" where
  "hex_bytes (c # d # s) = of_nat (hex_digit_val c * 16 + hex_digit_val d) # hex_bytes s"
| "hex_bytes _ = []"

lemma hex_byte_digits: "list_all is_lower_hexdigit (hex_byte b)" "length (hex_byte b) = 2"
  using unat_byte_less [of b] by (simp_all add: hex_byte_def lower_hex_digit less_mult_imp_div_less)

lemma hex_bytes_hex_byte: "hex_bytes (hex_byte b @ s) = b # hex_bytes s"
proof -
  have "unat b div 16 < 16" using unat_byte_less [of b] by (simp add: less_mult_imp_div_less)
  then show ?thesis using hex_digit_ok by (simp add: hex_byte_def)
qed

lemma hex_bytes_concat: "hex_bytes (concat (map hex_byte bs)) = bs"
  by (induction bs) (simp_all add: hex_bytes_hex_byte)

lemma concat_hex_byte:
  "list_all is_lower_hexdigit (concat (map hex_byte bs))" "length (concat (map hex_byte bs)) = 2 * length bs"
  by (induction bs) (simp_all add: hex_byte_digits)

end
