(* ===== verification/Gateway_Domain.thy ===== *)
theory Gateway_Domain
  imports Hex_Text
begin

text \<open>
  \<open>crates/domain/src\<close>: the validated values and the request types that the gateway and the oracle exchange, and the
  chain identifier of \<open>crates/common/src/chain.rs\<close>. The lemmas show that hex values are canonical and read back,
  and that a secret reference never carries key material.
\<close>

section \<open>What the code uses of other crates\<close>

text \<open>
  The text forms of \<open>Felt\<close>, with the formats \<open>{:064x}\<close> and \<open>{:#x}\<close>, and the \<open>hex\<close> crate.
\<close>

record 'f felt_format =
  ff_from_hex :: "string \<Rightarrow> string + 'f"
  ff_hex_064 :: "'f \<Rightarrow> string"
  ff_hex_alt :: "'f \<Rightarrow> string"
  hex_encode :: "byte list \<Rightarrow> string"
  hex_decode :: "string \<Rightarrow> byte list option"

text \<open>\<open>split_whitespace().count()\<close>.\<close>

fun word_count :: "string \<Rightarrow> nat" where
  "word_count [] = 0"
| "word_count (c # cs) =
     (if is_whitespace c then word_count cs
      else if cs = [] \<or> is_whitespace (hd cs) then 1 + word_count cs else word_count cs)"

section \<open>Errors\<close>

datatype DomainError =
    InvalidFeltHex string
  | InvalidHexBytes string
  | EmptyField string
  | InvalidDerivationPath string
  | InvalidCachePolicy string
  | InvalidWaitPolicy string
  | InvalidSignRequest string
  | InvalidSecretRef string

datatype GatewayErrorCode =
    Undeployed | NotFound | ProviderTransport | InsufficientBalance | InsufficientFee | NonceMismatch
  | InvalidRequest | InvalidClassHash | ConstructorCalldataMismatch | InvalidDerivationPath | InvalidCachePolicy
  | InvalidWaitPolicy | UnsupportedKeyDomain | UnsupportedAccountClass | ChainMismatch
  | UnsupportedProtocolVersion | UnsupportedSigningDomain | CacheUnavailable | CacheStale | RpcDegraded | Timeout
  | SecretUnavailable | Internal

record GatewayError =
  ge_code :: GatewayErrorCode
  ge_retryable :: bool
  ge_message :: "string option"

definition gateway_error :: "GatewayErrorCode \<Rightarrow> bool \<Rightarrow> string option \<Rightarrow> GatewayError" where
  "gateway_error code retryable message = \<lparr>ge_code = code, ge_retryable = retryable, ge_message = message\<rparr>"

section \<open>Chain identifiers\<close>

datatype ChainId = Mainnet | Sepolia

definition ascii_bytes :: "string \<Rightarrow> byte list" where
  "ascii_bytes s = map (\<lambda>c. of_nat (of_char c)) s"

fun chain_name :: "ChainId \<Rightarrow> string" where
  "chain_name Mainnet = ''SN_MAIN''"
| "chain_name Sepolia = ''SN_SEPOLIA''"

text \<open>\<open>Felt::from_bytes_be_slice\<close> of a text of fewer than 32 bytes.\<close>

fun chain_as_felt :: "('f, 'p, 'a, 'r) starknet \<Rightarrow> ChainId \<Rightarrow> 'f" where
  "chain_as_felt S Mainnet = felt_from S (be_val (ascii_bytes ''SN_MAIN''))"
| "chain_as_felt S Sepolia = felt_from S (be_val (ascii_bytes ''SN_SEPOLIA''))"

definition chain_from_felt :: "('f, 'p, 'a, 'r) starknet \<Rightarrow> 'f felt_format \<Rightarrow> 'f \<Rightarrow> ChainId result" where
  "chain_from_felt S X felt =
     (let mainnet = felt_from S (be_val (ascii_bytes ''SN_MAIN''));
          sepolia = felt_from S (be_val (ascii_bytes ''SN_SEPOLIA''))
      in if felt = mainnet then Inr Mainnet
         else if felt = sepolia then Inr Sepolia
         else Inl (DeserializationError (''Unknown chain ID: '' @ ff_hex_alt X felt)))"

section \<open>Validated values\<close>

datatype FeltHex = FeltHex string

definition felthex_parse :: "'f felt_format \<Rightarrow> string \<Rightarrow> DomainError + FeltHex" where
  "felthex_parse X v =
     and_then (map_err InvalidFeltHex (ff_from_hex X v)) (\<lambda>felt.
       let canonical = ff_hex_064 X felt;
           trimmed = (case strip_prefix ''0x'' v of Some s \<Rightarrow> s | None \<Rightarrow> v);
           is_canonical = (str_len trimmed \<le> 64 \<and> pad_left 64 (to_ascii_lowercase trimmed) = canonical)
       in if \<not> is_canonical
          then Inl (InvalidFeltHex (''value is not a canonical field element: '' @ v))
          else Inr (FeltHex (''0x'' @ canonical)))"

definition felthex_from_felt :: "'f felt_format \<Rightarrow> 'f \<Rightarrow> FeltHex" where
  "felthex_from_felt X felt = FeltHex (''0x'' @ ff_hex_064 X felt)"

fun felthex_str :: "FeltHex \<Rightarrow> string" where
  "felthex_str (FeltHex s) = s"

text \<open>The \<open>expect\<close> of \<open>to_felt\<close> is on the result of parsing a stored value.\<close>

definition felthex_to_felt :: "'f felt_format \<Rightarrow> FeltHex \<Rightarrow> 'f" where
  "felthex_to_felt X h =
     expect ''FeltHex stores only validated values''
       (case ff_from_hex X (felthex_str h) of Inr f \<Rightarrow> Some f | Inl _ \<Rightarrow> None)"

datatype HexBytes = HexBytes string

definition hexbytes_parse :: "string \<Rightarrow> DomainError + HexBytes" where
  "hexbytes_parse v =
     (let trimmed = trim v;
          normalized = (case strip_prefix ''0x'' trimmed of
              Some s \<Rightarrow> s
            | None \<Rightarrow> (case strip_prefix ''0X'' trimmed of Some s \<Rightarrow> s | None \<Rightarrow> trimmed))
      in if str_len normalized mod 2 \<noteq> 0
         then Inl (InvalidHexBytes ''hex byte strings must have an even number of digits'')
         else if \<not> list_all is_ascii_hexdigit normalized
         then Inl (InvalidHexBytes ''value contains non-hex characters'')
         else Inr (HexBytes (to_ascii_lowercase normalized)))"

definition hexbytes_from_bytes :: "'f felt_format \<Rightarrow> byte list \<Rightarrow> HexBytes" where
  "hexbytes_from_bytes X bytes = HexBytes (hex_encode X bytes)"

fun hexbytes_str :: "HexBytes \<Rightarrow> string" where
  "hexbytes_str (HexBytes s) = s"

definition hexbytes_to_vec :: "'f felt_format \<Rightarrow> HexBytes \<Rightarrow> byte list" where
  "hexbytes_to_vec X h = expect ''HexBytes stores only validated values'' (hex_decode X (hexbytes_str h))"

definition hexbytes_to_array :: "'f felt_format \<Rightarrow> nat \<Rightarrow> HexBytes \<Rightarrow> DomainError + byte list" where
  "hexbytes_to_array X n h =
     (let bytes = hexbytes_to_vec X h
      in if length bytes = n then Inr bytes
         else Inl (InvalidHexBytes (''expected exactly '' @ show_nat n @ '' bytes, got '' @ show_nat (length bytes))))"

datatype SecretRef = SecretRef string

definition looks_like_raw_secret_material :: "string \<Rightarrow> bool" where
  "looks_like_raw_secret_material v =
     (let trimmed = trim v;
          (has_0x, hex_body) =
            (case (case strip_prefix ''0x'' trimmed of Some s \<Rightarrow> Some s | None \<Rightarrow> strip_prefix ''0X'' trimmed) of
               Some body \<Rightarrow> (True, body)
             | None \<Rightarrow> (False, trimmed));
          significant_len = str_len (dropWhile (\<lambda>c. c = CHR ''0'') hex_body);
          widths = [str_len hex_body, significant_len]
      in hex_body \<noteq> [] \<and> list_all is_ascii_hexdigit hex_body \<and>
           (has_0x \<and> list_ex (\<lambda>w. w \<le> 64) widths \<or>
            \<not> has_0x \<and> list_ex (\<lambda>w. 48 \<le> w \<and> w \<le> 64) widths) \<or>
         word_count trimmed \<ge> 12)"

definition secret_ref_new :: "string \<Rightarrow> DomainError + SecretRef" where
  "secret_ref_new v =
     (if trim v = [] then Inl (EmptyField ''secret_ref'')
      else if looks_like_raw_secret_material v
      then Inl (InvalidSecretRef ''must be an opaque identifier, not raw key material'')
      else Inr (SecretRef v))"

datatype OperationId = OperationId string

definition operation_id_new :: "string \<Rightarrow> DomainError + OperationId" where
  "operation_id_new v = (if trim v = [] then Inl (EmptyField ''operation_id'') else Inr (OperationId v))"

section \<open>Accounts\<close>

datatype KeyDomain = StarknetAccount | TongoAccount | NostrEvent

fun expected_coin_type :: "KeyDomain \<Rightarrow> u32" where
  "expected_coin_type StarknetAccount = 9004"
| "expected_coin_type TongoAccount = 5454"
| "expected_coin_type NostrEvent = 1237"

fun show_key_domain :: "KeyDomain \<Rightarrow> string" where
  "show_key_domain StarknetAccount = ''StarknetAccount''"
| "show_key_domain TongoAccount = ''TongoAccount''"
| "show_key_domain NostrEvent = ''NostrEvent''"

record DerivationPath =
  dp_coin_type :: u32
  dp_account_index :: u32
  dp_address_index :: u32

definition validate_for :: "DerivationPath \<Rightarrow> KeyDomain \<Rightarrow> DomainError + DerivationPath" where
  "validate_for path domain =
     (if dp_coin_type path \<noteq> expected_coin_type domain
      then Inl (DomainError.InvalidDerivationPath
             (''coin_type '' @ show_nat (unat (dp_coin_type path)) @ '' does not match '' @ show_key_domain domain @
              '' domain (expected '' @ show_nat (unat (expected_coin_type domain)) @ '')''))
      else Inr path)"

datatype SaltPolicySpec = PublicKey | Zero | Explicit FeltHex

datatype AccountClassKind = OpenZeppelin | Argent | Braavos

record AccountClassSpec =
  cs_kind :: AccountClassKind
  cs_class_hash :: "FeltHex option"
  cs_source_label :: "string option"
  cs_allow_unlisted_class_hash :: bool

record DerivationRequest =
  dr_secret :: SecretRef
  dr_key_domain :: KeyDomain
  dr_chain_id :: ChainId
  dr_path :: DerivationPath
  dr_account_class :: AccountClassSpec
  dr_salt_policy :: SaltPolicySpec

definition derivation_validate :: "DerivationRequest \<Rightarrow> DomainError + unit" where
  "derivation_validate self = and_then (validate_for (dr_path self) (dr_key_domain self)) (\<lambda>_. Inr ())"

record Provenance =
  pv_chain_id :: ChainId
  pv_key_domain :: KeyDomain
  pv_derivation_path :: DerivationPath
  pv_class_hash :: "FeltHex option"

record AccountDescriptor =
  ac_address :: FeltHex
  ac_public_key :: FeltHex
  ac_class_hash :: FeltHex
  ac_salt :: FeltHex
  ac_constructor_calldata :: "FeltHex list"
  ac_deployer_address :: FeltHex
  ac_provenance :: Provenance

datatype DeploymentState = Undeployed | Deploying FeltHex | Deployed | Rejected GatewayError

record CheckDeploymentResult =
  cd_account :: AccountDescriptor
  cd_deployment :: DeploymentState

section \<open>Runtime\<close>

datatype QueryMode = ActiveView | BackgroundView

datatype BlockSelector = Latest | Pending | Number u64 | Hash FeltHex

record TrackedToken =
  tt_symbol :: string
  tt_address :: FeltHex
  tt_decimals :: u8

record CachePolicy =
  cp_ttl_ms :: u64
  cp_stale_while_revalidate_ms :: u64

definition cache_policy_with_ttl :: "u64 \<Rightarrow> u64 \<Rightarrow> DomainError + CachePolicy" where
  "cache_policy_with_ttl ttl_ms stale =
     (if ttl_ms = 0 then Inl (DomainError.InvalidCachePolicy ''ttl_ms must be greater than zero'')
      else Inr \<lparr>cp_ttl_ms = ttl_ms, cp_stale_while_revalidate_ms = stale\<rparr>)"

record WaitPolicy =
  wp_poll_interval_ms :: u64
  wp_timeout_ms :: u64

definition MIN_POLL_INTERVAL_MS :: u64 where
  "MIN_POLL_INTERVAL_MS = 250"

definition wait_policy_new :: "u64 \<Rightarrow> u64 \<Rightarrow> DomainError + WaitPolicy" where
  "wait_policy_new poll_interval_ms timeout_ms =
     (if poll_interval_ms < MIN_POLL_INTERVAL_MS
      then Inl (DomainError.InvalidWaitPolicy ''poll_interval_ms must be at least 250'')
      else if timeout_ms = 0
      then Inl (DomainError.InvalidWaitPolicy ''timeout_ms must be greater than zero'')
      else Inr \<lparr>wp_poll_interval_ms = poll_interval_ms, wp_timeout_ms = timeout_ms\<rparr>)"

datatype DeployMode = SubmitOnly | WaitForAcceptance WaitPolicy

record DeployAccountRequest =
  da_derivation :: DerivationRequest
  da_mode :: DeployMode

record DeployAccountResult =
  dar_account :: AccountDescriptor
  dar_deployment :: DeploymentState
  dar_already_deployed :: bool

datatype CacheStatus = Miss | Hit | Stale

record CacheMetadata =
  cm_status :: CacheStatus
  cm_generated_at_ms :: u64
  cm_age_ms :: u64

record AccountSnapshotRequest =
  sr_chain_id :: ChainId
  sr_address :: FeltHex
  sr_tokens :: "TrackedToken list"
  sr_block :: BlockSelector
  sr_mode :: QueryMode
  sr_cache_policy :: CachePolicy

record TokenBalanceSnapshot =
  tb_token :: TrackedToken
  tb_amount_raw :: string

record SnapshotBlockMetadata =
  sb_selector :: BlockSelector
  sb_block_hash :: "FeltHex option"
  sb_block_number :: "u64 option"

record AccountSnapshot =
  as_address :: FeltHex
  as_deployment :: DeploymentState
  as_nonce :: "FeltHex option"
  as_balances :: "TokenBalanceSnapshot list"
  as_block :: SnapshotBlockMetadata
  as_cache :: CacheMetadata

datatype OperationKind = DeriveAccount | CheckDeployment | DeployAccount | Sign | QueryAccountSnapshot

datatype OperationState =
    Queued
  | Running
  | Completed
  | Submitted FeltHex
  | Accepted FeltHex
  | Rejected GatewayError
  | Expired

record OperationStatus =
  os_id :: OperationId
  os_kind :: OperationKind
  os_state :: OperationState
  os_provenance :: "Provenance option"

section \<open>Signing\<close>

datatype StarkSignDomain = TransactionHash | TypedDataHash

datatype StarkKeyDomain = StarknetAccount | TongoAccount

fun stark_key_domain :: "StarkKeyDomain \<Rightarrow> KeyDomain" where
  "stark_key_domain StarkKeyDomain.StarknetAccount = KeyDomain.StarknetAccount"
| "stark_key_domain StarkKeyDomain.TongoAccount = KeyDomain.TongoAccount"

datatype RawMessagePayload = Hex HexBytes | Utf8 string

text \<open>
  The fields of a request in the order of the source: secret, key domain, path, chain, signing domain, hash and the
  opt-in for blind signing of a hash; secret, key domain, path, message and opt-in; secret, path and event;
  secret, path and payload.
\<close>

datatype SignRequest =
    StarkHash SecretRef StarkKeyDomain DerivationPath ChainId StarkSignDomain FeltHex bool
  | StarkRawMessage SecretRef StarkKeyDomain DerivationPath FeltHex bool
  | NostrEvent SecretRef DerivationPath HexBytes
  | NostrRawMessage SecretRef DerivationPath RawMessagePayload

fun sign_key_domain :: "SignRequest \<Rightarrow> KeyDomain" where
  "sign_key_domain (StarkHash _ key_domain _ _ _ _ _) = stark_key_domain key_domain"
| "sign_key_domain (StarkRawMessage _ key_domain _ _ _) = stark_key_domain key_domain"
| "sign_key_domain (SignRequest.NostrEvent _ _ _) = KeyDomain.NostrEvent"
| "sign_key_domain (NostrRawMessage _ _ _) = KeyDomain.NostrEvent"

fun sign_derivation_path :: "SignRequest \<Rightarrow> DerivationPath" where
  "sign_derivation_path (StarkHash _ _ path _ _ _ _) = path"
| "sign_derivation_path (StarkRawMessage _ _ path _ _) = path"
| "sign_derivation_path (SignRequest.NostrEvent _ path _) = path"
| "sign_derivation_path (NostrRawMessage _ path _) = path"

fun sign_secret :: "SignRequest \<Rightarrow> SecretRef" where
  "sign_secret (StarkHash secret _ _ _ _ _ _) = secret"
| "sign_secret (StarkRawMessage secret _ _ _ _) = secret"
| "sign_secret (SignRequest.NostrEvent secret _ _) = secret"
| "sign_secret (NostrRawMessage secret _ _) = secret"

fun sign_chain_id :: "SignRequest \<Rightarrow> ChainId option" where
  "sign_chain_id (StarkHash _ _ _ chain_id _ _ _) = Some chain_id"
| "sign_chain_id _ = None"

fun sign_validate :: "'f felt_format \<Rightarrow> SignRequest \<Rightarrow> DomainError + unit" where
  "sign_validate X (StarkHash _ key_domain path _ _ _ allow_raw_stark_hash) =
     and_then (validate_for path (stark_key_domain key_domain)) (\<lambda>_.
       if \<not> allow_raw_stark_hash
       then Inl (InvalidSignRequest
              ''stark_hash signing requires allow_raw_stark_hash=true; prefer typed/structured sign paths'')
       else Inr ())"
| "sign_validate X (StarkRawMessage _ key_domain path _ allow_raw_stark_hash) =
     and_then (validate_for path (stark_key_domain key_domain)) (\<lambda>_.
       if \<not> allow_raw_stark_hash
       then Inl (InvalidSignRequest
              ''stark_raw_message signing requires allow_raw_stark_hash=true; prefer typed/structured sign paths'')
       else Inr ())"
| "sign_validate X (SignRequest.NostrEvent _ path event_id) =
     and_then (validate_for path KeyDomain.NostrEvent) (\<lambda>_.
     and_then (hexbytes_to_array X 32 event_id) (\<lambda>_. Inr ()))"
| "sign_validate X (NostrRawMessage _ path payload) =
     and_then (validate_for path KeyDomain.NostrEvent) (\<lambda>_. Inr ())"

datatype SignResult =
    StarkEcdsa FeltHex FeltHex FeltHex
  | NostrBip340 HexBytes HexBytes

section \<open>Hex values are canonical\<close>

text \<open>
  What the code relies on of the text forms: those of \<open>felt_text\<close>, the zero-padded lower-case format of a felt, and
  the two digits per byte of the \<open>hex\<close> crate.
\<close>

locale felt_format_laws = felt_text S "ff_hex_alt X" "ff_from_hex X"
  for S :: "('f, 'p, 'a, 'r) starknet" and X :: "'f felt_format" +
  assumes hex_064: "ff_hex_064 X f = pad_left 64 (show_hex (felt_val S f))"
    and hex_encode_bytes: "hex_encode X bs = concat (map hex_byte bs)"
    and hex_decode_digits: "list_all is_ascii_hexdigit s \<Longrightarrow> even (length s) \<Longrightarrow> hex_decode X s = Some (hex_bytes s)"
begin

lemma hex_064_digits:
  "length (ff_hex_064 X f) = 64" "list_all is_lower_hexdigit (ff_hex_064 X f)" "hex_val (ff_hex_064 X f) = felt_val S f"
proof -
  have "felt_val S f < 16 ^ 64" using felt_val_less [of f] by (simp add: FELT_PRIME_def)
  then have "length (show_hex (felt_val S f)) \<le> 64" by (rule length_show_hex) simp
  from pad_left_hex [OF this show_hex_lower] show
    "length (ff_hex_064 X f) = 64" "list_all is_lower_hexdigit (ff_hex_064 X f)" "hex_val (ff_hex_064 X f) = felt_val S f"
    using show_hex_ok [of "felt_val S f"] by (simp_all add: hex_064)
qed

lemma lower_digits: "list_all is_lower_hexdigit s \<Longrightarrow> list_all is_ascii_hexdigit s"
  by (auto simp: list_all_iff lower_is_hexdigit)

lemma felthex_to_from: "felthex_to_felt X (felthex_from_felt X f) = f"
proof -
  have "ff_from_hex X (''0x'' @ ff_hex_064 X f) = Inr (felt_from S (hex_val (ff_hex_064 X f)))"
    using hex_064_digits [of f] felt_val_less [of f] by (intro of_hex_digits) (auto intro: lower_digits)
  then show ?thesis
    by (simp add: felthex_to_felt_def felthex_from_felt_def hex_064_digits(3) felt_from_val)
qed

lemma felthex_parse_iff:
  assumes "list_all is_ascii_hexdigit ds" and "ds \<noteq> []"
  shows "felthex_parse X (''0x'' @ ds) = Inr h \<longleftrightarrow>
    length ds \<le> 64 \<and> hex_val ds < FELT_PRIME \<and> h = felthex_from_felt X (felt_from S (hex_val ds))"
proof -
  have strip: "strip_prefix ''0x'' (''0x'' @ ds) = Some ds" by (simp add: strip_prefix_def)
  note low = to_ascii_lowercase_hex [OF assms(1)]
  have len: "str_len ds = length ds" by (rule str_len_hex [OF assms(1)])
  have canon: "pad_left 64 (to_ascii_lowercase ds) = ff_hex_064 X f \<longleftrightarrow> hex_val ds = felt_val S f"
    if "length ds \<le> 64" for f
    using pad_left_hex [of "to_ascii_lowercase ds"] that low hex_064_digits [of f] hex_val_inj by metis
  show ?thesis
  proof (cases "length ds \<le> 64 \<and> hex_val ds < FELT_PRIME")
    case True
    then have f: "ff_from_hex X (''0x'' @ ds) = Inr (felt_from S (hex_val ds))"
      using assms by (intro of_hex_digits) auto
    have v: "hex_val ds = felt_val S (felt_from S (hex_val ds))" using True by (simp add: felt_val_from)
    have "pad_left 64 (to_ascii_lowercase ds) = ff_hex_064 X (felt_from S (hex_val ds))"
      using canon [of "felt_from S (hex_val ds)"] True v by blast
    then show ?thesis
      using True strip len f by (auto simp: felthex_parse_def felthex_from_felt_def Let_def)
  next
    case False
    then have "\<not> (length ds \<le> 64 \<and> pad_left 64 (to_ascii_lowercase ds) = ff_hex_064 X f)" for f
      using canon [of f] felt_val_less [of f] by auto
    then show ?thesis
      using False strip len by (auto simp: felthex_parse_def Let_def result_iffs)
  qed
qed

lemma felthex_parse_canonical: "felthex_parse X (felthex_str (felthex_from_felt X f)) = Inr (felthex_from_felt X f)"
proof -
  have "felthex_parse X (''0x'' @ ff_hex_064 X f) = Inr (felthex_from_felt X f)"
    by (subst felthex_parse_iff) (use hex_064_digits [of f] felt_val_less [of f] in \<open>auto intro: lower_digits simp: felt_from_val\<close>)
  then show ?thesis by (simp add: felthex_from_felt_def)
qed

lemma hexbytes_to_from: "hexbytes_to_vec X (hexbytes_from_bytes X bs) = bs"
  using concat_hex_byte [of bs]
  by (simp add: hexbytes_to_vec_def hexbytes_from_bytes_def hex_encode_bytes hex_decode_digits lower_digits hex_bytes_concat)

lemma hexbytes_parse_canonical: "hexbytes_parse (hexbytes_str (hexbytes_from_bytes X bs)) = Inr (hexbytes_from_bytes X bs)"
proof -
  define s where "s = concat (map hex_byte bs)"
  note ok = concat_hex_byte [of bs, folded s_def]
  have dig: "list_all is_ascii_hexdigit s" by (rule lower_digits [OF ok(1)])
  have ws: "\<not> is_whitespace c" if "c \<in> set s" for c
    using that dig by (auto simp: list_all_iff is_ascii_hexdigit_def is_whitespace_def Let_def)
  have tr: "trim s = s"
  proof (cases "s = []")
    case False
    then show ?thesis using ws by (intro trim_id) auto
  qed (simp add: trim_def)
  have no: "strip_prefix [CHR ''0'', c] s = None" if "\<not> is_ascii_hexdigit c" for c
  proof (rule ccontr)
    assume "\<not> ?thesis"
    then have "take 2 s = [CHR ''0'', c]" by (auto simp: strip_prefix_def numeral_2_eq_2 split: if_splits)
    then have "c \<in> set s" by (metis in_set_takeD list.set_intros(1,2))
    with that dig show False by (auto simp: list_all_iff)
  qed
  have "strip_prefix ''0x'' s = None" "strip_prefix ''0X'' s = None"
    by (rule no, simp add: is_ascii_hexdigit_def)+
  then show ?thesis
    using tr dig ok str_len_hex [OF dig]
    by (simp add: hexbytes_parse_def hexbytes_from_bytes_def hex_encode_bytes s_def [symmetric] to_ascii_lowercase_id)
qed

end

text \<open>The text forms on the concrete instance.\<close>

definition zformat :: "zfelt felt_format" where
  "zformat = \<lparr>ff_from_hex = zfelt_of_hex, ff_hex_064 = \<lambda>f. pad_left 64 (show_hex (felt_val stark_dlog f)),
     ff_hex_alt = zfelt_hex, hex_encode = \<lambda>bs. concat (map hex_byte bs), hex_decode = \<lambda>s. Some (hex_bytes s)\<rparr>"

interpretation zfmt: felt_format_laws stark_dlog zformat
  by (intro felt_format_laws.intro felt_format_laws_axioms.intro)
    (simp_all add: zformat_def dlog.felt_text_axioms)

section \<open>Secret references carry no key material\<close>

lemma dropWhile_all: "list_all P l \<Longrightarrow> dropWhile P (l @ s) = dropWhile P s"
  by (induction l) simp_all

lemma trim_spaces:
  assumes "list_all is_whitespace l" and "list_all is_whitespace r" and "s \<noteq> []"
    and "\<not> is_whitespace (hd s)" and "\<not> is_whitespace (last s)"
  shows "trim (l @ s @ r) = s"
proof -
  have "dropWhile is_whitespace (l @ s @ r) = s @ r"
    using assms(1,3,4) by (cases s) (simp_all add: dropWhile_all)
  moreover have "dropWhile is_whitespace (rev r @ rev s) = rev s"
    using assms(2,3,5) by (cases s rule: rev_cases) (simp_all add: dropWhile_all)
  ultimately show ?thesis by (simp add: trim_def)
qed

lemma hexdigit_not_space: "is_ascii_hexdigit c \<Longrightarrow> \<not> is_whitespace c"
  by (auto simp: is_ascii_hexdigit_def is_whitespace_def Let_def)

lemma significant_hex: "list_all is_ascii_hexdigit ds \<Longrightarrow> str_len (significant ds) = length (significant ds)"
  by (rule str_len_hex) (auto simp: list_all_iff dest: set_dropWhileD)

lemma prefixed_key_refused:
  assumes "list_all is_ascii_hexdigit ds" and "ds \<noteq> []" and "hex_val ds < 16 ^ 64" and "pre \<in> {''0x'', ''0X''}"
    and "trim v = pre @ ds"
  shows "looks_like_raw_secret_material v"
proof -
  have "(case strip_prefix ''0x'' (pre @ ds) of Some s \<Rightarrow> Some s | None \<Rightarrow> strip_prefix ''0X'' (pre @ ds)) = Some ds"
    using assms(4) by (auto simp: strip_prefix_def)
  then show ?thesis
    using assms(1,2) significant_length(1) [OF assms(1,3)] significant_hex [OF assms(1)]
    by (simp add: looks_like_raw_secret_material_def assms(5))
qed

lemma bare_key_refused:
  assumes "list_all is_ascii_hexdigit ds" and "16 ^ 47 \<le> hex_val ds" and "hex_val ds < 16 ^ 64" and "trim v = ds"
  shows "looks_like_raw_secret_material v"
proof -
  have no: "strip_prefix [CHR ''0'', c] ds = None" if "\<not> is_ascii_hexdigit c" for c
  proof (rule ccontr)
    assume "\<not> ?thesis"
    then have "take 2 ds = [CHR ''0'', c]" by (auto simp: strip_prefix_def numeral_2_eq_2 split: if_splits)
    then have "c \<in> set ds" by (metis in_set_takeD list.set_intros(1,2))
    with that assms(1) show False by (auto simp: list_all_iff)
  qed
  have "strip_prefix ''0x'' ds = None" "strip_prefix ''0X'' ds = None"
    by (rule no, simp add: is_ascii_hexdigit_def)+
  moreover have "47 < length (significant ds)" "length (significant ds) \<le> 64"
    using significant_length [OF assms(1)] assms(2,3) by blast+
  moreover have "ds \<noteq> []" using assms(2) by auto
  ultimately show ?thesis
    using assms(1) significant_hex [OF assms(1)] by (simp add: looks_like_raw_secret_material_def assms(4))
qed

section \<open>Properties\<close>

text \<open>
  C31. A secret reference never is a private key. Every hex rendering of a 32-byte value with the prefix \<open>0x\<close> or
  \<open>0X\<close>, in any case, padded with any number of zeros and surrounded by any white space, is refused, and so is a
  rendering without the prefix of any value of at least 48 significant digits.
\<close>

theorem secret_ref_refuses_keys:
  assumes "list_all is_ascii_hexdigit ds" and "ds \<noteq> []" and "hex_val ds < 16 ^ 64"
    and "list_all is_whitespace l" and "list_all is_whitespace r"
  shows "(pre \<in> {''0x'', ''0X''} \<longrightarrow> secret_ref_new (l @ (pre @ ds) @ r) =
      Inl (InvalidSecretRef ''must be an opaque identifier, not raw key material'')) \<and>
    (16 ^ 47 \<le> hex_val ds \<longrightarrow> secret_ref_new (l @ ds @ r) =
      Inl (InvalidSecretRef ''must be an opaque identifier, not raw key material''))"
proof (intro conjI impI)
  have ds: "\<not> is_whitespace (hd ds)" "\<not> is_whitespace (last ds)"
    using assms(1,2) hexdigit_not_space by (simp_all add: list_all_iff)
  show "secret_ref_new (l @ (pre @ ds) @ r) = Inl (InvalidSecretRef ''must be an opaque identifier, not raw key material'')"
    if pre: "pre \<in> {''0x'', ''0X''}"
  proof -
    have "trim (l @ (pre @ ds) @ r) = pre @ ds"
      using ds assms(2) pre by (intro trim_spaces assms(4,5)) (auto simp: is_whitespace_def)
    with prefixed_key_refused [OF assms(1-3) pre this] pre show ?thesis
      by (auto simp: secret_ref_new_def)
  qed
  show "secret_ref_new (l @ ds @ r) = Inl (InvalidSecretRef ''must be an opaque identifier, not raw key material'')"
    if big: "16 ^ 47 \<le> hex_val ds"
  proof -
    have "trim (l @ ds @ r) = ds" by (intro trim_spaces assms(2,4,5) ds)
    with bare_key_refused [OF assms(1) big assms(3) this] assms(2) show ?thesis
      by (simp add: secret_ref_new_def)
  qed
qed

theorem secret_ref_refuses_keys_witness:
  "secret_ref_new ('' '' @ (''0x'' @ replicate 70 CHR ''0'' @ ''1aF'') @ []) =
     Inl (InvalidSecretRef ''must be an opaque identifier, not raw key material'') \<and>
   secret_ref_new ([] @ (CHR ''1'' # replicate 60 CHR ''c'') @ []) =
     Inl (InvalidSecretRef ''must be an opaque identifier, not raw key material'')"
proof
  have d: "list_all is_ascii_hexdigit (replicate 70 CHR ''0'' @ ''1aF'')"
    "list_all is_ascii_hexdigit (CHR ''1'' # replicate 60 CHR ''c'')"
    by (simp_all add: list_all_iff is_ascii_hexdigit_def)
  have v: "hex_val (replicate 70 CHR ''0'' @ ''1aF'') = 431"
    unfolding hex_val_zeros by (simp add: hex_val_def hex_digit_val_def)
  show "secret_ref_new ('' '' @ (''0x'' @ replicate 70 CHR ''0'' @ ''1aF'') @ []) =
     Inl (InvalidSecretRef ''must be an opaque identifier, not raw key material'')"
    using secret_ref_refuses_keys [OF d(1), of "'' ''" "[]" "''0x''"] by (simp add: v is_whitespace_def)
  have "hex_val (CHR ''1'' # replicate 60 CHR ''c'') = 1 * 16 ^ 60 + hex_val (replicate 60 CHR ''c'')"
    using hex_val_append [of "''1''" "replicate 60 CHR ''c''"] by (simp add: hex_val_def hex_digit_val_def)
  moreover have "hex_val (CHR ''1'' # replicate 60 CHR ''c'') < 16 ^ 61" using hex_val_less [OF d(2)] by simp
  ultimately show "secret_ref_new ([] @ (CHR ''1'' # replicate 60 CHR ''c'') @ []) =
     Inl (InvalidSecretRef ''must be an opaque identifier, not raw key material'')"
    using secret_ref_refuses_keys [OF d(2), of "[]" "[]"] by simp
qed

text \<open>
  Felt values on the wire are canonical. A text of hex digits after \<open>0x\<close> is accepted exactly when it has at most
  64 digits and is below the field prime, so no two numbers share a value; the value keeps the number, and the text it
  prints is accepted as itself.
\<close>

theorem felthex_exact:
  assumes "felt_format_laws S X" and "list_all is_ascii_hexdigit ds" and "ds \<noteq> []"
  shows "(felthex_parse X (''0x'' @ ds) = Inr h \<longleftrightarrow>
      length ds \<le> 64 \<and> hex_val ds < FELT_PRIME \<and> h = felthex_from_felt X (felt_from S (hex_val ds))) \<and>
    felthex_to_felt X (felthex_from_felt X f) = f \<and>
    felthex_parse X (felthex_str (felthex_from_felt X f)) = Inr (felthex_from_felt X f)"
  using felt_format_laws.felthex_parse_iff [OF assms] felt_format_laws.felthex_to_from [OF assms(1)]
    felt_format_laws.felthex_parse_canonical [OF assms(1)] by blast

theorem felthex_exact_witness:
  "felthex_parse zformat ''0x1F'' = Inr (felthex_from_felt zformat (zfelt_of 31)) \<and>
   felthex_to_felt zformat (felthex_from_felt zformat (zfelt_of 31)) = zfelt_of 31"
proof -
  have "hex_val ''1F'' = 31" by (simp add: hex_val_def hex_digit_val_def)
  moreover have "list_all is_ascii_hexdigit ''1F''" by (simp add: is_ascii_hexdigit_def)
  ultimately show ?thesis
    using felthex_exact [OF zfmt.felt_format_laws_axioms, of "''1F''" "felthex_from_felt zformat (zfelt_of 31)" "zfelt_of 31"]
    by (simp add: FELT_PRIME_def dlog_num)
qed

end
