(* ===== verification/Stark_Signing.thy ===== *)
theory Stark_Signing
  imports Gateway_Domain
begin

text \<open>
  \<open>crates/kms/src/stark_signing.rs\<close>: Stark keys and deterministic signatures. The lemmas show that key validation is
  exact, so the third-party code never sees a key it would panic on, and that the retry loop of signing returns the
  first acceptable signature, whenever there is one.
\<close>

section \<open>What the code uses of other crates\<close>

text \<open>
  The rest of \<open>Felt\<close> and \<open>starknet-crypto\<close>: the product and \<open>sqrt\<close>, the reduction \<open>normalize_address\<close>,
  \<open>get_public_key\<close>, \<open>rfc6979_generate_k\<close> and \<open>sign\<close>, whose error is one of the variants the code matches.
\<close>

datatype SignError = InvalidMessageHash | InvalidK

record 'f stark_crypto =
  felt_mul :: "'f \<Rightarrow> 'f \<Rightarrow> 'f"
  felt_sqrt :: "'f \<Rightarrow> 'f option"
  normalize_address :: "'f \<Rightarrow> 'f"
  get_public_key :: "'f \<Rightarrow> 'f"
  rfc6979_generate_k :: "'f \<Rightarrow> 'f \<Rightarrow> 'f option \<Rightarrow> 'f"
  ecdsa_sign :: "'f \<Rightarrow> 'f \<Rightarrow> 'f \<Rightarrow> SignError + ('f \<times> 'f)"

section \<open>Model\<close>

definition STARK_CURVE_ORDER_HEX :: string where
  "STARK_CURVE_ORDER_HEX = ''0x0800000000000010ffffffffffffffffb781126dcae7b2321e66a241adc64d2f''"

definition STARK_BETA :: "('f, 'p, 'a, 'r) starknet \<Rightarrow> 'f" where
  "STARK_BETA S = felt_from S 0x6f21413efbe40de150e596d72f7a8c5609ad26c15c915c1f4cdfcb99cee9e89"

definition is_stark_public_key :: "('f, 'p, 'a, 'r) starknet \<Rightarrow> 'f stark_crypto \<Rightarrow> 'f \<Rightarrow> bool" where
  "is_stark_public_key S K x =
     (let y_squared = felt_add S (felt_add S (felt_mul K (felt_mul K x x) x) x) (STARK_BETA S)
      in felt_sqrt K y_squared \<noteq> None)"

record 'f StarkSignature =
  sg_public_key :: 'f
  sg_r :: 'f
  sg_s :: 'f

text \<open>The order of felts is that of the integers they stand for.\<close>

definition validate_stark_private_key :: "('f, 'p, 'a, 'r) starknet \<Rightarrow> 'f felt_format \<Rightarrow> 'f \<Rightarrow> unit result" where
  "validate_stark_private_key S X private_key =
     and_then (map_err (\<lambda>e. CryptoError (''invalid curve order constant: '' @ e)) (ff_from_hex X STARK_CURVE_ORDER_HEX))
       (\<lambda>order.
          if private_key = felt_zero S \<or> felt_val S private_key \<ge> felt_val S order
          then Inl (CryptoError ''stark private key must be in [1, curve_order)'')
          else Inr ())"

definition stark_public_key ::
    "('f, 'p, 'a, 'r) starknet \<Rightarrow> 'f felt_format \<Rightarrow> 'f stark_crypto \<Rightarrow> 'f \<Rightarrow> 'f result" where
  "stark_public_key S X K private_key =
     and_then (validate_stark_private_key S X private_key) (\<lambda>_. Inr (get_public_key K private_key))"

text \<open>The loop of \<open>sign_stark_hash\<close>. It ends only when \<open>sign\<close> accepts a nonce or refuses the message.\<close>

partial_function (option) sign_loop ::
    "('f, 'p, 'a, 'r) starknet \<Rightarrow> 'f stark_crypto \<Rightarrow> 'f \<Rightarrow> 'f \<Rightarrow> 'f option \<Rightarrow> 'f StarkSignature result option" where
  "sign_loop S K private_key hash seed =
     (let k = rfc6979_generate_k K hash private_key seed
      in case ecdsa_sign K private_key hash k of
           Inr (r, s) \<Rightarrow> Some (Inr \<lparr>sg_public_key = get_public_key K private_key, sg_r = r, sg_s = s\<rparr>)
         | Inl e \<Rightarrow>
             if e = InvalidMessageHash
             then Some (Inl (CryptoError ''stark signing message hash is out of range''))
             else sign_loop S K private_key hash
                    (Some (felt_add S (case seed of Some f \<Rightarrow> f | None \<Rightarrow> felt_zero S) (felt_one S))))"

definition sign_stark_hash ::
    "('f, 'p, 'a, 'r) starknet \<Rightarrow> 'f felt_format \<Rightarrow> 'f stark_crypto \<Rightarrow> 'f \<Rightarrow> 'f \<Rightarrow> 'f StarkSignature result option" where
  "sign_stark_hash S X K private_key hash =
     (case validate_stark_private_key S X private_key of
        Inl e \<Rightarrow> Some (Inl e)
      | Inr _ \<Rightarrow> sign_loop S K private_key hash None)"

section \<open>What the code relies on\<close>

text \<open>
  The product and the square root of the field, addresses below \<open>2^251 - 256\<close>, and that the public key of a valid key
  is the \<open>x\<close> coordinate of a point of the curve \<open>y\<^sup>2 = x\<^sup>3 + x + \<beta>\<close>.
\<close>

locale stark_crypto_laws = felt_format_laws S X
  for S :: "('f, 'p, 'a, 'r) starknet" and X :: "'f felt_format" +
  fixes K :: "'f stark_crypto"
  assumes felt_val_mul: "felt_val S (felt_mul K f g) = felt_val S f * felt_val S g mod FELT_PRIME"
    and felt_sqrt_iff: "felt_sqrt K f \<noteq> None \<longleftrightarrow> (\<exists>g. felt_mul K g g = f)"
    and normalize_val: "felt_val S (normalize_address K f) = felt_val S f mod (2 ^ 251 - 256)"
    and public_key_on_curve: "0 < felt_val S k \<Longrightarrow> felt_val S k < CURVE_ORDER \<Longrightarrow>
      \<exists>y. felt_mul K y y =
        felt_add S (felt_add S (felt_mul K (felt_mul K (get_public_key K k) (get_public_key K k)) (get_public_key K k))
          (get_public_key K k)) (STARK_BETA S)"
begin

lemma order_hex: "ff_from_hex X STARK_CURVE_ORDER_HEX = Inr (felt_from S CURVE_ORDER)"
proof -
  define ds where "ds = ''0800000000000010ffffffffffffffffb781126dcae7b2321e66a241adc64d2f''"
  have "hex_val ds = CURVE_ORDER" unfolding ds_def hex_val_def CURVE_ORDER_def by (simp add: hex_digit_val_def)
  moreover have "list_all is_ascii_hexdigit ds" unfolding ds_def by (simp add: is_ascii_hexdigit_def)
  moreover have "CURVE_ORDER < FELT_PRIME" by (simp add: CURVE_ORDER_def FELT_PRIME_def)
  moreover have "STARK_CURVE_ORDER_HEX = ''0x'' @ ds" by (simp add: STARK_CURVE_ORDER_HEX_def ds_def)
  ultimately show ?thesis using of_hex_digits [of ds] by (simp add: ds_def)
qed

lemma validate_key_iff:
  "validate_stark_private_key S X k = Inr u \<longleftrightarrow> 0 < felt_val S k \<and> felt_val S k < CURVE_ORDER"
proof -
  have "felt_val S (felt_from S CURVE_ORDER) = CURVE_ORDER" by (simp add: felt_val_from CURVE_ORDER_def FELT_PRIME_def)
  moreover have "k = felt_zero S \<longleftrightarrow> felt_val S k = 0" by (rule felt_val_zero_iff [symmetric])
  ultimately show ?thesis by (auto simp: validate_stark_private_key_def order_hex)
qed

lemma is_stark_public_key_iff:
  "is_stark_public_key S K x \<longleftrightarrow>
    (\<exists>y. felt_val S y ^ 2 mod FELT_PRIME =
      (felt_val S x ^ 3 + felt_val S x + 0x6f21413efbe40de150e596d72f7a8c5609ad26c15c915c1f4cdfcb99cee9e89) mod FELT_PRIME)"
proof -
  define q where "q = felt_add S (felt_add S (felt_mul K (felt_mul K x x) x) x) (STARK_BETA S)"
  have "felt_val S q = (felt_val S x ^ 3 + felt_val S x + 0x6f21413efbe40de150e596d72f7a8c5609ad26c15c915c1f4cdfcb99cee9e89) mod FELT_PRIME"
    unfolding q_def STARK_BETA_def
    by (simp only: felt_val_add felt_val_mul felt_val_from mod_simps) (simp only: power3_eq_cube)
  moreover have "felt_mul K y y = q \<longleftrightarrow> felt_val S y ^ 2 mod FELT_PRIME = felt_val S q" for y
    by (simp add: felt_val_inj [symmetric] felt_val_mul power2_eq_square)
  ultimately show ?thesis
    unfolding is_stark_public_key_def Let_def q_def [symmetric] felt_sqrt_iff by simp
qed

lemma derived_is_public_key: "0 < felt_val S k \<Longrightarrow> felt_val S k < CURVE_ORDER \<Longrightarrow> is_stark_public_key S K (get_public_key K k)"
  using public_key_on_curve [of k] by (simp only: is_stark_public_key_def Let_def felt_sqrt_iff)

lemma stark_public_key_iff:
  "stark_public_key S X K k = Inr pk \<longleftrightarrow>
    0 < felt_val S k \<and> felt_val S k < CURVE_ORDER \<and> pk = get_public_key K k"
  by (auto simp: stark_public_key_def and_then_eq_Inr validate_key_iff)

end

section \<open>The retry loop\<close>

text \<open>The seed of the \<open>j\<close>-th attempt, and its outcome.\<close>

definition nonce_seed :: "('f, 'p, 'a, 'r) starknet \<Rightarrow> nat \<Rightarrow> 'f option" where
  "nonce_seed S j = (if j = 0 then None else Some (felt_from S j))"

definition attempt :: "('f, 'p, 'a, 'r) starknet \<Rightarrow> 'f stark_crypto \<Rightarrow> 'f \<Rightarrow> 'f \<Rightarrow> nat \<Rightarrow> SignError + ('f \<times> 'f)" where
  "attempt S K private_key hash j =
     ecdsa_sign K private_key hash (rfc6979_generate_k K hash private_key (nonce_seed S j))"

text \<open>What the loop returns for an attempt that ends it.\<close>

fun attempt_result :: "'f stark_crypto \<Rightarrow> 'f \<Rightarrow> SignError + ('f \<times> 'f) \<Rightarrow> 'f StarkSignature result option" where
  "attempt_result K private_key (Inr (r, s)) = Some (Inr \<lparr>sg_public_key = get_public_key K private_key, sg_r = r, sg_s = s\<rparr>)"
| "attempt_result K private_key (Inl InvalidMessageHash) =
     Some (Inl (CryptoError ''stark signing message hash is out of range''))"
| "attempt_result K private_key (Inl InvalidK) = None"

lemma attempt_result_None: "attempt_result K k a = None \<longleftrightarrow> a = Inl InvalidK"
  by (cases "(K, k, a)" rule: attempt_result.cases) auto

context felt_laws
begin

lemma next_seed: "Some (felt_add S (case nonce_seed S j of Some f \<Rightarrow> f | None \<Rightarrow> felt_zero S) (felt_one S)) = nonce_seed S (Suc j)"
proof -
  have "felt_add S (case nonce_seed S j of Some f \<Rightarrow> f | None \<Rightarrow> felt_zero S) (felt_one S) = felt_from S (Suc j)"
    by (rule iffD1 [OF felt_val_inj]) (cases j; simp add: nonce_seed_def felt_val_add felt_val_from mod_simps FELT_PRIME_def)
  then show ?thesis by (simp add: nonce_seed_def)
qed

lemma sign_loop_step:
  "sign_loop S K k h (nonce_seed S j) =
    (if attempt S K k h j = Inl InvalidK then sign_loop S K k h (nonce_seed S (Suc j)) else attempt_result K k (attempt S K k h j))"
proof -
  have "sign_loop S K k h (nonce_seed S j) =
    (case attempt S K k h j of
       Inr (r, s) \<Rightarrow> Some (Inr \<lparr>sg_public_key = get_public_key K k, sg_r = r, sg_s = s\<rparr>)
     | Inl e \<Rightarrow> if e = InvalidMessageHash then Some (Inl (CryptoError ''stark signing message hash is out of range''))
         else sign_loop S K k h (nonce_seed S (Suc j)))"
    by (subst sign_loop.simps) (simp only: Let_def attempt_def next_seed)
  then show ?thesis by (cases "(K, k, attempt S K k h j)" rule: attempt_result.cases) simp_all
qed

lemma sign_loop_first:
  assumes "\<And>i. i < m \<Longrightarrow> attempt S K k h (j + i) = Inl InvalidK"
  shows "sign_loop S K k h (nonce_seed S j) = sign_loop S K k h (nonce_seed S (j + m))"
  using assms
proof (induction m)
  case (Suc m)
  then have "sign_loop S K k h (nonce_seed S j) = sign_loop S K k h (nonce_seed S (j + m))" by simp
  also have "\<dots> = sign_loop S K k h (nonce_seed S (j + Suc m))" using Suc.prems [of m] by (subst sign_loop_step) simp
  finally show ?case .
qed simp

lemma sign_loop_ends:
  assumes "sign_loop S K k h (nonce_seed S j) = Some r"
  shows "\<exists>i \<ge> j. attempt S K k h i \<noteq> Inl InvalidK"
proof -
  have "\<forall>j. (S', K', k', h', seed) = (S, K, k, h, nonce_seed S j) \<longrightarrow> (\<exists>i \<ge> j. attempt S K k h i \<noteq> Inl InvalidK)"
    if "sign_loop S' K' k' h' seed = Some r'" for S' :: "('f, 'p, 'a, 'r) starknet" and K' k' h' seed r'
    using that
  proof (rule sign_loop.raw_induct [rotated], intro allI impI)
    fix loop S' K' k' h' seed r' j
    assume IH: "\<And>S' K' k' h' seed r'. loop S' K' k' h' seed = Some r' \<Longrightarrow>
        \<forall>j. (S', K', k', h', seed) = (S, K, k, h, nonce_seed S j) \<longrightarrow> (\<exists>i \<ge> j. attempt S K k h i \<noteq> Inl InvalidK)"
      and body: "(let k = rfc6979_generate_k K' h' k' seed in
        case ecdsa_sign K' k' h' k of
          Inl e \<Rightarrow> if e = InvalidMessageHash then Some (Inl (CryptoError ''stark signing message hash is out of range''))
            else loop S' K' k' h' (Some (felt_add S' (case seed of None \<Rightarrow> felt_zero S' | Some f \<Rightarrow> f) (felt_one S')))
        | Inr (r, s) \<Rightarrow> Some (Inr \<lparr>sg_public_key = get_public_key K' k', sg_r = r, sg_s = s\<rparr>)) = Some r'"
      and eq: "(S', K', k', h', seed) = (S, K, k, h, nonce_seed S j)"
    show "\<exists>i \<ge> j. attempt S K k h i \<noteq> Inl InvalidK"
    proof (cases "attempt S K k h j = Inl InvalidK")
      case True
      have e: "S' = S" "K' = K" "k' = k" "h' = h" "seed = nonce_seed S j" using eq by simp_all
      have "loop S K k h (nonce_seed S (Suc j)) = Some r'"
        using body unfolding e Let_def attempt_def [symmetric] next_seed True by simp
      from IH [OF this] show ?thesis by (auto intro: Suc_leD)
    qed auto
  qed
  from this [OF assms] show ?thesis by blast
qed

end

text \<open>An instance of the parameter, with the real field and one point of the curve for every key.\<close>

definition zkey_y :: nat where
  "zkey_y = 0x27ff039852193be63e77b8e6adc0b6fbe76e54ff6ad53510fdc370d58446a68"

lemma zkey_on_curve:
  "zkey_y * zkey_y mod FELT_PRIME = (1 * 1 * 1 + 1 + 0x6f21413efbe40de150e596d72f7a8c5609ad26c15c915c1f4cdfcb99cee9e89) mod FELT_PRIME"
proof -
  have "zkey_y * zkey_y = 1 * 1 * 1 + 1 + 0x6f21413efbe40de150e596d72f7a8c5609ad26c15c915c1f4cdfcb99cee9e89 +
      FELT_PRIME * 0xc7f62412508560cc82676bd124a7f9db92bc4c0e3026bc990c9d46968babb5"
    by (simp add: zkey_y_def FELT_PRIME_def)
  then show ?thesis by (simp only: mod_mult_self2)
qed

definition zcrypto :: "zfelt stark_crypto" where
  "zcrypto = \<lparr>
     felt_mul = (\<lambda>f g. zfelt_of (Rep_zfelt f * Rep_zfelt g)),
     felt_sqrt = (\<lambda>f. if \<exists>g. zfelt_of (Rep_zfelt g * Rep_zfelt g) = f then Some f else None),
     normalize_address = (\<lambda>f. zfelt_of (Rep_zfelt f mod (2 ^ 251 - 256))),
     get_public_key = (\<lambda>k. zfelt_of 1),
     rfc6979_generate_k = (\<lambda>h k seed. case seed of None \<Rightarrow> zfelt_of 0 | Some f \<Rightarrow> f),
     ecdsa_sign = (\<lambda>k h nonce. if nonce = zfelt_of 0 then Inl InvalidK else Inr (nonce, h))\<rparr>"

lemma zcrypto_sel:
  "get_public_key zcrypto k = zfelt_of 1"
  "rfc6979_generate_k zcrypto h k seed = (case seed of None \<Rightarrow> zfelt_of 0 | Some f \<Rightarrow> f)"
  "ecdsa_sign zcrypto k h nonce = (if nonce = zfelt_of 0 then Inl InvalidK else Inr (nonce, h))"
  by (simp_all add: zcrypto_def)

lemma zcrypto_field:
  "felt_mul zcrypto f g = zfelt_of (Rep_zfelt f * Rep_zfelt g)"
  "felt_sqrt zcrypto f \<noteq> None \<longleftrightarrow> (\<exists>g. felt_mul zcrypto g g = f)"
  "normalize_address zcrypto f = zfelt_of (Rep_zfelt f mod (2 ^ 251 - 256))"
  by (simp_all add: zcrypto_def)

lemma zval: "felt_val stark_dlog f = Rep_zfelt f"
  by (simp add: felt_val_def be_val_small Rep_zfelt_less)

lemma zfelt_of_cong: "a mod FELT_PRIME = b mod FELT_PRIME \<Longrightarrow> zfelt_of a = zfelt_of b"
  by (simp only: Rep_zfelt_inject [symmetric] Rep_zfelt_of)

lemma zmul: "felt_mul zcrypto (zfelt_of a) (zfelt_of b) = zfelt_of (a * b)"
  unfolding zcrypto_field by (rule zfelt_of_cong) (simp only: Rep_zfelt_of mod_simps)

lemma zadd: "felt_add stark_dlog (zfelt_of a) (zfelt_of b) = zfelt_of (a + b)"
  unfolding stark_dlog_felt(4) by (rule zfelt_of_cong) (simp only: Rep_zfelt_of mod_simps)

interpretation zk: stark_crypto_laws stark_dlog zformat zcrypto
proof (unfold_locales)
  show "felt_val stark_dlog (felt_mul zcrypto f g) = felt_val stark_dlog f * felt_val stark_dlog g mod FELT_PRIME" for f g
    by (simp only: zcrypto_field zval Rep_zfelt_of)
  show "felt_sqrt zcrypto f \<noteq> None \<longleftrightarrow> (\<exists>g. felt_mul zcrypto g g = f)" for f
    by (rule zcrypto_field)
  show "felt_val stark_dlog (normalize_address zcrypto f) = felt_val stark_dlog f mod (2 ^ 251 - 256)" for f
  proof -
    have "Rep_zfelt f mod (2 ^ 251 - 256) < FELT_PRIME" using Rep_zfelt_less [of f] by (rule le_less_trans [OF mod_less_eq_dividend])
    then show ?thesis unfolding zval zcrypto_field Rep_zfelt_of by (rule mod_less)
  qed
  have "felt_mul zcrypto (zfelt_of zkey_y) (zfelt_of zkey_y) =
      felt_add stark_dlog (felt_add stark_dlog (felt_mul zcrypto (felt_mul zcrypto (zfelt_of 1) (zfelt_of 1)) (zfelt_of 1))
        (zfelt_of 1)) (STARK_BETA stark_dlog)"
    unfolding STARK_BETA_def stark_dlog_felt(3) zmul zadd by (rule zfelt_of_cong [OF zkey_on_curve])
  then show "\<exists>y. felt_mul zcrypto y y =
      felt_add stark_dlog (felt_add stark_dlog (felt_mul zcrypto (felt_mul zcrypto (get_public_key zcrypto k) (get_public_key zcrypto k))
        (get_public_key zcrypto k)) (get_public_key zcrypto k)) (STARK_BETA stark_dlog)" for k
    unfolding zcrypto_sel by (rule exI)
qed

section \<open>Properties\<close>

text \<open>
  Keys are validated exactly. A public key is returned exactly for the felts from one up to the curve order, and it
  then is the coordinate of a point of the curve \<open>y\<^sup>2 = x\<^sup>3 + x + \<beta>\<close>, as \<open>is_stark_public_key\<close> decides; every other
  felt is an error, so the third-party derivation is never called on a key it panics on.
\<close>

theorem stark_keys_exact:
  assumes "stark_crypto_laws S X K"
  shows "(stark_public_key S X K k = Inr pk \<longleftrightarrow> 0 < felt_val S k \<and> felt_val S k < CURVE_ORDER \<and> pk = get_public_key K k) \<and>
    (stark_public_key S X K k = Inr pk \<longrightarrow> is_stark_public_key S K pk) \<and>
    (is_stark_public_key S K x \<longleftrightarrow>
      (\<exists>y. felt_val S y ^ 2 mod FELT_PRIME =
        (felt_val S x ^ 3 + felt_val S x + 0x6f21413efbe40de150e596d72f7a8c5609ad26c15c915c1f4cdfcb99cee9e89) mod FELT_PRIME))"
proof (intro conjI impI)
  note iff = stark_crypto_laws.stark_public_key_iff [OF assms, of k pk]
  show "stark_public_key S X K k = Inr pk \<longleftrightarrow> 0 < felt_val S k \<and> felt_val S k < CURVE_ORDER \<and> pk = get_public_key K k"
    by (rule iff)
  show "is_stark_public_key S K pk" if "stark_public_key S X K k = Inr pk"
    using that [unfolded iff] stark_crypto_laws.derived_is_public_key [OF assms, of k] by simp
qed (rule stark_crypto_laws.is_stark_public_key_iff [OF assms])

theorem stark_keys_exact_witness:
  "stark_public_key stark_dlog zformat zcrypto (zfelt_of 5) = Inr (zfelt_of 1) \<and>
   is_stark_public_key stark_dlog zcrypto (zfelt_of 1)"
proof -
  note exact = stark_keys_exact [OF zk.stark_crypto_laws_axioms, of "zfelt_of 5" "zfelt_of 1"]
  have "0 < felt_val stark_dlog (zfelt_of 5)" "felt_val stark_dlog (zfelt_of 5) < CURVE_ORDER"
    by (simp_all add: dlog_num)
  then have "stark_public_key stark_dlog zformat zcrypto (zfelt_of 5) = Inr (zfelt_of 1)"
    using conjunct1 [OF exact] by (simp only: zcrypto_sel simp_thms)
  then show ?thesis using conjunct1 [OF conjunct2 [OF exact]] by (simp only: simp_thms)
qed

text \<open>
  C28. Signing returns the first signature that the third-party code accepts. For a valid key the loop over the seeds
  none, 1, 2, \<open>\<dots>\<close> does not end exactly when every nonce is refused; otherwise its result is that of the first attempt
  that is not refused, and a message out of range is an error.
\<close>

theorem signing_first_accepted:
  assumes "stark_crypto_laws S X K" and "0 < felt_val S k" and "felt_val S k < CURVE_ORDER"
  shows "(sign_stark_hash S X K k h = None \<longleftrightarrow> (\<forall>j. attempt S K k h j = Inl InvalidK)) \<and>
    ((\<forall>i < j. attempt S K k h i = Inl InvalidK) \<and> attempt S K k h j \<noteq> Inl InvalidK \<longrightarrow>
      sign_stark_hash S X K k h = attempt_result K k (attempt S K k h j))"
proof -
  have felt: "felt_laws S"
    using assms(1) by (simp add: stark_crypto_laws_def felt_format_laws_def felt_text_def)
  have loop: "sign_stark_hash S X K k h = sign_loop S K k h (nonce_seed S 0)"
    using stark_crypto_laws.validate_key_iff [OF assms(1), of k "()"] assms(2,3)
    by (simp add: sign_stark_hash_def nonce_seed_def)
  have first: "sign_stark_hash S X K k h = attempt_result K k (attempt S K k h j)"
    if "\<forall>i < j. attempt S K k h i = Inl InvalidK" and "attempt S K k h j \<noteq> Inl InvalidK" for j
    using felt_laws.sign_loop_first [OF felt, of j K k h 0] felt_laws.sign_loop_step [OF felt, of K k h j] that
    by (simp add: loop)
  have "sign_stark_hash S X K k h = None \<longleftrightarrow> (\<forall>j. attempt S K k h j = Inl InvalidK)"
  proof
    assume none: "sign_stark_hash S X K k h = None"
    show "\<forall>j. attempt S K k h j = Inl InvalidK"
    proof (rule ccontr)
      assume "\<not> ?thesis"
      then obtain j where "attempt S K k h j \<noteq> Inl InvalidK" and "\<forall>i < j. attempt S K k h i = Inl InvalidK"
        using exists_least_iff [of "\<lambda>j. attempt S K k h j \<noteq> Inl InvalidK"] by auto
      then show False using first [of j] none attempt_result_None [of K k "attempt S K k h j"] by simp
    qed
  next
    assume "\<forall>j. attempt S K k h j = Inl InvalidK"
    then show "sign_stark_hash S X K k h = None"
      using felt_laws.sign_loop_ends [OF felt, of K k h 0] by (cases "sign_stark_hash S X K k h") (auto simp: loop)
  qed
  with first show ?thesis by blast
qed

theorem signing_first_accepted_witness:
  "sign_stark_hash stark_dlog zformat zcrypto (zfelt_of 5) (zfelt_of 9) =
    Some (Inr \<lparr>sg_public_key = zfelt_of 1, sg_r = zfelt_of 1, sg_s = zfelt_of 9\<rparr>)"
proof -
  have ne: "zfelt_of 1 \<noteq> zfelt_of 0" by (simp add: Rep_zfelt_inject [symmetric] Rep_zfelt_of FELT_PRIME_def)
  have "attempt stark_dlog zcrypto (zfelt_of 5) (zfelt_of 9) 0 = Inl InvalidK"
    "attempt stark_dlog zcrypto (zfelt_of 5) (zfelt_of 9) 1 = Inr (zfelt_of 1, zfelt_of 9)"
    using ne by (simp_all add: attempt_def nonce_seed_def zcrypto_sel)
  then show ?thesis
    using signing_first_accepted [OF zk.stark_crypto_laws_axioms, of "zfelt_of 5" "zfelt_of 9" 1]
    by (simp add: zval Rep_zfelt_of CURVE_ORDER_def FELT_PRIME_def zcrypto_sel)
qed

end
