(* ===== verification/Account_Class.thy ===== *)
theory Account_Class
  imports Stark_Signing Serialization
begin

text \<open>
  \<open>account.rs\<close>, \<open>account_class.rs\<close> and the files of \<open>account_class/\<close> of \<open>crates/kms/src\<close>, apart from decoding and
  inspection: the address of an account contract, the presets of the three wallet families and the registry of the
  classes they deploy. The lemmas show which integers the class hashes are, that the registry knows no class twice, and
  where addresses lie.
\<close>

section \<open>Contract addresses\<close>

definition CONTRACT_ADDRESS_PREFIX :: string where
  "CONTRACT_ADDRESS_PREFIX = ''STARKNET_CONTRACT_ADDRESS''"

definition hash_elements :: "('f, 'p, 'a, 'r) starknet \<Rightarrow> 'f list \<Rightarrow> 'f" where
  "hash_elements S elements =
     (let current = foldl (pedersen_hash S) (felt_zero S) elements
      in pedersen_hash S current (felt_from S (length elements)))"

text \<open>\<open>Felt::from_bytes_be_slice\<close> of at most 31 bytes does not wrap.\<close>

definition encode_short_string :: "('f, 'p, 'a, 'r) starknet \<Rightarrow> string \<Rightarrow> 'f result" where
  "encode_short_string S s =
     (let bytes = ascii_bytes s
      in if length bytes > 31 then Inl (CryptoError ''Short string must be <= 31 characters'')
         else Inr (felt_from S (be_val bytes)))"

definition calculate_contract_address ::
    "('f, 'p, 'a, 'r) starknet \<Rightarrow> 'f stark_crypto \<Rightarrow> 'f \<Rightarrow> 'f \<Rightarrow> 'f list \<Rightarrow> 'f \<Rightarrow> 'f result" where
  "calculate_contract_address S K salt class_hash constructor_calldata deployer_address =
     (let calldata_hash = hash_elements S constructor_calldata
      in and_then (encode_short_string S CONTRACT_ADDRESS_PREFIX) (\<lambda>prefix_felt.
         let elements = [prefix_felt, deployer_address, salt, class_hash, calldata_hash]
         in Inr (normalize_address K (hash_elements S elements))))"

definition derive_oz_account_address ::
    "('f, 'p, 'a, 'r) starknet \<Rightarrow> 'f stark_crypto \<Rightarrow> 'f \<Rightarrow> 'f \<Rightarrow> 'f option \<Rightarrow> 'f result" where
  "derive_oz_account_address S K public_key class_hash salt =
     calculate_contract_address S K (unwrap_or salt public_key) class_hash [public_key] (felt_zero S)"

section \<open>The trait of account classes\<close>

datatype 'f SaltPolicy = PublicKey | Zero | Explicit 'f

fun salt_resolve :: "('f, 'p, 'a, 'r) starknet \<Rightarrow> 'f SaltPolicy \<Rightarrow> 'f \<Rightarrow> 'f" where
  "salt_resolve S SaltPolicy.PublicKey public_key = public_key"
| "salt_resolve S SaltPolicy.Zero public_key = felt_zero S"
| "salt_resolve S (SaltPolicy.Explicit salt) public_key = salt"

text \<open>The required methods of the trait, and its default method.\<close>

record 'f AccountClass =
  acl_class_hash :: 'f
  acl_build_constructor_calldata :: "'f \<Rightarrow> 'f list"

definition calculate_address ::
    "('f, 'p, 'a, 'r) starknet \<Rightarrow> 'f stark_crypto \<Rightarrow> 'f AccountClass \<Rightarrow> 'f \<Rightarrow> 'f SaltPolicy \<Rightarrow> 'f result" where
  "calculate_address S K self public_key salt_policy =
     (let salt = salt_resolve S salt_policy public_key;
          calldata = acl_build_constructor_calldata self public_key
      in calculate_contract_address S K salt (acl_class_hash self) calldata (felt_zero S))"

section \<open>OpenZeppelin\<close>

record OzAccountManifestSource =
  ms_docs :: string
  ms_package :: string

record OzAccountManifestNetwork =
  mn_declared_class_hash :: string

text \<open>The maps are listed in the order of their keys.\<close>

record OzAccountManifestVersion =
  mv_source :: OzAccountManifestSource
  mv_networks :: "(string \<times> OzAccountManifestNetwork) list"

record OzAccountManifest =
  mf_latest_version :: string
  mf_package :: string
  mf_contract_name :: string
  mf_versions :: "(string \<times> OzAccountManifestVersion) list"

text \<open>The checked-in file \<open>oz_account_class_manifest.json\<close>, as \<open>serde_json\<close> reads it.\<close>

definition OZ_CLASS_HASH :: string where
  "OZ_CLASS_HASH = ''0x01d1777db36cdd06dd62cfde77b1b6ae06412af95d57a13dc40ac77b8a702381''"

definition OZ_ACCOUNT_CLASS_MANIFEST :: OzAccountManifest where
  "OZ_ACCOUNT_CLASS_MANIFEST =
     \<lparr>mf_latest_version = ''3.0.0'', mf_package = ''openzeppelin_presets'', mf_contract_name = ''AccountUpgradeable'',
      mf_versions =
        [(''3.0.0'',
          \<lparr>mv_source =
             \<lparr>ms_docs = ''https://docs.openzeppelin.com/contracts-cairo/3.x/api/account#AccountUpgradeable'',
              ms_package = ''https://scarbs.xyz/packages/openzeppelin_presets''\<rparr>,
           mv_networks =
             [(''SN_MAIN'', \<lparr>mn_declared_class_hash = OZ_CLASS_HASH\<rparr>),
              (''SN_SEPOLIA'', \<lparr>mn_declared_class_hash = OZ_CLASS_HASH\<rparr>)]\<rparr>)]\<rparr>"

definition oz_account_manifest :: "OzAccountManifest result" where
  "oz_account_manifest = Inr OZ_ACCOUNT_CLASS_MANIFEST"

text \<open>The two nested loops, over the networks of a version and over the versions.\<close>

fun oz_networks_loop ::
    "'f felt_format \<Rightarrow> string \<Rightarrow> string \<Rightarrow> (string \<times> OzAccountManifestNetwork) list \<Rightarrow>
     (string \<times> string \<times> 'f) list \<Rightarrow> (string \<times> string \<times> 'f) list result" where
  "oz_networks_loop X version docs [] classes = Inr classes"
| "oz_networks_loop X version docs ((_, network) # networks) classes =
     and_then (map_err KmsError.InvalidClassHash (ff_from_hex X (mn_declared_class_hash network))) (\<lambda>class_hash.
       oz_networks_loop X version docs networks
         (if \<not> list_ex (\<lambda>(_, _, known). known = class_hash) classes
          then classes @ [(version, docs, class_hash)] else classes))"

fun oz_versions_loop ::
    "'f felt_format \<Rightarrow> (string \<times> OzAccountManifestVersion) list \<Rightarrow>
     (string \<times> string \<times> 'f) list \<Rightarrow> (string \<times> string \<times> 'f) list result" where
  "oz_versions_loop X [] classes = Inr classes"
| "oz_versions_loop X ((version, entry) # versions) classes =
     and_then (oz_networks_loop X version (ms_docs (mv_source entry)) (mv_networks entry) classes) (\<lambda>classes.
       oz_versions_loop X versions classes)"

definition oz_manifest_classes :: "'f felt_format \<Rightarrow> (string \<times> string \<times> 'f) list result" where
  "oz_manifest_classes X =
     and_then oz_account_manifest (\<lambda>manifest. oz_versions_loop X (mf_versions manifest) [])"

text \<open>
  The fields of \<open>Manifest\<close> are the chain, the names of package, version and contract, and the addresses of the docs
  and of the package.
\<close>

datatype OzAccountClassSource = Manifest ChainId string string string string string | Custom

record 'f OzAccountClassConfig =
  oc_class_hash :: 'f
  oc_source :: OzAccountClassSource

definition oz_config_from_manifest :: "'f felt_format \<Rightarrow> ChainId \<Rightarrow> string \<Rightarrow> 'f OzAccountClassConfig result" where
  "oz_config_from_manifest X chain_id version =
     and_then oz_account_manifest (\<lambda>manifest.
     and_then (ok_or (KmsError.InvalidClassHash (''No OpenZeppelin account manifest entry for version '' @ version))
        (map_of (mf_versions manifest) version)) (\<lambda>version_entry.
     and_then (ok_or (KmsError.InvalidClassHash
          (''No OpenZeppelin account manifest entry for chain '' @ chain_name chain_id @ '' version '' @ version))
        (map_of (mv_networks version_entry) (chain_name chain_id))) (\<lambda>network_entry.
     and_then (map_err KmsError.InvalidClassHash (ff_from_hex X (mn_declared_class_hash network_entry))) (\<lambda>class_hash.
       Inr \<lparr>oc_class_hash = class_hash,
            oc_source = Manifest chain_id (mf_package manifest) version (mf_contract_name manifest)
              (ms_docs (mv_source version_entry)) (ms_package (mv_source version_entry))\<rparr>))))"

definition oz_config_latest :: "'f felt_format \<Rightarrow> ChainId \<Rightarrow> 'f OzAccountClassConfig result" where
  "oz_config_latest X chain_id =
     and_then oz_account_manifest (\<lambda>manifest. oz_config_from_manifest X chain_id (mf_latest_version manifest))"

definition oz_config_custom :: "'f \<Rightarrow> 'f OzAccountClassConfig" where
  "oz_config_custom class_hash = \<lparr>oc_class_hash = class_hash, oc_source = Custom\<rparr>"

record 'f OpenZeppelinAccount =
  oz_class_config :: "'f OzAccountClassConfig"

definition oz_new :: "'f OzAccountClassConfig \<Rightarrow> 'f OpenZeppelinAccount" where
  "oz_new class_config = \<lparr>oz_class_config = class_config\<rparr>"

definition oz_latest :: "'f felt_format \<Rightarrow> ChainId \<Rightarrow> 'f OpenZeppelinAccount result" where
  "oz_latest X chain_id = and_then (oz_config_latest X chain_id) (\<lambda>config. Inr (oz_new config))"

definition oz_from_manifest :: "'f felt_format \<Rightarrow> ChainId \<Rightarrow> string \<Rightarrow> 'f OpenZeppelinAccount result" where
  "oz_from_manifest X chain_id version =
     and_then (oz_config_from_manifest X chain_id version) (\<lambda>config. Inr (oz_new config))"

definition oz_from_class_hash :: "'f \<Rightarrow> 'f OpenZeppelinAccount" where
  "oz_from_class_hash class_hash = oz_new (oz_config_custom class_hash)"

text \<open>\<open>impl AccountClass for OpenZeppelinAccount\<close>.\<close>

definition oz_account_class :: "'f OpenZeppelinAccount \<Rightarrow> 'f AccountClass" where
  "oz_account_class self =
     \<lparr>acl_class_hash = oc_class_hash (oz_class_config self),
      acl_build_constructor_calldata = (\<lambda>public_key. [public_key])\<rparr>"

record 'f OzDeploymentDescriptor =
  od_address :: 'f
  od_class_hash :: 'f
  od_salt :: 'f
  od_constructor_calldata :: "'f list"
  od_deployer_address :: 'f

definition normalized_address_hex :: "'f felt_format \<Rightarrow> 'f OzDeploymentDescriptor \<Rightarrow> string" where
  "normalized_address_hex X self = ''0x'' @ ff_hex_064 X (od_address self)"

definition deployment_descriptor ::
    "('f, 'p, 'a, 'r) starknet \<Rightarrow> 'f stark_crypto \<Rightarrow> 'f OpenZeppelinAccount \<Rightarrow> 'f \<Rightarrow> 'f SaltPolicy \<Rightarrow>
     'f OzDeploymentDescriptor result" where
  "deployment_descriptor S K self public_key salt_policy =
     (let salt = salt_resolve S salt_policy public_key;
          constructor_calldata = acl_build_constructor_calldata (oz_account_class self) public_key;
          deployer_address = felt_zero S
      in and_then (calculate_contract_address S K salt (acl_class_hash (oz_account_class self)) constructor_calldata
           deployer_address) (\<lambda>address.
         Inr \<lparr>od_address = address, od_class_hash = acl_class_hash (oz_account_class self), od_salt = salt,
              od_constructor_calldata = constructor_calldata, od_deployer_address = deployer_address\<rparr>))"

section \<open>Argent\<close>

datatype ArgentConstructorLayout = OwnerGuardianFelts | SignerWithOptionalGuardian

fun constructor_calldata :: "('f, 'p, 'a, 'r) starknet \<Rightarrow> ArgentConstructorLayout \<Rightarrow> 'f \<Rightarrow> 'f list" where
  "constructor_calldata S OwnerGuardianFelts public_key = [public_key, felt_zero S]"
| "constructor_calldata S SignerWithOptionalGuardian public_key = [felt_zero S, public_key] @ serialize_cairo_none S"

definition constructor_calldata_with_guardian ::
    "('f, 'p, 'a, 'r) starknet \<Rightarrow> ArgentConstructorLayout \<Rightarrow> 'f \<Rightarrow> 'f \<Rightarrow> 'f list" where
  "constructor_calldata_with_guardian S self public_key guardian =
     (if guardian = felt_zero S then constructor_calldata S self public_key
      else case self of
             OwnerGuardianFelts \<Rightarrow> [public_key, guardian]
           | SignerWithOptionalGuardian \<Rightarrow> [felt_zero S, public_key, felt_zero S, felt_zero S, guardian])"

definition static_class_hash :: "'f felt_format \<Rightarrow> string \<Rightarrow> 'f" where
  "static_class_hash X hex =
     expect ''static Argent class hash'' (case ff_from_hex X hex of Inr f \<Rightarrow> Some f | Inl _ \<Rightarrow> None)"

record 'f ArgentAccount =
  ag_class_hash :: 'f
  ag_layout :: ArgentConstructorLayout

definition ARGENT_CLASS_HASH :: string where
  "ARGENT_CLASS_HASH = ''0x036078334509b514626504edc9fb252328d1a240e4e948bef8d0c08dff45927f''"

definition ARGENT_CLASS_HASH_V050 :: string where
  "ARGENT_CLASS_HASH_V050 = ''0x073414441639dcd11d1846f287650a00c60c416b9d3ba45d31c651672125b2c2''"

definition ARGENT_CLASS_HASH_V031 :: string where
  "ARGENT_CLASS_HASH_V031 = ''0x029927c8af6bccf3f6fda035981e765a7bdbf18a2dc0d630494f8758aa908e2b''"

definition ARGENT_CLASS_HASH_V030 :: string where
  "ARGENT_CLASS_HASH_V030 = ''0x01a736d6ed154502257f02b1ccdf4d9d1089f80811cd6acad48e6b6a9d1f2003''"

definition argent_known_classes :: "'f felt_format \<Rightarrow> ('f \<times> string \<times> ArgentConstructorLayout) list" where
  "argent_known_classes X =
     [(static_class_hash X ARGENT_CLASS_HASH_V050, ''v0.5.0'', SignerWithOptionalGuardian),
      (static_class_hash X ARGENT_CLASS_HASH, ''v0.4.0'', SignerWithOptionalGuardian),
      (static_class_hash X ARGENT_CLASS_HASH_V031, ''v0.3.1'', OwnerGuardianFelts),
      (static_class_hash X ARGENT_CLASS_HASH_V030, ''v0.3.0'', OwnerGuardianFelts)]"

definition argent_known_class_hashes :: "'f felt_format \<Rightarrow> 'f list" where
  "argent_known_class_hashes X = map (\<lambda>(class_hash, _, _). class_hash) (argent_known_classes X)"

definition layout_for_class_hash :: "'f felt_format \<Rightarrow> 'f \<Rightarrow> ArgentConstructorLayout option" where
  "layout_for_class_hash X class_hash =
     map_option (\<lambda>(_, _, layout). layout) (find (\<lambda>(known, _, _). known = class_hash) (argent_known_classes X))"

definition with_class_hash_and_layout :: "'f \<Rightarrow> ArgentConstructorLayout \<Rightarrow> 'f ArgentAccount" where
  "with_class_hash_and_layout class_hash layout = \<lparr>ag_class_hash = class_hash, ag_layout = layout\<rparr>"

definition argent_new :: "'f felt_format \<Rightarrow> 'f ArgentAccount" where
  "argent_new X = with_class_hash_and_layout (static_class_hash X ARGENT_CLASS_HASH) SignerWithOptionalGuardian"

definition argent_try_with_class_hash :: "'f felt_format \<Rightarrow> 'f \<Rightarrow> 'f ArgentAccount result" where
  "argent_try_with_class_hash X class_hash =
     and_then (ok_or (KmsError.InvalidClassHash
         (''unknown Argent class hash '' @ ff_hex_alt X class_hash @ '': no known constructor layout''))
       (layout_for_class_hash X class_hash)) (\<lambda>layout. Inr (with_class_hash_and_layout class_hash layout))"

definition calculate_address_with_guardian ::
    "('f, 'p, 'a, 'r) starknet \<Rightarrow> 'f stark_crypto \<Rightarrow> 'f ArgentAccount \<Rightarrow> 'f \<Rightarrow> 'f \<Rightarrow> 'f result" where
  "calculate_address_with_guardian S K self public_key guardian =
     (let calldata = constructor_calldata_with_guardian S (ag_layout self) public_key guardian
      in calculate_contract_address S K public_key (ag_class_hash self) calldata (felt_zero S))"

definition argent_account_class :: "('f, 'p, 'a, 'r) starknet \<Rightarrow> 'f ArgentAccount \<Rightarrow> 'f AccountClass" where
  "argent_account_class S self =
     \<lparr>acl_class_hash = ag_class_hash self, acl_build_constructor_calldata = constructor_calldata S (ag_layout self)\<rparr>"

section \<open>The registry\<close>

datatype ConstructorShape =
    PublicKey
  | ArgentOwnerGuardianFelts
  | ArgentSignerWithOptionalGuardian
  | ArgentCairo0Proxy

fun shape_name :: "ConstructorShape \<Rightarrow> string" where
  "shape_name ConstructorShape.PublicKey = ''public_key''"
| "shape_name ArgentOwnerGuardianFelts = ''argent_owner_guardian_felts''"
| "shape_name ArgentSignerWithOptionalGuardian = ''argent_signer_with_optional_guardian''"
| "shape_name ArgentCairo0Proxy = ''argent_cairo0_proxy''"

fun seed_calldata :: "ConstructorShape \<Rightarrow> string" where
  "seed_calldata ConstructorShape.PublicKey = ''[public_key]''"
| "seed_calldata ArgentOwnerGuardianFelts = ''[owner, 0]''"
| "seed_calldata ArgentSignerWithOptionalGuardian = ''[0, owner, 1]''"
| "seed_calldata ArgentCairo0Proxy = ''[implementation, selector(\"initialize\"), 2, owner, 0]''"

fun guardian_calldata :: "ConstructorShape \<Rightarrow> string option" where
  "guardian_calldata ConstructorShape.PublicKey = None"
| "guardian_calldata ArgentOwnerGuardianFelts = Some ''[owner, guardian]''"
| "guardian_calldata ArgentSignerWithOptionalGuardian = Some ''[0, owner, 0, 0, guardian]''"
| "guardian_calldata ArgentCairo0Proxy = Some ''[implementation, selector(\"initialize\"), 2, owner, guardian]''"

fun inputs_outside_seed :: "ConstructorShape \<Rightarrow> string list" where
  "inputs_outside_seed ConstructorShape.PublicKey = []"
| "inputs_outside_seed _ = [''guardian'']"

fun argent_layout :: "ConstructorShape \<Rightarrow> ArgentConstructorLayout option" where
  "argent_layout ArgentOwnerGuardianFelts = Some OwnerGuardianFelts"
| "argent_layout ArgentSignerWithOptionalGuardian = Some SignerWithOptionalGuardian"
| "argent_layout _ = None"

fun shape_from_layout :: "ArgentConstructorLayout \<Rightarrow> ConstructorShape" where
  "shape_from_layout OwnerGuardianFelts = ArgentOwnerGuardianFelts"
| "shape_from_layout SignerWithOptionalGuardian = ArgentSignerWithOptionalGuardian"

datatype AccountFamily = OpenZeppelin | Argent | Braavos

datatype ClassRole = Deployment | Implementation | ProxyTarget

definition DEPLOYMENT_AND_IMPLEMENTATION :: "ClassRole list" where
  "DEPLOYMENT_AND_IMPLEMENTATION = [Deployment, Implementation]"

definition DEPLOYMENT_ONLY :: "ClassRole list" where
  "DEPLOYMENT_ONLY = [Deployment]"

definition IMPLEMENTATION_ONLY :: "ClassRole list" where
  "IMPLEMENTATION_ONLY = [Implementation]"

definition PROXY_TARGET_ONLY :: "ClassRole list" where
  "PROXY_TARGET_ONLY = [ProxyTarget]"

definition ARGENT_DEPLOYMENTS_SOURCE :: string where
  "ARGENT_DEPLOYMENTS_SOURCE =
     ''https://github.com/argentlabs/argent-contracts-starknet/blob/main/deployments/account.txt''"

definition ARGENT_X_CONSTANTS_SOURCE :: string where
  "ARGENT_X_CONSTANTS_SOURCE =
     ''https://github.com/argentlabs/argent-x/blob/develop/packages/extension/src/shared/account/starknet.constants.ts''"

record 'f KnownAccountClass =
  kc_family :: AccountFamily
  kc_class_hash :: 'f
  kc_version :: string
  kc_label :: string
  kc_roles :: "ClassRole list"
  kc_constructor :: "ConstructorShape option"
  kc_source :: string

definition known_account_class ::
    "AccountFamily \<Rightarrow> 'f \<Rightarrow> string \<Rightarrow> string \<Rightarrow> ClassRole list \<Rightarrow> ConstructorShape option \<Rightarrow> string \<Rightarrow> 'f KnownAccountClass" where
  "known_account_class family class_hash version label roles constructor source =
     \<lparr>kc_family = family, kc_class_hash = class_hash, kc_version = version, kc_label = label, kc_roles = roles,
      kc_constructor = constructor, kc_source = source\<rparr>"

definition is_deployment_class :: "'f KnownAccountClass \<Rightarrow> bool" where
  "is_deployment_class self = (Deployment \<in> set (kc_roles self))"

definition is_implementation_class :: "'f KnownAccountClass \<Rightarrow> bool" where
  "is_implementation_class self = (Implementation \<in> set (kc_roles self))"

definition is_proxy_target :: "'f KnownAccountClass \<Rightarrow> bool" where
  "is_proxy_target self = (ProxyTarget \<in> set (kc_roles self))"

subsection \<open>Argent Cairo 0\<close>

definition PROXY_CLASS_HASH :: string where
  "PROXY_CLASS_HASH = ''0x025ec026985a3bf9d0cc1fe17326b245dfdc3ff89b8fde106542a3ea56c5a918''"

definition IMPL_CLASS_HASH_V024 :: string where
  "IMPL_CLASS_HASH_V024 = ''0x033434ad846cdd5f23eb73ff09fe6fddd568284a0fb7d1be20ee482f044dabe2''"

definition IMPL_CLASS_HASH_V023 :: string where
  "IMPL_CLASS_HASH_V023 = ''0x01a7820094feaf82d53f53f214b81292d717e7bb9a92bb2488092cd306f3993f''"

definition IMPL_CLASS_HASH_V022 :: string where
  "IMPL_CLASS_HASH_V022 = ''0x03e327de1c40540b98d05cbcb13552008e36f0ec8d61d46956d2f9752c294328''"

definition IMPL_CLASS_HASH_V021 :: string where
  "IMPL_CLASS_HASH_V021 = ''0x07e28fb0161d10d1cf7fe1f13e7ca57bce062731a3bd04494dfd2d0412699727''"

definition INITIALIZE_SELECTOR :: string where
  "INITIALIZE_SELECTOR = ''0x79dc0da7c54b95f10aa182ad0a46400db63156920adb65eca2654c0945a463''"

definition static_felt :: "'f felt_format \<Rightarrow> string \<Rightarrow> 'f" where
  "static_felt X hex =
     expect ''static Argent Cairo 0 constant'' (case ff_from_hex X hex of Inr f \<Rightarrow> Some f | Inl _ \<Rightarrow> None)"

definition proxy_class_hash :: "'f felt_format \<Rightarrow> 'f" where
  "proxy_class_hash X = static_felt X PROXY_CLASS_HASH"

definition initialize_selector :: "'f felt_format \<Rightarrow> 'f" where
  "initialize_selector X = static_felt X INITIALIZE_SELECTOR"

definition known_implementations :: "'f felt_format \<Rightarrow> ('f \<times> string) list" where
  "known_implementations X =
     [(static_felt X IMPL_CLASS_HASH_V024, ''0.2.4''), (static_felt X IMPL_CLASS_HASH_V023, ''0.2.3''),
      (static_felt X IMPL_CLASS_HASH_V022, ''0.2.2''), (static_felt X IMPL_CLASS_HASH_V021, ''0.2.1'')]"

definition is_known_implementation :: "'f felt_format \<Rightarrow> 'f \<Rightarrow> bool" where
  "is_known_implementation X class_hash = list_ex (\<lambda>(known, _). known = class_hash) (known_implementations X)"

definition cairo0_constructor_calldata_with_guardian ::
    "('f, 'p, 'a, 'r) starknet \<Rightarrow> 'f felt_format \<Rightarrow> 'f \<Rightarrow> 'f \<Rightarrow> 'f \<Rightarrow> 'f list" where
  "cairo0_constructor_calldata_with_guardian S X implementation public_key guardian =
     [implementation, initialize_selector X, felt_from S 2, public_key, guardian]"

definition cairo0_constructor_calldata ::
    "('f, 'p, 'a, 'r) starknet \<Rightarrow> 'f felt_format \<Rightarrow> 'f \<Rightarrow> 'f \<Rightarrow> 'f list" where
  "cairo0_constructor_calldata S X implementation public_key =
     cairo0_constructor_calldata_with_guardian S X implementation public_key (felt_zero S)"

definition cairo0_known_classes :: "'f felt_format \<Rightarrow> 'f KnownAccountClass list" where
  "cairo0_known_classes X =
     known_account_class Argent (proxy_class_hash X) ''proxy'' ''Argent Cairo 0 proxy'' DEPLOYMENT_AND_IMPLEMENTATION
       (Some ArgentCairo0Proxy) ARGENT_X_CONSTANTS_SOURCE #
     map (\<lambda>(class_hash, version).
       known_account_class Argent class_hash version
         (''Argent Cairo 0 account v'' @ version @ '' (behind the proxy)'') PROXY_TARGET_ONLY None
         ARGENT_X_CONSTANTS_SOURCE) (known_implementations X)"

subsection \<open>Braavos\<close>

record 'f BraavosAccount =
  br_class_hash :: 'f

definition README_V100 :: string where
  "README_V100 = ''https://github.com/myBraavos/braavos-account-cairo/blob/v1.0.0/README.md''"

definition README_V110 :: string where
  "README_V110 = ''https://github.com/myBraavos/braavos-account-cairo/blob/v1.1.0/README.md''"

definition README_V120 :: string where
  "README_V120 = ''https://github.com/myBraavos/braavos-account-cairo/blob/v1.2.0/README.md''"

definition BRAAVOS_CLASS_HASH :: string where
  "BRAAVOS_CLASS_HASH = ''0x03d16c7a9a60b0593bd202f660a28c5d76e0403601d9ccc7e4fa253b6a70c201''"

definition BASE_CLASS_HASH_V100 :: string where
  "BASE_CLASS_HASH_V100 = ''0x013bfe114fb1cf405bfc3a7f8dbe2d91db146c17521d40dcf57e16d6b59fa8e6''"

definition LEGACY_CLASS_HASH :: string where
  "LEGACY_CLASS_HASH = ''0x00816dd0297efc55dc1e7559020a3a825e81ef734b558f03c83325d4da7e6253''"

definition ACCOUNT_CLASS_HASH_V110 :: string where
  "ACCOUNT_CLASS_HASH_V110 = ''0x02c8c7e6fbcfb3e8e15a46648e8914c6aa1fc506fc1e7fb3d1e19630716174bc''"

definition ACCOUNT_CLASS_HASH_V120 :: string where
  "ACCOUNT_CLASS_HASH_V120 = ''0x03957f9f5a1cbfe918cedc2015c85200ca51a5f7506ecb6de98a5207b759bf8a''"

definition braavos_static_class_hash :: "'f felt_format \<Rightarrow> string \<Rightarrow> 'f" where
  "braavos_static_class_hash X hex =
     expect ''static Braavos class hash'' (case ff_from_hex X hex of Inr f \<Rightarrow> Some f | Inl _ \<Rightarrow> None)"

definition braavos_known_classes :: "'f felt_format \<Rightarrow> 'f KnownAccountClass list" where
  "braavos_known_classes X =
     (let entry = (\<lambda>hash. known_account_class Braavos (braavos_static_class_hash X hash))
      in [entry BRAAVOS_CLASS_HASH ''1.1.0'' ''Braavos Base Account v1.1.0 and later'' DEPLOYMENT_ONLY
            (Some ConstructorShape.PublicKey) README_V120,
          entry BASE_CLASS_HASH_V100 ''1.0.0'' ''Braavos Base Account v1.0.0'' DEPLOYMENT_ONLY
            (Some ConstructorShape.PublicKey) README_V100,
          entry ACCOUNT_CLASS_HASH_V120 ''1.2.0'' ''Braavos Account v1.2.0'' IMPLEMENTATION_ONLY None README_V120,
          entry ACCOUNT_CLASS_HASH_V110 ''1.1.0'' ''Braavos Account v1.1.0'' IMPLEMENTATION_ONLY None README_V110,
          entry LEGACY_CLASS_HASH ''1.0.0'' ''Braavos Account v1.0.0'' IMPLEMENTATION_ONLY None README_V100])"

definition class_hashes_with_role :: "'f felt_format \<Rightarrow> ClassRole \<Rightarrow> 'f list" where
  "class_hashes_with_role X role =
     map kc_class_hash (filter (\<lambda>known. role \<in> set (kc_roles known)) (braavos_known_classes X))"

definition deployment_class_hashes :: "'f felt_format \<Rightarrow> 'f list" where
  "deployment_class_hashes X = class_hashes_with_role X Deployment"

definition implementation_class_hashes :: "'f felt_format \<Rightarrow> 'f list" where
  "implementation_class_hashes X = class_hashes_with_role X Implementation"

definition is_implementation_class_hash :: "'f felt_format \<Rightarrow> 'f \<Rightarrow> bool" where
  "is_implementation_class_hash X class_hash = (class_hash \<in> set (implementation_class_hashes X))"

definition braavos_with_class_hash :: "'f \<Rightarrow> 'f BraavosAccount" where
  "braavos_with_class_hash class_hash = \<lparr>br_class_hash = class_hash\<rparr>"

definition braavos_new :: "'f felt_format \<Rightarrow> 'f BraavosAccount" where
  "braavos_new X = braavos_with_class_hash (braavos_static_class_hash X BRAAVOS_CLASS_HASH)"

definition braavos_try_with_class_hash :: "'f felt_format \<Rightarrow> 'f \<Rightarrow> 'f BraavosAccount result" where
  "braavos_try_with_class_hash X class_hash =
     (if class_hash \<in> set (deployment_class_hashes X) then Inr (braavos_with_class_hash class_hash)
      else if is_implementation_class_hash X class_hash
      then Inl (KmsError.InvalidClassHash
             (ff_hex_alt X class_hash @ '' is a Braavos account implementation class; addresses are '' @
              ''fixed by a base (deployment) class, derive from one of those instead''))
      else Inl (KmsError.InvalidClassHash
             (''unknown Braavos class hash '' @ ff_hex_alt X class_hash @ '': not a known base (deployment) class'')))"

definition braavos_account_class :: "'f BraavosAccount \<Rightarrow> 'f AccountClass" where
  "braavos_account_class self =
     \<lparr>acl_class_hash = br_class_hash self, acl_build_constructor_calldata = (\<lambda>public_key. [public_key])\<rparr>"

subsection \<open>All families\<close>

definition oz_classes :: "'f felt_format \<Rightarrow> 'f KnownAccountClass list" where
  "oz_classes X =
     map (\<lambda>(version, docs_url, class_hash).
       known_account_class OpenZeppelin class_hash version (''OpenZeppelin AccountUpgradeable v'' @ version)
         DEPLOYMENT_AND_IMPLEMENTATION (Some ConstructorShape.PublicKey) docs_url)
       (case oz_manifest_classes X of Inr classes \<Rightarrow> classes | Inl _ \<Rightarrow> [])"

definition argent_cairo1_classes :: "'f felt_format \<Rightarrow> 'f KnownAccountClass list" where
  "argent_cairo1_classes X =
     map (\<lambda>(class_hash, version, layout).
       known_account_class Argent class_hash (dropWhile (\<lambda>c. c = CHR ''v'') version) (''Argent Account '' @ version)
         DEPLOYMENT_AND_IMPLEMENTATION (Some (shape_from_layout layout)) ARGENT_DEPLOYMENTS_SOURCE)
       (argent_known_classes X)"

definition known_account_classes :: "'f felt_format \<Rightarrow> 'f KnownAccountClass list" where
  "known_account_classes X = oz_classes X @ argent_cairo1_classes X @ cairo0_known_classes X @ braavos_known_classes X"

definition lookup_account_class :: "'f felt_format \<Rightarrow> 'f \<Rightarrow> 'f KnownAccountClass option" where
  "lookup_account_class X class_hash = find (\<lambda>known. kc_class_hash known = class_hash) (known_account_classes X)"

definition deployment_classes :: "'f felt_format \<Rightarrow> AccountFamily \<Rightarrow> 'f KnownAccountClass list" where
  "deployment_classes X family =
     filter (\<lambda>known. kc_family known = family \<and> is_deployment_class known) (known_account_classes X)"

definition implementation_classes :: "'f felt_format \<Rightarrow> AccountFamily \<Rightarrow> 'f KnownAccountClass list" where
  "implementation_classes X family =
     filter (\<lambda>known. kc_family known = family \<and> is_implementation_class known) (known_account_classes X)"

definition proxy_target_classes :: "'f felt_format \<Rightarrow> AccountFamily \<Rightarrow> 'f KnownAccountClass list" where
  "proxy_target_classes X family =
     filter (\<lambda>known. kc_family known = family \<and> is_proxy_target known) (known_account_classes X)"

section \<open>The class hashes as integers\<close>

text \<open>The texts of the sources read as integers, and the integers of the registry in its order.\<close>

definition text_value :: "string \<Rightarrow> nat" where
  "text_value hex = hex_val (drop 2 hex)"

definition class_hash_texts :: "string list" where
  "class_hash_texts =
     [OZ_CLASS_HASH, ARGENT_CLASS_HASH_V050, ARGENT_CLASS_HASH, ARGENT_CLASS_HASH_V031, ARGENT_CLASS_HASH_V030,
      PROXY_CLASS_HASH, IMPL_CLASS_HASH_V024, IMPL_CLASS_HASH_V023, IMPL_CLASS_HASH_V022, IMPL_CLASS_HASH_V021,
      BRAAVOS_CLASS_HASH, BASE_CLASS_HASH_V100, ACCOUNT_CLASS_HASH_V120, ACCOUNT_CLASS_HASH_V110, LEGACY_CLASS_HASH]"

lemma class_hash_values:
  "text_value OZ_CLASS_HASH = 0x1d1777db36cdd06dd62cfde77b1b6ae06412af95d57a13dc40ac77b8a702381"
  "text_value ARGENT_CLASS_HASH_V050 = 0x73414441639dcd11d1846f287650a00c60c416b9d3ba45d31c651672125b2c2"
  "text_value ARGENT_CLASS_HASH = 0x36078334509b514626504edc9fb252328d1a240e4e948bef8d0c08dff45927f"
  "text_value ARGENT_CLASS_HASH_V031 = 0x29927c8af6bccf3f6fda035981e765a7bdbf18a2dc0d630494f8758aa908e2b"
  "text_value ARGENT_CLASS_HASH_V030 = 0x1a736d6ed154502257f02b1ccdf4d9d1089f80811cd6acad48e6b6a9d1f2003"
  "text_value PROXY_CLASS_HASH = 0x25ec026985a3bf9d0cc1fe17326b245dfdc3ff89b8fde106542a3ea56c5a918"
  "text_value IMPL_CLASS_HASH_V024 = 0x33434ad846cdd5f23eb73ff09fe6fddd568284a0fb7d1be20ee482f044dabe2"
  "text_value IMPL_CLASS_HASH_V023 = 0x1a7820094feaf82d53f53f214b81292d717e7bb9a92bb2488092cd306f3993f"
  "text_value IMPL_CLASS_HASH_V022 = 0x3e327de1c40540b98d05cbcb13552008e36f0ec8d61d46956d2f9752c294328"
  "text_value IMPL_CLASS_HASH_V021 = 0x7e28fb0161d10d1cf7fe1f13e7ca57bce062731a3bd04494dfd2d0412699727"
  "text_value BRAAVOS_CLASS_HASH = 0x3d16c7a9a60b0593bd202f660a28c5d76e0403601d9ccc7e4fa253b6a70c201"
  "text_value BASE_CLASS_HASH_V100 = 0x13bfe114fb1cf405bfc3a7f8dbe2d91db146c17521d40dcf57e16d6b59fa8e6"
  "text_value ACCOUNT_CLASS_HASH_V120 = 0x3957f9f5a1cbfe918cedc2015c85200ca51a5f7506ecb6de98a5207b759bf8a"
  "text_value ACCOUNT_CLASS_HASH_V110 = 0x2c8c7e6fbcfb3e8e15a46648e8914c6aa1fc506fc1e7fb3d1e19630716174bc"
  "text_value LEGACY_CLASS_HASH = 0x816dd0297efc55dc1e7559020a3a825e81ef734b558f03c83325d4da7e6253"
  "text_value INITIALIZE_SELECTOR = 0x79dc0da7c54b95f10aa182ad0a46400db63156920adb65eca2654c0945a463"
  by (simp_all add: text_value_def OZ_CLASS_HASH_def ARGENT_CLASS_HASH_V050_def ARGENT_CLASS_HASH_def ARGENT_CLASS_HASH_V031_def ARGENT_CLASS_HASH_V030_def PROXY_CLASS_HASH_def IMPL_CLASS_HASH_V024_def IMPL_CLASS_HASH_V023_def
      IMPL_CLASS_HASH_V022_def IMPL_CLASS_HASH_V021_def BRAAVOS_CLASS_HASH_def BASE_CLASS_HASH_V100_def ACCOUNT_CLASS_HASH_V120_def ACCOUNT_CLASS_HASH_V110_def LEGACY_CLASS_HASH_def INITIALIZE_SELECTOR_def hex_val_def hex_digit_val_def)

definition felt_literal :: "string \<Rightarrow> bool" where
  "felt_literal hex = (take 2 hex = ''0x'' \<and> list_all is_ascii_hexdigit (drop 2 hex) \<and> drop 2 hex \<noteq> [] \<and>
     length (drop 2 hex) \<le> 64 \<and> text_value hex < FELT_PRIME)"

lemma class_hash_literals: "list_all felt_literal (INITIALIZE_SELECTOR # class_hash_texts)"
  by (simp add: class_hash_texts_def felt_literal_def class_hash_values FELT_PRIME_def)
   (simp add: OZ_CLASS_HASH_def ARGENT_CLASS_HASH_V050_def ARGENT_CLASS_HASH_def ARGENT_CLASS_HASH_V031_def ARGENT_CLASS_HASH_V030_def PROXY_CLASS_HASH_def IMPL_CLASS_HASH_V024_def IMPL_CLASS_HASH_V023_def IMPL_CLASS_HASH_V022_def IMPL_CLASS_HASH_V021_def BRAAVOS_CLASS_HASH_def BASE_CLASS_HASH_V100_def ACCOUNT_CLASS_HASH_V120_def ACCOUNT_CLASS_HASH_V110_def LEGACY_CLASS_HASH_def INITIALIZE_SELECTOR_def is_ascii_hexdigit_def)

lemma class_hashes_distinct: "distinct (map text_value class_hash_texts)"
  by (simp add: class_hash_texts_def class_hash_values)

lemma find_distinct:
  assumes "distinct (map f xs)"
  shows "find (\<lambda>x. f x = a) xs = Some y \<longleftrightarrow> y \<in> set xs \<and> f y = a"
  using assms by (induction xs) auto

lemma option_eqI: "(\<And>y. a = Some y \<longleftrightarrow> b = Some y) \<Longrightarrow> a = b"
  by (metis option.exhaust)

context felt_format_laws
begin

lemma literal_from_hex:
  assumes "felt_literal hex"
  shows "ff_from_hex X hex = Inr (felt_from S (text_value hex))"
proof -
  have "hex = ''0x'' @ drop 2 hex" using assms by (metis append_take_drop_id felt_literal_def)
  then show ?thesis
    using of_hex_digits [of "drop 2 hex"] assms by (auto simp: felt_literal_def text_value_def)
qed

lemma literal_static:
  assumes "felt_literal hex"
  shows "static_class_hash X hex = felt_from S (text_value hex)"
    and "static_felt X hex = felt_from S (text_value hex)"
    and "braavos_static_class_hash X hex = felt_from S (text_value hex)"
  by (simp_all add: static_class_hash_def static_felt_def braavos_static_class_hash_def literal_from_hex [OF assms])

lemmas static_hashes = literal_static [OF class_hash_literals [unfolded list_all_iff, rule_format]]

lemma oz_manifest_classes_eq:
  "\<exists>docs. oz_manifest_classes X = Inr [(''3.0.0'', docs, felt_from S (text_value OZ_CLASS_HASH))]"
  by (simp add: oz_manifest_classes_def oz_account_manifest_def OZ_ACCOUNT_CLASS_MANIFEST_def
      literal_from_hex [OF class_hash_literals [unfolded list_all_iff, rule_format]] class_hash_texts_def)

lemma registry_hashes:
  "map kc_class_hash (known_account_classes X) = map (\<lambda>hex. felt_from S (text_value hex)) class_hash_texts"
  using oz_manifest_classes_eq
  by (auto simp: known_account_classes_def oz_classes_def argent_cairo1_classes_def argent_known_classes_def
      cairo0_known_classes_def known_implementations_def braavos_known_classes_def known_account_class_def
      proxy_class_hash_def class_hash_texts_def static_hashes)

lemma registry_distinct: "distinct (map kc_class_hash (known_account_classes X))"
proof -
  have "inj_on (felt_from S) (text_value ` set class_hash_texts)"
  proof (rule inj_onI)
    fix a b assume ab: "a \<in> text_value ` set class_hash_texts" "b \<in> text_value ` set class_hash_texts" "felt_from S a = felt_from S b"
    then have "a < FELT_PRIME" "b < FELT_PRIME" using class_hash_literals by (auto simp: list_all_iff felt_literal_def)
    with ab(3) show "a = b" by (metis felt_val_from mod_less)
  qed
  then have "distinct (map (felt_from S) (map text_value class_hash_texts))"
    using class_hashes_distinct by (subst distinct_map) simp
  then show ?thesis unfolding registry_hashes by (simp add: comp_def)
qed

lemma lookup_iff:
  "lookup_account_class X h = Some known \<longleftrightarrow> known \<in> set (known_account_classes X) \<and> kc_class_hash known = h"
  unfolding lookup_account_class_def by (rule find_distinct [OF registry_distinct])

lemma registry_entries:
  "\<exists>docs. known_account_classes X =
     known_account_class OpenZeppelin (felt_from S (text_value OZ_CLASS_HASH)) ''3.0.0'' ''OpenZeppelin AccountUpgradeable v3.0.0''
       DEPLOYMENT_AND_IMPLEMENTATION (Some ConstructorShape.PublicKey) docs #
     argent_cairo1_classes X @ cairo0_known_classes X @ braavos_known_classes X"
  using oz_manifest_classes_eq by (auto simp: known_account_classes_def oz_classes_def)

lemmas registry_unfold =
  argent_cairo1_classes_def argent_known_classes_def cairo0_known_classes_def known_implementations_def
  braavos_known_classes_def known_account_class_def DEPLOYMENT_AND_IMPLEMENTATION_def DEPLOYMENT_ONLY_def
  IMPLEMENTATION_ONLY_def PROXY_TARGET_ONLY_def is_deployment_class_def is_implementation_class_def is_proxy_target_def

lemma registry_roles:
  assumes "known \<in> set (known_account_classes X)"
  shows "kc_constructor known \<noteq> None \<longleftrightarrow> is_deployment_class known"
    and "is_proxy_target known \<longleftrightarrow> \<not> is_deployment_class known \<and> \<not> is_implementation_class known"
    and "kc_family known = AccountFamily.Braavos \<Longrightarrow> is_deployment_class known \<longleftrightarrow> \<not> is_implementation_class known"
  using registry_entries assms by (auto simp: registry_unfold)

lemma layout_iff: "layout_for_class_hash X h = Some layout \<longleftrightarrow> (\<exists>version. (h, version, layout) \<in> set (argent_known_classes X))"
proof -
  have "distinct (map kc_class_hash (argent_cairo1_classes X))"
    using registry_distinct by (simp add: known_account_classes_def)
  then have d: "distinct (map fst (argent_known_classes X))"
    by (simp add: argent_cairo1_classes_def comp_def known_account_class_def case_prod_beta)
  have "find (\<lambda>(known, _, _). known = h) (argent_known_classes X) = find (\<lambda>e. fst e = h) (argent_known_classes X)"
    by (rule arg_cong [of _ _ "\<lambda>p. find p (argent_known_classes X)"]) (simp add: fun_eq_iff)
  then show ?thesis unfolding layout_for_class_hash_def using find_distinct [OF d] by (force simp: map_option_eq_Some)
qed

lemma registry_layout:
  "layout_for_class_hash X h = Option.bind (lookup_account_class X h) (\<lambda>known. Option.bind (kc_constructor known) argent_layout)"
proof (rule option_eqI)
  fix layout
  obtain docs where e: "known_account_classes X =
     known_account_class OpenZeppelin (felt_from S (text_value OZ_CLASS_HASH)) ''3.0.0'' ''OpenZeppelin AccountUpgradeable v3.0.0''
       DEPLOYMENT_AND_IMPLEMENTATION (Some ConstructorShape.PublicKey) docs #
     argent_cairo1_classes X @ cairo0_known_classes X @ braavos_known_classes X"
    using registry_entries by blast
  have "(\<exists>known \<in> set (known_account_classes X). kc_class_hash known = h \<and> Option.bind (kc_constructor known) argent_layout = Some layout) \<longleftrightarrow>
    (\<exists>version. (h, version, layout) \<in> set (argent_known_classes X))"
    unfolding e by (simp add: registry_unfold) auto
  then show "layout_for_class_hash X h = Some layout \<longleftrightarrow>
    Option.bind (lookup_account_class X h) (\<lambda>known. Option.bind (kc_constructor known) argent_layout) = Some layout"
    unfolding layout_iff bind_eq_Some_conv [of "lookup_account_class X h"] lookup_iff by blast
qed

lemma braavos_hashes:
  "deployment_class_hashes X = map kc_class_hash (deployment_classes X AccountFamily.Braavos)"
  "implementation_class_hashes X = map kc_class_hash (implementation_classes X AccountFamily.Braavos)"
  using registry_entries
  by (auto simp: deployment_class_hashes_def implementation_class_hashes_def class_hashes_with_role_def
      deployment_classes_def implementation_classes_def registry_unfold)

lemma proxy_targets:
  "is_known_implementation X h \<longleftrightarrow> h \<in> kc_class_hash ` set (proxy_target_classes X AccountFamily.Argent)"
proof -
  obtain docs where "known_account_classes X =
     known_account_class OpenZeppelin (felt_from S (text_value OZ_CLASS_HASH)) ''3.0.0'' ''OpenZeppelin AccountUpgradeable v3.0.0''
       DEPLOYMENT_AND_IMPLEMENTATION (Some ConstructorShape.PublicKey) docs #
     argent_cairo1_classes X @ cairo0_known_classes X @ braavos_known_classes X"
    using registry_entries by blast
  then have "map kc_class_hash (proxy_target_classes X AccountFamily.Argent) = map fst (known_implementations X)"
    by (simp add: proxy_target_classes_def registry_unfold)
  then have "kc_class_hash ` set (proxy_target_classes X AccountFamily.Argent) = fst ` set (known_implementations X)"
    by (metis set_map)
  then show ?thesis by (force simp: is_known_implementation_def list_ex_iff)
qed

end

text \<open>Addresses: the prefix is a short string, so the computation never fails.\<close>

definition deployed_address :: "('f, 'p, 'a, 'r) starknet \<Rightarrow> 'f stark_crypto \<Rightarrow> 'f \<Rightarrow> 'f \<Rightarrow> 'f list \<Rightarrow> 'f \<Rightarrow> 'f" where
  "deployed_address S K salt class_hash calldata deployer =
     normalize_address K (hash_elements S
       [felt_from S (be_val (ascii_bytes ''STARKNET_CONTRACT_ADDRESS'')), deployer, salt, class_hash,
        hash_elements S calldata])"

lemma calculate_contract_address_eq:
  "calculate_contract_address S K salt class_hash calldata deployer = Inr (deployed_address S K salt class_hash calldata deployer)"
  by (simp add: calculate_contract_address_def deployed_address_def encode_short_string_def CONTRACT_ADDRESS_PREFIX_def
      ascii_bytes_def)

section \<open>Properties\<close>

text \<open>
  The registry is one consistent table. It lists no class hash twice, and looking a hash up finds exactly its entry.
  A class has a constructor shape exactly when accounts are deployed with it, proxy targets are neither deployed nor
  reported, and no Braavos class is both deployed and reported. The accessors of the three families agree with it: the
  constructor layouts of Argent, the base and implementation classes of Braavos, and the targets of the Cairo 0 proxy.
\<close>

theorem registry_consistent:
  assumes "felt_format_laws S X"
  shows "distinct (map kc_class_hash (known_account_classes X)) \<and>
    (lookup_account_class X h = Some known \<longleftrightarrow> known \<in> set (known_account_classes X) \<and> kc_class_hash known = h) \<and>
    (known \<in> set (known_account_classes X) \<longrightarrow>
      (kc_constructor known \<noteq> None \<longleftrightarrow> is_deployment_class known) \<and>
      (is_proxy_target known \<longleftrightarrow> \<not> is_deployment_class known \<and> \<not> is_implementation_class known) \<and>
      (kc_family known = AccountFamily.Braavos \<longrightarrow> (is_deployment_class known \<longleftrightarrow> \<not> is_implementation_class known))) \<and>
    layout_for_class_hash X h = Option.bind (lookup_account_class X h) (\<lambda>known. Option.bind (kc_constructor known) argent_layout) \<and>
    deployment_class_hashes X = map kc_class_hash (deployment_classes X AccountFamily.Braavos) \<and>
    implementation_class_hashes X = map kc_class_hash (implementation_classes X AccountFamily.Braavos) \<and>
    (is_known_implementation X h \<longleftrightarrow> h \<in> kc_class_hash ` set (proxy_target_classes X AccountFamily.Argent))"
proof -
  note laws = felt_format_laws.registry_distinct [OF assms] felt_format_laws.lookup_iff [OF assms, of h known]
    felt_format_laws.registry_roles [OF assms, of known] felt_format_laws.registry_layout [OF assms, of h]
    felt_format_laws.braavos_hashes [OF assms] felt_format_laws.proxy_targets [OF assms, of h]
  then show ?thesis by blast
qed

theorem registry_consistent_witness:
  "lookup_account_class zformat (braavos_static_class_hash zformat LEGACY_CLASS_HASH) \<noteq> None \<and>
   layout_for_class_hash zformat (braavos_static_class_hash zformat LEGACY_CLASS_HASH) = None"
proof -
  define known where "known = last (known_account_classes zformat)"
  have last: "known \<in> set (known_account_classes zformat)" "kc_constructor known = None"
    "kc_class_hash known = braavos_static_class_hash zformat LEGACY_CLASS_HASH"
    by (simp_all add: known_def known_account_classes_def braavos_known_classes_def known_account_class_def)
  with registry_consistent [OF zfmt.felt_format_laws_axioms, of "braavos_static_class_hash zformat LEGACY_CLASS_HASH" known]
  show ?thesis by simp
qed

end
