(* ===== verification/Argent_Decode.thy ===== *)
theory Argent_Decode
  imports Account_Class
begin

text \<open>
  \<open>account_class/argent_decode.rs\<close> of \<open>crates/kms/src\<close>: reading Argent constructor calldata back. The lemmas show that
  decoding accepts exactly the serializations of valid signers and inverts the calldata the presets build.
\<close>

section \<open>Decoding\<close>

datatype 'f DecodedArgentConstructor =
    StarknetOwnerNoGuardian 'f
  | StarknetOwnerWithGuardian 'f "'f option"
  | NonStarknetOwner u8

datatype 'f Signer = Starknet 'f | Other u8

fun signer_variant :: "'f Signer \<Rightarrow> u8" where
  "signer_variant (Starknet _) = 0"
| "signer_variant (Other variant) = variant"

definition malformed :: "string \<Rightarrow> KmsError" where
  "malformed detail = DeserializationError (''Argent constructor calldata: '' @ detail)"

definition decode_owner_guardian_felts ::
    "('f, 'p, 'a, 'r) starknet \<Rightarrow> 'f list \<Rightarrow> 'f DecodedArgentConstructor result" where
  "decode_owner_guardian_felts S calldata =
     (case calldata of
        [owner, guardian] \<Rightarrow>
          if owner = felt_zero S then Inl (malformed ''owner is zero'')
          else Inr (if guardian = felt_zero S then StarknetOwnerNoGuardian owner
                    else StarknetOwnerWithGuardian owner (Some guardian))
      | _ \<Rightarrow> Inl (malformed (''expected [owner, guardian], got '' @ show_nat (length calldata) @ '' felts'')))"

definition ETH_ADDRESS_BYTES :: nat where
  "ETH_ADDRESS_BYTES = 20"

definition U128_BYTES :: nat where
  "U128_BYTES = 16"

definition fits :: "('f, 'p, 'a, 'r) starknet \<Rightarrow> 'f \<Rightarrow> nat \<Rightarrow> bool" where
  "fits S felt bytes = list_all (\<lambda>byte. byte = 0) (take (32 - bytes) (felt_to_bytes_be S felt))"

definition is_nonzero_u256 :: "('f, 'p, 'a, 'r) starknet \<Rightarrow> 'f list \<Rightarrow> bool" where
  "is_nonzero_u256 S limbs =
     (length limbs = 2 \<and> list_all (\<lambda>limb. fits S limb U128_BYTES) limbs \<and> list_ex (\<lambda>limb. limb \<noteq> felt_zero S) limbs)"

text \<open>\<open>usize\<close> has 64 bits.\<close>

definition small_usize :: "('f, 'p, 'a, 'r) starknet \<Rightarrow> 'f \<Rightarrow> u64 option" where
  "small_usize S felt =
     (let bytes = felt_to_bytes_be S felt
      in if list_ex (\<lambda>byte. byte \<noteq> 0) (take 24 bytes) then None else Some (of_nat (be_val (drop 24 bytes))))"

definition is_valid_webauthn :: "('f, 'p, 'a, 'r) starknet \<Rightarrow> 'f list \<Rightarrow> bool" where
  "is_valid_webauthn S payload =
     (case payload of
        [] \<Rightarrow> False
      | len # rest \<Rightarrow>
          (case small_usize S len of
             None \<Rightarrow> False
           | Some origin_len \<Rightarrow>
               if length rest \<noteq> unat (origin_len + 4) then False
               else
                 let origin = take (unat origin_len) rest;
                     keys = drop (unat origin_len) rest
                 in list_all (\<lambda>byte. fits S byte 1) origin \<and> is_nonzero_u256 S (take 2 keys) \<and>
                      is_nonzero_u256 S (drop 2 keys)))"

text \<open>\<open>width\<close> of \<open>split_signer\<close>. The sum is that of \<open>checked_add\<close>.\<close>

definition signer_width :: "('f, 'p, 'a, 'r) starknet \<Rightarrow> u8 \<Rightarrow> 'f list \<Rightarrow> string \<Rightarrow> u64 result" where
  "signer_width S variant payload what =
     (if variant \<in> {0, 1, 3} then Inr 1
      else if variant = 2 then Inr 2
      else if variant = 4
      then and_then (ok_or (malformed (what @ '' webauthn origin length''))
             (case payload of [] \<Rightarrow> None | len # _ \<Rightarrow> small_usize S len)) (\<lambda>origin_len.
             if unat origin_len + 5 < 2 ^ 64 then Inr (origin_len + 5)
             else Inl (malformed (what @ '' webauthn origin length'')))
      else Inl (malformed (what @ '' tag is not a Signer variant'')))"

definition signer_valid :: "('f, 'p, 'a, 'r) starknet \<Rightarrow> u8 \<Rightarrow> 'f list \<Rightarrow> bool" where
  "signer_valid S variant payload =
     (if variant = 0 then payload ! 0 \<noteq> felt_zero S
      else if variant \<in> {1, 3} then payload ! 0 \<noteq> felt_zero S \<and> fits S (payload ! 0) ETH_ADDRESS_BYTES
      else if variant = 2 then is_nonzero_u256 S payload
      else is_valid_webauthn S payload)"

definition split_signer ::
    "('f, 'p, 'a, 'r) starknet \<Rightarrow> 'f \<Rightarrow> 'f list \<Rightarrow> string \<Rightarrow> ('f Signer \<times> 'f list) result" where
  "split_signer S tag payload what =
     and_then (ok_or (malformed (what @ '' tag is not a Signer variant''))
        (case small_usize S tag of
           Some variant \<Rightarrow> if unat variant < 256 then Some (of_nat (unat variant) :: u8) else None
         | None \<Rightarrow> None)) (\<lambda>variant.
     and_then (signer_width S variant payload what) (\<lambda>width.
       if length payload < unat width then Inl (malformed (what @ '' payload is truncated''))
       else
         let rest = drop (unat width) payload;
             payload = take (unat width) payload
         in if \<not> signer_valid S variant payload then Inl (malformed (what @ '' payload is out of range''))
            else Inr (if variant = 0 then Starknet (payload ! 0) else Other variant, rest)))"

definition split_optional_signer :: "('f, 'p, 'a, 'r) starknet \<Rightarrow> 'f list \<Rightarrow> 'f Signer option result" where
  "split_optional_signer S calldata =
     and_then (ok_or (malformed ''guardian option is missing'') (case calldata of [] \<Rightarrow> None | t # r \<Rightarrow> Some (t, r)))
       (\<lambda>(tag, rest).
     and_then
       (if tag = felt_one S then Inr (None, rest)
        else if tag = felt_zero S
        then and_then (ok_or (malformed ''guardian signer is missing'') (case rest of [] \<Rightarrow> None | t # r \<Rightarrow> Some (t, r)))
               (\<lambda>(tag, payload).
             and_then (split_signer S tag payload ''guardian'') (\<lambda>(signer, rest). Inr (Some signer, rest)))
        else Inl (malformed ''guardian option tag is not 0 or 1'')) (\<lambda>(guardian, rest).
       if rest \<noteq> [] then Inl (malformed ''trailing felts after the guardian'') else Inr guardian))"

definition decode_signer_with_optional_guardian ::
    "('f, 'p, 'a, 'r) starknet \<Rightarrow> 'f list \<Rightarrow> 'f DecodedArgentConstructor result" where
  "decode_signer_with_optional_guardian S calldata =
     and_then (ok_or (malformed ''empty'') (case calldata of [] \<Rightarrow> None | t # r \<Rightarrow> Some (t, r))) (\<lambda>(owner_tag, rest).
     and_then (split_signer S owner_tag rest ''owner'') (\<lambda>(owner, after_owner).
     and_then (split_optional_signer S after_owner) (\<lambda>guardian.
       case owner of
         Other _ \<Rightarrow> Inr (NonStarknetOwner (signer_variant owner))
       | Starknet owner_key \<Rightarrow>
           Inr (case guardian of
                  None \<Rightarrow> StarknetOwnerNoGuardian owner_key
                | Some (Starknet key) \<Rightarrow> StarknetOwnerWithGuardian owner_key (Some key)
                | Some (Other _) \<Rightarrow> StarknetOwnerWithGuardian owner_key None))))"

fun argent_decode ::
    "('f, 'p, 'a, 'r) starknet \<Rightarrow> ArgentConstructorLayout \<Rightarrow> 'f list \<Rightarrow> 'f DecodedArgentConstructor result" where
  "argent_decode S OwnerGuardianFelts calldata = decode_owner_guardian_felts S calldata"
| "argent_decode S SignerWithOptionalGuardian calldata = decode_signer_with_optional_guardian S calldata"

section \<open>What decoding accepts\<close>

text \<open>
  The signers of the Argent contract, how Cairo serializes them, and which values its constructor takes: keys and
  addresses are not zero, addresses have 160 bits, and the halves of 256-bit integers have 128 bits.
\<close>

datatype 'f argent_signer =
    StarknetSigner 'f
  | Secp256k1Signer 'f
  | Secp256r1Signer 'f 'f
  | Eip191Signer 'f
  | WebauthnSigner "'f list" 'f 'f 'f 'f

fun ser_signer :: "('f, 'p, 'a, 'r) starknet \<Rightarrow> 'f argent_signer \<Rightarrow> 'f list" where
  "ser_signer S (StarknetSigner key) = [felt_from S 0, key]"
| "ser_signer S (Secp256k1Signer address) = [felt_from S 1, address]"
| "ser_signer S (Secp256r1Signer low high) = [felt_from S 2, low, high]"
| "ser_signer S (Eip191Signer address) = [felt_from S 3, address]"
| "ser_signer S (WebauthnSigner origin rp_low rp_high key_low key_high) =
     [felt_from S 4, felt_from S (length origin)] @ origin @ [rp_low, rp_high, key_low, key_high]"

definition u256_ok :: "('f, 'p, 'a, 'r) starknet \<Rightarrow> 'f \<Rightarrow> 'f \<Rightarrow> bool" where
  "u256_ok S low high =
     (felt_val S low < 2 ^ 128 \<and> felt_val S high < 2 ^ 128 \<and> 0 < felt_val S low + 2 ^ 128 * felt_val S high)"

fun signer_ok :: "('f, 'p, 'a, 'r) starknet \<Rightarrow> 'f argent_signer \<Rightarrow> bool" where
  "signer_ok S (StarknetSigner key) = (0 < felt_val S key)"
| "signer_ok S (Secp256k1Signer address) = (0 < felt_val S address \<and> felt_val S address < 2 ^ 160)"
| "signer_ok S (Secp256r1Signer low high) = u256_ok S low high"
| "signer_ok S (Eip191Signer address) = (0 < felt_val S address \<and> felt_val S address < 2 ^ 160)"
| "signer_ok S (WebauthnSigner origin rp_low rp_high key_low key_high) =
     (length origin + 5 < 2 ^ 64 \<and> (\<forall>byte \<in> set origin. felt_val S byte < 256) \<and> u256_ok S rp_low rp_high \<and>
      u256_ok S key_low key_high)"

fun signer_view :: "'f argent_signer \<Rightarrow> 'f Signer" where
  "signer_view (StarknetSigner key) = Starknet key"
| "signer_view (Secp256k1Signer address) = Other 1"
| "signer_view (Secp256r1Signer low high) = Other 2"
| "signer_view (Eip191Signer address) = Other 3"
| "signer_view (WebauthnSigner origin rp_low rp_high key_low key_high) = Other 4"

text \<open>The optional guardian, and what is reported of owner and guardian.\<close>

fun ser_guardian :: "('f, 'p, 'a, 'r) starknet \<Rightarrow> 'f argent_signer option \<Rightarrow> 'f list" where
  "ser_guardian S None = [felt_from S 1]"
| "ser_guardian S (Some signer) = felt_from S 0 # ser_signer S signer"

fun decoded_view :: "'f Signer \<Rightarrow> 'f Signer option \<Rightarrow> 'f DecodedArgentConstructor" where
  "decoded_view (Starknet key) None = StarknetOwnerNoGuardian key"
| "decoded_view (Starknet key) (Some (Starknet guardian)) = StarknetOwnerWithGuardian key (Some guardian)"
| "decoded_view (Starknet key) (Some (Other variant)) = StarknetOwnerWithGuardian key None"
| "decoded_view (Other variant) guardian = DecodedArgentConstructor.NonStarknetOwner variant"

text \<open>What \<open>split_signer\<close> does once the variant is read.\<close>

definition split_variant :: "('f, 'p, 'a, 'r) starknet \<Rightarrow> u8 \<Rightarrow> 'f list \<Rightarrow> string \<Rightarrow> ('f Signer \<times> 'f list) result" where
  "split_variant S variant payload what =
     and_then (signer_width S variant payload what) (\<lambda>width.
       if length payload < unat width then Inl (malformed (what @ '' payload is truncated''))
       else
         let rest = drop (unat width) payload;
             payload = take (unat width) payload
         in if \<not> signer_valid S variant payload then Inl (malformed (what @ '' payload is out of range''))
            else Inr (if variant = 0 then Starknet (payload ! 0) else Other variant, rest))"

lemma decoded_view_key:
  "StarknetOwnerNoGuardian owner = decoded_view (signer_view signer) (map_option signer_view guardian) \<longleftrightarrow>
    signer = StarknetSigner owner \<and> guardian = None"
  "StarknetOwnerWithGuardian owner (Some key) = decoded_view (signer_view signer) (map_option signer_view guardian) \<longleftrightarrow>
    signer = StarknetSigner owner \<and> guardian = Some (StarknetSigner key)"
proof -
  have view: "signer_view s = Starknet f \<longleftrightarrow> s = StarknetSigner f" for s  f by (cases s) auto
  have "StarknetOwnerNoGuardian owner = decoded_view s g \<longleftrightarrow> s = Starknet owner \<and> g = None"
    "StarknetOwnerWithGuardian owner (Some key) = decoded_view s g \<longleftrightarrow> s = Starknet owner \<and> g = Some (Starknet key)" for s g
    by (cases "(s, g)" rule: decoded_view.cases; auto)+
  then show "StarknetOwnerNoGuardian owner = decoded_view (signer_view signer) (map_option signer_view guardian) \<longleftrightarrow>
      signer = StarknetSigner owner \<and> guardian = None"
    "StarknetOwnerWithGuardian owner (Some key) = decoded_view (signer_view signer) (map_option signer_view guardian) \<longleftrightarrow>
      signer = StarknetSigner owner \<and> guardian = Some (StarknetSigner key)"
    by (auto simp: view map_option_eq_Some)
qed

context felt_laws
begin

lemma high_bytes_zero:
  assumes "n \<le> 32"
  shows "list_all (\<lambda>byte. byte = 0) (take (32 - n) (felt_to_bytes_be S f)) \<longleftrightarrow> felt_val S f < 256 ^ n"
proof -
  define bs where "bs = felt_to_bytes_be S f"
  define hi lo where "hi = take (32 - n) bs" and "lo = drop (32 - n) bs"
  have lo: "length lo = n" using assms felt_bytes_length [of f] by (simp add: bs_def lo_def)
  have v: "felt_val S f = be_val hi * 256 ^ n + be_val lo"
    using be_val_append [of hi lo, unfolded lo] by (simp add: felt_val_def hi_def lo_def bs_def)
  have "list_all (\<lambda>byte. byte = 0) hi \<longleftrightarrow> be_val hi = 0" by (simp add: list_all_iff be_val_zero_iff)
  also have "\<dots> \<longleftrightarrow> felt_val S f < 256 ^ n"
    using be_val_less [of lo] by (cases "be_val hi") (simp_all add: v lo)
  finally show ?thesis by (simp add: hi_def bs_def)
qed

lemma fits_iff: "n \<le> 32 \<Longrightarrow> fits S f n \<longleftrightarrow> felt_val S f < 256 ^ n"
  by (simp only: fits_def high_bytes_zero)

lemma small_usize_eq: "small_usize S f = (if felt_val S f < 2 ^ 64 then Some (of_nat (felt_val S f)) else None)"
proof -
  have "list_ex (\<lambda>byte. byte \<noteq> 0) bs \<longleftrightarrow> \<not> list_all (\<lambda>byte. byte = 0) bs" for bs :: "byte list" by (simp add: list_ex_iff list_all_iff)
  then have c: "list_ex (\<lambda>byte. byte \<noteq> 0) (take 24 (felt_to_bytes_be S f)) \<longleftrightarrow> \<not> felt_val S f < 2 ^ 64"
    using high_bytes_zero [of 8 f] by simp
  have "be_val (drop 24 (felt_to_bytes_be S f)) = felt_val S f" if "felt_val S f < 2 ^ 64"
  proof -
    have "be_val (take 24 (felt_to_bytes_be S f)) = 0"
      using high_bytes_zero [of 8 f] that by (simp add: be_val_zero_iff list_all_iff)
    then show ?thesis
      using be_val_append [of "take 24 (felt_to_bytes_be S f)" "drop 24 (felt_to_bytes_be S f)"] by (simp add: felt_val_def)
  qed
  with c show ?thesis by (simp add: small_usize_def Let_def)
qed

lemma u256_fits: "u256_ok S low high \<longleftrightarrow>
    fits S low U128_BYTES \<and> fits S high U128_BYTES \<and> (low \<noteq> felt_zero S \<or> high \<noteq> felt_zero S)"
proof -
  have "f \<noteq> felt_zero S \<longleftrightarrow> 0 < felt_val S f" for f by (simp only: neq0_conv [symmetric] felt_val_zero_iff)
  moreover have "fits S f U128_BYTES \<longleftrightarrow> felt_val S f < 2 ^ 128" for f by (simp add: fits_iff U128_BYTES_def)
  ultimately show ?thesis by (simp only: u256_ok_def) simp
qed

lemma is_nonzero_u256_iff: "is_nonzero_u256 S limbs \<longleftrightarrow> (\<exists>low high. limbs = [low, high] \<and> u256_ok S low high)"
proof (cases "\<exists>low high. limbs = [low, high]")
  case True
  then show ?thesis by (auto simp: is_nonzero_u256_def u256_fits)
next
  case False
  then have "length limbs \<noteq> 2" by (auto simp: length_Suc_conv numeral_2_eq_2)
  with False show ?thesis by (simp add: is_nonzero_u256_def)
qed

lemma felt_from_eq_iff: "k < FELT_PRIME \<Longrightarrow> f = felt_from S k \<longleftrightarrow> felt_val S f = k"
  by (metis felt_from_val felt_val_from mod_less)

lemma felt_val_pos: "f \<noteq> felt_zero S \<longleftrightarrow> 0 < felt_val S f"
  by (simp only: neq0_conv [symmetric] felt_val_zero_iff)

lemma split_signer_eq:
  "split_signer S tag payload what =
     (if felt_val S tag < 256 then split_variant S (of_nat (felt_val S tag)) payload what
      else Inl (malformed (what @ '' tag is not a Signer variant'')))"
proof -
  have "unat (of_nat (felt_val S tag) :: u64) = felt_val S tag" if "felt_val S tag < 2 ^ 64"
    using that by (simp add: unat_of_nat_small)
  then show ?thesis by (auto simp: split_signer_def split_variant_def small_usize_eq)
qed

lemma split_variant_key:
  "split_variant S 0 payload what = Inr (s, rest) \<longleftrightarrow> (\<exists>key. payload = key # rest \<and> 0 < felt_val S key \<and> s = Starknet key)"
  by (cases payload) (auto simp: split_variant_def signer_width_def signer_valid_def felt_val_pos [symmetric])

lemma fits_eth: "fits S f ETH_ADDRESS_BYTES \<longleftrightarrow> felt_val S f < 2 ^ 160"
  by (simp add: fits_iff ETH_ADDRESS_BYTES_def)

lemma split_variant_eth:
  assumes "variant \<in> {1, 3}"
  shows "split_variant S variant payload what = Inr (s, rest) \<longleftrightarrow>
    (\<exists>address. payload = address # rest \<and> 0 < felt_val S address \<and> fits S address ETH_ADDRESS_BYTES \<and> s = Other variant)"
proof -
  have valid: "signer_valid S variant [f] \<longleftrightarrow> 0 < felt_val S f \<and> fits S f ETH_ADDRESS_BYTES" for f
    using assms unfolding signer_valid_def felt_val_pos [symmetric] by auto
  have width: "signer_width S variant payload what = Inr 1" and "variant \<noteq> 0"
    using assms by (auto simp: signer_width_def)
  then show ?thesis by (cases payload) (simp_all add: split_variant_def valid, blast)
qed

lemma split_variant_u256:
  "split_variant S 2 payload what = Inr (s, rest) \<longleftrightarrow> (\<exists>low high. payload = low # high # rest \<and> u256_ok S low high \<and> s = Other 2)"
proof (cases payload rule: list.exhaust [case_product list.exhaust [of "tl payload"]])
  case Nil_Nil
  then show ?thesis by (simp add: split_variant_def signer_width_def)
next
  case Nil_Cons
  then show ?thesis by simp
next
  case (Cons_Nil low r)
  then show ?thesis by (simp add: split_variant_def signer_width_def)
next
  case (Cons_Cons low r high r')
  then show ?thesis by (auto simp: split_variant_def signer_width_def signer_valid_def is_nonzero_u256_iff)
qed

lemma webauthn_valid_iff:
  assumes v: "felt_val S len + 5 < 2 ^ 64"
  shows "is_valid_webauthn S (len # body) \<longleftrightarrow>
    (\<exists>origin a b c d. body = origin @ [a, b, c, d] \<and> length origin = felt_val S len \<and> (\<forall>byte \<in> set origin. fits S byte 1) \<and>
      u256_ok S a b \<and> u256_ok S c d)" (is "?valid \<longleftrightarrow> ?shape")
proof -
  define n where "n = felt_val S len"
  have u: "unat (of_nat n :: u64) = n" "unat (of_nat n + 4 :: u64) = n + 4"
    using v by (simp_all add: n_def unat_of_nat_small unat_word_ariths(1))
  have "small_usize S len = Some (of_nat n)" using v by (simp add: small_usize_eq n_def)
  then have valid: "?valid \<longleftrightarrow> length body = n + 4 \<and> (\<forall>byte \<in> set (take n body). fits S byte 1) \<and>
      is_nonzero_u256 S (take 2 (drop n body)) \<and> is_nonzero_u256 S (drop 2 (drop n body))"
    by (simp add: is_valid_webauthn_def u list_all_iff)
  show ?thesis
  proof
    assume ?valid
    then have l: "length body = n + 4" "\<forall>byte \<in> set (take n body). fits S byte 1"
      "is_nonzero_u256 S (take 2 (drop n body))" "is_nonzero_u256 S (drop 2 (drop n body))"
      unfolding valid by simp_all
    obtain a b c d where k: "take 2 (drop n body) = [a, b]" "u256_ok S a b" "drop 2 (drop n body) = [c, d]" "u256_ok S c d"
      using l(3,4) unfolding is_nonzero_u256_iff by (elim exE conjE)
    have "body = take n body @ take 2 (drop n body) @ drop 2 (drop n body)" by (simp only: append_take_drop_id)
    then have "body = take n body @ [a, b, c, d]" unfolding k by simp
    moreover have "length (take n body) = felt_val S len" using l(1) by (simp add: n_def)
    ultimately show ?shape using l(2) k(2,4) by (intro exI conjI)
  next
    assume ?shape
    then obtain origin a b c d where o: "body = origin @ [a, b, c, d]" "length origin = felt_val S len"
      "\<forall>byte \<in> set origin. fits S byte 1" "u256_ok S a b" "u256_ok S c d" by (elim exE conjE)
    then show ?valid unfolding valid is_nonzero_u256_iff by (simp add: n_def)
  qed
qed

lemma split_variant_webauthn:
  "split_variant S 4 payload what = Inr (s, rest) \<longleftrightarrow>
    (\<exists>origin a b c d. payload = felt_from S (length origin) # origin @ [a, b, c, d] @ rest \<and> length origin + 5 < 2 ^ 64 \<and>
      (\<forall>byte \<in> set origin. fits S byte 1) \<and> u256_ok S a b \<and> u256_ok S c d \<and> s = Other 4)"
proof (cases payload)
  case (Cons len body)
  define n where "n = felt_val S len"
  show ?thesis
  proof (cases "n + 5 < 2 ^ 64")
    case True
    have w: "signer_width S 4 payload what = Inr (of_nat n + 5)"
      using True by (simp add: signer_width_def Cons small_usize_eq n_def unat_of_nat_small)
    have u: "unat (of_nat n + 5 :: u64) = n + 5" using True by (simp add: unat_of_nat_small unat_word_ariths(1))
    have len: "len = felt_from S k \<longleftrightarrow> k = n" if "k + 5 < 2 ^ 64" for k
      using felt_from_eq_iff [of k len] that by (auto simp: FELT_PRIME_def n_def)
    have "split_variant S 4 payload what = Inr (s, rest) \<longleftrightarrow>
        n + 4 \<le> length body \<and> is_valid_webauthn S (len # take (n + 4) body) \<and> s = Other 4 \<and> rest = drop (n + 4) body"
    proof -
      have "take (n + 5) payload = len # take (n + 4) body" "drop (n + 5) payload = drop (n + 4) body"
        by (simp_all add: Cons take_Cons' drop_Cons' add.commute)
      moreover have "length payload < n + 5 \<longleftrightarrow> \<not> n + 4 \<le> length body" by (auto simp: Cons)
      moreover have "signer_valid S 4 q = is_valid_webauthn S q" for q by (simp add: signer_valid_def)
      ultimately show ?thesis unfolding split_variant_def w and_then_Inr u Let_def by auto
    qed
    also have "\<dots> \<longleftrightarrow> (\<exists>origin a b c d. body = origin @ [a, b, c, d] @ rest \<and> length origin = n \<and>
        (\<forall>byte \<in> set origin. fits S byte 1) \<and> u256_ok S a b \<and> u256_ok S c d \<and> s = Other 4)" (is "?l \<longleftrightarrow> ?r")
    proof
      assume l: ?l
      then have body: "body = take (n + 4) body @ rest" by simp
      obtain origin a b c d where t: "take (n + 4) body = origin @ [a, b, c, d]" and "length origin = n"
        "\<forall>byte \<in> set origin. fits S byte 1" "u256_ok S a b" "u256_ok S c d"
        using l webauthn_valid_iff [of len "take (n + 4) body"] True unfolding n_def by blast
      moreover have "body = origin @ [a, b, c, d] @ rest" using body unfolding t by simp
      ultimately show ?r using l by blast
    next
      assume ?r
      then obtain origin a b c d where o: "body = origin @ [a, b, c, d] @ rest" "length origin = n"
        "\<forall>byte \<in> set origin. fits S byte 1" "u256_ok S a b" "u256_ok S c d" "s = Other 4" by blast
      then have "take (n + 4) body = origin @ [a, b, c, d]" "drop (n + 4) body = rest" "n + 4 \<le> length body" by auto
      moreover have "is_valid_webauthn S (len # origin @ [a, b, c, d])"
        using o webauthn_valid_iff [of len "origin @ [a, b, c, d]"] True unfolding n_def by blast
      ultimately show ?l using o by simp
    qed
    finally have l: "split_variant S 4 payload what = Inr (s, rest) \<longleftrightarrow>
      (\<exists>origin a b c d. body = origin @ [a, b, c, d] @ rest \<and> length origin = n \<and>
        (\<forall>byte \<in> set origin. fits S byte 1) \<and> u256_ok S a b \<and> u256_ok S c d \<and> s = Other 4)" .
    have "payload = felt_from S (length origin) # q \<and> length origin + 5 < 2 ^ 64 \<longleftrightarrow> body = q \<and> length origin = n" for origin q
      using len [of "length origin"] True unfolding Cons by (metis list.inject)
    then show ?thesis unfolding l by blast
  next
    case False
    then have "\<not> (\<exists>x. signer_width S 4 payload what = Inr x)"
      by (auto simp: signer_width_def Cons small_usize_eq n_def unat_of_nat_small and_then_eq_Inr ok_or_eq_Inr)
    moreover have "len \<noteq> felt_from S k" if "k + 5 < 2 ^ 64" for k
      using False felt_from_eq_iff [of k len] that by (auto simp: FELT_PRIME_def n_def)
    ultimately show ?thesis unfolding split_variant_def and_then_eq_Inr Cons by blast
  qed
qed (simp add: split_variant_def signer_width_def)

lemma split_variant_other:
  assumes "5 \<le> k" and "k < 256"
  shows "split_variant S (of_nat k) payload what = Inl (malformed (what @ '' tag is not a Signer variant''))"
proof -
  have "unat (of_nat k :: u8) = k" using assms(2) by (simp add: unat_of_nat_small)
  then have "(of_nat k :: u8) \<notin> {0, 1, 2, 3, 4}" using assms(1) by auto
  then show ?thesis by (simp add: split_variant_def signer_width_def)
qed

lemma split_signer_iff:
  "split_signer S tag payload what = Inr (s, rest) \<longleftrightarrow>
    (\<exists>signer. signer_ok S signer \<and> tag # payload = ser_signer S signer @ rest \<and> s = signer_view signer)"
proof -
  have tag: "tag = felt_from S k \<longleftrightarrow> felt_val S tag = k" if "k < 5" for k
    using that by (intro felt_from_eq_iff) (simp add: FELT_PRIME_def)
  have byte: "fits S f (Suc 0) \<longleftrightarrow> felt_val S f < 256" for f by (simp add: fits_iff)
  have shapes: "(\<exists>signer. signer_ok S signer \<and> tag # payload = ser_signer S signer @ rest \<and> s = signer_view signer) \<longleftrightarrow>
    felt_val S tag = 0 \<and> (\<exists>key. payload = key # rest \<and> 0 < felt_val S key \<and> s = Starknet key) \<or>
    felt_val S tag = 1 \<and> (\<exists>address. payload = address # rest \<and> 0 < felt_val S address \<and> fits S address ETH_ADDRESS_BYTES \<and> s = Other 1) \<or>
    felt_val S tag = 2 \<and> (\<exists>low high. payload = low # high # rest \<and> u256_ok S low high \<and> s = Other 2) \<or>
    felt_val S tag = 3 \<and> (\<exists>address. payload = address # rest \<and> 0 < felt_val S address \<and> fits S address ETH_ADDRESS_BYTES \<and> s = Other 3) \<or>
    felt_val S tag = 4 \<and> (\<exists>origin a b c d. payload = felt_from S (length origin) # origin @ [a, b, c, d] @ rest \<and> length origin + 5 < 2 ^ 64 \<and>
      (\<forall>byte \<in> set origin. fits S byte 1) \<and> u256_ok S a b \<and> u256_ok S c d \<and> s = Other 4)" (is "?l \<longleftrightarrow> ?r")
  proof
    assume ?l
    then obtain signer where "signer_ok S signer" "tag # payload = ser_signer S signer @ rest" "s = signer_view signer" by blast
    then show ?r by (cases signer) (simp_all add: tag fits_eth byte)
  next
    assume ?r
    then show ?l
    proof (elim disjE exE conjE)
      fix key assume "felt_val S tag = 0" "payload = key # rest" "0 < felt_val S key" "s = Starknet key"
      then show ?l by (intro exI [of _ "StarknetSigner key"]) (simp add: tag)
    next
      fix address assume "felt_val S tag = 1" "payload = address # rest" "0 < felt_val S address"
        "fits S address ETH_ADDRESS_BYTES" "s = Other 1"
      then show ?l by (intro exI [of _ "Secp256k1Signer address"]) (simp add: tag fits_eth)
    next
      fix low high assume "felt_val S tag = 2" "payload = low # high # rest" "u256_ok S low high" "s = Other 2"
      then show ?l by (intro exI [of _ "Secp256r1Signer low high"]) (simp add: tag)
    next
      fix address assume "felt_val S tag = 3" "payload = address # rest" "0 < felt_val S address"
        "fits S address ETH_ADDRESS_BYTES" "s = Other 3"
      then show ?l by (intro exI [of _ "Eip191Signer address"]) (simp add: tag fits_eth)
    next
      fix origin a b c d assume "felt_val S tag = 4" "payload = felt_from S (length origin) # origin @ [a, b, c, d] @ rest"
        "length origin + 5 < 2 ^ 64" "\<forall>byte \<in> set origin. fits S byte 1" "u256_ok S a b" "u256_ok S c d" "s = Other 4"
      then show ?l by (intro exI [of _ "WebauthnSigner origin a b c d"]) (simp add: tag byte)
    qed
  qed
  consider "felt_val S tag = 0" | "felt_val S tag = 1" | "felt_val S tag = 2" | "felt_val S tag = 3" | "felt_val S tag = 4" |
    "5 \<le> felt_val S tag" by linarith
  then show ?thesis
  proof cases
    case 6
    then have "split_signer S tag payload what = Inl (malformed (what @ '' tag is not a Signer variant''))"
      using split_variant_other [of "felt_val S tag" payload what] by (simp add: split_signer_eq)
    with 6 show ?thesis unfolding shapes by simp
  qed (simp_all add: shapes split_signer_eq split_variant_key split_variant_eth split_variant_u256 split_variant_webauthn)
qed

lemma option_tags: "f = felt_from S 1 \<Longrightarrow> f \<noteq> felt_zero S"
  using felt_from_eq_iff [of 0 f] felt_from_eq_iff [of 1 f] by (simp add: FELT_PRIME_def)

lemma ser_signer_ne [simp]: "ser_signer S signer \<noteq> []" "[] \<noteq> ser_signer S signer"
  by (cases signer; simp)+

lemma split_optional_signer_iff:
  "split_optional_signer S calldata = Inr g \<longleftrightarrow>
    (\<exists>guardian. pred_option (signer_ok S) guardian \<and> calldata = ser_guardian S guardian \<and> g = map_option signer_view guardian)"
  (is "_ \<longleftrightarrow> ?r")
proof (cases calldata)
  case Nil
  have "[] \<noteq> ser_guardian S guardian" for guardian by (cases guardian) simp_all
  with Nil show ?thesis by (auto simp: split_optional_signer_def)
next
  case (Cons tag rest)
  show ?thesis
  proof (cases "tag = felt_one S")
    case True
    then have "?r \<longleftrightarrow> rest = [] \<and> g = None"
      using option_tags [OF True] by (auto simp: Cons split_option_ex)
    with True show ?thesis by (auto simp: split_optional_signer_def Cons)
  next
    case False
    then have "?r \<longleftrightarrow> tag = felt_zero S \<and> (\<exists>signer. signer_ok S signer \<and> rest = ser_signer S signer \<and> g = Some (signer_view signer))"
      by (auto simp: Cons split_option_ex)
    also have "\<dots> \<longleftrightarrow> tag = felt_zero S \<and> (\<exists>tag' payload s. rest = tag' # payload \<and>
        split_signer S tag' payload ''guardian'' = Inr (s, []) \<and> g = Some s)"
      unfolding split_signer_iff by (cases rest) auto
    also have "\<dots> \<longleftrightarrow> split_optional_signer S calldata = Inr g"
      using False by (cases rest) (auto simp: split_optional_signer_def Cons and_then_eq_Inr split: if_splits)
    finally show ?thesis by blast
  qed
qed

lemma decode_signers_iff:
  "decode_signer_with_optional_guardian S calldata = Inr d \<longleftrightarrow>
    (\<exists>owner guardian. signer_ok S owner \<and> pred_option (signer_ok S) guardian \<and>
      calldata = ser_signer S owner @ ser_guardian S guardian \<and>
      d = decoded_view (signer_view owner) (map_option signer_view guardian))"
proof -
  have view: "(case owner of
         Other _ \<Rightarrow> Inr (DecodedArgentConstructor.NonStarknetOwner (signer_variant owner))
       | Starknet owner_key \<Rightarrow>
           Inr (case guardian of
                  None \<Rightarrow> StarknetOwnerNoGuardian owner_key
                | Some (Starknet key) \<Rightarrow> StarknetOwnerWithGuardian owner_key (Some key)
                | Some (Other _) \<Rightarrow> StarknetOwnerWithGuardian owner_key None)) = (Inr (decoded_view owner guardian) :: _ result)" for owner guardian
    by (cases "(owner, guardian)" rule: decoded_view.cases) simp_all
  have "decode_signer_with_optional_guardian S calldata = Inr d \<longleftrightarrow>
    (\<exists>tag payload s rest g. calldata = tag # payload \<and> split_signer S tag payload ''owner'' = Inr (s, rest) \<and>
      split_optional_signer S rest = Inr g \<and> d = decoded_view s g)"
    unfolding decode_signer_with_optional_guardian_def view
    by (cases calldata) (auto simp: and_then_eq_Inr)
  also have "\<dots> \<longleftrightarrow> (\<exists>owner guardian. signer_ok S owner \<and> pred_option (signer_ok S) guardian \<and>
      calldata = ser_signer S owner @ ser_guardian S guardian \<and>
      d = decoded_view (signer_view owner) (map_option signer_view guardian))"
    unfolding split_signer_iff split_optional_signer_iff by (cases calldata) auto
  finally show ?thesis .
qed

lemma decode_owner_guardian_iff:
  "decode_owner_guardian_felts S calldata = Inr d \<longleftrightarrow>
    (\<exists>owner guardian. calldata = [owner, guardian] \<and> 0 < felt_val S owner \<and>
      d = (if guardian = felt_zero S then StarknetOwnerNoGuardian owner else StarknetOwnerWithGuardian owner (Some guardian)))"
  by (auto simp: decode_owner_guardian_felts_def felt_val_pos [symmetric] split: list.splits)

text \<open>On the shapes that the presets build, decoding is their inverse.\<close>

lemma decode_no_guardian:
  "argent_decode S layout calldata = Inr (StarknetOwnerNoGuardian owner) \<longleftrightarrow>
    owner \<noteq> felt_zero S \<and> calldata = constructor_calldata S layout owner"
proof (cases layout)
  case SignerWithOptionalGuardian
  then show ?thesis
    by (simp add: decode_signers_iff decoded_view_key serialize_cairo_none_def felt_val_pos [symmetric])
qed (auto simp: decode_owner_guardian_iff felt_val_pos [symmetric])

lemma decode_guardian:
  "argent_decode S layout calldata = Inr (StarknetOwnerWithGuardian owner (Some guardian)) \<longleftrightarrow>
    owner \<noteq> felt_zero S \<and> guardian \<noteq> felt_zero S \<and> calldata = constructor_calldata_with_guardian S layout owner guardian"
proof (cases layout)
  case SignerWithOptionalGuardian
  then show ?thesis
    by (auto simp: decode_signers_iff decoded_view_key constructor_calldata_with_guardian_def felt_val_pos [symmetric])
qed (auto simp: decode_owner_guardian_iff constructor_calldata_with_guardian_def felt_val_pos [symmetric])

end

section \<open>Properties\<close>

text \<open>
  C24. Argent calldata is decoded exactly. The layout of version 0.4.0 and later accepts precisely the serializations of a
  valid owner followed by an optional valid guardian, of all five kinds of signers, and nothing else, and reports their
  keys; and in both layouts the calldata with a Starknet owner and no guardian, or a Starknet guardian, is precisely what
  the presets build for those keys.
\<close>

theorem argent_decode_exact:
  assumes "felt_laws S"
  shows "(argent_decode S SignerWithOptionalGuardian calldata = Inr d \<longleftrightarrow>
      (\<exists>owner guardian. signer_ok S owner \<and> pred_option (signer_ok S) guardian \<and>
        calldata = ser_signer S owner @ ser_guardian S guardian \<and>
        d = decoded_view (signer_view owner) (map_option signer_view guardian))) \<and>
    (argent_decode S layout calldata = Inr (StarknetOwnerNoGuardian key) \<longleftrightarrow>
      key \<noteq> felt_zero S \<and> calldata = constructor_calldata S layout key) \<and>
    (argent_decode S layout calldata = Inr (StarknetOwnerWithGuardian key (Some guardian_key)) \<longleftrightarrow>
      key \<noteq> felt_zero S \<and> guardian_key \<noteq> felt_zero S \<and>
      calldata = constructor_calldata_with_guardian S layout key guardian_key)"
  using felt_laws.decode_signers_iff [OF assms] felt_laws.decode_no_guardian [OF assms] felt_laws.decode_guardian [OF assms]
  by (simp only: argent_decode.simps simp_thms)

theorem argent_decode_exact_witness:
  "argent_decode stark_dlog SignerWithOptionalGuardian
     (map zfelt_of [4, 2, 104, 105, 7, 0, 9, 0, 0, 0, 5]) = Inr (DecodedArgentConstructor.NonStarknetOwner 4)"
proof -
  have "signer_ok stark_dlog (WebauthnSigner [zfelt_of 104, zfelt_of 105] (zfelt_of 7) (zfelt_of 0) (zfelt_of 9) (zfelt_of 0))"
    "signer_ok stark_dlog (StarknetSigner (zfelt_of 5))"
    by (simp_all add: u256_ok_def dlog_num)
  moreover have "map zfelt_of [4, 2, 104, 105, 7, 0, 9, 0, 0, 0, 5] =
      ser_signer stark_dlog (WebauthnSigner [zfelt_of 104, zfelt_of 105] (zfelt_of 7) (zfelt_of 0) (zfelt_of 9) (zfelt_of 0)) @
      ser_guardian stark_dlog (Some (StarknetSigner (zfelt_of 5)))"
    by (simp add: numeral_2_eq_2)
  ultimately show ?thesis
    by (intro conjunct1 [OF argent_decode_exact [OF dlog.felt_laws_axioms], THEN iffD2]
        exI [of _ "WebauthnSigner [zfelt_of 104, zfelt_of 105] (zfelt_of 7) (zfelt_of 0) (zfelt_of 9) (zfelt_of 0)"]
        exI [of _ "Some (StarknetSigner (zfelt_of 5))"] conjI)
      (simp_all only: option.pred_inject signer_view.simps option.map decoded_view.simps)
qed

end
