(* ===== verification/Account_Inspect.thy ===== *)
theory Account_Inspect
  imports Argent_Decode
begin

text \<open>
  \<open>account_class/inspect.rs\<close> of \<open>crates/kms/src\<close>: the verdict whether a deployment can be found from a seed. The lemmas
  show for which class, salt and calldata it can.
\<close>

section \<open>Inspection\<close>

datatype NotDerivableReason =
    Guardian
  | NonStarknetOwner
  | SaltNotPublicKey
  | ImplementationClass
  | ProxyTargetClass
  | UnknownProxyImplementation
  | UnexpectedConstructorCalldata

datatype Derivability = FromSeed | NotFromSeed NotDerivableReason | UnknownClass

record 'f DeploymentInspection =
  di_address :: 'f
  di_class :: "'f KnownAccountClass option"
  di_owner_public_key :: "'f option"
  di_guardian_public_key :: "'f option"
  di_derivability :: Derivability

definition unknown_class :: "('f, 'p, 'a, 'r) starknet \<Rightarrow> 'f KnownAccountClass option \<Rightarrow> 'f DeploymentInspection" where
  "unknown_class S known =
     \<lparr>di_address = felt_zero S, di_class = known, di_owner_public_key = None, di_guardian_public_key = None,
      di_derivability = UnknownClass\<rparr>"

definition not_from_seed ::
    "('f, 'p, 'a, 'r) starknet \<Rightarrow> 'f KnownAccountClass \<Rightarrow> 'f option \<Rightarrow> NotDerivableReason \<Rightarrow> 'f DeploymentInspection" where
  "not_from_seed S known owner reason =
     \<lparr>di_address = felt_zero S, di_class = Some known, di_owner_public_key = owner, di_guardian_public_key = None,
      di_derivability = NotFromSeed reason\<rparr>"

definition guarded ::
    "('f, 'p, 'a, 'r) starknet \<Rightarrow> 'f KnownAccountClass \<Rightarrow> 'f \<Rightarrow> 'f option \<Rightarrow> 'f DeploymentInspection" where
  "guarded S known owner guardian =
     \<lparr>di_address = felt_zero S, di_class = Some known, di_owner_public_key = Some owner,
      di_guardian_public_key = guardian, di_derivability = NotFromSeed Guardian\<rparr>"

definition from_seed :: "('f, 'p, 'a, 'r) starknet \<Rightarrow> 'f KnownAccountClass \<Rightarrow> 'f \<Rightarrow> 'f DeploymentInspection" where
  "from_seed S known owner =
     \<lparr>di_address = felt_zero S, di_class = Some known, di_owner_public_key = Some owner,
      di_guardian_public_key = None, di_derivability = FromSeed\<rparr>"

definition malformed_owner ::
    "('f, 'p, 'a, 'r) starknet \<Rightarrow> 'f stark_crypto \<Rightarrow> 'f KnownAccountClass \<Rightarrow> 'f \<Rightarrow> 'f DeploymentInspection option" where
  "malformed_owner S K known owner =
     (if \<not> is_stark_public_key S K owner then Some (not_from_seed S known None UnexpectedConstructorCalldata) else None)"

definition owner_salt_verdict ::
    "('f, 'p, 'a, 'r) starknet \<Rightarrow> 'f KnownAccountClass \<Rightarrow> 'f \<Rightarrow> 'f \<Rightarrow> 'f DeploymentInspection" where
  "owner_salt_verdict S known owner salt =
     (if salt = owner then from_seed S known owner else not_from_seed S known (Some owner) SaltNotPublicKey)"

definition inspect_public_key_constructor ::
    "('f, 'p, 'a, 'r) starknet \<Rightarrow> 'f stark_crypto \<Rightarrow> 'f KnownAccountClass \<Rightarrow> 'f \<Rightarrow> 'f list \<Rightarrow> 'f DeploymentInspection" where
  "inspect_public_key_constructor S K known salt calldata =
     (case calldata of
        [owner] \<Rightarrow>
          if \<not> is_stark_public_key S K owner then not_from_seed S known None UnexpectedConstructorCalldata
          else
            let zero_salt_allowed = (kc_family known = AccountFamily.OpenZeppelin \<and> salt = felt_zero S)
            in if salt = owner \<or> zero_salt_allowed then from_seed S known owner
               else not_from_seed S known (Some owner) SaltNotPublicKey
      | _ \<Rightarrow> not_from_seed S known None UnexpectedConstructorCalldata)"

definition inspect_argent_constructor ::
    "('f, 'p, 'a, 'r) starknet \<Rightarrow> 'f stark_crypto \<Rightarrow> 'f KnownAccountClass \<Rightarrow> ConstructorShape \<Rightarrow> 'f \<Rightarrow> 'f list \<Rightarrow>
     'f DeploymentInspection" where
  "inspect_argent_constructor S K known shape salt calldata =
     (let layout = expect ''Argent shapes map to a layout'' (argent_layout shape)
      in case argent_decode S layout calldata of
           Inl _ \<Rightarrow> not_from_seed S known None UnexpectedConstructorCalldata
         | Inr (DecodedArgentConstructor.NonStarknetOwner _) \<Rightarrow>
             not_from_seed S known None NotDerivableReason.NonStarknetOwner
         | Inr (StarknetOwnerWithGuardian owner guardian) \<Rightarrow>
             unwrap_or (malformed_owner S K known owner) (guarded S known owner guardian)
         | Inr (StarknetOwnerNoGuardian owner) \<Rightarrow>
             unwrap_or (malformed_owner S K known owner) (owner_salt_verdict S known owner salt))"

definition inspect_argent_cairo0_proxy ::
    "('f, 'p, 'a, 'r) starknet \<Rightarrow> 'f felt_format \<Rightarrow> 'f stark_crypto \<Rightarrow> 'f KnownAccountClass \<Rightarrow> 'f \<Rightarrow> 'f list \<Rightarrow>
     'f DeploymentInspection" where
  "inspect_argent_cairo0_proxy S X K known salt calldata =
     (case calldata of
        [implementation, selector, arity, owner, guardian] \<Rightarrow>
          if selector \<noteq> initialize_selector X \<or> arity \<noteq> felt_from S 2
          then not_from_seed S known None UnexpectedConstructorCalldata
          else
            (case malformed_owner S K known owner of
               Some inspection \<Rightarrow> inspection
             | None \<Rightarrow>
                 if \<not> is_known_implementation X implementation
                 then not_from_seed S known (Some owner) UnknownProxyImplementation
                 else if guardian \<noteq> felt_zero S then guarded S known owner (Some guardian)
                 else owner_salt_verdict S known owner salt)
      | _ \<Rightarrow> not_from_seed S known None UnexpectedConstructorCalldata)"

definition classify ::
    "('f, 'p, 'a, 'r) starknet \<Rightarrow> 'f felt_format \<Rightarrow> 'f stark_crypto \<Rightarrow> 'f \<Rightarrow> 'f \<Rightarrow> 'f list \<Rightarrow> 'f DeploymentInspection" where
  "classify S X K class_hash salt calldata =
     (case lookup_account_class X class_hash of
        None \<Rightarrow> unknown_class S None
      | Some known \<Rightarrow>
          (case kc_constructor known of
             None \<Rightarrow>
               not_from_seed S known None (if is_proxy_target known then ProxyTargetClass else ImplementationClass)
           | Some shape \<Rightarrow>
               (case shape of
                  ConstructorShape.PublicKey \<Rightarrow> inspect_public_key_constructor S K known salt calldata
                | ArgentCairo0Proxy \<Rightarrow> inspect_argent_cairo0_proxy S X K known salt calldata
                | _ \<Rightarrow> inspect_argent_constructor S K known shape salt calldata)))"

definition inspect_deployment ::
    "('f, 'p, 'a, 'r) starknet \<Rightarrow> 'f felt_format \<Rightarrow> 'f stark_crypto \<Rightarrow> 'f \<Rightarrow> 'f \<Rightarrow> 'f list \<Rightarrow> 'f DeploymentInspection" where
  "inspect_deployment S X K class_hash salt calldata =
     (classify S X K class_hash salt calldata)
       \<lparr>di_address := expect ''the contract address prefix is a valid short string''
          (case calculate_contract_address S K salt class_hash calldata (felt_zero S) of
             Inr address \<Rightarrow> Some address | Inl _ \<Rightarrow> None)\<rparr>"

section \<open>Which deployments a seed reproduces\<close>

text \<open>
  The class hash, salt and calldata of every deployment that a key with public key \<open>owner\<close> can be found by: the base
  classes of Braavos and the OpenZeppelin classes with the key as calldata, the latter also with salt zero, the Argent
  classes in their layouts, and the Cairo 0 proxy in front of each known implementation, always without a guardian.
\<close>

definition seed_deployments :: "('f, 'p, 'a, 'r) starknet \<Rightarrow> 'f felt_format \<Rightarrow> 'f \<Rightarrow> ('f \<times> 'f \<times> 'f list) set" where
  "seed_deployments S X owner =
     {(kc_class_hash known, owner, [owner]) | known. known \<in> set (deployment_classes X AccountFamily.Braavos)} \<union>
     {(kc_class_hash known, salt, [owner]) | known salt.
        known \<in> set (deployment_classes X AccountFamily.OpenZeppelin) \<and> salt \<in> {owner, felt_zero S}} \<union>
     {(class_hash, owner, constructor_calldata S layout owner) | class_hash version layout.
        (class_hash, version, layout) \<in> set (argent_known_classes X)} \<union>
     {(proxy_class_hash X, owner, cairo0_constructor_calldata S X implementation owner) | implementation version.
        (implementation, version) \<in> set (known_implementations X)}"

lemma seed_deployments_cases:
  "(h, salt, calldata) \<in> seed_deployments S X owner \<longleftrightarrow>
    (\<exists>known. known \<in> set (deployment_classes X AccountFamily.Braavos) \<and> kc_class_hash known = h) \<and> salt = owner \<and> calldata = [owner] \<or>
    (\<exists>known. known \<in> set (deployment_classes X AccountFamily.OpenZeppelin) \<and> kc_class_hash known = h) \<and>
      salt \<in> {owner, felt_zero S} \<and> calldata = [owner] \<or>
    (\<exists>layout. (\<exists>version. (h, version, layout) \<in> set (argent_known_classes X)) \<and> salt = owner \<and>
      calldata = constructor_calldata S layout owner) \<or>
    h = proxy_class_hash X \<and> salt = owner \<and> (\<exists>i. (\<exists>version. (i, version) \<in> set (known_implementations X)) \<and>
      calldata = cairo0_constructor_calldata S X i owner)"
  unfolding seed_deployments_def Un_iff mem_Collect_eq prod.inject by blast

text \<open>The same by the shape of the constructor.\<close>

fun seed_shape ::
    "('f, 'p, 'a, 'r) starknet \<Rightarrow> 'f felt_format \<Rightarrow> AccountFamily \<Rightarrow> ConstructorShape \<Rightarrow> 'f \<Rightarrow> 'f \<Rightarrow> 'f list \<Rightarrow> bool" where
  "seed_shape S X family ConstructorShape.PublicKey owner salt calldata =
     (calldata = [owner] \<and> (salt = owner \<or> family = AccountFamily.OpenZeppelin \<and> salt = felt_zero S))"
| "seed_shape S X family ArgentCairo0Proxy owner salt calldata =
     (salt = owner \<and> (\<exists>implementation. is_known_implementation X implementation \<and>
        calldata = cairo0_constructor_calldata S X implementation owner))"
| "seed_shape S X family shape owner salt calldata =
     (salt = owner \<and> (\<exists>layout. argent_layout shape = Some layout \<and> calldata = constructor_calldata S layout owner))"

context felt_format_laws
begin

lemma deployment_lookup:
  "(\<exists>known. known \<in> set (deployment_classes X family) \<and> kc_class_hash known = h) \<longleftrightarrow>
    (\<exists>known. lookup_account_class X h = Some known \<and> kc_family known = family \<and> is_deployment_class known)"
  unfolding lookup_iff deployment_classes_def by auto

lemma registry_shapes:
  assumes "known \<in> set (known_account_classes X)"
  shows "kc_constructor known = Some ConstructorShape.PublicKey \<longleftrightarrow> is_deployment_class known \<and> kc_family known \<noteq> AccountFamily.Argent"
    and "kc_constructor known = Some ArgentCairo0Proxy \<longleftrightarrow> kc_class_hash known = proxy_class_hash X"
proof -
  obtain docs where e: "known_account_classes X =
     known_account_class AccountFamily.OpenZeppelin (felt_from S (text_value OZ_CLASS_HASH)) ''3.0.0'' ''OpenZeppelin AccountUpgradeable v3.0.0''
       DEPLOYMENT_AND_IMPLEMENTATION (Some ConstructorShape.PublicKey) docs #
     argent_cairo1_classes X @ cairo0_known_classes X @ braavos_known_classes X"
    using registry_entries by blast
  show "kc_constructor known = Some ConstructorShape.PublicKey \<longleftrightarrow> is_deployment_class known \<and> kc_family known \<noteq> AccountFamily.Argent"
    using assms unfolding e by (auto simp: registry_unfold)
  have proxy: "\<exists>k \<in> set (known_account_classes X). kc_constructor k = Some ArgentCairo0Proxy \<and> kc_class_hash k = proxy_class_hash X"
    unfolding e by (simp add: cairo0_known_classes_def known_account_class_def)
  have "kc_class_hash known = proxy_class_hash X" if "kc_constructor known = Some ArgentCairo0Proxy"
    using assms that unfolding e by (auto simp: registry_unfold)
  moreover have "kc_constructor known = Some ArgentCairo0Proxy" if "kc_class_hash known = proxy_class_hash X"
    using proxy assms that registry_distinct by (metis inj_onD distinct_map)
  ultimately show "kc_constructor known = Some ArgentCairo0Proxy \<longleftrightarrow> kc_class_hash known = proxy_class_hash X" by blast
qed

lemma seed_deployments_iff:
  "(h, salt, calldata) \<in> seed_deployments S X owner \<longleftrightarrow>
    (\<exists>known shape. lookup_account_class X h = Some known \<and> kc_constructor known = Some shape \<and>
      seed_shape S X (kc_family known) shape owner salt calldata)"
proof (cases "lookup_account_class X h")
  case None
  have "h \<noteq> proxy_class_hash X"
  proof
    assume "h = proxy_class_hash X"
    then have "h \<in> kc_class_hash ` set (known_account_classes X)"
      by (auto simp: known_account_classes_def cairo0_known_classes_def known_account_class_def)
    with None show False by (auto simp: lookup_account_class_def find_None_iff)
  qed
  moreover have "\<not> (\<exists>version layout. (h, version, layout) \<in> set (argent_known_classes X))"
    using layout_iff [of h] registry_layout [of h] None by auto
  ultimately show ?thesis
    unfolding seed_deployments_cases deployment_lookup using None by simp
next
  case (Some known)
  then have k: "known \<in> set (known_account_classes X)" "kc_class_hash known = h" by (simp_all add: lookup_iff)
  have fam: "(\<exists>known. known \<in> set (deployment_classes X family) \<and> kc_class_hash known = h) \<longleftrightarrow>
      kc_family known = family \<and> is_deployment_class known" for family
    using deployment_lookup [of family h] Some by simp
  have lay: "(\<exists>version. (h, version, layout) \<in> set (argent_known_classes X)) \<longleftrightarrow>
      Option.bind (kc_constructor known) argent_layout = Some layout" for layout
    using layout_iff [of h layout] registry_layout [of h] Some by simp
  have impl: "(\<exists>version. (i, version) \<in> set (known_implementations X)) \<longleftrightarrow> is_known_implementation X i" for i
    by (auto simp: is_known_implementation_def list_ex_iff)
  have "(h, salt, calldata) \<in> seed_deployments S X owner \<longleftrightarrow>
      (kc_family known = AccountFamily.Braavos \<and> is_deployment_class known \<and> salt = owner \<and> calldata = [owner]) \<or>
      (kc_family known = AccountFamily.OpenZeppelin \<and> is_deployment_class known \<and> salt \<in> {owner, felt_zero S} \<and> calldata = [owner]) \<or>
      (\<exists>layout. Option.bind (kc_constructor known) argent_layout = Some layout \<and> salt = owner \<and> calldata = constructor_calldata S layout owner) \<or>
      (h = proxy_class_hash X \<and> salt = owner \<and> (\<exists>i. is_known_implementation X i \<and> calldata = cairo0_constructor_calldata S X i owner))"
    unfolding seed_deployments_cases fam lay impl by (simp only: conj_ac)
  also have "\<dots> \<longleftrightarrow> (\<exists>shape. kc_constructor known = Some shape \<and> seed_shape S X (kc_family known) shape owner salt calldata)"
  proof (cases "kc_constructor known")
    case None
    then show ?thesis using registry_roles(1) [OF k(1)] registry_shapes(2) [OF k(1)] k(2) by auto
  next
    case (Some shape)
    note facts = registry_roles(1) [OF k(1)] registry_shapes [OF k(1)] k(2) Some
    show ?thesis
    proof (cases shape)
      case PublicKey
      with facts show ?thesis by (cases "kc_family known") auto
    qed (use facts in auto)
  qed
  finally show ?thesis using Some by simp
qed

lemmas inspection_defs = unknown_class_def not_from_seed_def guarded_def from_seed_def malformed_owner_def owner_salt_verdict_def

lemma public_key_verdict:
  "di_derivability (inspect_public_key_constructor S K known salt calldata) = FromSeed \<and>
   di_owner_public_key (inspect_public_key_constructor S K known salt calldata) = Some owner \<longleftrightarrow>
     is_stark_public_key S K owner \<and> seed_shape S X (kc_family known) ConstructorShape.PublicKey owner salt calldata"
  by (auto simp: inspect_public_key_constructor_def inspection_defs Let_def split: list.splits)

lemma argent_verdict:
  assumes "argent_layout shape = Some layout"
  shows "di_derivability (inspect_argent_constructor S K known shape salt calldata) = FromSeed \<and>
   di_owner_public_key (inspect_argent_constructor S K known shape salt calldata) = Some owner \<longleftrightarrow>
     is_stark_public_key S K owner \<and> owner \<noteq> felt_zero S \<and> seed_shape S X (kc_family known) shape owner salt calldata"
proof -
  have "di_derivability (inspect_argent_constructor S K known shape salt calldata) = FromSeed \<and>
     di_owner_public_key (inspect_argent_constructor S K known shape salt calldata) = Some owner \<longleftrightarrow>
     is_stark_public_key S K owner \<and> salt = owner \<and> argent_decode S layout calldata = Inr (StarknetOwnerNoGuardian owner)"
    using assms
    by (auto simp: inspect_argent_constructor_def inspection_defs
        split: sum.splits DecodedArgentConstructor.splits)
  then show ?thesis using assms unfolding decode_no_guardian by (cases shape) auto
qed

lemma proxy_verdict:
  "di_derivability (inspect_argent_cairo0_proxy S X K known salt calldata) = FromSeed \<and>
   di_owner_public_key (inspect_argent_cairo0_proxy S X K known salt calldata) = Some owner \<longleftrightarrow>
     is_stark_public_key S K owner \<and> seed_shape S X (kc_family known) ArgentCairo0Proxy owner salt calldata"
  by (auto simp: inspect_argent_cairo0_proxy_def inspection_defs cairo0_constructor_calldata_def
      cairo0_constructor_calldata_with_guardian_def split: list.splits)

lemma classify_from_seed:
  "di_derivability (classify S X K h salt calldata) = FromSeed \<and>
   di_owner_public_key (classify S X K h salt calldata) = Some owner \<longleftrightarrow>
     is_stark_public_key S K owner \<and> (h, salt, calldata) \<in> seed_deployments S X owner \<and>
     (owner \<noteq> felt_zero S \<or> layout_for_class_hash X h = None)"
proof (cases "lookup_account_class X h")
  case None
  then show ?thesis unfolding seed_deployments_iff by (simp add: classify_def inspection_defs)
next
  case (Some known)
  note look = Some
  show ?thesis
  proof (cases "kc_constructor known")
    case None
    with look show ?thesis unfolding seed_deployments_iff by (simp add: classify_def inspection_defs)
  next
    case (Some shape)
    have lay: "layout_for_class_hash X h = argent_layout shape" unfolding registry_layout look by (simp add: Some)
    show ?thesis
    proof (cases "argent_layout shape")
      case None
      then have "shape = ConstructorShape.PublicKey \<or> shape = ArgentCairo0Proxy" by (cases shape) simp_all
      then show ?thesis
        unfolding seed_deployments_iff lay using look Some None public_key_verdict [of K known salt calldata owner]
          proxy_verdict [of K known salt calldata owner]
        by (elim disjE) (simp_all add: classify_def)
    next
      case (Some layout)
      have "classify S X K h salt calldata = inspect_argent_constructor S K known shape salt calldata"
        using look \<open>kc_constructor known = Some shape\<close> Some by (cases shape) (simp_all add: classify_def)
      then show ?thesis
        unfolding seed_deployments_iff lay using look \<open>kc_constructor known = Some shape\<close> Some argent_verdict [OF Some] by auto
    qed
  qed
qed

lemma classify_owner:
  assumes "di_owner_public_key (classify S X K h salt calldata) = Some owner"
  shows "is_stark_public_key S K owner"
  using assms
  by (auto simp: classify_def inspection_defs inspect_public_key_constructor_def inspect_argent_constructor_def
      inspect_argent_cairo0_proxy_def Let_def
      split: option.splits ConstructorShape.splits list.splits sum.splits DecodedArgentConstructor.splits if_splits)

lemma verdict_known:
  "di_derivability (inspect_public_key_constructor S K known salt calldata) \<noteq> UnknownClass"
  "di_derivability (inspect_argent_constructor S K known shape salt calldata) \<noteq> UnknownClass"
  "di_derivability (inspect_argent_cairo0_proxy S X K known salt calldata) \<noteq> UnknownClass"
  by (simp_all add: inspect_public_key_constructor_def inspect_argent_constructor_def inspect_argent_cairo0_proxy_def
      inspection_defs Let_def split: list.split sum.split DecodedArgentConstructor.split)

lemma classify_unknown: "di_derivability (classify S X K h salt calldata) = UnknownClass \<longleftrightarrow> lookup_account_class X h = None"
proof (cases "lookup_account_class X h")
  case (Some known)
  then show ?thesis
    by (cases "kc_constructor known"; cases "the (kc_constructor known)")
      (simp_all add: classify_def verdict_known, simp_all add: inspection_defs)
qed (simp add: classify_def inspection_defs)

end

lemma inspect_fields:
  "di_derivability (inspect_deployment S X K h salt calldata) = di_derivability (classify S X K h salt calldata)"
  "di_owner_public_key (inspect_deployment S X K h salt calldata) = di_owner_public_key (classify S X K h salt calldata)"
  "di_address (inspect_deployment S X K h salt calldata) = deployed_address S K salt h calldata (felt_zero S)"
  by (simp_all add: inspect_deployment_def calculate_contract_address_eq)

section \<open>Properties\<close>

text \<open>
  C23. Inspection decides exactly which deployments a seed reproduces. The verdict is \<open>FromSeed\<close> with an owner precisely for
  the class, salt and calldata of the deployments that discovery tries for that public key (the zero felt apart, which
  is no Argent owner); the class is unknown precisely when the registry does not have it; whatever the verdict, the
  address is the one the three fields fix, and an owner that is reported is a public key of the curve.
\<close>

theorem inspection_exact:
  assumes "felt_format_laws S X"
  shows "(di_derivability (inspect_deployment S X K h salt calldata) = FromSeed \<and>
      di_owner_public_key (inspect_deployment S X K h salt calldata) = Some owner \<longleftrightarrow>
        is_stark_public_key S K owner \<and> (h, salt, calldata) \<in> seed_deployments S X owner \<and>
        (owner \<noteq> felt_zero S \<or> layout_for_class_hash X h = None)) \<and>
    (di_derivability (inspect_deployment S X K h salt calldata) = UnknownClass \<longleftrightarrow> lookup_account_class X h = None) \<and>
    (di_owner_public_key (inspect_deployment S X K h salt calldata) = Some owner \<longrightarrow> is_stark_public_key S K owner) \<and>
    calculate_contract_address S K salt h calldata (felt_zero S) = Inr (di_address (inspect_deployment S X K h salt calldata))"
  unfolding inspect_fields
  using felt_format_laws.classify_from_seed [OF assms] felt_format_laws.classify_unknown [OF assms]
    felt_format_laws.classify_owner [OF assms] by (simp add: calculate_contract_address_eq)

theorem inspection_exact_witness:
  "di_derivability (inspect_deployment stark_dlog zformat zcrypto (proxy_class_hash zformat) (zfelt_of 1)
     (cairo0_constructor_calldata stark_dlog zformat (static_felt zformat IMPL_CLASS_HASH_V024) (zfelt_of 1))) = FromSeed"
proof -
  have pk: "is_stark_public_key stark_dlog zcrypto (zfelt_of 1)"
    using zk.derived_is_public_key [of "zfelt_of 5"] by (simp add: zcrypto_sel dlog_num del: stark_dlog_felt)
  have ne: "zfelt_of 1 \<noteq> zfelt_of 0" by (simp add: dlog_num)
  have "(static_felt zformat IMPL_CLASS_HASH_V024, ''0.2.4'') \<in> set (known_implementations zformat)"
    by (simp add: known_implementations_def)
  then have "(proxy_class_hash zformat, zfelt_of 1,
      cairo0_constructor_calldata stark_dlog zformat (static_felt zformat IMPL_CLASS_HASH_V024) (zfelt_of 1)) \<in>
      seed_deployments stark_dlog zformat (zfelt_of 1)"
    unfolding seed_deployments_cases by blast
  with pk ne inspection_exact [OF zfmt.felt_format_laws_axioms, of zcrypto "proxy_class_hash zformat" "zfelt_of 1"
      "cairo0_constructor_calldata stark_dlog zformat (static_felt zformat IMPL_CLASS_HASH_V024) (zfelt_of 1)" "zfelt_of 1"]
  show ?thesis by simp
qed

end
