(* ===== verification/Discovery.thy ===== *)
theory Discovery
  imports Account_Inspect Key_Derivation
begin

text \<open>
  \<open>discovery.rs\<close>, \<open>discovery/types.rs\<close> and \<open>discovery/generate.rs\<close> of \<open>crates/kms/src\<close>: the accounts a mnemonic can own.
  The lemmas show that the candidates are exactly the deployments that inspection calls reproducible from a seed, per
  key scheme, and that the keys of a candidate belong together.
\<close>

section \<open>Model\<close>

definition MAX_DISCOVERY_INDEX :: u32 where
  "MAX_DISCOVERY_INDEX = 1024"

definition DISCOVERY_COIN_TYPE :: u32 where
  "DISCOVERY_COIN_TYPE = 9004"

datatype WalletType = Braavos | Argent | ArgentLegacy | ArgentCairo0 | OpenZeppelin

datatype DerivationType = Direct | ArgentLegacy

record CandidateAccount =
  ca_wallet_type :: WalletType
  ca_class_hash :: string
  ca_address :: string
  ca_public_key :: string
  ca_private_key :: string
  ca_derivation_index :: u32
  ca_derivation_path :: string
  ca_class_version :: string

record DerivedKeypair =
  dk_derivation_type :: DerivationType
  dk_public_key :: string
  dk_private_key :: string
  dk_derivation_index :: u32
  dk_derivation_path :: string

definition require_private_key :: "string \<Rightarrow> string result" where
  "require_private_key private_key =
     (if private_key = []
      then Inl (InvalidPrivateKey ''candidate has no private key material (deserialized from public-only JSON?)'')
      else Inr private_key)"

definition verify_key_binding ::
    "('f, 'p, 'a, 'r) starknet \<Rightarrow> 'f felt_format \<Rightarrow> 'f stark_crypto \<Rightarrow> string \<Rightarrow> string \<Rightarrow> unit result" where
  "verify_key_binding S X K private_key public_key =
     and_then (require_private_key private_key) (\<lambda>hex.
     and_then (map_err (\<lambda>e. InvalidPrivateKey (''invalid private key hex: '' @ e)) (ff_from_hex X hex)) (\<lambda>private.
     and_then (map_err (\<lambda>e. InvalidPublicKey (''invalid public key hex: '' @ e)) (ff_from_hex X public_key)) (\<lambda>expected_public.
     and_then (stark_public_key S X K private) (\<lambda>derived_public.
       if derived_public \<noteq> expected_public
       then Inl (InvalidPrivateKey ''private key does not derive the candidate's public key'')
       else Inr ()))))"

definition candidate_expose_private_key :: "CandidateAccount \<Rightarrow> string result" where
  "candidate_expose_private_key self = require_private_key (ca_private_key self)"

definition candidate_verify_key_binding ::
    "('f, 'p, 'a, 'r) starknet \<Rightarrow> 'f felt_format \<Rightarrow> 'f stark_crypto \<Rightarrow> CandidateAccount \<Rightarrow> unit result" where
  "candidate_verify_key_binding S X K self = verify_key_binding S X K (ca_private_key self) (ca_public_key self)"

text \<open>The serializable views with the secret: the same fields, when there is a private key.\<close>

definition candidate_with_secrets :: "CandidateAccount \<Rightarrow> CandidateAccount result" where
  "candidate_with_secrets self =
     and_then (require_private_key (ca_private_key self)) (\<lambda>private_key. Inr (self\<lparr>ca_private_key := private_key\<rparr>))"

definition keypair_expose_private_key :: "DerivedKeypair \<Rightarrow> string result" where
  "keypair_expose_private_key self = require_private_key (dk_private_key self)"

definition keypair_verify_key_binding ::
    "('f, 'p, 'a, 'r) starknet \<Rightarrow> 'f felt_format \<Rightarrow> 'f stark_crypto \<Rightarrow> DerivedKeypair \<Rightarrow> unit result" where
  "keypair_verify_key_binding S X K self = verify_key_binding S X K (dk_private_key self) (dk_public_key self)"

definition keypair_with_secrets :: "DerivedKeypair \<Rightarrow> DerivedKeypair result" where
  "keypair_with_secrets self =
     and_then (require_private_key (dk_private_key self)) (\<lambda>private_key. Inr (self\<lparr>dk_private_key := private_key\<rparr>))"

definition felt_hex :: "'f felt_format \<Rightarrow> 'f \<Rightarrow> string" where
  "felt_hex X f = ff_hex_alt X f"

definition validate_discovery_inputs :: "('m, 's) wallet \<Rightarrow> string \<Rightarrow> u32 \<Rightarrow> unit result" where
  "validate_discovery_inputs W mnemonic max_index =
     (if max_index > MAX_DISCOVERY_INDEX
      then Inl (KmsError.InvalidDerivationPath
             (''max_index '' @ show_nat (unat max_index) @ '' exceeds the discovery limit of '' @
              show_nat (unat MAX_DISCOVERY_INDEX)))
      else validate_mnemonic W mnemonic)"

definition direct_path :: "u32 \<Rightarrow> string" where
  "direct_path index = ''m/44'/9004'/0'/0/'' @ show_nat (unat index)"

definition legacy_path :: "u32 \<Rightarrow> string" where
  "legacy_path index = ''m/44'/60'/0'/0/0 -> m/44'/9004'/0'/0/'' @ show_nat (unat index)"

text \<open>The body of the loop of \<open>derive_discovery_keypairs\<close>, and the loop.\<close>

definition keypairs_at ::
    "('f, 'p, 'a, 'r) starknet \<Rightarrow> 'f felt_format \<Rightarrow> 'f stark_crypto \<Rightarrow> ('m, 's) wallet \<Rightarrow> string \<Rightarrow> u32 \<Rightarrow>
     DerivedKeypair list result" where
  "keypairs_at S X K W mnemonic index =
     and_then (derive_private_key_with_coin_type S W mnemonic index 0 DISCOVERY_COIN_TYPE None) (\<lambda>direct_pk.
     and_then (stark_public_key S X K direct_pk) (\<lambda>direct_pubk.
     and_then (derive_argent_legacy_private_key S W mnemonic index 0) (\<lambda>legacy_pk.
     and_then (stark_public_key S X K legacy_pk) (\<lambda>legacy_pubk.
       Inr [\<lparr>dk_derivation_type = Direct, dk_public_key = felt_hex X direct_pubk, dk_private_key = felt_hex X direct_pk,
             dk_derivation_index = index, dk_derivation_path = direct_path index\<rparr>,
            \<lparr>dk_derivation_type = DerivationType.ArgentLegacy, dk_public_key = felt_hex X legacy_pubk,
             dk_private_key = felt_hex X legacy_pk, dk_derivation_index = index,
             dk_derivation_path = legacy_path index\<rparr>]))))"

fun extend_loop :: "(u32 \<Rightarrow> 'b list result) \<Rightarrow> u32 list \<Rightarrow> 'b list \<Rightarrow> 'b list result" where
  "extend_loop f [] out = Inr out"
| "extend_loop f (index # indices) out = and_then (f index) (\<lambda>xs. extend_loop f indices (out @ xs))"

definition index_range :: "u32 \<Rightarrow> u32 list" where
  "index_range max_index = map of_nat [0..<unat max_index]"

definition derive_discovery_keypairs ::
    "('f, 'p, 'a, 'r) starknet \<Rightarrow> 'f felt_format \<Rightarrow> 'f stark_crypto \<Rightarrow> ('m, 's) wallet \<Rightarrow> string \<Rightarrow> u32 \<Rightarrow>
     DerivedKeypair list result" where
  "derive_discovery_keypairs S X K W mnemonic max_index =
     and_then (validate_discovery_inputs W mnemonic max_index) (\<lambda>_.
       extend_loop (keypairs_at S X K W mnemonic) (index_range max_index) [])"

record 'f DerivedKey =
  ky_private_key :: 'f
  ky_public_key :: 'f
  ky_index :: u32
  ky_path :: string

definition key_candidate ::
    "'f felt_format \<Rightarrow> 'f DerivedKey \<Rightarrow> WalletType \<Rightarrow> 'f \<Rightarrow> 'f \<Rightarrow> string \<Rightarrow> CandidateAccount" where
  "key_candidate X self wallet_type class_hash address class_version =
     \<lparr>ca_wallet_type = wallet_type, ca_class_hash = felt_hex X class_hash, ca_address = felt_hex X address,
      ca_public_key = felt_hex X (ky_public_key self), ca_private_key = felt_hex X (ky_private_key self),
      ca_derivation_index = ky_index self, ca_derivation_path = ky_path self, ca_class_version = class_version\<rparr>"

record 'f DiscoveryClasses =
  ds_braavos :: "'f KnownAccountClass list"
  ds_open_zeppelin :: "'f KnownAccountClass list"
  ds_argent :: "('f \<times> string \<times> ArgentConstructorLayout) list"
  ds_argent_cairo0 :: "('f \<times> string) list"

definition classes_load :: "('f, 'p, 'a, 'r) starknet \<Rightarrow> 'f felt_format \<Rightarrow> 'f DiscoveryClasses" where
  "classes_load S X =
     (let default_argent = acl_class_hash (argent_account_class S (argent_new X))
      in \<lparr>ds_braavos = deployment_classes X AccountFamily.Braavos,
          ds_open_zeppelin = deployment_classes X AccountFamily.OpenZeppelin,
          ds_argent = sort_key (\<lambda>(class_hash, _, _). class_hash \<noteq> default_argent) (argent_known_classes X),
          ds_argent_cairo0 = known_implementations X\<rparr>)"

text \<open>Each function returns the candidates it pushes.\<close>

definition push_braavos_candidates ::
    "('f, 'p, 'a, 'r) starknet \<Rightarrow> 'f felt_format \<Rightarrow> 'f stark_crypto \<Rightarrow> 'f DiscoveryClasses \<Rightarrow> 'f DerivedKey \<Rightarrow>
     CandidateAccount list result" where
  "push_braavos_candidates S X K classes key =
     collect (\<lambda>known.
       and_then (calculate_address S K (braavos_account_class (braavos_with_class_hash (kc_class_hash known)))
           (ky_public_key key) SaltPolicy.PublicKey) (\<lambda>address.
         Inr (key_candidate X key WalletType.Braavos (kc_class_hash known) address (''base v'' @ kc_version known))))
       (ds_braavos classes)"

definition push_argent_cairo1_candidates ::
    "('f, 'p, 'a, 'r) starknet \<Rightarrow> 'f felt_format \<Rightarrow> 'f stark_crypto \<Rightarrow> 'f DiscoveryClasses \<Rightarrow> WalletType \<Rightarrow>
     'f DerivedKey \<Rightarrow> CandidateAccount list result" where
  "push_argent_cairo1_candidates S X K classes wallet_type key =
     collect (\<lambda>(class_hash, version, layout).
       and_then (calculate_address S K (argent_account_class S (with_class_hash_and_layout class_hash layout))
           (ky_public_key key) SaltPolicy.PublicKey) (\<lambda>address.
         Inr (key_candidate X key wallet_type class_hash address version)))
       (ds_argent classes)"

definition push_oz_candidates ::
    "('f, 'p, 'a, 'r) starknet \<Rightarrow> 'f felt_format \<Rightarrow> 'f stark_crypto \<Rightarrow> 'f DiscoveryClasses \<Rightarrow> 'f DerivedKey \<Rightarrow>
     CandidateAccount list result" where
  "push_oz_candidates S X K classes key =
     collect (\<lambda>(known, salt_policy, label).
       and_then (calculate_address S K (oz_account_class (oz_from_class_hash (kc_class_hash known)))
           (ky_public_key key) salt_policy) (\<lambda>address.
         Inr (key_candidate X key WalletType.OpenZeppelin (kc_class_hash known) address label)))
       (concat (map (\<lambda>known.
          [(known, SaltPolicy.PublicKey, ''v'' @ kc_version known @ '' salt-pubkey''),
           (known, SaltPolicy.Zero, ''v'' @ kc_version known)])
         (ds_open_zeppelin classes)))"

definition push_argent_cairo0_candidates ::
    "('f, 'p, 'a, 'r) starknet \<Rightarrow> 'f felt_format \<Rightarrow> 'f stark_crypto \<Rightarrow> 'f DiscoveryClasses \<Rightarrow> 'f DerivedKey \<Rightarrow>
     CandidateAccount list result" where
  "push_argent_cairo0_candidates S X K classes key =
     (let proxy = proxy_class_hash X
      in collect (\<lambda>(implementation, version).
           let calldata = cairo0_constructor_calldata S X implementation (ky_public_key key)
           in and_then (calculate_contract_address S K (ky_public_key key) proxy calldata (felt_zero S)) (\<lambda>address.
                Inr (key_candidate X key WalletType.ArgentCairo0 proxy address (''proxy+v'' @ version))))
           (ds_argent_cairo0 classes))"

text \<open>The body of the loop of \<open>generate_candidates\<close>.\<close>

definition candidates_at ::
    "('f, 'p, 'a, 'r) starknet \<Rightarrow> 'f felt_format \<Rightarrow> 'f stark_crypto \<Rightarrow> ('m, 's) wallet \<Rightarrow> 'f DiscoveryClasses \<Rightarrow>
     string \<Rightarrow> u32 \<Rightarrow> CandidateAccount list result" where
  "candidates_at S X K W classes mnemonic index =
     and_then (derive_private_key_with_coin_type S W mnemonic index 0 DISCOVERY_COIN_TYPE None) (\<lambda>direct_pk.
     and_then (stark_public_key S X K direct_pk) (\<lambda>direct_pubk.
       let direct = \<lparr>ky_private_key = direct_pk, ky_public_key = direct_pubk, ky_index = index, ky_path = direct_path index\<rparr>
       in and_then (push_braavos_candidates S X K classes direct) (\<lambda>braavos.
          and_then (push_argent_cairo1_candidates S X K classes WalletType.Argent direct) (\<lambda>argent.
          and_then (push_oz_candidates S X K classes direct) (\<lambda>oz.
     and_then (derive_argent_legacy_private_key S W mnemonic index 0) (\<lambda>legacy_pk.
     and_then (stark_public_key S X K legacy_pk) (\<lambda>legacy_pubk.
       let legacy = \<lparr>ky_private_key = legacy_pk, ky_public_key = legacy_pubk, ky_index = index, ky_path = legacy_path index\<rparr>
       in and_then (push_argent_cairo1_candidates S X K classes WalletType.ArgentLegacy legacy) (\<lambda>argent_legacy.
          and_then (push_argent_cairo0_candidates S X K classes legacy) (\<lambda>cairo0.
            Inr (braavos @ argent @ oz @ argent_legacy @ cairo0))))))))))"

definition generate_candidates ::
    "('f, 'p, 'a, 'r) starknet \<Rightarrow> 'f felt_format \<Rightarrow> 'f stark_crypto \<Rightarrow> ('m, 's) wallet \<Rightarrow> string \<Rightarrow> u32 \<Rightarrow>
     CandidateAccount list result" where
  "generate_candidates S X K W mnemonic max_index =
     and_then (validate_discovery_inputs W mnemonic max_index) (\<lambda>_.
       extend_loop (candidates_at S X K W (classes_load S X) mnemonic) (index_range max_index) [])"

section \<open>Candidates are seed deployments\<close>

text \<open>The key of a scheme at an index, and what the scan tries with it: wallet, class, salt, calldata and label.\<close>

fun seed_key :: "('f, 'p, 'a, 'r) starknet \<Rightarrow> ('m, 's) wallet \<Rightarrow> string \<Rightarrow> DerivationType \<Rightarrow> u32 \<Rightarrow> 'f result" where
  "seed_key S W mnemonic Direct index = derive_private_key_with_coin_type S W mnemonic index 0 DISCOVERY_COIN_TYPE None"
| "seed_key S W mnemonic DerivationType.ArgentLegacy index = derive_argent_legacy_private_key S W mnemonic index 0"

fun scheme_path :: "DerivationType \<Rightarrow> u32 \<Rightarrow> string" where
  "scheme_path Direct index = direct_path index"
| "scheme_path DerivationType.ArgentLegacy index = legacy_path index"

definition argent_tries ::
    "('f, 'p, 'a, 'r) starknet \<Rightarrow> 'f felt_format \<Rightarrow> WalletType \<Rightarrow> 'f \<Rightarrow> (WalletType \<times> 'f \<times> 'f \<times> 'f list \<times> string) list" where
  "argent_tries S X wallet pk =
     map (\<lambda>(h, version, layout). (wallet, h, pk, constructor_calldata S layout pk, version)) (ds_argent (classes_load S X))"

fun tries ::
    "('f, 'p, 'a, 'r) starknet \<Rightarrow> 'f felt_format \<Rightarrow> DerivationType \<Rightarrow> 'f \<Rightarrow> (WalletType \<times> 'f \<times> 'f \<times> 'f list \<times> string) list" where
  "tries S X Direct pk =
     map (\<lambda>known. (WalletType.Braavos, kc_class_hash known, pk, [pk], ''base v'' @ kc_version known))
       (deployment_classes X AccountFamily.Braavos) @
     argent_tries S X WalletType.Argent pk @
     concat (map (\<lambda>known.
       [(WalletType.OpenZeppelin, kc_class_hash known, pk, [pk], ''v'' @ kc_version known @ '' salt-pubkey''),
        (WalletType.OpenZeppelin, kc_class_hash known, felt_zero S, [pk], ''v'' @ kc_version known)])
       (deployment_classes X AccountFamily.OpenZeppelin))"
| "tries S X DerivationType.ArgentLegacy pk =
     argent_tries S X WalletType.ArgentLegacy pk @
     map (\<lambda>(implementation, version).
       (WalletType.ArgentCairo0, proxy_class_hash X, pk, cairo0_constructor_calldata S X implementation pk, ''proxy+v'' @ version))
       (known_implementations X)"

definition tried_candidate ::
    "('f, 'p, 'a, 'r) starknet \<Rightarrow> 'f felt_format \<Rightarrow> 'f stark_crypto \<Rightarrow> 'f DerivedKey \<Rightarrow>
     (WalletType \<times> 'f \<times> 'f \<times> 'f list \<times> string) \<Rightarrow> CandidateAccount" where
  "tried_candidate S X K key = (\<lambda>(wallet, h, salt, calldata, version).
     key_candidate X key wallet h (deployed_address S K salt h calldata (felt_zero S)) version)"

definition scheme_candidates ::
    "('f, 'p, 'a, 'r) starknet \<Rightarrow> 'f felt_format \<Rightarrow> 'f stark_crypto \<Rightarrow> DerivationType \<Rightarrow> u32 \<Rightarrow> 'f \<Rightarrow> 'f \<Rightarrow>
     CandidateAccount list" where
  "scheme_candidates S X K scheme index pk pubk =
     map (tried_candidate S X K
       \<lparr>ky_private_key = pk, ky_public_key = pubk, ky_index = index, ky_path = scheme_path scheme index\<rparr>) (tries S X scheme pubk)"

lemma extend_loop_Inr:
  "extend_loop f xs out = Inr ys \<longleftrightarrow> (\<exists>yss. list_all2 (\<lambda>x zs. f x = Inr zs) xs yss \<and> ys = out @ concat yss)"
proof (induction xs arbitrary: out)
  case (Cons x xs)
  then show ?case by (auto simp: and_then_eq_Inr list_all2_Cons1) (metis concat.simps(2))
qed auto

lemma ex_scheme: "(\<exists>scheme. P scheme) \<longleftrightarrow> P Direct \<or> P DerivationType.ArgentLegacy"
  by (metis DerivationType.exhaust)

lemma concat_collected:
  "list_all2 (\<lambda>x zs. f x = Inr zs) xs yss \<Longrightarrow> c \<in> set (concat yss) \<longleftrightarrow> (\<exists>x \<in> set xs. \<exists>zs. f x = Inr zs \<and> c \<in> set zs)"
  by (induction rule: list_all2_induct) auto

lemma collected_all: "list_all2 (\<lambda>x zs. f x = Inr zs) xs yss \<Longrightarrow> x \<in> set xs \<Longrightarrow> \<exists>zs. f x = Inr zs"
  by (induction rule: list_all2_induct) auto

lemma index_range_iff: "index \<in> set (index_range max_index) \<longleftrightarrow> index < max_index"
proof -
  have "unat max_index < 2 ^ LENGTH(32)" by (rule unsigned_less)
  then have "unat (of_nat k :: u32) = k" if "k < unat max_index" for k using that by (simp add: unat_of_nat_small)
  moreover have "index = of_nat (unat index)" by simp
  ultimately show ?thesis
    unfolding index_range_def set_map set_upt image_iff word_less_nat_alt by (metis atLeastLessThan_iff le0)
qed

lemma push_candidates:
  "push_braavos_candidates S X K (classes_load S X) key =
     Inr (map (tried_candidate S X K key) (map (\<lambda>known. (WalletType.Braavos, kc_class_hash known, ky_public_key key, [ky_public_key key],
       ''base v'' @ kc_version known)) (deployment_classes X AccountFamily.Braavos)))"
  "push_argent_cairo1_candidates S X K (classes_load S X) wallet key =
     Inr (map (tried_candidate S X K key) (argent_tries S X wallet (ky_public_key key)))"
  "push_oz_candidates S X K (classes_load S X) key =
     Inr (map (tried_candidate S X K key) (concat (map (\<lambda>known.
       [(WalletType.OpenZeppelin, kc_class_hash known, ky_public_key key, [ky_public_key key], ''v'' @ kc_version known @ '' salt-pubkey''),
        (WalletType.OpenZeppelin, kc_class_hash known, felt_zero S, [ky_public_key key], ''v'' @ kc_version known)])
       (deployment_classes X AccountFamily.OpenZeppelin))))"
  "push_argent_cairo0_candidates S X K (classes_load S X) key =
     Inr (map (tried_candidate S X K key) (map (\<lambda>(implementation, version).
       (WalletType.ArgentCairo0, proxy_class_hash X, ky_public_key key,
        cairo0_constructor_calldata S X implementation (ky_public_key key), ''proxy+v'' @ version)) (known_implementations X)))"
proof -
  have load: "ds_braavos (classes_load S X) = deployment_classes X AccountFamily.Braavos"
    "ds_open_zeppelin (classes_load S X) = deployment_classes X AccountFamily.OpenZeppelin"
    "ds_argent_cairo0 (classes_load S X) = known_implementations X" by (simp_all add: classes_load_def Let_def)
  show "push_braavos_candidates S X K (classes_load S X) key =
     Inr (map (tried_candidate S X K key) (map (\<lambda>known. (WalletType.Braavos, kc_class_hash known, ky_public_key key, [ky_public_key key],
       ''base v'' @ kc_version known)) (deployment_classes X AccountFamily.Braavos)))"
    by (simp add: push_braavos_candidates_def load calculate_address_def calculate_contract_address_eq braavos_account_class_def
        braavos_with_class_hash_def collect_total tried_candidate_def comp_def)
  show "push_argent_cairo1_candidates S X K (classes_load S X) wallet key =
     Inr (map (tried_candidate S X K key) (argent_tries S X wallet (ky_public_key key)))"
    by (simp add: push_argent_cairo1_candidates_def argent_tries_def calculate_address_def calculate_contract_address_eq
        argent_account_class_def with_class_hash_and_layout_def collect_total tried_candidate_def comp_def case_prod_beta')
  show "push_oz_candidates S X K (classes_load S X) key =
     Inr (map (tried_candidate S X K key) (concat (map (\<lambda>known.
       [(WalletType.OpenZeppelin, kc_class_hash known, ky_public_key key, [ky_public_key key], ''v'' @ kc_version known @ '' salt-pubkey''),
        (WalletType.OpenZeppelin, kc_class_hash known, felt_zero S, [ky_public_key key], ''v'' @ kc_version known)])
       (deployment_classes X AccountFamily.OpenZeppelin))))"
    by (simp add: push_oz_candidates_def load calculate_address_def calculate_contract_address_eq oz_account_class_def
        oz_from_class_hash_def oz_new_def oz_config_custom_def collect_total tried_candidate_def map_concat comp_def case_prod_beta')
  show "push_argent_cairo0_candidates S X K (classes_load S X) key =
     Inr (map (tried_candidate S X K key) (map (\<lambda>(implementation, version).
       (WalletType.ArgentCairo0, proxy_class_hash X, ky_public_key key,
        cairo0_constructor_calldata S X implementation (ky_public_key key), ''proxy+v'' @ version)) (known_implementations X)))"
    by (simp add: push_argent_cairo0_candidates_def load calculate_contract_address_eq collect_total tried_candidate_def comp_def
        case_prod_beta' Let_def)
qed

lemma candidates_at_Inr:
  "candidates_at S X K W (classes_load S X) mnemonic index = Inr cs \<longleftrightarrow>
    (\<exists>pk pubk pk' pubk'. seed_key S W mnemonic Direct index = Inr pk \<and> stark_public_key S X K pk = Inr pubk \<and>
      seed_key S W mnemonic DerivationType.ArgentLegacy index = Inr pk' \<and> stark_public_key S X K pk' = Inr pubk' \<and>
      cs = scheme_candidates S X K Direct index pk pubk @ scheme_candidates S X K DerivationType.ArgentLegacy index pk' pubk')"
  by (auto simp: candidates_at_def and_then_eq_Inr Let_def push_candidates scheme_candidates_def)

context stark_crypto_laws
begin

lemma deployment_shape:
  assumes "known \<in> set (deployment_classes X family)" and "family \<noteq> AccountFamily.Argent"
  shows "kc_class_hash known \<noteq> proxy_class_hash X" and "layout_for_class_hash X (kc_class_hash known) = None"
proof -
  have k: "known \<in> set (known_account_classes X)" "is_deployment_class known" "kc_family known \<noteq> AccountFamily.Argent"
    using assms by (auto simp: deployment_classes_def)
  then have shape: "kc_constructor known = Some ConstructorShape.PublicKey" using registry_shapes(1) by blast
  with registry_shapes(2) [OF k(1)] show "kc_class_hash known \<noteq> proxy_class_hash X" by simp
  have "lookup_account_class X (kc_class_hash known) = Some known" using k(1) by (simp add: lookup_iff)
  with shape show "layout_for_class_hash X (kc_class_hash known) = None" by (simp add: registry_layout)
qed

lemma argent_not_proxy: "layout_for_class_hash X h = Some layout \<Longrightarrow> h \<noteq> proxy_class_hash X"
proof
  assume l: "layout_for_class_hash X h = Some layout" and h: "h = proxy_class_hash X"
  obtain known where k: "lookup_account_class X h = Some known" "Option.bind (kc_constructor known) argent_layout = Some layout"
    using l by (auto simp: registry_layout bind_eq_Some_conv)
  then have "kc_constructor known = Some ArgentCairo0Proxy" using h registry_shapes(2) by (simp add: lookup_iff)
  with k(2) show False by simp
qed

text \<open>The classes a key scheme is tried with.\<close>

lemma tries_iff:
  "(\<exists>wallet version. (wallet, h, salt, calldata, version) \<in> set (tries S X scheme pk)) \<longleftrightarrow>
    (h, salt, calldata) \<in> seed_deployments S X pk \<and>
    (case scheme of Direct \<Rightarrow> h \<noteq> proxy_class_hash X | DerivationType.ArgentLegacy \<Rightarrow>
      h = proxy_class_hash X \<or> layout_for_class_hash X h \<noteq> None)"
proof -
  have argent: "(\<exists>w version. (w, h, salt, calldata, version) \<in> set (argent_tries S X wallet pk)) \<longleftrightarrow>
      (\<exists>layout. (\<exists>version. (h, version, layout) \<in> set (argent_known_classes X)) \<and> salt = pk \<and>
        calldata = constructor_calldata S layout pk)" for wallet
    by (force simp: argent_tries_def classes_load_def Let_def)
  have lay: "(\<exists>version. (h, version, layout) \<in> set (argent_known_classes X)) \<longleftrightarrow> layout_for_class_hash X h = Some layout" for layout
    by (simp add: layout_iff)
  have other: "h \<noteq> proxy_class_hash X \<and> \<not> (\<exists>layout. layout_for_class_hash X h = Some layout)"
    if "\<exists>known. known \<in> set (deployment_classes X family) \<and> kc_class_hash known = h" and "family \<noteq> AccountFamily.Argent" for family
    using that deployment_shape by (metis (full_types) option.distinct(1))
  note facts = other [of AccountFamily.Braavos, OF _ AccountFamily.distinct(6)]
    other [of AccountFamily.OpenZeppelin, OF _ AccountFamily.distinct(1)] argent_not_proxy [of h]
  show ?thesis
  proof (cases scheme)
    case Direct
    have "(\<exists>wallet version. (wallet, h, salt, calldata, version) \<in> set (tries S X scheme pk)) \<longleftrightarrow>
      (\<exists>known. known \<in> set (deployment_classes X AccountFamily.Braavos) \<and> kc_class_hash known = h) \<and> salt = pk \<and> calldata = [pk] \<or>
      (\<exists>w version. (w, h, salt, calldata, version) \<in> set (argent_tries S X WalletType.Argent pk)) \<or>
      (\<exists>known. known \<in> set (deployment_classes X AccountFamily.OpenZeppelin) \<and> kc_class_hash known = h) \<and>
        salt \<in> {pk, felt_zero S} \<and> calldata = [pk]"
      by (auto simp: Direct)
    then show ?thesis
      unfolding argent lay seed_deployments_cases Direct DerivationType.case not_None_eq using facts by blast
  next
    case ArgentLegacy
    have "(\<exists>wallet version. (wallet, h, salt, calldata, version) \<in> set (tries S X scheme pk)) \<longleftrightarrow>
      (\<exists>w version. (w, h, salt, calldata, version) \<in> set (argent_tries S X WalletType.ArgentLegacy pk)) \<or>
      h = proxy_class_hash X \<and> salt = pk \<and> (\<exists>i. (\<exists>version. (i, version) \<in> set (known_implementations X)) \<and>
        calldata = cairo0_constructor_calldata S X i pk)"
      by (force simp: ArgentLegacy image_iff)
    then show ?thesis
      unfolding argent lay seed_deployments_cases ArgentLegacy DerivationType.case not_None_eq using facts by blast
  qed
qed

lemma hex_round_trip: "ff_from_hex X (felt_hex X f) = Inr f"
proof -
  have "felt_val S f < 16 ^ 64" using felt_val_less [of f] by (simp add: FELT_PRIME_def)
  then have "length (show_hex (felt_val S f)) \<le> 64" by (rule length_show_hex) simp
  then show ?thesis
    using show_hex_ok [of "felt_val S f"] felt_val_less [of f] of_hex_digits [of "show_hex (felt_val S f)"]
    by (simp add: felt_hex_def hex_of_felt felt_from_val)
qed

lemma key_binding: "stark_public_key S X K pk = Inr pubk \<Longrightarrow> verify_key_binding S X K (felt_hex X pk) (felt_hex X pubk) = Inr ()"
proof -
  assume "stark_public_key S X K pk = Inr pubk"
  moreover have "felt_hex X pk \<noteq> []" by (simp add: felt_hex_def hex_of_felt)
  ultimately show ?thesis by (simp add: verify_key_binding_def require_private_key_def hex_round_trip)
qed

lemma scheme_candidate_iff:
  "(\<exists>c \<in> set (scheme_candidates S X K scheme index pk pubk). view = (ca_class_hash c, ca_address c)) \<longleftrightarrow>
    (\<exists>h salt calldata. (h, salt, calldata) \<in> seed_deployments S X pubk \<and>
      (case scheme of Direct \<Rightarrow> h \<noteq> proxy_class_hash X | DerivationType.ArgentLegacy \<Rightarrow>
        h = proxy_class_hash X \<or> layout_for_class_hash X h \<noteq> None) \<and>
      view = (felt_hex X h, felt_hex X (deployed_address S K salt h calldata (felt_zero S))))"
proof -
  have "(\<exists>c \<in> set (scheme_candidates S X K scheme index pk pubk). view = (ca_class_hash c, ca_address c)) \<longleftrightarrow>
    (\<exists>h salt calldata. (\<exists>wallet version. (wallet, h, salt, calldata, version) \<in> set (tries S X scheme pubk)) \<and>
      view = (felt_hex X h, felt_hex X (deployed_address S K salt h calldata (felt_zero S))))"
    by (force simp: scheme_candidates_def tried_candidate_def key_candidate_def)
  then show ?thesis unfolding tries_iff conj_assoc .
qed

lemma scheme_candidate_keys:
  assumes "c \<in> set (scheme_candidates S X K scheme index pk pubk)"
  shows "ca_public_key c = felt_hex X pubk" "ca_private_key c = felt_hex X pk" "ca_derivation_index c = index"
    "ca_derivation_path c = scheme_path scheme index"
  using assms by (auto simp: scheme_candidates_def tried_candidate_def key_candidate_def)

lemma length_scheme_candidates:
  "length (scheme_candidates S X K Direct index pk pubk) = 8" (is ?direct)
  "length (scheme_candidates S X K DerivationType.ArgentLegacy index pk' pubk') = 8" (is ?legacy)
proof -
  have "length (deployment_classes X AccountFamily.Braavos) = 2" "length (deployment_classes X AccountFamily.OpenZeppelin) = 1"
    using registry_entries by (auto simp: deployment_classes_def registry_unfold)
  moreover have "length (ds_argent (classes_load S X)) = 4" by (simp add: classes_load_def Let_def argent_known_classes_def)
  moreover have "length (known_implementations X) = 4" by (simp add: known_implementations_def)
  ultimately show ?direct ?legacy
    by (simp_all add: scheme_candidates_def argent_tries_def length_concat comp_def sum_list_triv)
qed

lemma candidates_at_set:
  assumes "candidates_at S X K W (classes_load S X) mnemonic index = Inr zs"
  shows "c \<in> set zs \<longleftrightarrow> (\<exists>scheme pk pubk. seed_key S W mnemonic scheme index = Inr pk \<and>
    stark_public_key S X K pk = Inr pubk \<and> c \<in> set (scheme_candidates S X K scheme index pk pubk))"
proof -
  obtain pk pubk pk' pubk' where k: "seed_key S W mnemonic Direct index = Inr pk" "stark_public_key S X K pk = Inr pubk"
      "seed_key S W mnemonic DerivationType.ArgentLegacy index = Inr pk'" "stark_public_key S X K pk' = Inr pubk'"
    and zs: "zs = scheme_candidates S X K Direct index pk pubk @ scheme_candidates S X K DerivationType.ArgentLegacy index pk' pubk'"
    using assms unfolding candidates_at_Inr by (elim exE conjE)
  show ?thesis by (simp add: ex_scheme k zs del: seed_key.simps)
qed

lemma generated_iff:
  assumes "generate_candidates S X K W mnemonic max_index = Inr cs"
  shows "c \<in> set cs \<longleftrightarrow> (\<exists>scheme index pk pubk. index < max_index \<and> seed_key S W mnemonic scheme index = Inr pk \<and>
      stark_public_key S X K pk = Inr pubk \<and> c \<in> set (scheme_candidates S X K scheme index pk pubk))"
    and "length cs = 16 * unat max_index"
    and "max_index \<le> 1024"
proof -
  obtain yss where yss: "list_all2 (\<lambda>index zs. candidates_at S X K W (classes_load S X) mnemonic index = Inr zs) (index_range max_index) yss"
    and "cs = [] @ concat yss" and ok: "validate_discovery_inputs W mnemonic max_index = Inr ()"
    using assms unfolding generate_candidates_def and_then_eq_Inr extend_loop_Inr by (elim exE conjE) auto
  then have cs: "cs = concat yss" by simp
  show "max_index \<le> 1024"
    using ok by (cases "MAX_DISCOVERY_INDEX < max_index") (simp_all add: validate_discovery_inputs_def MAX_DISCOVERY_INDEX_def)
  have all: "\<exists>zs. candidates_at S X K W (classes_load S X) mnemonic index = Inr zs" if "index < max_index" for index
    using collected_all [OF yss] that unfolding index_range_iff .
  have "c \<in> set cs \<longleftrightarrow> (\<exists>index zs. index < max_index \<and> candidates_at S X K W (classes_load S X) mnemonic index = Inr zs \<and> c \<in> set zs)"
    unfolding cs concat_collected [OF yss] index_range_iff [symmetric] by blast
  then show "c \<in> set cs \<longleftrightarrow> (\<exists>scheme index pk pubk. index < max_index \<and> seed_key S W mnemonic scheme index = Inr pk \<and>
      stark_public_key S X K pk = Inr pubk \<and> c \<in> set (scheme_candidates S X K scheme index pk pubk))"
  proof -
    assume c: "c \<in> set cs \<longleftrightarrow> (\<exists>index zs. index < max_index \<and> candidates_at S X K W (classes_load S X) mnemonic index = Inr zs \<and> c \<in> set zs)"
    show ?thesis unfolding c
    proof (intro iffI; elim exE conjE)
      fix index zs assume "index < max_index" "candidates_at S X K W (classes_load S X) mnemonic index = Inr zs" "c \<in> set zs"
      with candidates_at_set [of W mnemonic index zs c]
      show "\<exists>scheme index pk pubk. index < max_index \<and> seed_key S W mnemonic scheme index = Inr pk \<and>
        stark_public_key S X K pk = Inr pubk \<and> c \<in> set (scheme_candidates S X K scheme index pk pubk)" by blast
    next
      fix scheme index pk pubk assume k: "index < max_index" "seed_key S W mnemonic scheme index = Inr pk"
        "stark_public_key S X K pk = Inr pubk" "c \<in> set (scheme_candidates S X K scheme index pk pubk)"
      obtain zs where zs: "candidates_at S X K W (classes_load S X) mnemonic index = Inr zs" using all [OF k(1)] ..
      have "c \<in> set zs" unfolding candidates_at_set [OF zs] using k(2,3,4) by (intro exI conjI)
      with k(1) zs show "\<exists>index zs. index < max_index \<and> candidates_at S X K W (classes_load S X) mnemonic index = Inr zs \<and> c \<in> set zs"
        by (intro exI conjI)
    qed
  qed
  have "list_all2 (\<lambda>index zs. length zs = 16) (index_range max_index) yss"
    using yss by (rule list_all2_mono) (auto simp: candidates_at_Inr length_scheme_candidates)
  then have "length cs = 16 * length (index_range max_index)"
    unfolding cs by (induction rule: list_all2_induct) simp_all
  then show "length cs = 16 * unat max_index" by (simp add: index_range_def)
qed

end

text \<open>The parameters together, with a hash on which grinding succeeds.\<close>

lemma zhash_crypto: "stark_crypto_laws zhash zformat zcrypto"
proof -
  have val: "felt_val zhash = felt_val stark_dlog" by (simp add: fun_eq_iff felt_val_def zhash_def)
  have fields: "felt_from zhash = felt_from stark_dlog" "felt_add zhash = felt_add stark_dlog" by (simp_all add: zhash_def)
  have "felt_format_laws zhash zformat"
    using zfmt.felt_format_laws_axioms zhash_laws(1)
    unfolding felt_format_laws_def felt_text_def felt_text_axioms_def felt_format_laws_axioms_def val fields by blast
  then show ?thesis
    using zk.stark_crypto_laws_axioms
    unfolding stark_crypto_laws_def stark_crypto_laws_axioms_def STARK_BETA_def val fields by blast
qed

lemma zderive:
  "and_then (derive_master_key zwallet seed) (\<lambda>master.
     and_then (derive_path zwallet (fst master) (snd master) (bip44_path coin account index)) f) = Inr y \<longleftrightarrow>
   f (be_bytes 32 6, replicate 32 0) = Inr y"
proof -
  have "bip32_master zwallet seed = (1, replicate 32 0)"
    by (simp add: bip32_master_def hmac_zwallet be_val_zero_iff [THEN iffD2])
  moreover have "ckd_path zwallet [a, b, c, d, e] (1, replicate 32 0) = Some (6, replicate 32 0)" for a b c d e
    by (simp add: ckd_zwallet SECP256K1_ORDER_def)
  ultimately show ?thesis
    unfolding zw.derive_from_seed bip44_path_def by (simp del: ckd_path.simps)
qed

lemma zseed_key: "seed_key zhash zwallet mnemonic scheme 0 = Inr (zfelt_of 7)"
proof -
  have ok: "require_unhardened_component 0 field = Inr ()" "require_unhardened_component DISCOVERY_COIN_TYPE field = Inr ()" for field
    by (simp_all add: unhardened_ok DISCOVERY_COIN_TYPE_def)
  have seed: "mnemonic_to_seed zwallet mnemonic passphrase = Inr (replicate 64 0)" for passphrase
    by (simp add: mnemonic_to_seed_def parse_mnemonic_def zwallet_def)
  show ?thesis
    by (cases scheme)
      (simp_all add: derive_private_key_with_coin_type_def derive_argent_legacy_private_key_def derive_stark_from_eth_key_def
        ok seed zderive grind_zhash)
qed

section \<open>Properties\<close>

text \<open>
  C22. What discovery generates, exactly. When \<open>generate_candidates\<close> succeeds there are sixteen candidates per index. For
  the direct key of an index they are its seed deployments other than the Cairo 0 proxy; for the legacy key they are its
  seed deployments of Argent only, the proxy and the classes with a known constructor layout, so that neither Braavos nor
  OpenZeppelin is tried with it. The private key of every candidate derives its public key.
\<close>

theorem discovery_exact:
  assumes "stark_crypto_laws S X K" and "generate_candidates S X K W mnemonic max_index = Inr cs"
  shows "length cs = 16 * unat max_index \<and> max_index \<le> 1024 \<and>
    {(ca_derivation_index c, ca_public_key c, ca_class_hash c, ca_address c) | c. c \<in> set cs} =
    {(index, felt_hex X pubk, felt_hex X h, felt_hex X (deployed_address S K salt h calldata (felt_zero S))) |
       scheme index pk pubk h salt calldata.
       index < max_index \<and> seed_key S W mnemonic scheme index = Inr pk \<and> stark_public_key S X K pk = Inr pubk \<and>
       (h, salt, calldata) \<in> seed_deployments S X pubk \<and>
       (case scheme of Direct \<Rightarrow> h \<noteq> proxy_class_hash X | DerivationType.ArgentLegacy \<Rightarrow>
         h = proxy_class_hash X \<or> layout_for_class_hash X h \<noteq> None)} \<and>
    (\<forall>c \<in> set cs. candidate_verify_key_binding S X K c = Inr ())"
proof (intro conjI ballI set_eqI)
  note gen = stark_crypto_laws.generated_iff [OF assms]
  note cand = stark_crypto_laws.scheme_candidate_iff [OF assms(1)]
  note keys = stark_crypto_laws.scheme_candidate_keys [OF assms(1)]
  show "length cs = 16 * unat max_index" "max_index \<le> 1024" by (rule gen)+
  show "candidate_verify_key_binding S X K c = Inr ()" if "c \<in> set cs" for c
    using that gen(1) [of c] keys stark_crypto_laws.key_binding [OF assms(1)]
    by (auto simp: candidate_verify_key_binding_def)
  fix t :: "u32 \<times> string \<times> string \<times> string"
  obtain index pub view where t: "t = (index, pub, view)" by (cases t)
  have "t \<in> {(ca_derivation_index c, ca_public_key c, ca_class_hash c, ca_address c) | c. c \<in> set cs} \<longleftrightarrow>
    (\<exists>scheme pk pubk. index < max_index \<and> seed_key S W mnemonic scheme index = Inr pk \<and> stark_public_key S X K pk = Inr pubk \<and>
      pub = felt_hex X pubk \<and> (\<exists>c \<in> set (scheme_candidates S X K scheme index pk pubk). view = (ca_class_hash c, ca_address c)))"
    unfolding t mem_Collect_eq gen(1) prod.inject using keys by (metis (no_types, lifting))
  then show "t \<in> {(ca_derivation_index c, ca_public_key c, ca_class_hash c, ca_address c) | c. c \<in> set cs} \<longleftrightarrow>
    t \<in> {(index, felt_hex X pubk, felt_hex X h, felt_hex X (deployed_address S K salt h calldata (felt_zero S))) |
       scheme index pk pubk h salt calldata.
       index < max_index \<and> seed_key S W mnemonic scheme index = Inr pk \<and> stark_public_key S X K pk = Inr pubk \<and>
       (h, salt, calldata) \<in> seed_deployments S X pubk \<and>
       (case scheme of Direct \<Rightarrow> h \<noteq> proxy_class_hash X | DerivationType.ArgentLegacy \<Rightarrow>
         h = proxy_class_hash X \<or> layout_for_class_hash X h \<noteq> None)}"
    unfolding cand t by blast
qed

theorem discovery_exact_witness:
  "\<exists>cs. generate_candidates zhash zformat zcrypto zwallet ''abandon'' 1 = Inr cs \<and> length cs = 16 \<and>
     (\<forall>c \<in> set cs. candidate_verify_key_binding zhash zformat zcrypto c = Inr ())"
proof -
  have pub: "stark_public_key zhash zformat zcrypto (zfelt_of 7) = Inr (zfelt_of 1)"
    unfolding stark_crypto_laws.stark_public_key_iff [OF zhash_crypto]
    by (simp add: zcrypto_sel felt_val_def zhash_def be_val_small Rep_zfelt_of CURVE_ORDER_def FELT_PRIME_def)
  have one: "index_range 1 = [0]" by (simp add: index_range_def)
  have valid: "validate_mnemonic zwallet ''abandon'' = Inr ()" by (simp add: validate_mnemonic_def parse_mnemonic_def zwallet_def)
  obtain zs where "candidates_at zhash zformat zcrypto zwallet (classes_load zhash zformat) ''abandon'' 0 = Inr zs"
    using candidates_at_Inr [of zhash zformat zcrypto zwallet "''abandon''" 0] by (simp add: zseed_key pub del: seed_key.simps)
  then obtain cs where cs: "generate_candidates zhash zformat zcrypto zwallet ''abandon'' 1 = Inr cs"
    by (simp add: generate_candidates_def validate_discovery_inputs_def MAX_DISCOVERY_INDEX_def valid one)
  from discovery_exact [OF zhash_crypto cs] cs show ?thesis by auto
qed

end
