(* ===== verification/Gateway_Class.thy ===== *)
theory Gateway_Class
  imports Account_Class
begin

text \<open>
  \<open>errors.rs\<close> and \<open>account_class.rs\<close> of \<open>crates/gateway/src\<close>: how errors of the other crates become gateway errors, and which
  account class a request resolves to. The lemmas show which classes the allowlist lets through.
\<close>

type_synonym 'a gateway_result = "GatewayError + 'a"

section \<open>Errors\<close>

text \<open>\<open>str::to_lowercase\<close> on the Latin-1 characters of the model, and \<open>str::contains\<close>.\<close>

definition latin_lower :: "char \<Rightarrow> char" where
  "latin_lower c =
     (let n = of_char c :: nat
      in if 65 \<le> n \<and> n \<le> 90 \<or> 192 \<le> n \<and> n \<le> 222 \<and> n \<noteq> 215 then char_of (n + 32) else c)"

definition to_lowercase :: "string \<Rightarrow> string" where
  "to_lowercase s = map latin_lower s"

fun contains :: "string \<Rightarrow> string \<Rightarrow> bool" where
  "contains [] pat = (pat = [])"
| "contains (c # s) pat = (take (length pat) (c # s) = pat \<or> contains s pat)"

definition classify_transaction_error :: "string \<Rightarrow> GatewayError" where
  "classify_transaction_error message =
     (let lower = to_lowercase message;
          code =
            (if contains lower ''nonce'' then NonceMismatch
             else if contains lower ''constructor'' \<or> contains lower ''calldata'' then ConstructorCalldataMismatch
             else if contains lower ''class hash'' then GatewayErrorCode.InvalidClassHash
             else RpcDegraded);
          retryable = (code = NonceMismatch \<or> code = RpcDegraded)
      in gateway_error code retryable (Some message))"

definition classify_reverted_transaction_error :: "string \<Rightarrow> GatewayError" where
  "classify_reverted_transaction_error message =
     (let lower = to_lowercase message;
          code =
            (if contains lower ''constructor'' \<or> contains lower ''calldata'' then ConstructorCalldataMismatch
             else if contains lower ''class hash'' then GatewayErrorCode.InvalidClassHash
             else InvalidRequest)
      in gateway_error code False (Some message))"

text \<open>The source matches every variant; \<open>Panic\<close> is none, and a panic is not mapped.\<close>

fun map_kms_error :: "KmsError \<Rightarrow> GatewayError" where
  "map_kms_error (AccountNotDeployed message) = gateway_error GatewayErrorCode.Undeployed False (Some message)"
| "map_kms_error (ContractNotFound message) = gateway_error NotFound False (Some message)"
| "map_kms_error KmsError.InsufficientBalance =
     gateway_error GatewayErrorCode.InsufficientBalance False (Some ''insufficient balance for requested amount'')"
| "map_kms_error (InsufficientFeeBalance message) = gateway_error InsufficientFee False (Some message)"
| "map_kms_error (KmsError.InvalidClassHash message) = gateway_error GatewayErrorCode.InvalidClassHash False (Some message)"
| "map_kms_error (KmsError.InvalidDerivationPath message) =
     gateway_error GatewayErrorCode.InvalidDerivationPath False (Some message)"
| "map_kms_error (KmsError.Timeout message) = gateway_error GatewayErrorCode.Timeout True (Some message)"
| "map_kms_error (InvalidMnemonic message) = gateway_error SecretUnavailable False (Some message)"
| "map_kms_error (InvalidPrivateKey message) = gateway_error SecretUnavailable False (Some message)"
| "map_kms_error (RpcError message) = gateway_error ProviderTransport True (Some message)"
| "map_kms_error (FeeEstimationFailed message) = gateway_error ProviderTransport True (Some message)"
| "map_kms_error (TransactionError message) = classify_transaction_error message"
| "map_kms_error (TransactionReverted message) = classify_reverted_transaction_error message"
| "map_kms_error (AlreadyDeployed message) = gateway_error InvalidRequest False (Some message)"
| "map_kms_error (InvalidPublicKey message) = gateway_error InvalidRequest False (Some message)"
| "map_kms_error (CryptoError message) = gateway_error InvalidRequest False (Some message)"
| "map_kms_error (SerializationError message) = gateway_error InvalidRequest False (Some message)"
| "map_kms_error (DeserializationError message) = gateway_error InvalidRequest False (Some message)"
| "map_kms_error (InvalidAmount message) = gateway_error InvalidRequest False (Some message)"
| "map_kms_error (StarknetCryptoError message) = gateway_error InvalidRequest False (Some message)"
| "map_kms_error (InvalidProof message) = gateway_error InvalidRequest False (Some message)"
| "map_kms_error (StakingError message) = gateway_error InvalidRequest False (Some message)"
| "map_kms_error (MultisigError message) = gateway_error InvalidRequest False (Some message)"
| "map_kms_error (ControllerError message) = gateway_error InvalidRequest False (Some message)"
| "map_kms_error (HexError message) = gateway_error InvalidRequest False (Some message)"
| "map_kms_error (JsonError message) = gateway_error InvalidRequest False (Some message)"
| "map_kms_error PointAtInfinity = gateway_error InvalidRequest False (Some ''derived public key is point at infinity'')"

fun map_domain_error :: "DomainError \<Rightarrow> GatewayError" where
  "map_domain_error (DomainError.InvalidDerivationPath message) =
     gateway_error GatewayErrorCode.InvalidDerivationPath False (Some message)"
| "map_domain_error (DomainError.InvalidCachePolicy message) =
     gateway_error GatewayErrorCode.InvalidCachePolicy False (Some message)"
| "map_domain_error (DomainError.InvalidWaitPolicy message) =
     gateway_error GatewayErrorCode.InvalidWaitPolicy False (Some message)"
| "map_domain_error (InvalidFeltHex message) = gateway_error InvalidRequest False (Some message)"
| "map_domain_error (InvalidHexBytes message) = gateway_error InvalidRequest False (Some message)"
| "map_domain_error (InvalidSignRequest message) = gateway_error InvalidRequest False (Some message)"
| "map_domain_error (InvalidSecretRef message) = gateway_error InvalidRequest False (Some message)"
| "map_domain_error (EmptyField field) =
     gateway_error InvalidRequest False (Some (''field '' @ field @ '' must not be empty''))"

section \<open>Account classes\<close>

datatype 'f ResolvedAccountClass =
    OpenZeppelin "'f OpenZeppelinAccount"
  | Argent "'f ArgentAccount"
  | Braavos "'f BraavosAccount"

fun as_account_class :: "('f, 'p, 'a, 'r) starknet \<Rightarrow> 'f ResolvedAccountClass \<Rightarrow> 'f AccountClass" where
  "as_account_class S (ResolvedAccountClass.OpenZeppelin account) = oz_account_class account"
| "as_account_class S (ResolvedAccountClass.Argent account) = argent_account_class S account"
| "as_account_class S (ResolvedAccountClass.Braavos account) = braavos_account_class account"

fun show_account_class_kind :: "AccountClassKind \<Rightarrow> string" where
  "show_account_class_kind AccountClassKind.OpenZeppelin = ''OpenZeppelin''"
| "show_account_class_kind AccountClassKind.Argent = ''Argent''"
| "show_account_class_kind AccountClassKind.Braavos = ''Braavos''"

text \<open>The loop over the peer networks.\<close>

fun peer_hashes :: "'f felt_format \<Rightarrow> ChainId \<Rightarrow> ChainId list \<Rightarrow> 'f list \<Rightarrow> 'f list" where
  "peer_hashes X chain_id [] hashes = hashes"
| "peer_hashes X chain_id (peer # peers) hashes =
     peer_hashes X chain_id peers
       (if peer = chain_id then hashes
        else case oz_latest X peer of
               Inr account \<Rightarrow>
                 (let hash = acl_class_hash (oz_account_class account)
                  in if hash \<in> set hashes then hashes else hashes @ [hash])
             | Inl _ \<Rightarrow> hashes)"

fun known_class_hashes :: "'f felt_format \<Rightarrow> AccountClassKind \<Rightarrow> ChainId \<Rightarrow> 'f list" where
  "known_class_hashes X AccountClassKind.OpenZeppelin chain_id =
     peer_hashes X chain_id [Sepolia, Mainnet]
       (case oz_latest X chain_id of Inr latest \<Rightarrow> [acl_class_hash (oz_account_class latest)] | Inl _ \<Rightarrow> [])"
| "known_class_hashes X AccountClassKind.Argent chain_id = argent_known_class_hashes X"
| "known_class_hashes X AccountClassKind.Braavos chain_id = deployment_class_hashes X"

definition enforce_class_hash_allowlist ::
    "'f felt_format \<Rightarrow> 'f \<Rightarrow> AccountClassKind \<Rightarrow> ChainId \<Rightarrow> bool \<Rightarrow> unit gateway_result" where
  "enforce_class_hash_allowlist X class_hash kind chain_id allow_unlisted =
     (if kind = AccountClassKind.Braavos \<and> is_implementation_class_hash X class_hash
      then Inl (gateway_error GatewayErrorCode.InvalidClassHash False
             (Some (''class_hash '' @ ff_hex_alt X class_hash @ '' is a Braavos account implementation class; '' @
                ''addresses are fixed by a base (deployment) class, use one of those'')))
      else if allow_unlisted then Inr ()
      else if class_hash \<in> set (known_class_hashes X kind chain_id) then Inr ()
      else
        let override_hint =
              (case kind of AccountClassKind.Argent \<Rightarrow> [] | _ \<Rightarrow> ''; set allow_unlisted_class_hash=true to override'')
        in Inl (gateway_error GatewayErrorCode.InvalidClassHash False
             (Some (''class_hash '' @ ff_hex_alt X class_hash @ '' is not on the known '' @ show_account_class_kind kind @
                '' allowlist'' @ override_hint))))"

definition resolve_braavos_class :: "'f felt_format \<Rightarrow> 'f \<Rightarrow> ChainId \<Rightarrow> bool \<Rightarrow> 'f BraavosAccount gateway_result" where
  "resolve_braavos_class X class_hash chain_id allow_unlisted =
     and_then (enforce_class_hash_allowlist X class_hash AccountClassKind.Braavos chain_id allow_unlisted) (\<lambda>_.
       case braavos_try_with_class_hash X class_hash of
         Inr account \<Rightarrow> Inr account
       | Inl err \<Rightarrow>
           if allow_unlisted \<and> \<not> is_implementation_class_hash X class_hash
           then Inr (braavos_with_class_hash class_hash)
           else Inl (map_kms_error err))"

definition resolve_account_class ::
    "'f felt_format \<Rightarrow> AccountClassSpec \<Rightarrow> ChainId \<Rightarrow> 'f ResolvedAccountClass gateway_result" where
  "resolve_account_class X spec chain_id =
     (case cs_kind spec of
        AccountClassKind.OpenZeppelin \<Rightarrow>
          and_then
            (case (cs_class_hash spec, cs_source_label spec) of
               (Some class_hash, _) \<Rightarrow>
                 and_then (enforce_class_hash_allowlist X (felthex_to_felt X class_hash) AccountClassKind.OpenZeppelin chain_id
                    (cs_allow_unlisted_class_hash spec)) (\<lambda>_. Inr (oz_from_class_hash (felthex_to_felt X class_hash)))
             | (None, Some version) \<Rightarrow> map_err map_kms_error (oz_from_manifest X chain_id version)
             | (None, None) \<Rightarrow> map_err map_kms_error (oz_latest X chain_id))
            (\<lambda>account. Inr (ResolvedAccountClass.OpenZeppelin account))
      | AccountClassKind.Argent \<Rightarrow>
          if cs_source_label spec \<noteq> None
          then Inl (gateway_error UnsupportedAccountClass False
                 (Some ''Argent account resolution does not support source_label''))
          else
            and_then
              (case cs_class_hash spec of
                 Some class_hash \<Rightarrow>
                   and_then (enforce_class_hash_allowlist X (felthex_to_felt X class_hash) AccountClassKind.Argent chain_id
                      (cs_allow_unlisted_class_hash spec)) (\<lambda>_.
                     map_err map_kms_error (argent_try_with_class_hash X (felthex_to_felt X class_hash)))
               | None \<Rightarrow> Inr (argent_new X)) (\<lambda>account. Inr (ResolvedAccountClass.Argent account))
      | AccountClassKind.Braavos \<Rightarrow>
          if cs_source_label spec \<noteq> None
          then Inl (gateway_error UnsupportedAccountClass False
                 (Some ''Braavos account resolution does not support source_label''))
          else
            and_then
              (case cs_class_hash spec of
                 Some class_hash \<Rightarrow>
                   resolve_braavos_class X (felthex_to_felt X class_hash) chain_id (cs_allow_unlisted_class_hash spec)
               | None \<Rightarrow> Inr (braavos_new X)) (\<lambda>account. Inr (ResolvedAccountClass.Braavos account)))"

fun to_salt_policy :: "'f felt_format \<Rightarrow> SaltPolicySpec \<Rightarrow> 'f SaltPolicy" where
  "to_salt_policy X SaltPolicySpec.PublicKey = SaltPolicy.PublicKey"
| "to_salt_policy X SaltPolicySpec.Zero = SaltPolicy.Zero"
| "to_salt_policy X (SaltPolicySpec.Explicit salt) = SaltPolicy.Explicit (felthex_to_felt X salt)"

section \<open>Which classes resolve\<close>

fun resolved_kind :: "'f ResolvedAccountClass \<Rightarrow> AccountClassKind" where
  "resolved_kind (ResolvedAccountClass.OpenZeppelin account) = AccountClassKind.OpenZeppelin"
| "resolved_kind (ResolvedAccountClass.Argent account) = AccountClassKind.Argent"
| "resolved_kind (ResolvedAccountClass.Braavos account) = AccountClassKind.Braavos"

fun kind_family :: "AccountClassKind \<Rightarrow> AccountFamily" where
  "kind_family AccountClassKind.OpenZeppelin = AccountFamily.OpenZeppelin"
| "kind_family AccountClassKind.Argent = AccountFamily.Argent"
| "kind_family AccountClassKind.Braavos = AccountFamily.Braavos"

abbreviation deployed_hashes :: "'f felt_format \<Rightarrow> AccountClassKind \<Rightarrow> 'f set" where
  "deployed_hashes X kind \<equiv> kc_class_hash ` set (deployment_classes X (kind_family kind))"

definition resolvable :: "'f felt_format \<Rightarrow> AccountClassSpec \<Rightarrow> 'f \<Rightarrow> bool" where
  "resolvable X spec h =
     (case cs_kind spec of
        AccountClassKind.OpenZeppelin \<Rightarrow>
          (case cs_class_hash spec of
             Some c \<Rightarrow> h = felthex_to_felt X c \<and> (cs_allow_unlisted_class_hash spec \<or> h \<in> deployed_hashes X AccountClassKind.OpenZeppelin)
           | None \<Rightarrow> cs_source_label spec \<in> {None, Some ''3.0.0''} \<and> h \<in> deployed_hashes X AccountClassKind.OpenZeppelin)
      | AccountClassKind.Argent \<Rightarrow>
          cs_source_label spec = None \<and> layout_for_class_hash X h \<noteq> None \<and>
          h = (case cs_class_hash spec of Some c \<Rightarrow> felthex_to_felt X c | None \<Rightarrow> static_class_hash X ARGENT_CLASS_HASH)
      | AccountClassKind.Braavos \<Rightarrow>
          cs_source_label spec = None \<and>
          (case cs_class_hash spec of
             Some c \<Rightarrow> h = felthex_to_felt X c \<and>
               (h \<in> deployed_hashes X AccountClassKind.Braavos \<or> cs_allow_unlisted_class_hash spec \<and> \<not> is_implementation_class_hash X h)
           | None \<Rightarrow> h = braavos_static_class_hash X BRAAVOS_CLASS_HASH))"

context felt_format_laws
begin

lemma oz_deployed: "deployed_hashes X AccountClassKind.OpenZeppelin = {felt_from S (text_value OZ_CLASS_HASH)}"
proof -
  obtain docs where "known_account_classes X =
     known_account_class AccountFamily.OpenZeppelin (felt_from S (text_value OZ_CLASS_HASH)) ''3.0.0'' ''OpenZeppelin AccountUpgradeable v3.0.0''
       DEPLOYMENT_AND_IMPLEMENTATION (Some ConstructorShape.PublicKey) docs #
     argent_cairo1_classes X @ cairo0_known_classes X @ braavos_known_classes X"
    using registry_entries by blast
  then show ?thesis by (simp add: deployment_classes_def registry_unfold)
qed

lemma oz_from_manifest_eq:
  "\<exists>source. oz_from_manifest X chain_id ''3.0.0'' = Inr \<lparr>oz_class_config =
     \<lparr>oc_class_hash = felt_from S (text_value OZ_CLASS_HASH), oc_source = source\<rparr>\<rparr>"
  "version \<noteq> ''3.0.0'' \<Longrightarrow> \<exists>e. oz_from_manifest X chain_id version = Inl e"
  by (cases chain_id; simp add: oz_from_manifest_def oz_config_from_manifest_def oz_account_manifest_def
      OZ_ACCOUNT_CLASS_MANIFEST_def literal_from_hex [OF class_hash_literals [unfolded list_all_iff, rule_format]]
      class_hash_texts_def oz_new_def)+

lemma oz_from_manifest_iff:
  "(\<exists>account. oz_from_manifest X chain_id version = Inr account) \<longleftrightarrow> version = ''3.0.0''"
  "oz_from_manifest X chain_id version = Inr account \<Longrightarrow>
     acl_class_hash (oz_account_class account) = felt_from S (text_value OZ_CLASS_HASH)"
proof -
  show *: "(\<exists>account. oz_from_manifest X chain_id version = Inr account) \<longleftrightarrow> version = ''3.0.0''"
    using oz_from_manifest_eq by (metis Inl_Inr_False)
  assume "oz_from_manifest X chain_id version = Inr account"
  moreover with * have "version = ''3.0.0''" by blast
  ultimately show "acl_class_hash (oz_account_class account) = felt_from S (text_value OZ_CLASS_HASH)"
    using oz_from_manifest_eq(1) [of chain_id] by (elim exE) (drule sym, simp add: oz_account_class_def)
qed

lemma oz_latest_eq: "oz_latest X chain_id = oz_from_manifest X chain_id ''3.0.0''"
proof -
  have "mf_latest_version OZ_ACCOUNT_CLASS_MANIFEST = ''3.0.0''" by (simp add: OZ_ACCOUNT_CLASS_MANIFEST_def)
  then show ?thesis
    unfolding oz_latest_def oz_from_manifest_def oz_config_latest_def oz_account_manifest_def and_then_Inr by (simp only:)
qed

lemma oz_known: "set (known_class_hashes X AccountClassKind.OpenZeppelin chain_id) = deployed_hashes X AccountClassKind.OpenZeppelin"
proof -
  define h where "h = felt_from S (text_value OZ_CLASS_HASH)"
  have "\<exists>account. oz_latest X c = Inr account \<and> acl_class_hash (oz_account_class account) = h" for c
    unfolding oz_latest_eq h_def using oz_from_manifest_eq(1) [of c] oz_from_manifest_iff(2) [of c] by metis
  then obtain account where "\<And>c. oz_latest X c = Inr (account c)" "\<And>c. acl_class_hash (oz_account_class (account c)) = h"
    by metis
  then have "set (known_class_hashes X AccountClassKind.OpenZeppelin chain_id) = {h}" by simp
  then show ?thesis unfolding oz_deployed h_def .
qed

lemma argent_known: "h \<in> set (known_class_hashes X AccountClassKind.Argent chain_id) \<longleftrightarrow> layout_for_class_hash X h \<noteq> None"
  unfolding not_None_eq layout_iff by (force simp: argent_known_class_hashes_def)

lemma braavos_known: "set (known_class_hashes X AccountClassKind.Braavos chain_id) = deployed_hashes X AccountClassKind.Braavos"
  by (simp add: braavos_hashes)

text \<open>No class with which accounts are deployed is an implementation class of Braavos.\<close>

lemma deployed_not_implementation:
  "h \<in> deployed_hashes X kind \<Longrightarrow> \<not> is_implementation_class_hash X h"
proof
  assume "h \<in> deployed_hashes X kind" and "is_implementation_class_hash X h"
  then obtain a b where ab: "a \<in> set (known_account_classes X)" "is_deployment_class a" "kc_family a = kind_family kind"
    "b \<in> set (known_account_classes X)" "is_implementation_class b" "kc_family b = AccountFamily.Braavos"
    "kc_class_hash a = kc_class_hash b"
    by (auto simp: deployment_classes_def is_implementation_class_hash_def braavos_hashes implementation_classes_def)
  then have "a = b" using lookup_iff [of "kc_class_hash a"] by (metis option.inject)
  with ab registry_roles(3) show False by metis
qed

lemma layout_deployed: "layout_for_class_hash X h \<noteq> None \<Longrightarrow> h \<in> deployed_hashes X AccountClassKind.Argent"
  unfolding not_None_eq layout_iff
  by (force simp: deployment_classes_def known_account_classes_def argent_cairo1_classes_def known_account_class_def
      is_deployment_class_def DEPLOYMENT_AND_IMPLEMENTATION_def)

lemma allowlist_iff:
  "enforce_class_hash_allowlist X h kind chain_id allow_unlisted = Inr () \<longleftrightarrow>
     (kind = AccountClassKind.Braavos \<longrightarrow> \<not> is_implementation_class_hash X h) \<and>
     (allow_unlisted \<or> h \<in> set (known_class_hashes X kind chain_id))"
  by (simp add: enforce_class_hash_allowlist_def Let_def)

lemma resolve_braavos_iff:
  "resolve_braavos_class X h chain_id allow_unlisted = Inr account \<longleftrightarrow>
     account = braavos_with_class_hash h \<and>
     (h \<in> deployed_hashes X AccountClassKind.Braavos \<or> allow_unlisted \<and> \<not> is_implementation_class_hash X h)"
proof -
  have known: "h \<in> set (deployment_class_hashes X) \<longleftrightarrow> h \<in> deployed_hashes X AccountClassKind.Braavos"
    by (simp add: braavos_hashes)
  show ?thesis
    unfolding resolve_braavos_class_def and_then_eq_Inr unit_all_eq1 braavos_try_with_class_hash_def known
    using allowlist_iff [of h AccountClassKind.Braavos chain_id allow_unlisted] deployed_not_implementation [of h AccountClassKind.Braavos]
    unfolding braavos_known by (cases "h \<in> deployed_hashes X AccountClassKind.Braavos"; cases allow_unlisted) auto
qed

lemma resolve_oz:
  assumes "cs_kind spec = AccountClassKind.OpenZeppelin"
  shows "(\<exists>account. resolve_account_class X spec chain_id = Inr (ResolvedAccountClass.OpenZeppelin account) \<and>
      acl_class_hash (oz_account_class account) = h) \<longleftrightarrow>
    (case cs_class_hash spec of
       Some c \<Rightarrow> h = felthex_to_felt X c \<and> (cs_allow_unlisted_class_hash spec \<or> h \<in> deployed_hashes X AccountClassKind.OpenZeppelin)
     | None \<Rightarrow> cs_source_label spec \<in> {None, Some ''3.0.0''} \<and> h \<in> deployed_hashes X AccountClassKind.OpenZeppelin)"
proof (cases "cs_class_hash spec")
  case (Some c)
  have custom: "acl_class_hash (oz_account_class (oz_from_class_hash h)) = h" for h :: 'f
    by (simp add: oz_account_class_def oz_from_class_hash_def oz_new_def oz_config_custom_def)
  show ?thesis
    unfolding resolve_account_class_def assms Some AccountClassKind.case option.case prod.case and_then_eq_Inr unit_all_eq1
    using allowlist_iff [of "felthex_to_felt X c" AccountClassKind.OpenZeppelin chain_id "cs_allow_unlisted_class_hash spec"]
    unfolding oz_known by (auto simp: custom)
next
  case None
  define hash where "hash = felt_from S (text_value OZ_CLASS_HASH)"
  have manifest: "(\<exists>account. oz_from_manifest X chain_id version = Inr account \<and> acl_class_hash (oz_account_class account) = h) \<longleftrightarrow>
      version = ''3.0.0'' \<and> h = hash" for version
    unfolding hash_def using oz_from_manifest_iff [of chain_id version] by blast
  show ?thesis
    unfolding resolve_account_class_def assms None AccountClassKind.case option.case prod.case oz_deployed hash_def [symmetric] oz_latest_eq
    using manifest by (cases "cs_source_label spec") (simp_all add: result_iffs)
qed

lemma resolve_argent:
  assumes "cs_kind spec = AccountClassKind.Argent"
  shows "resolve_account_class X spec chain_id = Inr (ResolvedAccountClass.Argent account) \<longleftrightarrow>
    cs_source_label spec = None \<and> layout_for_class_hash X (ag_class_hash account) = Some (ag_layout account) \<and>
    ag_class_hash account =
      (case cs_class_hash spec of Some c \<Rightarrow> felthex_to_felt X c | None \<Rightarrow> static_class_hash X ARGENT_CLASS_HASH)"
proof (cases "cs_class_hash spec")
  case (Some c)
  have tried: "argent_try_with_class_hash X h = Inr account \<longleftrightarrow>
      layout_for_class_hash X (ag_class_hash account) = Some (ag_layout account) \<and> ag_class_hash account = h" for h
    by (cases account) (auto simp: argent_try_with_class_hash_def result_iffs with_class_hash_and_layout_def)
  show ?thesis
    unfolding resolve_account_class_def assms Some AccountClassKind.case option.case
    using allowlist_iff [of "felthex_to_felt X c" AccountClassKind.Argent chain_id "cs_allow_unlisted_class_hash spec"]
    unfolding argent_known by (auto simp: result_iffs tried)
next
  case None
  have "(static_class_hash X ARGENT_CLASS_HASH, ''v0.4.0'', SignerWithOptionalGuardian) \<in> set (argent_known_classes X)"
    by (simp add: argent_known_classes_def)
  then have "layout_for_class_hash X (static_class_hash X ARGENT_CLASS_HASH) = Some SignerWithOptionalGuardian"
    unfolding layout_iff by blast
  then show ?thesis
    unfolding resolve_account_class_def assms None AccountClassKind.case option.case
    by (cases account) (auto simp: argent_new_def with_class_hash_and_layout_def)
qed

lemma resolve_braavos:
  assumes "cs_kind spec = AccountClassKind.Braavos"
  shows "resolve_account_class X spec chain_id = Inr (ResolvedAccountClass.Braavos account) \<longleftrightarrow>
    cs_source_label spec = None \<and>
    (case cs_class_hash spec of
       Some c \<Rightarrow> br_class_hash account = felthex_to_felt X c \<and>
         (felthex_to_felt X c \<in> deployed_hashes X AccountClassKind.Braavos \<or>
          cs_allow_unlisted_class_hash spec \<and> \<not> is_implementation_class_hash X (felthex_to_felt X c))
     | None \<Rightarrow> br_class_hash account = braavos_static_class_hash X BRAAVOS_CLASS_HASH)"
  unfolding resolve_account_class_def assms AccountClassKind.case
  by (cases account; cases "cs_class_hash spec")
    (auto simp: result_iffs resolve_braavos_iff braavos_new_def braavos_with_class_hash_def)

lemma resolve_kind:
  "resolve_account_class X spec chain_id = Inr resolved \<Longrightarrow> resolved_kind resolved = cs_kind spec"
  by (cases "cs_kind spec") (auto simp: resolve_account_class_def result_iffs split: if_splits)

lemma braavos_default: "braavos_static_class_hash X BRAAVOS_CLASS_HASH \<in> deployed_hashes X AccountClassKind.Braavos"
  by (simp add: braavos_hashes(1) [symmetric] flip: set_map)
    (simp add: deployment_class_hashes_def class_hashes_with_role_def braavos_known_classes_def known_account_class_def DEPLOYMENT_ONLY_def)

lemma resolvable_deployed:
  assumes "resolvable X spec h" and "\<not> cs_allow_unlisted_class_hash spec"
  shows "h \<in> deployed_hashes X (cs_kind spec)"
  using assms braavos_default layout_deployed
  by (cases "cs_kind spec"; cases "cs_class_hash spec"; force simp: resolvable_def)+

lemma resolvable_implementation:
  assumes "resolvable X spec h" and impl: "is_implementation_class_hash X h"
  shows "cs_kind spec = AccountClassKind.OpenZeppelin \<and> cs_allow_unlisted_class_hash spec"
proof -
  have none: "h \<notin> deployed_hashes X kind" for kind using deployed_not_implementation impl by blast
  then have "cs_allow_unlisted_class_hash spec" using resolvable_deployed [OF assms(1)] by blast
  moreover have "cs_kind spec \<noteq> AccountClassKind.Argent"
  proof
    assume "cs_kind spec = AccountClassKind.Argent"
    then have "layout_for_class_hash X h \<noteq> None"
      using assms(1) by (auto simp only: resolvable_def AccountClassKind.case)
    with layout_deployed none show False by blast
  qed
  moreover have "cs_kind spec \<noteq> AccountClassKind.Braavos"
    using assms none [of AccountClassKind.Braavos] braavos_default by (auto simp: resolvable_def split: option.splits)
  ultimately show ?thesis by (cases "cs_kind spec") auto
qed

lemma resolve_iff:
  "(\<exists>resolved. resolve_account_class X spec chain_id = Inr resolved \<and> acl_class_hash (as_account_class S resolved) = h) \<longleftrightarrow>
     resolvable X spec h"
proof -
  have split: "(\<exists>resolved. P resolved) \<longleftrightarrow>
      (\<exists>a. P (ResolvedAccountClass.OpenZeppelin a)) \<or> (\<exists>a. P (ResolvedAccountClass.Argent a)) \<or> (\<exists>a. P (ResolvedAccountClass.Braavos a))"
    for P :: "'f ResolvedAccountClass \<Rightarrow> bool" by (metis ResolvedAccountClass.exhaust)
  have kind: "resolve_account_class X spec chain_id = Inr resolved \<longleftrightarrow>
      resolved_kind resolved = cs_kind spec \<and> resolve_account_class X spec chain_id = Inr resolved" for resolved
    using resolve_kind by blast
  show ?thesis
  proof (cases "cs_kind spec")
    case OpenZeppelin
    then show ?thesis using resolve_oz [OF OpenZeppelin, of chain_id h]
      unfolding split by (subst (2 3) kind) (simp add: resolvable_def)
  next
    case Argent
    define d where "d = (case cs_class_hash spec of Some c \<Rightarrow> felthex_to_felt X c | None \<Rightarrow> static_class_hash X ARGENT_CLASS_HASH)"
    have "(\<exists>account :: 'f ArgentAccount. layout_for_class_hash X (ag_class_hash account) = Some (ag_layout account) \<and> ag_class_hash account = d \<and>
        ag_class_hash account = h) \<longleftrightarrow> layout_for_class_hash X h \<noteq> None \<and> h = d"
      by (metis ArgentAccount.select_convs(1,2) not_None_eq)
    then show ?thesis
      unfolding split by (subst (1 3) kind) (simp add: Argent resolvable_def resolve_argent [OF Argent] argent_account_class_def flip: d_def)
  next
    case Braavos
    have "(\<exists>account :: 'f BraavosAccount. br_class_hash account = d \<and> Q \<and> br_class_hash account = h) \<longleftrightarrow> h = d \<and> Q" for d Q
      by (metis BraavosAccount.select_convs(1))
    note this this [of _ True, simplified]
    then show ?thesis
      unfolding split by (subst (1 2) kind)
        (simp add: Braavos resolvable_def resolve_braavos [OF Braavos] braavos_account_class_def cong: conj_cong split: option.split)
  qed
qed

end

section \<open>Property\<close>

text \<open>
  C25. Account classes resolve exactly as the registry allows. A request resolves to the class hash it names, or to the
  default of its kind: for OpenZeppelin a hash of the manifest, or any hash with the override; for Argent only a class
  with a known constructor layout; for Braavos a base class, or with the override any class that is not an
  implementation class. So a resolved class is of the kind asked for; without the override accounts of its family are
  deployed with it; and an implementation class of Braavos is resolved only for an OpenZeppelin request that names its
  hash with the override, never for a Braavos or an Argent one.
\<close>

theorem class_resolution_exact:
  assumes "felt_format_laws S X"
  shows "((\<exists>resolved. resolve_account_class X spec chain_id = Inr resolved \<and> acl_class_hash (as_account_class S resolved) = h) \<longleftrightarrow>
      resolvable X spec h) \<and>
    (resolve_account_class X spec chain_id = Inr resolved \<longrightarrow>
      resolved_kind resolved = cs_kind spec \<and>
      (is_implementation_class_hash X (acl_class_hash (as_account_class S resolved)) \<longrightarrow>
        cs_kind spec = AccountClassKind.OpenZeppelin \<and> cs_allow_unlisted_class_hash spec) \<and>
      (\<not> cs_allow_unlisted_class_hash spec \<longrightarrow>
        acl_class_hash (as_account_class S resolved) \<in>
          kc_class_hash ` set (deployment_classes X (kind_family (cs_kind spec)))))"
  using felt_format_laws.resolve_iff [OF assms, of spec chain_id] felt_format_laws.resolve_kind [OF assms, of spec chain_id]
    felt_format_laws.resolvable_deployed [OF assms, of spec] felt_format_laws.resolvable_implementation [OF assms, of spec] by blast

theorem class_resolution_exact_witness:
  "resolve_account_class zformat
     \<lparr>cs_kind = AccountClassKind.Braavos, cs_class_hash = None, cs_source_label = None, cs_allow_unlisted_class_hash = False\<rparr> Sepolia =
     Inr (ResolvedAccountClass.Braavos (braavos_new zformat)) \<and>
   \<not> is_implementation_class_hash zformat (braavos_static_class_hash zformat BRAAVOS_CLASS_HASH)"
proof -
  define spec where "spec = \<lparr>cs_kind = AccountClassKind.Braavos, cs_class_hash = None, cs_source_label = None,
    cs_allow_unlisted_class_hash = False\<rparr>"
  have run: "resolve_account_class zformat spec Sepolia = Inr (ResolvedAccountClass.Braavos (braavos_new zformat))"
    by (simp add: resolve_account_class_def spec_def)
  with class_resolution_exact [OF zfmt.felt_format_laws_axioms, of spec Sepolia _ "ResolvedAccountClass.Braavos (braavos_new zformat)"]
  show ?thesis
    by (simp add: spec_def braavos_new_def braavos_account_class_def braavos_with_class_hash_def)
qed

end
