(* ===== verification/Nostr_Signing.thy ===== *)
theory Nostr_Signing
  imports Prelude
begin

text \<open>
  \<open>crates/kms/src/nostr_signing.rs\<close>: BIP-340 signatures over the Schnorr keys of the \<open>k256\<close> crate, which are a parameter:
  reading a key from its bytes and the bytes of its verifying key, and signing with given auxiliary randomness.
\<close>

record 'k schnorr =
  schnorr_from_slice :: "byte list \<Rightarrow> string + 'k"
  schnorr_verifying_key :: "'k \<Rightarrow> byte list"
  schnorr_sign_raw :: "'k \<Rightarrow> byte list \<Rightarrow> byte list \<Rightarrow> string + byte list"

record NostrSignature =
  ns_public_key :: "byte list"
  ns_signature :: "byte list"

definition parse_signing_key :: "'k schnorr \<Rightarrow> byte list \<Rightarrow> 'k result" where
  "parse_signing_key N private_key =
     map_err (\<lambda>e. InvalidPrivateKey (''Invalid secp256k1 key: '' @ e)) (schnorr_from_slice N private_key)"

definition nostr_public_key :: "'k schnorr \<Rightarrow> byte list \<Rightarrow> byte list result" where
  "nostr_public_key N private_key =
     and_then (parse_signing_key N private_key) (\<lambda>signing_key. Inr (schnorr_verifying_key N signing_key))"

definition sign_nostr_event_id_with_aux_rand ::
    "'k schnorr \<Rightarrow> byte list \<Rightarrow> byte list \<Rightarrow> byte list \<Rightarrow> NostrSignature result" where
  "sign_nostr_event_id_with_aux_rand N private_key event_id aux_rand =
     and_then (parse_signing_key N private_key) (\<lambda>signing_key.
     and_then (map_err (\<lambda>e. CryptoError (''nostr signing failed: '' @ e)) (schnorr_sign_raw N signing_key event_id aux_rand))
       (\<lambda>signature. Inr \<lparr>ns_public_key = schnorr_verifying_key N signing_key, ns_signature = signature\<rparr>))"

definition sign_nostr_event_id :: "'k schnorr \<Rightarrow> byte list \<Rightarrow> byte list \<Rightarrow> NostrSignature result" where
  "sign_nostr_event_id N private_key event_id =
     sign_nostr_event_id_with_aux_rand N private_key event_id (replicate 32 0)"

definition sign_nostr_message :: "'k schnorr \<Rightarrow> byte list \<Rightarrow> byte list \<Rightarrow> NostrSignature result" where
  "sign_nostr_message N private_key message =
     and_then (parse_signing_key N private_key) (\<lambda>signing_key.
     and_then (map_err (\<lambda>e. CryptoError (''nostr signing failed: '' @ e)) (schnorr_sign_raw N signing_key message (replicate 32 0)))
       (\<lambda>signature. Inr \<lparr>ns_public_key = schnorr_verifying_key N signing_key, ns_signature = signature\<rparr>))"

text \<open>A signature carries the public key of the key it was made with, and an event id is signed as a message.\<close>

lemma signature_public_key:
  assumes "sign_nostr_message N private_key message = Inr s"
  shows "nostr_public_key N private_key = Inr (ns_public_key s)"
  using assms by (auto simp: sign_nostr_message_def nostr_public_key_def elim!: and_thenE)

lemma event_id_is_message: "sign_nostr_event_id N private_key event_id = sign_nostr_message N private_key event_id"
  by (simp add: sign_nostr_event_id_def sign_nostr_event_id_with_aux_rand_def sign_nostr_message_def)

end
