(* ===== verification/Hash_Map.thy ===== *)
theory Hash_Map
  imports Main "HOL-Library.AList"
begin

text \<open>
  A \<open>HashMap\<close> of the standard library is the list of its entries, each key once, in the order in which its
  iterators visit them; that order is not specified, and no property depends on it. \<open>get\<close>, \<open>insert\<close> and \<open>remove\<close>
  are \<open>map_of\<close>, \<open>AList.update\<close> and \<open>AList.delete\<close>, and \<open>len\<close> is the length.
\<close>

lemma keys_delete: "fst ` set (AList.delete k al) = fst ` set al - {k}"
  by (auto simp: AList.delete_eq image_iff)

lemma keys_update: "fst ` set (AList.update k v al) = insert k (fst ` set al)"
  by (simp add: AList.dom_update)

lemma length_update:
  "length (AList.update k v al) = (if k \<in> fst ` set al then length al else Suc (length al))"
  by (induction al) auto

lemma map_of_fold_delete: "map_of (fold AList.delete ks al) k = (if k \<in> set ks then None else map_of al k)"
  by (induction ks arbitrary: al) (auto simp: AList.delete_conv)

lemma set_fold_delete: "set (fold AList.delete ks al) = {x \<in> set al. fst x \<notin> set ks}"
  by (induction ks arbitrary: al) (auto simp: AList.delete_eq)

lemma distinct_fold_delete: "distinct (map fst al) \<Longrightarrow> distinct (map fst (fold AList.delete ks al))"
  by (induction ks arbitrary: al) (simp_all add: distinct_delete)

lemma card_set_alist: "distinct (map fst al) \<Longrightarrow> card (set al) = length al"
  by (simp add: distinct_card distinct_map)

lemma set_update:
  assumes "distinct (map fst al)"
  shows "set (AList.update k v al) = insert (k, v) {x \<in> set al. fst x \<noteq> k}"
proof -
  have d: "distinct (map fst (AList.update k v al))" using assms by (rule distinct_update)
  have "(l, w) \<in> set (AList.update k v al) \<longleftrightarrow> (l, w) \<in> insert (k, v) {x \<in> set al. fst x \<noteq> k}" for l w
    using map_of_eq_Some_iff [OF d, of l w] map_of_eq_Some_iff [OF assms, of l w] by (auto simp: update_conv' split: if_splits)
  then show ?thesis by auto
qed

end
