(* ===== verification/Operation_Store.thy ===== *)
theory Operation_Store
  imports Gateway_Domain Hash_Map "HOL-Library.Product_Lexorder"
begin

text \<open>
  \<open>crates/gateway/src/operations.rs\<close> and the retention policy of \<open>types.rs\<close>: the bounded store of operation states.
  The lemmas show that it never exceeds its limit, that an operation just recorded can be looked up, and which entries
  survive: expired operations leave first, then the ones updated longest ago.
\<close>

section \<open>Model\<close>

record OperationRetentionPolicy =
  rp_ttl_ms :: u64
  rp_max_entries :: nat

datatype OperationRetentionError = ZeroTtl | ZeroMaxEntries

definition retention_new :: "u64 \<Rightarrow> nat \<Rightarrow> OperationRetentionError + OperationRetentionPolicy" where
  "retention_new ttl_ms max_entries =
     (if ttl_ms = 0 then Inl ZeroTtl
      else if max_entries = 0 then Inl ZeroMaxEntries
      else Inr \<lparr>rp_ttl_ms = ttl_ms, rp_max_entries = max_entries\<rparr>)"

definition retention_default :: OperationRetentionPolicy where
  "retention_default = \<lparr>rp_ttl_ms = 24 * 60 * 60 * 1000, rp_max_entries = 1024\<rparr>"

record OperationEntry =
  oe_status :: OperationStatus
  oe_updated_at_ms :: u64
  oe_revision :: u64

record OperationStore =
  ops_retention :: OperationRetentionPolicy
  ops_entries :: "(OperationId \<times> OperationEntry) list"
  ops_next_revision :: u64

definition store_new :: "OperationRetentionPolicy \<Rightarrow> OperationStore" where
  "store_new retention = \<lparr>ops_retention = retention, ops_entries = [], ops_next_revision = 1\<rparr>"

text \<open>The first loop of \<open>prune\<close> marks an entry that is too old.\<close>

definition expire :: "u64 \<Rightarrow> u64 \<Rightarrow> OperationEntry \<Rightarrow> OperationEntry" where
  "expire ttl_ms now_ms entry =
     (if os_state (oe_status entry) = Expired then entry
      else if saturating_sub now_ms (oe_updated_at_ms entry) > ttl_ms
      then entry\<lparr>oe_status := (oe_status entry)\<lparr>os_state := Expired\<rparr>\<rparr>
      else entry)"

definition eviction_key :: "OperationEntry \<Rightarrow> bool \<times> u64" where
  "eviction_key entry = (os_state (oe_status entry) \<noteq> Expired, oe_revision entry)"

definition prune :: "OperationStore \<Rightarrow> u64 \<Rightarrow> OperationStore" where
  "prune self now_ms =
     (let ttl_ms = rp_ttl_ms (ops_retention self);
          entries = map (\<lambda>(op_id, entry). (op_id, expire ttl_ms now_ms entry)) (ops_entries self);
          max_entries = rp_max_entries (ops_retention self)
      in if length entries \<le> max_entries then self\<lparr>ops_entries := entries\<rparr>
         else
           let by_age = sort_key (\<lambda>(op_id, entry). eviction_key entry) entries;
               remove_count = length entries - max_entries;
               removed = map fst (take remove_count by_age)
           in self\<lparr>ops_entries := fold AList.delete removed entries\<rparr>)"

definition store_get :: "OperationStore \<Rightarrow> OperationId \<Rightarrow> u64 \<Rightarrow> OperationStatus option \<times> OperationStore" where
  "store_get self op_id now_ms =
     (let self = prune self now_ms in (map_option oe_status (map_of (ops_entries self) op_id), self))"

definition store_insert :: "OperationStore \<Rightarrow> OperationStatus \<Rightarrow> u64 \<Rightarrow> OperationStore" where
  "store_insert self status now_ms =
     (let revision = ops_next_revision self;
          self = self\<lparr>ops_next_revision := saturating_add revision 1\<rparr>;
          self = self\<lparr>ops_entries := AList.update (os_id status)
                   \<lparr>oe_status = status, oe_updated_at_ms = now_ms, oe_revision = revision\<rparr> (ops_entries self)\<rparr>
      in prune self now_ms)"

section \<open>Eviction by rank\<close>

text \<open>
  Which elements of a list are left when the smallest are removed: those with fewer than \<open>m\<close> larger ones. This
  does not depend on the order of the list.
\<close>

lemma sorted_drop_rank:
  fixes ks :: "'k :: linorder list"
  assumes "sorted ks" and "distinct ks" and "m \<le> length ks"
  shows "set (drop (length ks - m) ks) = {k \<in> set ks. card {l \<in> set ks. k < l} < m}"
proof -
  define us vs where "us = take (length ks - m) ks" and "vs = drop (length ks - m) ks"
  have ks: "ks = us @ vs" and len: "length vs = m" using assms(3) by (simp_all add: us_def vs_def)
  have less: "u < v" if "u \<in> set us" "v \<in> set vs" for u v
    using that assms(1,2) unfolding ks by (auto simp: sorted_append order_less_le)
  have card_vs: "card (set vs) = m" using assms(2) len unfolding ks by (simp add: distinct_card)
  have "card {l \<in> set ks. k < l} < m" if "k \<in> set vs" for k
  proof -
    have "{l \<in> set ks. k < l} \<subseteq> set vs - {k}" using less that unfolding ks by (auto dest: less_asym)
    then have "card {l \<in> set ks. k < l} \<le> card (set vs - {k})" by (intro card_mono) simp_all
    also have "\<dots> < card (set vs)" using that by (intro psubset_card_mono) auto
    finally show ?thesis by (simp add: card_vs)
  qed
  moreover have "m \<le> card {l \<in> set ks. k < l}" if "k \<in> set us" for k
  proof -
    have "set vs \<subseteq> {l \<in> set ks. k < l}" using less that unfolding ks by auto
    then show ?thesis using card_mono [of "{l \<in> set ks. k < l}" "set vs"] by (simp add: card_vs)
  qed
  ultimately show ?thesis
    unfolding vs_def [symmetric] using ks by (auto simp: not_less [symmetric])
qed

text \<open>How many entries an entry is evicted before.\<close>

definition outranked :: "(OperationId \<times> OperationEntry) list \<Rightarrow> OperationEntry \<Rightarrow> nat" where
  "outranked entries e = card {x \<in> set entries. eviction_key e < eviction_key (snd x)}"

lemma evict_rank:
  fixes es :: "(OperationId \<times> OperationEntry) list"
  assumes "distinct (map fst es)" and "distinct (map (oe_revision \<circ> snd) es)" and "m \<le> length es"
    and "removed = map fst (take (length es - m) (sort_key (\<lambda>(op_id, entry). eviction_key entry) es))"
  shows "set (fold AList.delete removed es) = {x \<in> set es. outranked es (snd x) < m}"
    and "length (fold AList.delete removed es) = m"
proof -
  define f where "f = (\<lambda>(op_id :: OperationId, entry). eviction_key entry)"
  have f: "f x = eviction_key (snd x)" for x by (simp add: f_def case_prod_beta)
  define by_age where "by_age = sort_key f es"
  have set_by_age: "set by_age = set es" and len: "length by_age = length es" by (simp_all add: by_age_def)
  have inj: "inj_on f (set es)"
    using assms(2) by (auto simp: f eviction_key_def distinct_map inj_on_def)
  have "sorted (map f by_age)" "distinct (map f by_age)"
    using inj assms(1) by (simp_all add: by_age_def distinct_map)
  from sorted_drop_rank [OF this, of m] assms(3) len
  have drop: "f ` set (drop (length es - m) by_age) = {k \<in> f ` set es. card {l \<in> f ` set es. k < l} < m}"
    by (simp add: drop_map set_by_age)
  have rank: "card {l \<in> f ` set es. f x < l} = outranked es (snd x)" for x
  proof -
    have "{l \<in> f ` set es. f x < l} = f ` {y \<in> set es. eviction_key (snd x) < eviction_key (snd y)}" by (auto simp: f)
    moreover have "inj_on f {y \<in> set es. eviction_key (snd x) < eviction_key (snd y)}"
      using inj by (rule inj_on_subset) auto
    ultimately show ?thesis by (simp add: outranked_def card_image)
  qed
  have kept: "x \<in> set (drop (length es - m) by_age) \<longleftrightarrow> outranked es (snd x) < m" if "x \<in> set es" for x
  proof -
    have "x \<in> set (drop (length es - m) by_age) \<longleftrightarrow> f x \<in> f ` set (drop (length es - m) by_age)"
      using inj that set_by_age by (metis imageI inj_on_image_mem_iff set_drop_subset)
    then show ?thesis using that by (auto simp: drop rank)
  qed
  have ids: "distinct (map fst by_age)" using assms(1) by (simp add: by_age_def distinct_map)
  have "fst x \<in> set removed \<longleftrightarrow> x \<notin> set (drop (length es - m) by_age)" if x: "x \<in> set es" for x
  proof -
    have split: "by_age = take (length es - m) by_age @ drop (length es - m) by_age" by simp
    have "distinct (map fst (take (length es - m) by_age) @ map fst (drop (length es - m) by_age))"
      using ids by (metis map_append split)
    moreover have "x \<in> set (take (length es - m) by_age) \<or> x \<in> set (drop (length es - m) by_age)"
      using x set_by_age by (metis Un_iff set_append split)
    ultimately show ?thesis
      unfolding assms(4) f_def [symmetric] by_age_def [symmetric] by (auto simp: disjoint_iff)
  qed
  then show "set (fold AList.delete removed es) = {x \<in> set es. outranked es (snd x) < m}"
    using kept by (auto simp: set_fold_delete)
  have "set (fold AList.delete removed es) = set (drop (length es - m) by_age)"
    using \<open>set (fold AList.delete removed es) = _\<close> kept set_drop_subset [of "length es - m" by_age]
    unfolding set_by_age by blast
  then have "card (set (fold AList.delete removed es)) = m"
    using ids assms(3) len by (simp add: distinct_card distinct_map)
  then show "length (fold AList.delete removed es) = m"
    using card_set_alist [OF distinct_fold_delete [OF assms(1)]] by simp
qed

section \<open>The invariant of the store\<close>

definition entries_ok :: "(OperationId \<times> OperationEntry) list \<Rightarrow> u64 \<Rightarrow> bool" where
  "entries_ok es next_revision \<longleftrightarrow>
     distinct (map fst es) \<and> distinct (map (oe_revision \<circ> snd) es) \<and>
     (\<forall>x \<in> set es. oe_revision (snd x) < next_revision \<and> os_id (oe_status (snd x)) = fst x)"

definition store_ok :: "OperationStore \<Rightarrow> bool" where
  "store_ok st \<longleftrightarrow> entries_ok (ops_entries st) (ops_next_revision st) \<and>
     length (ops_entries st) \<le> rp_max_entries (ops_retention st) \<and> 0 < rp_max_entries (ops_retention st)"

abbreviation expired_entries :: "OperationStore \<Rightarrow> u64 \<Rightarrow> (OperationId \<times> OperationEntry) list" where
  "expired_entries st now \<equiv> map (\<lambda>(op_id, entry). (op_id, expire (rp_ttl_ms (ops_retention st)) now entry)) (ops_entries st)"

lemma expire_keeps [simp]:
  "oe_revision (expire t n e) = oe_revision e" "os_id (oe_status (expire t n e)) = os_id (oe_status e)"
  "oe_updated_at_ms (expire t n e) = oe_updated_at_ms e"
  by (simp_all add: expire_def)

lemma expire_idem [simp]: "expire t n (expire t n e) = expire t n e"
  by (simp add: expire_def)

lemma entries_ok_expire:
  assumes "entries_ok es r"
  shows "entries_ok (map (\<lambda>(op_id, entry). (op_id, expire t n entry)) es) r"
proof -
  have eqs: "map fst (map (\<lambda>(op_id, entry). (op_id, expire t n entry)) es) = map fst es"
    "map (oe_revision \<circ> snd) (map (\<lambda>(op_id, entry). (op_id, expire t n entry)) es) = map (oe_revision \<circ> snd) es"
    by (simp_all add: case_prod_beta)
  show ?thesis using assms unfolding entries_ok_def eqs by (auto simp: case_prod_beta)
qed

lemma entries_ok_subset:
  assumes "entries_ok es r" and "set es' \<subseteq> set es" and "distinct (map fst es')"
  shows "entries_ok es' r"
proof -
  have "inj_on (oe_revision \<circ> snd) (set es')"
    using assms(1,2) by (auto simp: entries_ok_def distinct_map intro: inj_on_subset)
  then show ?thesis using assms by (auto simp: entries_ok_def distinct_map)
qed

text \<open>What is left after \<open>prune\<close>, whatever the order of the entries.\<close>

lemma prune_entries:
  assumes "entries_ok (ops_entries st) r"
  shows "entries_ok (ops_entries (prune st now)) r"
    and "length (ops_entries (prune st now)) = min (length (ops_entries st)) (rp_max_entries (ops_retention st))"
    and "set (ops_entries (prune st now)) =
      {x \<in> set (expired_entries st now). outranked (expired_entries st now) (snd x) < rp_max_entries (ops_retention st)}"
    and "ops_retention (prune st now) = ops_retention st" and "ops_next_revision (prune st now) = ops_next_revision st"
proof -
  define es m where "es = expired_entries st now" and "m = rp_max_entries (ops_retention st)"
  have ok: "entries_ok es r" unfolding es_def by (rule entries_ok_expire [OF assms])
  have len: "length es = length (ops_entries st)" by (simp add: es_def)
  have "entries_ok (ops_entries (prune st now)) r \<and>
    length (ops_entries (prune st now)) = min (length es) m \<and>
    set (ops_entries (prune st now)) = {x \<in> set es. outranked es (snd x) < m}"
  proof (cases "length es \<le> m")
    case True
    have p: "ops_entries (prune st now) = es" using True by (simp add: prune_def Let_def es_def m_def)
    have "outranked es (snd x) < m" if "x \<in> set es" for x
    proof -
      have "{y \<in> set es. eviction_key (snd x) < eviction_key (snd y)} \<subset> set es" using that by auto
      then have "outranked es (snd x) < card (set es)" unfolding outranked_def by (intro psubset_card_mono) auto
      then show ?thesis using True card_length [of es] by simp
    qed
    then show ?thesis using ok True by (auto simp: p min_def)
  next
    case False
    define removed where "removed = map fst (take (length es - m) (sort_key (\<lambda>(op_id, entry). eviction_key entry) es))"
    have p: "ops_entries (prune st now) = fold AList.delete removed es"
      using False by (simp add: prune_def Let_def es_def m_def removed_def)
    have d: "distinct (map fst es)" "distinct (map (oe_revision \<circ> snd) es)" using ok by (simp_all add: entries_ok_def)
    note ev = evict_rank [OF d, of m, OF _ removed_def]
    have "entries_ok (fold AList.delete removed es) r"
      using entries_ok_subset [OF ok] distinct_fold_delete [OF d(1)] by (simp add: set_fold_delete)
    then show ?thesis using ev False by (simp add: p min_def)
  qed
  then show "entries_ok (ops_entries (prune st now)) r"
    "length (ops_entries (prune st now)) = min (length (ops_entries st)) (rp_max_entries (ops_retention st))"
    "set (ops_entries (prune st now)) =
      {x \<in> set (expired_entries st now). outranked (expired_entries st now) (snd x) < rp_max_entries (ops_retention st)}"
    by (simp_all add: len m_def es_def)
qed (simp_all add: prune_def Let_def)

text \<open>The store between the insertion and the pruning of \<open>insert\<close>.\<close>

definition inserted :: "OperationStore \<Rightarrow> OperationStatus \<Rightarrow> u64 \<Rightarrow> OperationStore" where
  "inserted st status now =
     st\<lparr>ops_next_revision := saturating_add (ops_next_revision st) 1,
        ops_entries := AList.update (os_id status)
          \<lparr>oe_status = status, oe_updated_at_ms = now, oe_revision = ops_next_revision st\<rparr> (ops_entries st)\<rparr>"

lemma store_insert_eq: "store_insert st status now = prune (inserted st status now) now"
  by (simp add: store_insert_def inserted_def Let_def)

lemma next_revision_less: "r < - 1 \<Longrightarrow> r < saturating_add r (1 :: u64)"
proof -
  assume "r < - 1"
  then have "unat r < 2 ^ 64 - 1" using unat_max_word [where 'w = 64] by (simp add: word_less_nat_alt)
  then show ?thesis by (simp add: word_less_nat_alt unat_saturating)
qed

lemma entries_ok_inserted:
  assumes "entries_ok (ops_entries st) (ops_next_revision st)" and "ops_next_revision st < - 1"
  shows "entries_ok (ops_entries (inserted st status now)) (ops_next_revision (inserted st status now))"
proof -
  define r es where "r = ops_next_revision st" and "es = ops_entries st"
  define e where "e = \<lparr>oe_status = status, oe_updated_at_ms = now, oe_revision = r\<rparr>"
  have ok: "distinct (map fst es)" "inj_on (oe_revision \<circ> snd) (set es)"
    "\<And>x. x \<in> set es \<Longrightarrow> oe_revision (snd x) < r \<and> os_id (oe_status (snd x)) = fst x"
    using assms(1) by (auto simp: entries_ok_def r_def es_def distinct_map)
  have lt: "r < saturating_add r 1" using next_revision_less assms(2) by (simp add: r_def)
  note set = set_update [OF ok(1), of "os_id status" e]
  have d: "distinct (map fst (AList.update (os_id status) e es))" using ok(1) by (rule distinct_update)
  have "inj_on (oe_revision \<circ> snd) (set (AList.update (os_id status) e es))"
  proof (rule inj_onI)
    fix x y
    assume x: "x \<in> set (AList.update (os_id status) e es)" and y: "y \<in> set (AList.update (os_id status) e es)"
      and eq: "(oe_revision \<circ> snd) x = (oe_revision \<circ> snd) y"
    have "oe_revision (snd z) < r \<and> z \<in> set es \<or> z = (os_id status, e)" if "z \<in> set (AList.update (os_id status) e es)" for z
      using that ok(3) [of z] unfolding set by auto
    from this [OF x] this [OF y] eq show "x = y"
      using inj_onD [OF ok(2), of x y] by (auto simp: e_def)
  qed
  moreover have "oe_revision (snd z) < saturating_add r 1 \<and> os_id (oe_status (snd z)) = fst z"
    if "z \<in> set (AList.update (os_id status) e es)" for z
    using that ok(3) [of z] lt unfolding set by (auto simp: e_def)
  ultimately have "entries_ok (AList.update (os_id status) e es) (saturating_add r 1)"
    using d by (simp add: entries_ok_def distinct_map)
  then show ?thesis by (simp add: inserted_def r_def es_def e_def)
qed

lemma store_ok_new: "0 < rp_max_entries retention \<Longrightarrow> store_ok (store_new retention)"
  by (simp add: store_ok_def store_new_def entries_ok_def)

lemma store_ok_prune: "store_ok st \<Longrightarrow> store_ok (prune st now)"
  using prune_entries [of st "ops_next_revision st" now] by (simp add: store_ok_def)

lemma store_ok_insert:
  assumes "store_ok st" and "ops_next_revision st < - 1"
  shows "store_ok (store_insert st status now)"
proof -
  have "entries_ok (ops_entries (inserted st status now)) (ops_next_revision (inserted st status now))"
    using assms by (simp add: entries_ok_inserted store_ok_def)
  from prune_entries [OF this, of now] assms(1) show ?thesis
    by (simp add: store_ok_def store_insert_eq) (simp add: inserted_def)
qed

lemma map_of_expired: "map_of (expired_entries st now) k = map_option (expire (rp_ttl_ms (ops_retention st)) now) (map_of (ops_entries st) k)"
  by (induction "ops_entries st" arbitrary: st) (auto simp: map_of_map)

lemma not_expired_now: "expire t now \<lparr>oe_status = s, oe_updated_at_ms = now, oe_revision = r\<rparr> =
    \<lparr>oe_status = s, oe_updated_at_ms = now, oe_revision = r\<rparr>"
  by (simp add: expire_def saturating_sub_def)

text \<open>The entry just written survives the pruning: nothing is newer, and it is not expired.\<close>

lemma insert_survives:
  assumes "store_ok st" and "ops_next_revision st < - 1" and "os_state status \<noteq> Expired"
  shows "map_of (ops_entries (store_insert st status now)) (os_id status) =
    Some \<lparr>oe_status = status, oe_updated_at_ms = now, oe_revision = ops_next_revision st\<rparr>"
proof -
  define r where "r = ops_next_revision st"
  define e where "e = \<lparr>oe_status = status, oe_updated_at_ms = now, oe_revision = r\<rparr>"
  define st' where "st' = inserted st status now"
  have ok: "entries_ok (ops_entries st') (ops_next_revision st')"
    using assms by (simp add: st'_def entries_ok_inserted store_ok_def)
  have old: "oe_revision (snd x) < r" if "x \<in> set (ops_entries st)" for x
    using assms(1) that by (auto simp: store_ok_def entries_ok_def r_def)
  have d: "distinct (map fst (ops_entries st))" using assms(1) by (simp add: store_ok_def entries_ok_def)
  have es: "set (ops_entries st') = insert (os_id status, e) {x \<in> set (ops_entries st). fst x \<noteq> os_id status}"
    using set_update [OF d, of "os_id status" e] by (simp add: st'_def inserted_def e_def r_def)
  have "\<not> r < oe_revision (snd x)" if "x \<in> set (expired_entries st' now)" for x
    using that old unfolding set_map es by (auto simp: e_def dest: less_asym)
  then have "\<not> eviction_key e < eviction_key (snd x)" if "x \<in> set (expired_entries st' now)" for x
    using assms(3) that unfolding eviction_key_def e_def less_prod_def' by simp
  then have "{x \<in> set (expired_entries st' now). eviction_key e < eviction_key (snd x)} = {}" by blast
  then have "outranked (expired_entries st' now) e = 0" by (simp add: outranked_def)
  moreover have "(os_id status, e) \<in> set (expired_entries st' now)"
    using not_expired_now by (force simp: es e_def)
  moreover have "0 < rp_max_entries (ops_retention st')" using assms(1) by (simp add: store_ok_def st'_def inserted_def)
  ultimately have "(os_id status, e) \<in> set (ops_entries (prune st' now))"
    unfolding prune_entries(3) [OF ok] by simp
  moreover have "distinct (map fst (ops_entries (prune st' now)))"
    using prune_entries(1) [OF ok] by (simp add: entries_ok_def)
  ultimately show ?thesis by (simp add: store_insert_eq st'_def [symmetric] e_def r_def)
qed

section \<open>Reachable stores\<close>

text \<open>
  Every store a gateway can have after \<open>n\<close> insertions, with lookups in between. The counter of revisions is exact
  as long as it does not saturate.
\<close>

inductive store_reach :: "OperationRetentionPolicy \<Rightarrow> nat \<Rightarrow> OperationStore \<Rightarrow> bool" for retention where
  reach_new: "store_reach retention 0 (store_new retention)"
| reach_get: "store_reach retention n st \<Longrightarrow> store_reach retention n (snd (store_get st op_id now_ms))"
| reach_insert: "store_reach retention n st \<Longrightarrow> store_reach retention (Suc n) (store_insert st status now_ms)"

lemma store_insert_next [simp]:
  "ops_next_revision (store_insert st status now) = saturating_add (ops_next_revision st) 1"
  "ops_retention (store_insert st status now) = ops_retention st"
  by (simp_all add: store_insert_def prune_def Let_def)

lemma store_get_snd [simp]: "snd (store_get st op_id now) = prune st now"
  by (simp add: store_get_def Let_def)

lemma prune_fields [simp]:
  "ops_next_revision (prune st now) = ops_next_revision st" "ops_retention (prune st now) = ops_retention st"
  by (simp_all add: prune_def Let_def)

lemma store_reach_ok:
  assumes "store_reach retention n st" and "n < 2 ^ 64 - 1" and "0 < rp_max_entries retention"
  shows "store_ok st \<and> ops_retention st = retention \<and> unat (ops_next_revision st) = n + 1"
  using assms
proof (induction rule: store_reach.induct)
  case reach_new
  then show ?case by (simp add: store_ok_new) (simp add: store_new_def)
next
  case (reach_get n st op_id now_ms)
  then show ?case by (simp add: store_ok_prune)
next
  case (reach_insert n st status now_ms)
  then have IH: "store_ok st" "ops_retention st = retention" "unat (ops_next_revision st) = n + 1" by simp_all
  have "unat (- 1 :: u64) = 2 ^ 64 - 1" by (simp add: unat_max_word)
  then have "ops_next_revision st < - 1" using IH(3) reach_insert.prems(1) by (simp add: word_less_nat_alt)
  with IH reach_insert.prems show ?case by (simp add: store_ok_insert unat_saturating)
qed

lemma store_get_inserted:
  assumes "store_ok st" and "ops_next_revision st < - 1" and "os_state status \<noteq> Expired"
  shows "fst (store_get (store_insert st status now) (os_id status) now) = Some status"
proof -
  define st' where "st' = store_insert st status now"
  define e where "e = \<lparr>oe_status = status, oe_updated_at_ms = now, oe_revision = ops_next_revision st\<rparr>"
  have ok: "store_ok st'" unfolding st'_def by (rule store_ok_insert [OF assms(1,2)])
  have "map_of (ops_entries st') (os_id status) = Some e" unfolding st'_def e_def by (rule insert_survives [OF assms])
  moreover have "ops_entries (prune st' now) = expired_entries st' now"
    using ok by (simp add: prune_def Let_def store_ok_def)
  ultimately show ?thesis
    by (simp add: store_get_def Let_def st'_def [symmetric] map_of_expired) (simp add: e_def not_expired_now)
qed

lemma evicted_outranked:
  assumes "store_ok st" and "ops_next_revision st < - 1" and "(op_id, e) \<in> set (expired_entries (inserted st status now) now)"
    and "os_state (oe_status e) \<noteq> Expired" and "(op_id, e) \<notin> set (ops_entries (store_insert st status now))"
  shows "rp_max_entries (ops_retention st) \<le>
    card {x \<in> set (expired_entries (inserted st status now) now).
      os_state (oe_status (snd x)) \<noteq> Expired \<and> oe_revision e < oe_revision (snd x)}"
proof -
  define st' where "st' = inserted st status now"
  have ok: "entries_ok (ops_entries st') (ops_next_revision st')"
    using assms by (simp add: st'_def entries_ok_inserted store_ok_def)
  have "rp_max_entries (ops_retention st') \<le> outranked (expired_entries st' now) e"
    using assms(3,5) unfolding store_insert_eq st'_def [symmetric] prune_entries(3) [OF ok] by auto
  moreover have "eviction_key e < eviction_key (snd x) \<longleftrightarrow>
      os_state (oe_status (snd x)) \<noteq> Expired \<and> oe_revision e < oe_revision (snd x)" for x :: "OperationId \<times> OperationEntry"
    using assms(4) by (simp add: eviction_key_def less_prod_def')
  ultimately show ?thesis by (simp add: outranked_def st'_def inserted_def)
qed

section \<open>Properties\<close>

text \<open>
  C20. The store of operations is bounded and does not lose what was just recorded. After any sequence of insertions
  and lookups it holds at most \<open>max_entries\<close> operations, each identifier once; and the state recorded for an operation is
  returned by a lookup at that time, although the insertion evicts other entries. (The revision counter saturates only
  after more insertions than a \<open>u64\<close> can count.)
\<close>

theorem operation_store_sound:
  assumes "store_reach retention n st" and "n < 2 ^ 64 - 2" and "0 < rp_max_entries retention"
    and "os_state status \<noteq> Expired"
  shows "length (ops_entries st) \<le> rp_max_entries retention \<and> distinct (map fst (ops_entries st)) \<and>
    fst (store_get (store_insert st status now) (os_id status) now) = Some status"
proof -
  have ok: "store_ok st" "ops_retention st = retention" "unat (ops_next_revision st) = n + 1"
    using store_reach_ok [OF assms(1) _ assms(3)] assms(2) by simp_all
  have "unat (- 1 :: u64) = 2 ^ 64 - 1" by (simp add: unat_max_word)
  then have "ops_next_revision st < - 1" using ok(3) assms(2) by (simp add: word_less_nat_alt)
  from store_get_inserted [OF ok(1) this assms(4)] ok show ?thesis
    by (simp add: store_ok_def entries_ok_def)
qed

definition op_status :: "string \<Rightarrow> OperationState \<Rightarrow> OperationStatus" where
  "op_status name state = \<lparr>os_id = OperationId name, os_kind = Sign, os_state = state, os_provenance = None\<rparr>"

theorem operation_store_sound_witness:
  "fst (store_get (store_insert
      (store_insert (store_new \<lparr>rp_ttl_ms = 10, rp_max_entries = 1\<rparr>) (op_status ''a'' Queued) 5)
      (op_status ''b'' Running) 6) (OperationId ''b'') 6) = Some (op_status ''b'' Running)"
proof -
  have "store_reach \<lparr>rp_ttl_ms = 10, rp_max_entries = 1\<rparr> (Suc 0)
    (store_insert (store_new \<lparr>rp_ttl_ms = 10, rp_max_entries = 1\<rparr>) (op_status ''a'' Queued) 5)"
    by (intro store_reach.intros)
  from operation_store_sound [OF this, of "op_status ''b'' Running" 6] show ?thesis by (simp add: op_status_def)
qed

text \<open>
  C21. Eviction is fair. An operation that has not expired is evicted by an insertion only when at least
  \<open>max_entries\<close> operations that have not expired either were updated after it.
\<close>

theorem eviction_fair:
  assumes "store_reach retention n st" and "n < 2 ^ 64 - 2" and "0 < rp_max_entries retention"
    and "(op_id, e) \<in> set (expired_entries (inserted st status now) now)" and "os_state (oe_status e) \<noteq> Expired"
    and "(op_id, e) \<notin> set (ops_entries (store_insert st status now))"
  shows "rp_max_entries retention \<le>
    card {x \<in> set (expired_entries (inserted st status now) now).
      os_state (oe_status (snd x)) \<noteq> Expired \<and> oe_revision e < oe_revision (snd x)}"
proof -
  have ok: "store_ok st" "ops_retention st = retention" "unat (ops_next_revision st) = n + 1"
    using store_reach_ok [OF assms(1) _ assms(3)] assms(2) by simp_all
  have "unat (- 1 :: u64) = 2 ^ 64 - 1" by (simp add: unat_max_word)
  then have "ops_next_revision st < - 1" using ok(3) assms(2) by (simp add: word_less_nat_alt)
  from evicted_outranked [OF ok(1) this assms(4-6)] show ?thesis by (simp add: ok(2))
qed

theorem eviction_fair_witness:
  "let st = store_insert (store_new \<lparr>rp_ttl_ms = 10, rp_max_entries = 1\<rparr>) (op_status ''a'' Queued) 5;
       e = \<lparr>oe_status = op_status ''a'' Queued, oe_updated_at_ms = 5, oe_revision = 1\<rparr>
   in (OperationId ''a'', e) \<notin> set (ops_entries (store_insert st (op_status ''b'' Running) 6)) \<and>
      1 \<le> card {x \<in> set (expired_entries (inserted st (op_status ''b'' Running) 6) 6).
        os_state (oe_status (snd x)) \<noteq> Expired \<and> oe_revision e < oe_revision (snd x)}"
proof -
  define st where "st = store_insert (store_new \<lparr>rp_ttl_ms = 10, rp_max_entries = 1\<rparr>) (op_status ''a'' Queued) 5"
  define e where "e = \<lparr>oe_status = op_status ''a'' Queued, oe_updated_at_ms = 5, oe_revision = 1\<rparr>"
  have st: "st = \<lparr>ops_retention = \<lparr>rp_ttl_ms = 10, rp_max_entries = 1\<rparr>, ops_entries = [(OperationId ''a'', e)], ops_next_revision = 2\<rparr>"
    by (simp add: st_def e_def store_insert_def store_new_def prune_def Let_def op_status_def expire_def
        saturating_sub_def saturating_add_def)
  have r: "store_reach \<lparr>rp_ttl_ms = 10, rp_max_entries = 1\<rparr> (Suc 0) st" unfolding st_def by (intro store_reach.intros)
  have mem: "(OperationId ''a'', e) \<in> set (expired_entries (inserted st (op_status ''b'' Running) 6) 6)"
    by (simp add: st inserted_def op_status_def expire_def saturating_sub_def) (simp add: e_def op_status_def)
  have gone: "(OperationId ''a'', e) \<notin> set (ops_entries (store_insert st (op_status ''b'' Running) 6))"
    by (simp add: st e_def store_insert_def prune_def Let_def op_status_def expire_def saturating_sub_def
        saturating_add_def eviction_key_def less_eq_prod_def)
  have "os_state (oe_status e) \<noteq> Expired" by (simp add: e_def op_status_def)
  note fair = eviction_fair [OF r _ _ mem this gone]
  show ?thesis
    unfolding Let_def st_def [symmetric] e_def [symmetric]
    using gone fair by (simp only: OperationRetentionPolicy.select_convs simp_thms) simp
qed

end
