(* ===== verification/Snapshot_Cache.thy ===== *)
theory Snapshot_Cache
  imports Gateway_Domain Hash_Map
begin

text \<open>
  \<open>crates/gateway/src/snapshot_cache.rs\<close> and \<open>store_snapshot\<close> of \<open>snapshot.rs\<close>: the bounded cache of account
  snapshots that all callers share. The lemmas show that the cache is a first-in-first-out buffer whose eviction loop
  always ends, that nothing older than the server's ceilings is served, and that the metadata a caller sees does not
  reveal when an entry was made within its time bucket.
\<close>

section \<open>Time\<close>

definition MAX_SNAPSHOT_TOKENS :: nat where
  "MAX_SNAPSHOT_TOKENS = 16"

definition MAX_SNAPSHOT_TTL_MS :: u64 where
  "MAX_SNAPSHOT_TTL_MS = 60 * 60 * 1000"

definition MAX_SNAPSHOT_STALE_MS :: u64 where
  "MAX_SNAPSHOT_STALE_MS = 24 * 60 * 60 * 1000"

definition SNAPSHOT_TIME_QUANTUM_MS :: u64 where
  "SNAPSHOT_TIME_QUANTUM_MS = 5000"

definition quantize_down :: "u64 \<Rightarrow> u64" where
  "quantize_down value_ms = value_ms - value_ms mod SNAPSHOT_TIME_QUANTUM_MS"

definition quantize_up :: "u64 \<Rightarrow> u64" where
  "quantize_up value_ms =
     (let rem = value_ms mod SNAPSHOT_TIME_QUANTUM_MS
      in if rem = 0 then value_ms else saturating_add value_ms (SNAPSHOT_TIME_QUANTUM_MS - rem))"

definition max_cache_age :: "CachePolicy \<Rightarrow> u64" where
  "max_cache_age policy =
     saturating_add (min (cp_ttl_ms policy) MAX_SNAPSHOT_TTL_MS)
       (min (cp_stale_while_revalidate_ms policy) MAX_SNAPSHOT_STALE_MS)"

section \<open>The cache\<close>

datatype CachedBlockSelector = Latest | Pending | Number u64 | Hash FeltHex

fun cached_block :: "BlockSelector \<Rightarrow> CachedBlockSelector" where
  "cached_block BlockSelector.Latest = CachedBlockSelector.Latest"
| "cached_block BlockSelector.Pending = CachedBlockSelector.Pending"
| "cached_block (BlockSelector.Number number) = CachedBlockSelector.Number number"
| "cached_block (BlockSelector.Hash hash) = CachedBlockSelector.Hash hash"

record CachedTrackedToken =
  ct_symbol :: string
  ct_address :: FeltHex
  ct_decimals :: u8

definition cached_token :: "TrackedToken \<Rightarrow> CachedTrackedToken" where
  "cached_token t = \<lparr>ct_symbol = tt_symbol t, ct_address = tt_address t, ct_decimals = tt_decimals t\<rparr>"

record SnapshotCacheKey =
  ck_chain_id :: ChainId
  ck_address :: FeltHex
  ck_block :: CachedBlockSelector
  ck_tokens :: "CachedTrackedToken list"

definition key_from_request :: "AccountSnapshotRequest \<Rightarrow> SnapshotCacheKey" where
  "key_from_request request =
     \<lparr>ck_chain_id = sr_chain_id request, ck_address = sr_address request, ck_block = cached_block (sr_block request),
      ck_tokens = map cached_token (sr_tokens request)\<rparr>"

record SnapshotCacheEntry =
  ce_generated_at_ms :: u64
  ce_snapshot :: AccountSnapshot

record SnapshotCache =
  sc_entries :: "(SnapshotCacheKey \<times> SnapshotCacheEntry) list"
  sc_order :: "SnapshotCacheKey list"

definition cache_default :: SnapshotCache where
  "cache_default = \<lparr>sc_entries = [], sc_order = []\<rparr>"

definition apply_cache_metadata :: "AccountSnapshot \<Rightarrow> CacheStatus \<Rightarrow> u64 \<Rightarrow> u64 \<Rightarrow> AccountSnapshot" where
  "apply_cache_metadata snapshot status generated_at_ms now_ms =
     (let generated_bucket = quantize_down generated_at_ms
      in snapshot\<lparr>as_cache := \<lparr>cm_status = status, cm_generated_at_ms = generated_bucket,
           cm_age_ms = saturating_sub (quantize_up now_ms) generated_bucket\<rparr>\<rparr>)"

definition cached_snapshot_response ::
    "AccountSnapshotRequest \<Rightarrow> SnapshotCacheEntry option \<Rightarrow> u64 \<Rightarrow> AccountSnapshot option" where
  "cached_snapshot_response request cached now_ms =
     (case cached of
        None \<Rightarrow> None
      | Some entry \<Rightarrow>
          let age_ms = saturating_sub now_ms (ce_generated_at_ms entry)
          in if age_ms \<le> min (cp_ttl_ms (sr_cache_policy request)) MAX_SNAPSHOT_TTL_MS
             then Some (apply_cache_metadata (ce_snapshot entry) Hit (ce_generated_at_ms entry) now_ms)
             else if age_ms \<le> max_cache_age (sr_cache_policy request) \<and> sr_mode request = BackgroundView
             then Some (apply_cache_metadata (ce_snapshot entry) Stale (ce_generated_at_ms entry) now_ms)
             else None)"

definition stale_snapshot_fallback ::
    "AccountSnapshotRequest \<Rightarrow> SnapshotCacheEntry option \<Rightarrow> u64 \<Rightarrow> AccountSnapshot option" where
  "stale_snapshot_fallback request cached now_ms =
     (case cached of
        None \<Rightarrow> None
      | Some entry \<Rightarrow>
          let age_ms = saturating_sub now_ms (ce_generated_at_ms entry)
          in if age_ms \<le> max_cache_age (sr_cache_policy request)
             then Some (apply_cache_metadata (ce_snapshot entry) Stale (ce_generated_at_ms entry) now_ms)
             else None)"

text \<open>
  The eviction loop of \<open>store_snapshot\<close>. An iteration that finds the queue empty changes nothing, so the loop would
  not end; \<open>None\<close> is the outcome of a loop that does not end.
\<close>

partial_function (option) evict_loop :: "nat \<Rightarrow> SnapshotCache \<Rightarrow> SnapshotCache option" where
  "evict_loop max_entries cache =
     (if length (sc_entries cache) > max_entries then
        (case sc_order cache of
           [] \<Rightarrow> evict_loop max_entries cache
         | evicted # order \<Rightarrow>
             evict_loop max_entries (cache\<lparr>sc_order := order, sc_entries := AList.delete evicted (sc_entries cache)\<rparr>))
      else Some cache)"

definition store_snapshot ::
    "SnapshotCache \<Rightarrow> SnapshotCacheKey \<Rightarrow> AccountSnapshot \<Rightarrow> nat \<Rightarrow> u64 \<Rightarrow> SnapshotCache option" where
  "store_snapshot cache key snapshot max_entries generated_at_ms =
     (let cache = (if map_of (sc_entries cache) key = None then cache\<lparr>sc_order := sc_order cache @ [key]\<rparr> else cache);
          cache = cache\<lparr>sc_entries := AList.update key
            \<lparr>ce_generated_at_ms = generated_at_ms, ce_snapshot = snapshot\<rparr> (sc_entries cache)\<rparr>
      in evict_loop max_entries cache)"

section \<open>A first-in-first-out buffer\<close>

text \<open>
  The specification: a list of keys with their entries in the order in which the keys arrived. A new entry for a key
  that is present replaces the old one in place; a new key goes to the end; then entries are dropped from the front.
\<close>

type_synonym fifo = "(SnapshotCacheKey \<times> SnapshotCacheEntry) list"

definition fifo_put :: "SnapshotCacheKey \<Rightarrow> SnapshotCacheEntry \<Rightarrow> fifo \<Rightarrow> fifo" where
  "fifo_put k e q =
     (if k \<in> fst ` set q then map (\<lambda>(l, x). (l, if l = k then e else x)) q else q @ [(k, e)])"

definition fifo_store :: "nat \<Rightarrow> SnapshotCacheKey \<Rightarrow> SnapshotCacheEntry \<Rightarrow> fifo \<Rightarrow> fifo" where
  "fifo_store max_entries k e q = drop (length (fifo_put k e q) - max_entries) (fifo_put k e q)"

text \<open>The invariant: the queue lists every key of the table, once. The abstraction reads the table in that order.\<close>

definition cache_ok :: "SnapshotCache \<Rightarrow> bool" where
  "cache_ok cache \<longleftrightarrow> distinct (map fst (sc_entries cache)) \<and> distinct (sc_order cache) \<and>
     set (sc_order cache) = fst ` set (sc_entries cache)"

definition cache_abs :: "SnapshotCache \<Rightarrow> fifo" where
  "cache_abs cache = map (\<lambda>k. (k, the (map_of (sc_entries cache) k))) (sc_order cache)"

lemma length_cache: "cache_ok cache \<Longrightarrow> length (sc_order cache) = length (sc_entries cache)"
  unfolding cache_ok_def by (metis distinct_card length_map list.set_map)

lemma length_abs [simp]: "length (cache_abs cache) = length (sc_order cache)"
  by (simp add: cache_abs_def)

lemma keys_abs: "map fst (cache_abs cache) = sc_order cache"
  by (simp add: cache_abs_def comp_def)

lemma abs_lookup:
  assumes "cache_ok cache"
  shows "map_of (cache_abs cache) k = map_of (sc_entries cache) k"
proof (cases "k \<in> set (sc_order cache)")
  case True
  then have "map_of (sc_entries cache) k \<noteq> None" using assms by (simp add: cache_ok_def map_of_eq_None_iff)
  moreover have "map_of (cache_abs cache) k = Some (the (map_of (sc_entries cache) k))"
    using True by (simp add: cache_abs_def map_of_map_restrict)
  ultimately show ?thesis by auto
next
  case False
  then have "map_of (sc_entries cache) k = None" using assms by (simp add: cache_ok_def map_of_eq_None_iff)
  moreover have "map_of (cache_abs cache) k = None" using False by (simp add: cache_abs_def map_of_map_restrict)
  ultimately show ?thesis by simp
qed

lemma evict_loop_fifo:
  assumes "cache_ok cache"
  shows "\<exists>cache'. evict_loop m cache = Some cache' \<and> cache_ok cache' \<and>
    cache_abs cache' = drop (length (sc_entries cache) - m) (cache_abs cache)"
  using assms
proof (induction "sc_order cache" arbitrary: cache)
  case Nil
  then have "sc_entries cache = []" using length_cache by fastforce
  then show ?case using Nil by (subst evict_loop.simps) simp
next
  case (Cons k ks)
  show ?case
  proof (cases "length (sc_entries cache) > m")
    case True
    define cache' where "cache' = cache\<lparr>sc_order := ks, sc_entries := AList.delete k (sc_entries cache)\<rparr>"
    have ok: "cache_ok cache'"
      using Cons.prems Cons.hyps(2) [symmetric] unfolding cache_ok_def cache'_def
      by (auto simp: distinct_delete keys_delete simp del: delete_keys)
    have k: "k \<notin> set ks" using Cons.prems Cons.hyps(2) by (metis cache_ok_def distinct.simps(2))
    have abs: "cache_abs cache = (k, the (map_of (sc_entries cache) k)) # cache_abs cache'"
      using k by (simp add: cache_abs_def cache'_def Cons.hyps(2) [symmetric] delete_conv' )
    have len: "length (sc_entries cache) = Suc (length (sc_entries cache'))"
      using length_cache [OF ok] length_cache [OF Cons.prems] Cons.hyps(2) by (metis cache'_def length_Cons
          SnapshotCache.select_convs(2) SnapshotCache.surjective SnapshotCache.update_convs(1,2))
    have step: "evict_loop m cache = evict_loop m cache'"
      using True by (subst evict_loop.simps) (simp add: Cons.hyps(2) [symmetric] cache'_def)
    have ks: "ks = sc_order cache'" by (simp add: cache'_def)
    show ?thesis
      using Cons.hyps(1) [OF ks ok] True by (simp add: step abs len Suc_diff_le)
  next
    case False
    then show ?thesis using Cons.prems by (subst evict_loop.simps) simp
  qed
qed

text \<open>The cache before the loop, with the new entry in place.\<close>

definition cache_put :: "SnapshotCache \<Rightarrow> SnapshotCacheKey \<Rightarrow> SnapshotCacheEntry \<Rightarrow> SnapshotCache" where
  "cache_put cache key entry =
     \<lparr>sc_entries = AList.update key entry (sc_entries cache),
      sc_order = (if map_of (sc_entries cache) key = None then sc_order cache @ [key] else sc_order cache)\<rparr>"

lemma store_snapshot_eq:
  "store_snapshot cache key snapshot m t =
     evict_loop m (cache_put cache key \<lparr>ce_generated_at_ms = t, ce_snapshot = snapshot\<rparr>)"
  by (cases cache) (auto simp: store_snapshot_def cache_put_def Let_def)

lemma cache_put_fifo:
  assumes "cache_ok cache"
  shows "cache_ok (cache_put cache key entry)"
    and "cache_abs (cache_put cache key entry) = fifo_put key entry (cache_abs cache)"
proof -
  have order: "set (sc_order cache) = fst ` set (sc_entries cache)" "distinct (sc_order cache)"
    and d: "distinct (map fst (sc_entries cache))" using assms by (simp_all add: cache_ok_def)
  have None: "map_of (sc_entries cache) key = None \<longleftrightarrow> key \<notin> set (sc_order cache)"
    by (simp add: map_of_eq_None_iff order)
  show "cache_ok (cache_put cache key entry)"
    using order d None by (auto simp: cache_ok_def cache_put_def distinct_update keys_update)
  have keys: "fst ` set (cache_abs cache) = set (sc_order cache)" by (metis keys_abs list.set_map)
  show "cache_abs (cache_put cache key entry) = fifo_put key entry (cache_abs cache)"
  proof (cases "key \<in> set (sc_order cache)")
    case True
    then show ?thesis
      using None keys by (auto simp: cache_abs_def cache_put_def fifo_put_def update_conv')
  next
    case False
    then show ?thesis
      using None keys by (auto simp: cache_abs_def cache_put_def fifo_put_def update_conv')
  qed
qed

lemma store_snapshot_fifo:
  assumes "cache_ok cache"
  shows "\<exists>cache'. store_snapshot cache key snapshot m t = Some cache' \<and> cache_ok cache' \<and>
    cache_abs cache' = fifo_store m key \<lparr>ce_generated_at_ms = t, ce_snapshot = snapshot\<rparr> (cache_abs cache)"
proof -
  define entry where "entry = \<lparr>ce_generated_at_ms = t, ce_snapshot = snapshot\<rparr>"
  note put = cache_put_fifo [OF assms, of key entry]
  have "length (sc_entries (cache_put cache key entry)) = length (fifo_put key entry (cache_abs cache))"
    using length_cache [OF put(1)] length_abs [of "cache_put cache key entry"] by (simp add: put(2))
  with evict_loop_fifo [OF put(1), of m] show ?thesis
    by (simp add: store_snapshot_eq entry_def [symmetric] put(2) fifo_store_def)
qed

lemma length_fifo_store: "length (fifo_store m k e q) \<le> m"
  by (simp add: fifo_store_def)

text \<open>A sequence of stores, as the gateway makes them one after the other under the lock of the cache.\<close>

fun store_all :: "nat \<Rightarrow> (SnapshotCacheKey \<times> AccountSnapshot \<times> u64) list \<Rightarrow> SnapshotCache \<Rightarrow> SnapshotCache option" where
  "store_all m [] cache = Some cache"
| "store_all m ((key, snapshot, t) # rest) cache =
     Option.bind (store_snapshot cache key snapshot m t) (store_all m rest)"

fun fifo_all :: "nat \<Rightarrow> (SnapshotCacheKey \<times> AccountSnapshot \<times> u64) list \<Rightarrow> fifo \<Rightarrow> fifo" where
  "fifo_all m [] q = q"
| "fifo_all m ((key, snapshot, t) # rest) q =
     fifo_all m rest (fifo_store m key \<lparr>ce_generated_at_ms = t, ce_snapshot = snapshot\<rparr> q)"

lemma store_all_fifo:
  assumes "cache_ok cache"
  shows "\<exists>cache'. store_all m xs cache = Some cache' \<and> cache_ok cache' \<and> cache_abs cache' = fifo_all m xs (cache_abs cache)"
  using assms
proof (induction xs arbitrary: cache)
  case (Cons x xs)
  obtain k s t where x: "x = (k, s, t)" by (cases x)
  obtain c where c: "store_snapshot cache k s m t = Some c" "cache_ok c"
      "cache_abs c = fifo_store m k \<lparr>ce_generated_at_ms = t, ce_snapshot = s\<rparr> (cache_abs cache)"
    using store_snapshot_fifo [OF Cons.prems] by blast
  from Cons.IH [OF c(2)] show ?case by (simp add: x c(1,3))
qed simp

lemma length_fifo_all: "length q \<le> m \<Longrightarrow> length (fifo_all m xs q) \<le> m"
  by (induction m xs q rule: fifo_all.induct) (simp_all add: length_fifo_store)

section \<open>Quantized time\<close>

lemma unat_quantum [simp]: "unat SNAPSHOT_TIME_QUANTUM_MS = 5000"
  by (simp add: SNAPSHOT_TIME_QUANTUM_MS_def)

lemma unat_quantize_down: "unat (quantize_down v) = unat v div 5000 * 5000"
proof -
  have "v mod SNAPSHOT_TIME_QUANTUM_MS \<le> v" by (simp add: word_le_nat_alt unat_mod)
  then have "unat (quantize_down v) = unat v - unat v mod 5000"
    by (simp add: quantize_down_def unat_sub unat_mod)
  then show ?thesis by (simp add: minus_mod_eq_div_mult)
qed

lemma unat_quantize_up: "unat v \<le> unat (quantize_up v) \<and> unat (quantize_up v) < unat v + 5000"
proof (cases "v mod SNAPSHOT_TIME_QUANTUM_MS = 0")
  case False
  have "v mod SNAPSHOT_TIME_QUANTUM_MS \<le> SNAPSHOT_TIME_QUANTUM_MS" by (simp add: word_le_nat_alt unat_mod)
  then have "unat (SNAPSHOT_TIME_QUANTUM_MS - v mod SNAPSHOT_TIME_QUANTUM_MS) = 5000 - unat v mod 5000"
    by (simp add: unat_sub unat_mod)
  moreover have "0 < unat v mod 5000" using False by (simp add: word_unat_eq_iff unat_mod)
  moreover have "unat v mod 5000 < 5000" "unat v < 2 ^ 64" using unsigned_less [of v, where 'a = nat] by simp_all
  moreover have "quantize_up v = saturating_add v (SNAPSHOT_TIME_QUANTUM_MS - v mod SNAPSHOT_TIME_QUANTUM_MS)"
    using False by (simp add: quantize_up_def Let_def)
  ultimately show ?thesis by (simp only: unat_saturating) (simp, linarith)
qed (simp add: quantize_up_def)

lemma exposed_age:
  fixes g now :: u64
  defines "age \<equiv> saturating_sub (quantize_up now) (quantize_down g)"
  shows "unat now - unat g \<le> unat age" and "unat age < (unat now - unat g) + 10000"
proof -
  have g: "unat (quantize_down g) \<le> unat g" "unat g < unat (quantize_down g) + 5000"
    unfolding unat_quantize_down using div_mult_mod_eq [of "unat g" 5000] mod_less_divisor [of 5000 "unat g"] by linarith+
  show "unat now - unat g \<le> unat age" "unat age < (unat now - unat g) + 10000"
    using g unat_quantize_up [of now] unfolding age_def unat_saturating by linarith+
qed

lemma unat_min: "unat (min a b) = min (unat a) (unat b)" for a b :: "'w :: len word"
  by (simp add: min_def word_le_nat_alt)

lemma unat_max_cache_age:
  "unat (max_cache_age p) = min (unat (cp_ttl_ms p)) 3600000 + min (unat (cp_stale_while_revalidate_ms p)) 86400000"
  by (simp add: max_cache_age_def unat_saturating unat_min MAX_SNAPSHOT_TTL_MS_def MAX_SNAPSHOT_STALE_MS_def)

section \<open>A sample snapshot\<close>

definition sample_snapshot :: AccountSnapshot where
  "sample_snapshot = \<lparr>as_address = FeltHex ''0x1'', as_deployment = DeploymentState.Undeployed, as_nonce = None,
     as_balances = [], as_block = \<lparr>sb_selector = BlockSelector.Latest, sb_block_hash = None, sb_block_number = None\<rparr>,
     as_cache = \<lparr>cm_status = Miss, cm_generated_at_ms = 0, cm_age_ms = 0\<rparr>\<rparr>"

definition sample_snapshot_request :: AccountSnapshotRequest where
  "sample_snapshot_request = \<lparr>sr_chain_id = Sepolia, sr_address = FeltHex ''0x1'', sr_tokens = [],
     sr_block = BlockSelector.Latest, sr_mode = BackgroundView,
     sr_cache_policy = \<lparr>cp_ttl_ms = 1000, cp_stale_while_revalidate_ms = 4000\<rparr>\<rparr>"

section \<open>Properties\<close>

text \<open>
  C29. The snapshot cache is a bounded first-in-first-out buffer. After any sequence of stores the eviction loop has
  always ended, the table answers every lookup as the buffer does, the queue lists exactly the keys of the table, and
  there are at most \<open>max_entries\<close> entries.
\<close>

theorem snapshot_cache_fifo:
  "\<exists>cache. store_all max_entries stores cache_default = Some cache \<and>
     map_of (sc_entries cache) = map_of (fifo_all max_entries stores []) \<and>
     sc_order cache = map fst (fifo_all max_entries stores []) \<and> length (sc_entries cache) \<le> max_entries"
proof -
  have "cache_ok cache_default" "cache_abs cache_default = []"
    by (simp_all add: cache_ok_def cache_default_def cache_abs_def)
  with store_all_fifo [of cache_default max_entries stores] obtain cache where
    c: "store_all max_entries stores cache_default = Some cache" "cache_ok cache" "cache_abs cache = fifo_all max_entries stores []"
    by auto
  have "length (sc_entries cache) \<le> max_entries"
    using length_cache [OF c(2)] length_abs [of cache] length_fifo_all [of "[]" max_entries stores] by (simp add: c(3))
  then show ?thesis using c abs_lookup [OF c(2)] keys_abs [of cache] by (auto simp: c(3))
qed

text \<open>
  The metadata of a shared snapshot tells a caller nothing about when another caller caused it within a time
  bucket: two generation times in the same bucket of five seconds are indistinguishable at every moment. Still the age
  shown is never below the true age, and exceeds it by less than two buckets.
\<close>

theorem exposed_metadata:
  "(unat g div 5000 = unat g' div 5000 \<longrightarrow>
      apply_cache_metadata snapshot status g now = apply_cache_metadata snapshot status g' now) \<and>
   (let age = cm_age_ms (as_cache (apply_cache_metadata snapshot status g now))
    in unat now - unat g \<le> unat age \<and> unat age < (unat now - unat g) + 10000)"
proof -
  have "quantize_down g = quantize_down g'" if "unat g div 5000 = unat g' div 5000"
    using that by (simp add: word_unat_eq_iff unat_quantize_down)
  then show ?thesis
    using exposed_age [of now g] by (simp add: apply_cache_metadata_def Let_def)
qed

theorem exposed_metadata_witness:
  "apply_cache_metadata sample_snapshot Hit 5001 12345 = apply_cache_metadata sample_snapshot Hit 9999 12345"
  using exposed_metadata [of 5001 9999 sample_snapshot Hit 12345] by simp

text \<open>
  C30. What is served from the cache is fresh enough. A response marked as a hit is at most as old as the caller's
  time to live and at most one hour, whatever the caller asked for; a stale one is within the caller's two windows and
  at most twenty-five hours; and apart from the metadata it is the stored snapshot.
\<close>

theorem served_snapshot_fresh:
  assumes "cached_snapshot_response request (Some entry) now = Some snapshot \<or>
    stale_snapshot_fallback request (Some entry) now = Some snapshot"
  defines "age \<equiv> unat now - unat (ce_generated_at_ms entry)"
  shows "age \<le> unat (cp_ttl_ms (sr_cache_policy request)) + unat (cp_stale_while_revalidate_ms (sr_cache_policy request)) \<and>
    age \<le> 90000000 \<and>
    (cm_status (as_cache snapshot) = Hit \<longrightarrow> age \<le> unat (cp_ttl_ms (sr_cache_policy request)) \<and> age \<le> 3600000) \<and>
    cm_status (as_cache snapshot) \<noteq> Miss \<and>
    snapshot\<lparr>as_cache := as_cache (ce_snapshot entry)\<rparr> = ce_snapshot entry"
proof -
  define p where "p = sr_cache_policy request"
  define a where "a = saturating_sub now (ce_generated_at_ms entry)"
  have a: "unat a = age" by (simp add: a_def age_def unat_saturating)
  have hit: "a \<le> min (cp_ttl_ms p) MAX_SNAPSHOT_TTL_MS \<longleftrightarrow> age \<le> min (unat (cp_ttl_ms p)) 3600000"
    by (simp add: word_le_nat_alt unat_min a MAX_SNAPSHOT_TTL_MS_def)
  have stale: "a \<le> max_cache_age p \<longleftrightarrow>
      age \<le> min (unat (cp_ttl_ms p)) 3600000 + min (unat (cp_stale_while_revalidate_ms p)) 86400000"
    by (simp add: word_le_nat_alt unat_max_cache_age a)
  obtain status where s: "snapshot = apply_cache_metadata (ce_snapshot entry) status (ce_generated_at_ms entry) now"
    and v: "status = Hit \<and> a \<le> min (cp_ttl_ms p) MAX_SNAPSHOT_TTL_MS \<or> status = Stale \<and> a \<le> max_cache_age p"
    using assms(1)
    by (auto simp: cached_snapshot_response_def stale_snapshot_fallback_def Let_def p_def a_def split: if_splits)
  have "snapshot\<lparr>as_cache := as_cache (ce_snapshot entry)\<rparr> = ce_snapshot entry" "cm_status (as_cache snapshot) = status"
    by (simp_all add: s apply_cache_metadata_def Let_def)
  moreover have "age \<le> min (unat (cp_ttl_ms p)) 3600000 + min (unat (cp_stale_while_revalidate_ms p)) 86400000"
    using v unfolding hit stale by linarith
  moreover have "age \<le> min (unat (cp_ttl_ms p)) 3600000" if "status = Hit"
    using v that unfolding hit by simp
  moreover have "status \<noteq> Miss" using v by auto
  ultimately show ?thesis by (auto simp: p_def [symmetric])
qed

theorem served_snapshot_fresh_witness:
  "\<exists>snapshot. cached_snapshot_response sample_snapshot_request
      (Some \<lparr>ce_generated_at_ms = 20000, ce_snapshot = sample_snapshot\<rparr>) 22500 = Some snapshot \<and>
    cm_status (as_cache snapshot) = Stale \<and> snapshot\<lparr>as_cache := as_cache sample_snapshot\<rparr> = sample_snapshot"
proof -
  define e where "e = \<lparr>ce_generated_at_ms = 20000, ce_snapshot = sample_snapshot\<rparr>"
  have r: "cached_snapshot_response sample_snapshot_request (Some e) 22500 =
      Some (apply_cache_metadata sample_snapshot Stale 20000 22500)"
    by (simp add: cached_snapshot_response_def sample_snapshot_request_def e_def saturating_sub_def max_cache_age_def
        MAX_SNAPSHOT_TTL_MS_def MAX_SNAPSHOT_STALE_MS_def saturating_add_def min_def)
  have "cm_status (as_cache (apply_cache_metadata sample_snapshot Stale 20000 22500)) = Stale"
    by (simp add: apply_cache_metadata_def Let_def)
  with served_snapshot_fresh [OF disjI1 [OF r]] r show ?thesis by (auto simp: e_def)
qed

end
