(* ===== verification/Gateway_Flow.thy ===== *)
theory Gateway_Flow
  imports Gateway_Class Nostr_Signing Operation_Store Snapshot_Cache
begin

text \<open>
  The request flows of \<open>crates/gateway/src\<close>: \<open>gateway.rs\<close>, \<open>accounts.rs\<close>, \<open>signing.rs\<close> and \<open>snapshot.rs\<close>. Between two
  awaits a request runs alone; at each await it asks something of the world outside: the clock, the entropy source, the
  locked operation store and snapshot cache, the secret resolver, the backend. A flow is the tree of these questions with
  a continuation for every answer, so that several requests can be interleaved at their awaits, and nothing is assumed
  of the answers.
\<close>

section \<open>Flows\<close>

datatype DeployExecution = AlreadyDeployed | Submitted FeltHex | Accepted FeltHex

text \<open>
  \<open>Hang\<close> is a computation between two awaits that does not return; only the retry loop of \<open>sign_stark_hash\<close> can do that.
\<close>

datatype ('f, 'a) flow =
    Done 'a
  | Hang
  | NowMs "u64 \<Rightarrow> ('f, 'a) flow"
  | TryRandomBytes nat "string + byte list \<Rightarrow> ('f, 'a) flow"
  | InsertOperation OperationStatus u64 "('f, 'a) flow"
  | GetOperation OperationId u64 "OperationStatus option \<Rightarrow> ('f, 'a) flow"
  | ReadCache SnapshotCacheKey "SnapshotCacheEntry option \<Rightarrow> ('f, 'a) flow"
  | StoreSnapshot SnapshotCacheKey AccountSnapshot u64 "('f, 'a) flow"
  | ResolvePrivateKey SecretRef KeyDomain DerivationPath "'f gateway_result \<Rightarrow> ('f, 'a) flow"
  | ResolveNostrPrivateKey SecretRef DerivationPath "byte list gateway_result \<Rightarrow> ('f, 'a) flow"
  | CheckDeployed FeltHex BlockSelector "bool gateway_result \<Rightarrow> ('f, 'a) flow"
  | DeployOpenZeppelin 'f AccountDescriptor DeployMode "DeployExecution gateway_result \<Rightarrow> ('f, 'a) flow"
  | Nonce FeltHex BlockSelector "FeltHex gateway_result \<Rightarrow> ('f, 'a) flow"
  | TokenBalance FeltHex TrackedToken BlockSelector "string gateway_result \<Rightarrow> ('f, 'a) flow"
  | BlockMetadata BlockSelector "SnapshotBlockMetadata gateway_result \<Rightarrow> ('f, 'a) flow"

text \<open>Running one flow and then another on its result.\<close>

primrec bind_flow :: "('f, 'a) flow \<Rightarrow> ('a \<Rightarrow> ('f, 'b) flow) \<Rightarrow> ('f, 'b) flow" where
  "bind_flow (Done a) g = g a"
| "bind_flow Hang g = Hang"
| "bind_flow (NowMs k) g = NowMs (\<lambda>x. bind_flow (k x) g)"
| "bind_flow (TryRandomBytes n k) g = TryRandomBytes n (\<lambda>x. bind_flow (k x) g)"
| "bind_flow (InsertOperation status now f) g = InsertOperation status now (bind_flow f g)"
| "bind_flow (GetOperation op now k) g = GetOperation op now (\<lambda>x. bind_flow (k x) g)"
| "bind_flow (ReadCache key k) g = ReadCache key (\<lambda>x. bind_flow (k x) g)"
| "bind_flow (StoreSnapshot key snapshot t f) g = StoreSnapshot key snapshot t (bind_flow f g)"
| "bind_flow (ResolvePrivateKey secret domain path k) g = ResolvePrivateKey secret domain path (\<lambda>x. bind_flow (k x) g)"
| "bind_flow (ResolveNostrPrivateKey secret path k) g = ResolveNostrPrivateKey secret path (\<lambda>x. bind_flow (k x) g)"
| "bind_flow (CheckDeployed address block k) g = CheckDeployed address block (\<lambda>x. bind_flow (k x) g)"
| "bind_flow (DeployOpenZeppelin key account mode k) g = DeployOpenZeppelin key account mode (\<lambda>x. bind_flow (k x) g)"
| "bind_flow (Nonce address block k) g = Nonce address block (\<lambda>x. bind_flow (k x) g)"
| "bind_flow (TokenBalance address token block k) g = TokenBalance address token block (\<lambda>x. bind_flow (k x) g)"
| "bind_flow (BlockMetadata block k) g = BlockMetadata block (\<lambda>x. bind_flow (k x) g)"

text \<open>The question mark operator on a flow that returns a result.\<close>

abbreviation try_flow ::
    "('f, 'e + 'a) flow \<Rightarrow> ('a \<Rightarrow> ('f, 'e + 'b) flow) \<Rightarrow> ('f, 'e + 'b) flow" where
  "try_flow f g \<equiv> bind_flow f (\<lambda>r. case r of Inl e \<Rightarrow> Done (Inl e) | Inr a \<Rightarrow> g a)"

section \<open>The gateway\<close>

abbreviation MAX_WAIT_TIMEOUT_MS :: u64 where
  "MAX_WAIT_TIMEOUT_MS \<equiv> 15 * 60 * 1000"

abbreviation MIN_WAIT_POLL_INTERVAL_MS :: u64 where
  "MIN_WAIT_POLL_INTERVAL_MS \<equiv> 250"

abbreviation DEFAULT_SNAPSHOT_CACHE_MAX_ENTRIES :: nat where
  "DEFAULT_SNAPSHOT_CACHE_MAX_ENTRIES \<equiv> 256"

record 'v GatewayResponse =
  gr_operation :: OperationStatus
  gr_value :: 'v

datatype OperationLookupResult = Found OperationStatus | NotFound OperationId

definition operation_status :: "OperationId \<Rightarrow> ('f, OperationLookupResult) flow" where
  "operation_status op =
     NowMs (\<lambda>now_ms. GetOperation op now_ms (\<lambda>r.
       Done (case r of Some operation \<Rightarrow> Found operation | None \<Rightarrow> OperationLookupResult.NotFound op)))"

definition ensure_chain_matches :: "ChainId \<Rightarrow> ChainId \<Rightarrow> unit gateway_result" where
  "ensure_chain_matches backend_chain_id chain_id =
     (if chain_id \<noteq> backend_chain_id
      then Inl (gateway_error ChainMismatch False
             (Some (''request targets '' @ chain_name chain_id @ '', gateway backend is configured for '' @
                chain_name backend_chain_id)))
      else Inr ())"

definition derive_public_key ::
    "('f, 'p, 'a, 'r) starknet \<Rightarrow> 'f felt_format \<Rightarrow> 'f stark_crypto \<Rightarrow> 'f \<Rightarrow> 'f gateway_result" where
  "derive_public_key S X K private_key = map_err map_kms_error (stark_public_key S X K private_key)"

text \<open>The part of \<open>derive_account_descriptor\<close> after the key is resolved.\<close>

definition build_descriptor ::
    "('f, 'p, 'a, 'r) starknet \<Rightarrow> 'f felt_format \<Rightarrow> 'f stark_crypto \<Rightarrow> DerivationRequest \<Rightarrow> 'f \<Rightarrow>
     ('f \<times> AccountDescriptor) gateway_result" where
  "build_descriptor S X K request private_key =
     and_then (derive_public_key S X K private_key) (\<lambda>public_key.
     and_then (resolve_account_class X (dr_account_class request) (dr_chain_id request)) (\<lambda>account_class.
       let salt_policy = to_salt_policy X (dr_salt_policy request);
           salt = salt_resolve S salt_policy public_key;
           class_hash = acl_class_hash (as_account_class S account_class);
           constructor_calldata = acl_build_constructor_calldata (as_account_class S account_class) public_key
       in and_then (map_err map_kms_error (calculate_address S K (as_account_class S account_class) public_key salt_policy))
            (\<lambda>address.
              let descriptor =
                    \<lparr>ac_address = felthex_from_felt X address,
                     ac_public_key = felthex_from_felt X public_key,
                     ac_class_hash = felthex_from_felt X class_hash,
                     ac_salt = felthex_from_felt X salt,
                     ac_constructor_calldata = map (felthex_from_felt X) constructor_calldata,
                     ac_deployer_address = felthex_from_felt X (felt_zero S),
                     ac_provenance =
                       \<lparr>pv_chain_id = dr_chain_id request, pv_key_domain = dr_key_domain request,
                        pv_derivation_path = dr_path request, pv_class_hash = Some (felthex_from_felt X class_hash)\<rparr>\<rparr>
              in Inr (private_key, descriptor))))"

definition derive_account_descriptor ::
    "('f, 'p, 'a, 'r) starknet \<Rightarrow> 'f felt_format \<Rightarrow> 'f stark_crypto \<Rightarrow> ChainId \<Rightarrow> DerivationRequest \<Rightarrow>
     ('f, ('f \<times> AccountDescriptor) gateway_result) flow" where
  "derive_account_descriptor S X K chain request =
     (case ensure_chain_matches chain (dr_chain_id request) of
        Inl e \<Rightarrow> Done (Inl e)
      | Inr _ \<Rightarrow>
          case map_err map_domain_error (derivation_validate request) of
            Inl e \<Rightarrow> Done (Inl e)
          | Inr _ \<Rightarrow>
              if dr_key_domain request \<noteq> KeyDomain.StarknetAccount
              then Done (Inl (gateway_error UnsupportedKeyDomain False
                     (Some (''derive/check/deploy gateway flows currently require '' @
                        show_key_domain KeyDomain.StarknetAccount @ '', got '' @ show_key_domain (dr_key_domain request)))))
              else
                ResolvePrivateKey (dr_secret request) (dr_key_domain request) (dr_path request) (\<lambda>r.
                  case r of
                    Inl e \<Rightarrow> Done (Inl e)
                  | Inr private_key \<Rightarrow> Done (build_descriptor S X K request private_key)))"

definition validate_cache_policy :: "CachePolicy \<Rightarrow> unit gateway_result" where
  "validate_cache_policy cache_policy =
     (if cp_ttl_ms cache_policy = 0
      then Inl (gateway_error GatewayErrorCode.InvalidCachePolicy False (Some ''cache ttl_ms must be greater than zero''))
      else Inr ())"

fun validate_wait_mode :: "DeployMode \<Rightarrow> unit gateway_result" where
  "validate_wait_mode SubmitOnly = Inr ()"
| "validate_wait_mode (WaitForAcceptance wait) =
     (if wp_poll_interval_ms wait < MIN_WAIT_POLL_INTERVAL_MS
      then Inl (gateway_error GatewayErrorCode.InvalidWaitPolicy False
             (Some ''wait poll_interval_ms must be at least 250''))
      else if wp_poll_interval_ms wait > MAX_WAIT_TIMEOUT_MS
      then Inl (gateway_error GatewayErrorCode.InvalidWaitPolicy False
             (Some ''wait poll_interval_ms must be at most 900000''))
      else if wp_timeout_ms wait = 0
      then Inl (gateway_error GatewayErrorCode.InvalidWaitPolicy False
             (Some ''wait timeout_ms must be greater than zero''))
      else if wp_timeout_ms wait > MAX_WAIT_TIMEOUT_MS
      then Inl (gateway_error GatewayErrorCode.InvalidWaitPolicy False
             (Some ''wait timeout_ms must be at most 900000''))
      else Inr ())"

fun operation_prefix :: "OperationKind \<Rightarrow> string" where
  "operation_prefix OperationKind.DeriveAccount = ''derive''"
| "operation_prefix OperationKind.CheckDeployment = ''check''"
| "operation_prefix OperationKind.DeployAccount = ''deploy''"
| "operation_prefix OperationKind.Sign = ''sign''"
| "operation_prefix OperationKind.QueryAccountSnapshot = ''snapshot''"

fun show_domain_error :: "DomainError \<Rightarrow> string" where
  "show_domain_error (InvalidFeltHex message) = ''invalid felt hex: '' @ message"
| "show_domain_error (InvalidHexBytes message) = ''invalid hex bytes: '' @ message"
| "show_domain_error (EmptyField field) = ''invalid '' @ field @ '': value must not be empty''"
| "show_domain_error (DomainError.InvalidDerivationPath message) = ''invalid derivation path: '' @ message"
| "show_domain_error (DomainError.InvalidCachePolicy message) = ''invalid cache policy: '' @ message"
| "show_domain_error (DomainError.InvalidWaitPolicy message) = ''invalid wait policy: '' @ message"
| "show_domain_error (InvalidSignRequest message) = ''invalid sign request: '' @ message"
| "show_domain_error (InvalidSecretRef message) = ''invalid secret_ref: '' @ message"

definition begin_operation :: "'f felt_format \<Rightarrow> OperationKind \<Rightarrow> ('f, OperationStatus gateway_result) flow" where
  "begin_operation X kind =
     TryRandomBytes 16 (\<lambda>r.
       case r of
         Inl error \<Rightarrow> Done (Inl (gateway_error Internal True (Some (''OS entropy source unavailable: '' @ error))))
       | Inr entropy \<Rightarrow>
           case operation_id_new (operation_prefix kind @ ''-'' @ hex_encode X entropy) of
             Inl error \<Rightarrow>
               Done (Inl (gateway_error Internal False (Some (''failed to generate operation id: '' @ show_domain_error error))))
           | Inr op \<Rightarrow>
               let status = \<lparr>os_id = op, os_kind = kind, os_state = Queued, os_provenance = None\<rparr>
               in NowMs (\<lambda>now_ms. InsertOperation status now_ms (Done (Inr status))))"

definition set_operation ::
    "OperationId \<Rightarrow> OperationKind \<Rightarrow> OperationState \<Rightarrow> Provenance option \<Rightarrow> ('f, OperationStatus) flow" where
  "set_operation op kind state provenance =
     (let status = \<lparr>os_id = op, os_kind = kind, os_state = state, os_provenance = provenance\<rparr>
      in NowMs (\<lambda>now_ms. InsertOperation status now_ms (Done status)))"

definition reject_operation :: "OperationStatus \<Rightarrow> GatewayError \<Rightarrow> Provenance option \<Rightarrow> ('f, unit) flow" where
  "reject_operation queued error provenance =
     bind_flow (set_operation (os_id queued) (os_kind queued) (OperationState.Rejected error) provenance) (\<lambda>_. Done ())"

text \<open>The two ways a handler ends: it records the outcome and returns it.\<close>

abbreviation complete_flow ::
    "OperationStatus \<Rightarrow> OperationState \<Rightarrow> Provenance option \<Rightarrow> 'v \<Rightarrow> ('f, 'v GatewayResponse gateway_result) flow" where
  "complete_flow queued state provenance v \<equiv>
     bind_flow (set_operation (os_id queued) (os_kind queued) state provenance)
       (\<lambda>status. Done (Inr \<lparr>gr_operation = status, gr_value = v\<rparr>))"

abbreviation reject_flow ::
    "OperationStatus \<Rightarrow> GatewayError \<Rightarrow> Provenance option \<Rightarrow> ('f, 'v GatewayResponse gateway_result) flow" where
  "reject_flow queued error provenance \<equiv> bind_flow (reject_operation queued error provenance) (\<lambda>_. Done (Inl error))"

section \<open>Accounts\<close>

definition derive_account ::
    "('f, 'p, 'a, 'r) starknet \<Rightarrow> 'f felt_format \<Rightarrow> 'f stark_crypto \<Rightarrow> ChainId \<Rightarrow> DerivationRequest \<Rightarrow>
     ('f, AccountDescriptor GatewayResponse gateway_result) flow" where
  "derive_account S X K chain request =
     try_flow (begin_operation X OperationKind.DeriveAccount) (\<lambda>queued.
     bind_flow (set_operation (os_id queued) (os_kind queued) Running None) (\<lambda>_.
     bind_flow (derive_account_descriptor S X K chain request) (\<lambda>r.
       case r of
         Inr (_, account) \<Rightarrow> complete_flow queued Completed (Some (ac_provenance account)) account
       | Inl error \<Rightarrow> reject_flow queued error None)))"

definition check_deployment ::
    "('f, 'p, 'a, 'r) starknet \<Rightarrow> 'f felt_format \<Rightarrow> 'f stark_crypto \<Rightarrow> ChainId \<Rightarrow> DerivationRequest \<Rightarrow>
     ('f, CheckDeploymentResult GatewayResponse gateway_result) flow" where
  "check_deployment S X K chain request =
     try_flow (begin_operation X OperationKind.CheckDeployment) (\<lambda>queued.
     bind_flow (set_operation (os_id queued) (os_kind queued) Running None) (\<lambda>_.
     bind_flow (derive_account_descriptor S X K chain request) (\<lambda>r.
       case r of
         Inr (_, account) \<Rightarrow>
           CheckDeployed (ac_address account) BlockSelector.Latest (\<lambda>r.
             case r of
               Inr True \<Rightarrow>
                 complete_flow queued Completed (Some (ac_provenance account))
                   \<lparr>cd_account = account, cd_deployment = DeploymentState.Deployed\<rparr>
             | Inr False \<Rightarrow>
                 complete_flow queued Completed (Some (ac_provenance account))
                   \<lparr>cd_account = account, cd_deployment = DeploymentState.Undeployed\<rparr>
             | Inl error \<Rightarrow> reject_flow queued error (Some (ac_provenance account)))
       | Inl error \<Rightarrow> reject_flow queued error None)))"

definition deploy_account ::
    "('f, 'p, 'a, 'r) starknet \<Rightarrow> 'f felt_format \<Rightarrow> 'f stark_crypto \<Rightarrow> ChainId \<Rightarrow> DeployAccountRequest \<Rightarrow>
     ('f, DeployAccountResult GatewayResponse gateway_result) flow" where
  "deploy_account S X K chain request =
     try_flow (begin_operation X OperationKind.DeployAccount) (\<lambda>queued.
     bind_flow (set_operation (os_id queued) (os_kind queued) Running None) (\<lambda>_.
       case validate_wait_mode (da_mode request) of
         Inl error \<Rightarrow> reject_flow queued error None
       | Inr _ \<Rightarrow>
     bind_flow (derive_account_descriptor S X K chain (da_derivation request)) (\<lambda>r.
       case r of
         Inr (private_key, account) \<Rightarrow>
           if cs_kind (dr_account_class (da_derivation request)) \<noteq> AccountClassKind.OpenZeppelin
           then
             let error = gateway_error UnsupportedAccountClass False
                   (Some ''deploy_account currently supports OpenZeppelin accounts only'')
             in reject_flow queued error (Some (ac_provenance account))
           else
             DeployOpenZeppelin private_key account (da_mode request) (\<lambda>r.
               case r of
                 Inr DeployExecution.AlreadyDeployed \<Rightarrow>
                   complete_flow queued Completed (Some (ac_provenance account))
                     \<lparr>dar_account = account, dar_deployment = DeploymentState.Deployed, dar_already_deployed = True\<rparr>
               | Inr (DeployExecution.Submitted tx_hash) \<Rightarrow>
                   complete_flow queued (OperationState.Submitted tx_hash) (Some (ac_provenance account))
                     \<lparr>dar_account = account, dar_deployment = Deploying tx_hash, dar_already_deployed = False\<rparr>
               | Inr (DeployExecution.Accepted tx_hash) \<Rightarrow>
                   complete_flow queued (OperationState.Accepted tx_hash) (Some (ac_provenance account))
                     \<lparr>dar_account = account, dar_deployment = DeploymentState.Deployed, dar_already_deployed = False\<rparr>
               | Inl error \<Rightarrow> reject_flow queued error (Some (ac_provenance account)))
       | Inl error \<Rightarrow> reject_flow queued error None)))"

section \<open>Signing\<close>

text \<open>The bytes of a text: characters from 128 on have two bytes in UTF-8.\<close>

definition utf8_bytes :: "string \<Rightarrow> byte list" where
  "utf8_bytes s = concat (map (\<lambda>c. let n = of_char c :: nat in
     if n < 128 then [of_nat n] else [of_nat (192 + n div 64), of_nat (128 + n mod 64)]) s)"

definition sign_provenance :: "SignRequest \<Rightarrow> Provenance option" where
  "sign_provenance request =
     map_option (\<lambda>chain_id. \<lparr>pv_chain_id = chain_id, pv_key_domain = sign_key_domain request,
       pv_derivation_path = sign_derivation_path request, pv_class_hash = None\<rparr>) (sign_chain_id request)"

text \<open>The arm for both Stark requests, and the end of the two arms for Nostr.\<close>

definition sign_stark ::
    "('f, 'p, 'a, 'r) starknet \<Rightarrow> 'f felt_format \<Rightarrow> 'f stark_crypto \<Rightarrow> OperationStatus \<Rightarrow> Provenance option \<Rightarrow> SecretRef \<Rightarrow>
     StarkKeyDomain \<Rightarrow> DerivationPath \<Rightarrow> FeltHex \<Rightarrow> ('f, SignResult GatewayResponse gateway_result) flow" where
  "sign_stark S X K queued provenance secret key_domain derivation_path hash =
     ResolvePrivateKey secret (stark_key_domain key_domain) derivation_path (\<lambda>r.
       case r of
         Inl error \<Rightarrow> reject_flow queued error None
       | Inr private_key \<Rightarrow>
           case sign_stark_hash S X K private_key (felthex_to_felt X hash) of
             None \<Rightarrow> Hang
           | Some (Inr sig) \<Rightarrow>
               complete_flow queued Completed provenance
                 (StarkEcdsa (felthex_from_felt X (sg_public_key sig)) (felthex_from_felt X (sg_r sig))
                   (felthex_from_felt X (sg_s sig)))
           | Some (Inl error) \<Rightarrow> reject_flow queued (map_kms_error error) provenance)"

definition sign_nostr ::
    "'f felt_format \<Rightarrow> OperationStatus \<Rightarrow> NostrSignature result \<Rightarrow> ('f, SignResult GatewayResponse gateway_result) flow" where
  "sign_nostr X queued r =
     (case r of
        Inr sig \<Rightarrow>
          complete_flow queued Completed None
            (NostrBip340 (hexbytes_from_bytes X (ns_public_key sig)) (hexbytes_from_bytes X (ns_signature sig)))
      | Inl error \<Rightarrow> reject_flow queued (map_kms_error error) None)"

definition sign ::
    "('f, 'p, 'a, 'r) starknet \<Rightarrow> 'f felt_format \<Rightarrow> 'f stark_crypto \<Rightarrow> 'k schnorr \<Rightarrow> ChainId \<Rightarrow> SignRequest \<Rightarrow>
     ('f, SignResult GatewayResponse gateway_result) flow" where
  "sign S X K N chain request =
     try_flow (begin_operation X OperationKind.Sign) (\<lambda>queued.
     bind_flow (set_operation (os_id queued) (os_kind queued) Running None) (\<lambda>_.
       case map_err map_domain_error (sign_validate X request) of
         Inl error \<Rightarrow> reject_flow queued error None
       | Inr _ \<Rightarrow>
           case (case sign_chain_id request of Some chain_id \<Rightarrow> ensure_chain_matches chain chain_id | None \<Rightarrow> Inr ()) of
             Inl error \<Rightarrow> reject_flow queued error None
           | Inr _ \<Rightarrow>
               let provenance = sign_provenance request
               in case request of
                    StarkHash secret key_domain derivation_path _ _ hash _ \<Rightarrow>
                      sign_stark S X K queued provenance secret key_domain derivation_path hash
                  | StarkRawMessage secret key_domain derivation_path message _ \<Rightarrow>
                      sign_stark S X K queued provenance secret key_domain derivation_path message
                  | SignRequest.NostrEvent secret derivation_path event_id \<Rightarrow>
                      ResolveNostrPrivateKey secret derivation_path (\<lambda>r.
                        case r of
                          Inl error \<Rightarrow> reject_flow queued error None
                        | Inr private_key \<Rightarrow>
                            case hexbytes_to_array X 32 event_id of
                              Inl error \<Rightarrow> reject_flow queued (map_domain_error error) None
                            | Inr event_id \<Rightarrow> sign_nostr X queued (sign_nostr_event_id N private_key event_id))
                  | NostrRawMessage secret derivation_path payload \<Rightarrow>
                      ResolveNostrPrivateKey secret derivation_path (\<lambda>r.
                        case r of
                          Inl error \<Rightarrow> reject_flow queued error None
                        | Inr private_key \<Rightarrow>
                            let message = (case payload of Utf8 s \<Rightarrow> utf8_bytes s | Hex bytes \<Rightarrow> hexbytes_to_vec X bytes)
                            in sign_nostr X queued (sign_nostr_message N private_key message))))"

section \<open>Snapshots\<close>

text \<open>The loop over the tracked tokens.\<close>

fun fetch_balances ::
    "AccountSnapshotRequest \<Rightarrow> TrackedToken list \<Rightarrow> TokenBalanceSnapshot list \<Rightarrow>
     ('f, TokenBalanceSnapshot list gateway_result) flow" where
  "fetch_balances request [] balances = Done (Inr balances)"
| "fetch_balances request (token # tokens) balances =
     TokenBalance (sr_address request) token (sr_block request) (\<lambda>r.
       case r of
         Inl e \<Rightarrow> Done (Inl e)
       | Inr amount_raw \<Rightarrow>
           fetch_balances request tokens (balances @ [\<lparr>tb_token = token, tb_amount_raw = amount_raw\<rparr>]))"

definition fetch_snapshot :: "AccountSnapshotRequest \<Rightarrow> u64 \<Rightarrow> ('f, AccountSnapshot gateway_result) flow" where
  "fetch_snapshot request generated_at_ms =
     CheckDeployed (sr_address request) (sr_block request) (\<lambda>r.
       case r of
         Inl e \<Rightarrow> Done (Inl e)
       | Inr deployed \<Rightarrow>
     try_flow (if deployed then Nonce (sr_address request) (sr_block request) (\<lambda>r. Done (map_sum id Some r)) else Done (Inr None))
       (\<lambda>nonce.
     try_flow (fetch_balances request (sr_tokens request) []) (\<lambda>balances.
     BlockMetadata (sr_block request) (\<lambda>r.
       let block = (case r of
             Inr block \<Rightarrow> block
           | Inl _ \<Rightarrow> \<lparr>sb_selector = sr_block request, sb_block_hash = None, sb_block_number = None\<rparr>)
       in Done (Inr
            \<lparr>as_address = sr_address request,
             as_deployment = (if deployed then DeploymentState.Deployed else DeploymentState.Undeployed),
             as_nonce = nonce, as_balances = balances, as_block = block,
             as_cache = \<lparr>cm_status = Miss, cm_generated_at_ms = quantize_down generated_at_ms, cm_age_ms = 0\<rparr>\<rparr>)))))"

definition refresh_snapshot ::
    "OperationStatus \<Rightarrow> AccountSnapshotRequest \<Rightarrow> SnapshotCacheKey \<Rightarrow> SnapshotCacheEntry option \<Rightarrow> u64 \<Rightarrow>
     ('f, AccountSnapshot GatewayResponse gateway_result) flow" where
  "refresh_snapshot queued request key cached now_ms =
     bind_flow (fetch_snapshot request now_ms) (\<lambda>r.
       case r of
         Inr snapshot \<Rightarrow> StoreSnapshot key snapshot now_ms (complete_flow queued Completed None snapshot)
       | Inl error \<Rightarrow>
           case stale_snapshot_fallback request cached now_ms of
             Some snapshot \<Rightarrow> complete_flow queued Completed None snapshot
           | None \<Rightarrow> reject_flow queued error None)"

definition query_account_snapshot ::
    "'f felt_format \<Rightarrow> ChainId \<Rightarrow> AccountSnapshotRequest \<Rightarrow> ('f, AccountSnapshot GatewayResponse gateway_result) flow" where
  "query_account_snapshot X chain request =
     try_flow (begin_operation X OperationKind.QueryAccountSnapshot) (\<lambda>queued.
     bind_flow (set_operation (os_id queued) (os_kind queued) Running None) (\<lambda>_.
       case ensure_chain_matches chain (sr_chain_id request) of
         Inl error \<Rightarrow> reject_flow queued error None
       | Inr _ \<Rightarrow>
           case validate_cache_policy (sr_cache_policy request) of
             Inl error \<Rightarrow> reject_flow queued error None
           | Inr _ \<Rightarrow>
               if length (sr_tokens request) > MAX_SNAPSHOT_TOKENS
               then
                 let error = gateway_error InvalidRequest False
                       (Some (''snapshot request tracks '' @ show_nat (length (sr_tokens request)) @
                          '' tokens (maximum '' @ show_nat MAX_SNAPSHOT_TOKENS @ '')''))
                 in reject_flow queued error None
               else
                 let key = key_from_request request
                 in NowMs (\<lambda>now_ms. ReadCache key (\<lambda>cached.
                      case cached_snapshot_response request cached now_ms of
                        Some snapshot \<Rightarrow> complete_flow queued Completed None snapshot
                      | None \<Rightarrow> refresh_snapshot queued request key cached now_ms))))"

end
