(* ===== verification/Flow_Logic.thy ===== *)
theory Flow_Logic
  imports Gateway_Flow
begin

text \<open>
  How flows run: the events of a flow, their effect on the shared state of the gateway, and a logic for flows. A flow
  satisfies \<open>wp R G Q\<close> after a history when every event it can make next, provided the answer satisfies \<open>R\<close>, satisfies
  \<open>G\<close>, and the value it returns satisfies \<open>Q\<close>. The logic is computed on the tree, so that flows are verified by rewriting.
\<close>

section \<open>Events\<close>

text \<open>A question with its answer.\<close>

datatype 'f event =
    EvNow u64
  | EvRandom nat "string + byte list"
  | EvInsert OperationStatus u64
  | EvGet OperationId u64 "OperationStatus option"
  | EvRead SnapshotCacheKey "SnapshotCacheEntry option"
  | EvStore SnapshotCacheKey AccountSnapshot u64
  | EvResolve SecretRef KeyDomain DerivationPath "'f gateway_result"
  | EvResolveNostr SecretRef DerivationPath "byte list gateway_result"
  | EvDeployed FeltHex BlockSelector "bool gateway_result"
  | EvDeploy 'f AccountDescriptor DeployMode "DeployExecution gateway_result"
  | EvNonce FeltHex BlockSelector "FeltHex gateway_result"
  | EvBalance FeltHex TrackedToken BlockSelector "string gateway_result"
  | EvBlock BlockSelector "SnapshotBlockMetadata gateway_result"

inductive flow_next :: "('f, 'a) flow \<Rightarrow> 'f event \<Rightarrow> ('f, 'a) flow \<Rightarrow> bool" where
  "flow_next (NowMs k) (EvNow now) (k now)"
| "flow_next (TryRandomBytes n k) (EvRandom n r) (k r)"
| "flow_next (InsertOperation status now f) (EvInsert status now) f"
| "flow_next (GetOperation op now k) (EvGet op now r) (k r)"
| "flow_next (ReadCache key k) (EvRead key r) (k r)"
| "flow_next (StoreSnapshot key snapshot t f) (EvStore key snapshot t) f"
| "flow_next (ResolvePrivateKey secret domain path k) (EvResolve secret domain path r) (k r)"
| "flow_next (ResolveNostrPrivateKey secret path k) (EvResolveNostr secret path rb) (k rb)"
| "flow_next (CheckDeployed address block k) (EvDeployed address block rd) (k rd)"
| "flow_next (DeployOpenZeppelin key account mode k) (EvDeploy key account mode rx) (k rx)"
| "flow_next (Nonce address block k) (EvNonce address block rn) (k rn)"
| "flow_next (TokenBalance address token block k) (EvBalance address token block rt) (k rt)"
| "flow_next (BlockMetadata block k) (EvBlock block rm) (k rm)"

inductive_simps flow_next_simps [simp]:
  "flow_next (Done a) e f'"
  "flow_next Hang e f'"
  "flow_next (NowMs k) e f'"
  "flow_next (TryRandomBytes n k) e f'"
  "flow_next (InsertOperation status now f) e f'"
  "flow_next (GetOperation op now k) e f'"
  "flow_next (ReadCache key k) e f'"
  "flow_next (StoreSnapshot key snapshot t f) e f'"
  "flow_next (ResolvePrivateKey secret domain path k) e f'"
  "flow_next (ResolveNostrPrivateKey secret path k) e f'"
  "flow_next (CheckDeployed address block k) e f'"
  "flow_next (DeployOpenZeppelin pk account mode k) e f'"
  "flow_next (Nonce address block k) e f'"
  "flow_next (TokenBalance address token block k) e f'"
  "flow_next (BlockMetadata block k) e f'"

text \<open>Runs of a flow, with the events in the order in which they happen.\<close>

inductive steps :: "('f, 'a) flow \<Rightarrow> 'f event list \<Rightarrow> ('f, 'a) flow \<Rightarrow> bool" where
  steps_Nil: "steps f [] f"
| steps_snoc: "steps f tr f' \<Longrightarrow> flow_next f' e f'' \<Longrightarrow> steps f (tr @ [e]) f''"

lemma steps_Cons:
  assumes "steps f' tr f''" and "flow_next f e f'"
  shows "steps f (e # tr) f''"
  using assms
proof (induction rule: steps.induct)
  case (steps_Nil f')
  from steps.steps_snoc [OF steps.steps_Nil this] show ?case by simp
next
  case (steps_snoc f' tr g e' g')
  from steps.steps_snoc [OF steps_snoc.IH [OF steps_snoc.prems] steps_snoc.hyps(2)] show ?case by simp
qed

lemma steps_question:
  "steps (k t) tr f \<Longrightarrow> steps (NowMs k) (EvNow t # tr) f"
  "steps (kr r) tr f \<Longrightarrow> steps (TryRandomBytes n kr) (EvRandom n r # tr) f"
  "steps g tr f \<Longrightarrow> steps (InsertOperation status t g) (EvInsert status t # tr) f"
  "steps (kp p) tr f \<Longrightarrow> steps (ResolvePrivateKey secret domain path kp) (EvResolve secret domain path p # tr) f"
  by (erule steps_Cons, simp)+

text \<open>A run of a composed flow that returns is a run of its first part and one of its second.\<close>

lemma steps_ConsE:
  assumes "steps f (e # tr) f''"
  obtains f' where "flow_next f e f'" and "steps f' tr f''"
proof -
  have "steps f tr0 f'' \<Longrightarrow> tr0 = e # tr \<Longrightarrow> \<exists>f'. flow_next f e f' \<and> steps f' tr f''" for tr0
  proof (induction arbitrary: tr rule: steps.induct)
    case (steps_snoc f tr1 g e' g')
    show ?case
    proof (cases tr1)
      case Nil
      then show ?thesis using steps_snoc by (auto elim: steps.cases intro: steps.intros)
    next
      case (Cons a rest)
      then have a: "tr1 = e # rest" "tr = rest @ [e']" using steps_snoc.prems by simp_all
      then show ?thesis using steps_snoc.IH [OF a(1)] steps_snoc.hyps(2) by (auto intro: steps.intros)
    qed
  qed simp
  then show thesis using assms that by blast
qed

lemma steps_Done: "steps (Done a) tr f \<longleftrightarrow> tr = [] \<and> f = Done a"
  by (cases tr) (auto elim: steps_ConsE steps.cases intro: steps_Nil)

lemma steps_bind_Done:
  assumes "steps (bind_flow f g) tr (Done b)"
  shows "\<exists>tr1 tr2 a. tr = tr1 @ tr2 \<and> steps f tr1 (Done a) \<and> steps (g a) tr2 (Done b)"
  using assms
proof (induction tr arbitrary: f)
  case Nil
  then have "bind_flow f g = Done b" by (auto elim: steps.cases)
  then obtain a where "f = Done a" "g a = Done b" by (cases f) auto
  then show ?case by (auto simp: steps_Done)
next
  case (Cons e tr)
  show ?case
  proof (cases "\<exists>a. f = Done a")
    case True
    then show ?thesis using Cons.prems by (auto simp: steps_Done)
  next
    case False
    obtain f1 where f1: "flow_next (bind_flow f g) e f1" "steps f1 tr (Done b)" using Cons.prems by (rule steps_ConsE)
    have "\<exists>f'. flow_next f e f' \<and> f1 = bind_flow f' g" using f1(1) False by (cases f) auto
    then obtain f' where f': "flow_next f e f'" "f1 = bind_flow f' g" by blast
    from Cons.IH [OF f1(2) [unfolded f'(2)]] obtain tr1 tr2 a
      where "tr = tr1 @ tr2" "steps f' tr1 (Done a)" "steps (g a) tr2 (Done b)" by blast
    then show ?thesis
      using steps_Cons [OF _ f'(1)] by (intro exI [of _ "e # tr1"] exI [of _ tr2] exI [of _ a]) simp
  qed
qed

section \<open>A logic for flows\<close>

text \<open>\<open>h\<close> is the history, in the order in which the events happened.\<close>

type_synonym 'f history = "'f event list"

primrec wp :: "('f history \<Rightarrow> 'f event \<Rightarrow> bool) \<Rightarrow> ('f history \<Rightarrow> 'f event \<Rightarrow> bool) \<Rightarrow> ('f history \<Rightarrow> 'a \<Rightarrow> bool) \<Rightarrow>
    ('f, 'a) flow \<Rightarrow> 'f history \<Rightarrow> bool" where
  "wp R G Q (Done a) = (\<lambda>h. Q h a)"
| "wp R G Q Hang = (\<lambda>h. True)"
| "wp R G Q (NowMs k) = (\<lambda>h. \<forall>now. R h (EvNow now) \<longrightarrow> G h (EvNow now) \<and> wp R G Q (k now) (h @ [EvNow now]))"
| "wp R G Q (TryRandomBytes n k) = (\<lambda>h. \<forall>r. R h (EvRandom n r) \<longrightarrow> G h (EvRandom n r) \<and> wp R G Q (k r) (h @ [EvRandom n r]))"
| "wp R G Q (InsertOperation status now f) =
     (\<lambda>h. R h (EvInsert status now) \<longrightarrow> G h (EvInsert status now) \<and> wp R G Q f (h @ [EvInsert status now]))"
| "wp R G Q (GetOperation op now k) =
     (\<lambda>h. \<forall>r. R h (EvGet op now r) \<longrightarrow> G h (EvGet op now r) \<and> wp R G Q (k r) (h @ [EvGet op now r]))"
| "wp R G Q (ReadCache key k) =
     (\<lambda>h. \<forall>r. R h (EvRead key r) \<longrightarrow> G h (EvRead key r) \<and> wp R G Q (k r) (h @ [EvRead key r]))"
| "wp R G Q (StoreSnapshot key snapshot t f) =
     (\<lambda>h. R h (EvStore key snapshot t) \<longrightarrow> G h (EvStore key snapshot t) \<and> wp R G Q f (h @ [EvStore key snapshot t]))"
| "wp R G Q (ResolvePrivateKey secret domain path k) =
     (\<lambda>h. \<forall>r. R h (EvResolve secret domain path r) \<longrightarrow>
        G h (EvResolve secret domain path r) \<and> wp R G Q (k r) (h @ [EvResolve secret domain path r]))"
| "wp R G Q (ResolveNostrPrivateKey secret path k) =
     (\<lambda>h. \<forall>r. R h (EvResolveNostr secret path r) \<longrightarrow>
        G h (EvResolveNostr secret path r) \<and> wp R G Q (k r) (h @ [EvResolveNostr secret path r]))"
| "wp R G Q (CheckDeployed address block k) =
     (\<lambda>h. \<forall>r. R h (EvDeployed address block r) \<longrightarrow>
        G h (EvDeployed address block r) \<and> wp R G Q (k r) (h @ [EvDeployed address block r]))"
| "wp R G Q (DeployOpenZeppelin key account mode k) =
     (\<lambda>h. \<forall>r. R h (EvDeploy key account mode r) \<longrightarrow>
        G h (EvDeploy key account mode r) \<and> wp R G Q (k r) (h @ [EvDeploy key account mode r]))"
| "wp R G Q (Nonce address block k) =
     (\<lambda>h. \<forall>r. R h (EvNonce address block r) \<longrightarrow>
        G h (EvNonce address block r) \<and> wp R G Q (k r) (h @ [EvNonce address block r]))"
| "wp R G Q (TokenBalance address token block k) =
     (\<lambda>h. \<forall>r. R h (EvBalance address token block r) \<longrightarrow>
        G h (EvBalance address token block r) \<and> wp R G Q (k r) (h @ [EvBalance address token block r]))"
| "wp R G Q (BlockMetadata block k) =
     (\<lambda>h. \<forall>r. R h (EvBlock block r) \<longrightarrow> G h (EvBlock block r) \<and> wp R G Q (k r) (h @ [EvBlock block r]))"

lemma wp_bind [simp]: "wp R G Q (bind_flow f g) h = wp R G (\<lambda>h a. wp R G Q (g a) h) f h"
  by (induction f arbitrary: h) simp_all

lemma wp_mono:
  "wp R G Q f h \<Longrightarrow> (\<And>h a. Q h a \<Longrightarrow> Q' h a) \<Longrightarrow> wp R G Q' f h"
  by (induction f arbitrary: h) simp_all

lemma wp_weaken:
  "wp R G Q f h \<Longrightarrow> (\<And>h e. R' h e \<Longrightarrow> R h e) \<Longrightarrow> (\<And>h e. R' h e \<Longrightarrow> G h e \<Longrightarrow> G' h e) \<Longrightarrow> (\<And>h a. Q h a \<Longrightarrow> Q' h a) \<Longrightarrow>
   wp R' G' Q' f h"
  by (induction f arbitrary: h) simp_all

lemma wp_trivial: "(\<And>h e. G h e) \<Longrightarrow> (\<And>h a. Q h a) \<Longrightarrow> wp R G Q f h"
  by (induction f arbitrary: h) simp_all

lemma wp_next:
  "wp R G Q f h \<Longrightarrow> flow_next f e f' \<Longrightarrow> R h e \<Longrightarrow> G h e \<and> wp R G Q f' (h @ [e])"
  by (cases f) auto

text \<open>Soundness: along a run whose answers satisfy \<open>R\<close>, the events satisfy \<open>G\<close> and the value satisfies \<open>Q\<close>.\<close>

lemma wp_steps:
  assumes "steps f tr f'" and "wp R G Q f []" and "\<And>i. i < length tr \<Longrightarrow> R (take i tr) (tr ! i)"
  shows "wp R G Q f' tr \<and> (\<forall>i < length tr. G (take i tr) (tr ! i))"
  using assms
proof (induction rule: steps.induct)
  case (steps_snoc f tr f' e f'')
  have R: "R (take i tr) (tr ! i)" if "i < length tr" for i
    using steps_snoc.prems(2) [of i] that by (simp add: nth_append)
  have IH: "wp R G Q f' tr" "\<forall>i < length tr. G (take i tr) (tr ! i)"
    using steps_snoc.IH [OF steps_snoc.prems(1) R] by blast+
  have "G tr e \<and> wp R G Q f'' (tr @ [e])"
    using wp_next [OF IH(1) steps_snoc.hyps(2)] steps_snoc.prems(2) [of "length tr"] by simp
  with IH(2) show ?case by (auto simp: nth_append less_Suc_eq)
qed simp

lemma wp_done:
  assumes "steps f tr (Done a)" and "wp (\<lambda>h e. True) G Q f []"
  shows "Q tr a"
  using wp_steps [OF assms] by simp

lemma wp_event:
  assumes "steps f tr f'" and "wp (\<lambda>h e. True) G Q f []" and "i < length tr"
  shows "G (take i tr) (tr ! i)"
  using wp_steps [OF assms(1,2)] assms(3) by simp

end
