(* ===== verification/Line_Reader.thy ===== *)
theory Line_Reader
  imports Prelude
begin

text \<open>
  \<open>crates/oracle/src/line_reader.rs\<close>: newline-delimited lines of bounded length from a buffered reader. The lemmas show
  that the lines read are those of the input, however the input arrives in pieces, and that no more than the limit is
  ever kept.
\<close>

section \<open>UTF-8\<close>

definition utf8_cont :: "byte \<Rightarrow> byte \<Rightarrow> byte \<Rightarrow> bool" where
  "utf8_cont lo hi b = (lo \<le> b \<and> b \<le> hi)"

text \<open>The byte sequences that \<open>String::from_utf8\<close> accepts.\<close>

fun utf8_ok :: "byte list \<Rightarrow> bool" where
  "utf8_ok [] = True"
| "utf8_ok (a # bs) =
     (if a \<le> 0x7F then utf8_ok bs
      else if 0xC2 \<le> a \<and> a \<le> 0xDF then
        (case bs of b # bs \<Rightarrow> utf8_cont 0x80 0xBF b \<and> utf8_ok bs | [] \<Rightarrow> False)
      else if 0xE0 \<le> a \<and> a \<le> 0xEF then
        (case bs of
           b # c # bs \<Rightarrow>
             utf8_cont (if a = 0xE0 then 0xA0 else 0x80) (if a = 0xED then 0x9F else 0xBF) b \<and>
             utf8_cont 0x80 0xBF c \<and> utf8_ok bs
         | _ \<Rightarrow> False)
      else if 0xF0 \<le> a \<and> a \<le> 0xF4 then
        (case bs of
           b # c # d # bs \<Rightarrow>
             utf8_cont (if a = 0xF0 then 0x90 else 0x80) (if a = 0xF4 then 0x8F else 0xBF) b \<and>
             utf8_cont 0x80 0xBF c \<and> utf8_cont 0x80 0xBF d \<and> utf8_ok bs
         | _ \<Rightarrow> False)
      else False)"

text \<open>A text whose \<open>trim\<close> is empty, on its bytes: it has only the characters with the Unicode property of white space.\<close>

fun utf8_blank :: "byte list \<Rightarrow> bool" where
  "utf8_blank [] = True"
| "utf8_blank (a # bs) =
     (if 9 \<le> a \<and> a \<le> 13 \<or> a = 32 then utf8_blank bs
      else if a = 0xC2 then (case bs of b # bs \<Rightarrow> b \<in> {0x85, 0xA0} \<and> utf8_blank bs | [] \<Rightarrow> False)
      else
        (case bs of
           b # c # bs \<Rightarrow>
             (a = 0xE1 \<and> b = 0x9A \<and> c = 0x80 \<or>
              a = 0xE2 \<and> b = 0x80 \<and> (0x80 \<le> c \<and> c \<le> 0x8A \<or> c \<in> {0xA8, 0xA9, 0xAF}) \<or>
              a = 0xE2 \<and> b = 0x81 \<and> c = 0x9F \<or>
              a = 0xE3 \<and> b = 0x80 \<and> c = 0x80) \<and> utf8_blank bs
         | _ \<Rightarrow> False))"

section \<open>Reading a line\<close>

text \<open>A \<open>String\<close> is the list of its bytes.\<close>

datatype LimitedLine = Complete "byte list" | TooLong | InvalidUtf8

definition decode_line_utf8 :: "byte list \<Rightarrow> LimitedLine" where
  "decode_line_utf8 buf = (if utf8_ok buf then Complete buf else InvalidUtf8)"

text \<open>
  What the reader returns, read by read: an error, or bytes; no bytes mean the end of the input, as does the end of the
  list. Bytes that are not consumed are returned again.
\<close>

type_synonym 'e source = "('e + byte list) list"

abbreviation newline :: byte where
  "newline \<equiv> 10"

abbreviation carriage_return :: byte where
  "carriage_return \<equiv> 13"

definition line_at_end :: "byte list \<Rightarrow> bool \<Rightarrow> LimitedLine option" where
  "line_at_end buf discarded =
     (if buf = [] \<and> \<not> discarded then None
      else if discarded then Some TooLong
      else Some (decode_line_utf8 buf))"

fun read_loop :: "nat \<Rightarrow> byte list \<Rightarrow> bool \<Rightarrow> 'e source \<Rightarrow> ('e + LimitedLine option) \<times> 'e source" where
  "read_loop max_bytes buf discarded [] = (Inr (line_at_end buf discarded), [])"
| "read_loop max_bytes buf discarded (Inl e # reader) = (Inl e, reader)"
| "read_loop max_bytes buf discarded (Inr available # reader) =
     (if available = [] then (Inr (line_at_end buf discarded), reader)
      else if newline \<in> set available then
        let pos = length (takeWhile (\<lambda>b. b \<noteq> newline) available);
            chunk = take pos available;
            (buf, discarded) =
              (if \<not> discarded then
                 if length buf + length chunk > max_bytes then (buf, True) else (buf @ chunk, discarded)
               else (buf, discarded));
            unread = drop (pos + 1) available;
            reader = (if unread = [] then reader else Inr unread # reader)
        in if discarded then (Inr (Some TooLong), reader)
           else
             let buf = (if buf \<noteq> [] \<and> last buf = carriage_return then butlast buf else buf)
             in (Inr (Some (decode_line_utf8 buf)), reader)
      else if discarded then read_loop max_bytes buf discarded reader
      else if length buf + length available > max_bytes then read_loop max_bytes buf True reader
      else read_loop max_bytes (buf @ available) discarded reader)"

definition read_line_limited :: "nat \<Rightarrow> 'e source \<Rightarrow> ('e + LimitedLine option) \<times> 'e source" where
  "read_line_limited max_bytes reader = read_loop max_bytes [] False reader"

section \<open>The lines of the input\<close>

definition strip_cr :: "byte list \<Rightarrow> byte list" where
  "strip_cr bs = (if bs \<noteq> [] \<and> last bs = carriage_return then butlast bs else bs)"

definition line_of :: "nat \<Rightarrow> bool \<Rightarrow> byte list \<Rightarrow> LimitedLine" where
  "line_of max_bytes terminated bs =
     (if length bs > max_bytes then TooLong
      else decode_line_utf8 (if terminated then strip_cr bs else bs))"

text \<open>The first line of some bytes, and what follows it.\<close>

definition next_line :: "nat \<Rightarrow> byte list \<Rightarrow> LimitedLine option \<times> byte list" where
  "next_line max_bytes bytes =
     (let bs = takeWhile (\<lambda>b. b \<noteq> newline) bytes
      in case drop (length bs) bytes of
           [] \<Rightarrow> (if bytes = [] then None else Some (line_of max_bytes False bs), [])
         | _ # rest \<Rightarrow> (Some (line_of max_bytes True bs), rest))"

fun source_bytes :: "'e source \<Rightarrow> byte list" where
  "source_bytes [] = []"
| "source_bytes (Inl e # reader) = source_bytes reader"
| "source_bytes (Inr bs # reader) = bs @ source_bytes reader"

text \<open>A reader that returns all its bytes, in any pieces, and then the end.\<close>

definition plain_source :: "'e source \<Rightarrow> bool" where
  "plain_source reader = list_all (\<lambda>r. case r of Inl e \<Rightarrow> False | Inr bs \<Rightarrow> bs \<noteq> []) reader"

lemma plain_source_simps [simp]:
  "plain_source []" "\<not> plain_source (Inl e # reader)"
  "plain_source (Inr bs # reader) \<longleftrightarrow> bs \<noteq> [] \<and> plain_source reader"
  by (simp_all add: plain_source_def)

lemma takeWhile_newline:
  "newline \<in> set bs \<Longrightarrow> takeWhile (\<lambda>b. b \<noteq> newline) (bs @ cs) = takeWhile (\<lambda>b. b \<noteq> newline) bs"
  "newline \<notin> set bs \<Longrightarrow> takeWhile (\<lambda>b. b \<noteq> newline) (bs @ cs) = bs @ takeWhile (\<lambda>b. b \<noteq> newline) cs"
  by (induction bs) auto

lemma split_newline:
  assumes "newline \<in> set bs"
  shows "\<exists>rest. drop (length (takeWhile (\<lambda>b. b \<noteq> newline) bs)) bs = newline # rest \<and>
    rest = drop (length (takeWhile (\<lambda>b. b \<noteq> newline) bs) + 1) bs"
  using assms by (induction bs) auto

text \<open>
  The loop with what it has read before: \<open>seen\<close> are the bytes of the line so far, of which the loop has kept \<open>buf\<close>.
\<close>

definition kept :: "nat \<Rightarrow> byte list \<Rightarrow> byte list \<Rightarrow> bool \<Rightarrow> bool" where
  "kept max_bytes seen buf discarded \<longleftrightarrow>
     (if discarded then length seen > max_bytes else buf = seen \<and> length seen \<le> max_bytes) \<and> length buf \<le> max_bytes"

lemma kept_extend:
  assumes "kept m seen buf d"
  shows "d \<Longrightarrow> kept m (seen @ bs) buf True"
    and "\<not> d \<Longrightarrow> length buf + length bs > m \<Longrightarrow> kept m (seen @ bs) buf True"
    and "\<not> d \<Longrightarrow> \<not> length buf + length bs > m \<Longrightarrow> kept m (seen @ bs) (buf @ bs) False"
  using assms by (auto simp: kept_def)

lemma next_line_no_newline:
  assumes "newline \<notin> set bs"
  shows "next_line m bs = (if bs = [] then None else Some (line_of m False bs), [])"
  using assms by (simp add: next_line_def Let_def takeWhile_eq_all_conv [THEN iffD2] takeWhile_newline(2) [of bs "[]", simplified])

lemma next_line_newline:
  assumes "newline \<notin> set seen" and "newline \<in> set bs"
  shows "next_line m (seen @ bs @ more) =
    (Some (line_of m True (seen @ takeWhile (\<lambda>b. b \<noteq> newline) bs)), drop (length (takeWhile (\<lambda>b. b \<noteq> newline) bs) + 1) bs @ more)"
proof -
  obtain rest where rest: "drop (length (takeWhile (\<lambda>b. b \<noteq> newline) bs)) bs = newline # rest"
      "rest = drop (length (takeWhile (\<lambda>b. b \<noteq> newline) bs) + 1) bs"
    using split_newline [OF assms(2)] by blast
  have le: "length (takeWhile (\<lambda>b. b \<noteq> newline) bs) \<le> length bs" by (rule length_takeWhile_le)
  show ?thesis
    using rest le by (simp add: next_line_def Let_def takeWhile_newline(2) [OF assms(1)] takeWhile_newline(1) [OF assms(2)])
qed

lemma line_at_end_eq:
  assumes "kept m seen buf d"
  shows "line_at_end buf d = (if seen = [] then None else Some (line_of m False seen))"
  using assms by (auto simp: kept_def line_at_end_def line_of_def)

lemma read_loop_lines:
  assumes "plain_source reader" and "newline \<notin> set seen" and "kept m seen buf d"
  shows "\<exists>reader'. read_loop m buf d reader = (Inr (fst (next_line m (seen @ source_bytes reader))), reader') \<and>
    plain_source reader' \<and> source_bytes reader' = snd (next_line m (seen @ source_bytes reader))"
  using assms
proof (induction reader arbitrary: seen buf d)
  case Nil
  then show ?case by (simp add: next_line_no_newline line_at_end_eq)
next
  case (Cons r reader)
  then obtain bs where r: "r = Inr bs" and bs: "bs \<noteq> []" and plain: "plain_source reader" by (cases r) auto
  show ?case
  proof (cases "newline \<in> set bs")
    case True
    define line where "line = takeWhile (\<lambda>b. b \<noteq> newline) bs"
    have chunk: "take (length line) bs = line" by (simp add: line_def takeWhile_eq_take [symmetric])
    define reader' where "reader' = (if drop (length line + 1) bs = [] then reader else Inr (drop (length line + 1) bs) # reader)"
    have next_line: "next_line m (seen @ source_bytes (r # reader)) =
        (Some (line_of m True (seen @ line)), drop (length line + 1) bs @ source_bytes reader)"
      unfolding r source_bytes.simps line_def by (rule next_line_newline [OF Cons.prems(2) True])
    have "read_loop m buf d (r # reader) = (Inr (Some (line_of m True (seen @ line))), reader')"
      using Cons.prems(3) True bs
      by (auto simp: r Let_def line_def [symmetric] chunk reader'_def kept_def line_of_def strip_cr_def)
    moreover have "plain_source reader'" "source_bytes reader' = drop (length line + 1) bs @ source_bytes reader"
      using plain by (simp_all add: reader'_def)
    ultimately show ?thesis unfolding next_line by simp
  next
    case False
    then have seen: "newline \<notin> set (seen @ bs)" using Cons.prems(2) by simp
    note IH = Cons.IH [OF plain seen]
    show ?thesis
      using kept_extend [OF Cons.prems(3), of bs] IH False bs by (simp add: r)
  qed
qed

lemma read_line_exact:
  assumes "plain_source reader"
  shows "\<exists>reader'. read_line_limited m reader = (Inr (fst (next_line m (source_bytes reader))), reader') \<and>
    plain_source reader' \<and> source_bytes reader' = snd (next_line m (source_bytes reader))"
  using read_loop_lines [OF assms, of "[]" m "[]" False] by (simp add: read_line_limited_def kept_def)

text \<open>Reading makes progress, so that a loop over the lines ends.\<close>

definition source_size :: "'e source \<Rightarrow> nat" where
  "source_size reader = length reader + length (source_bytes reader)"

lemma read_loop_progress:
  "read_loop m buf d reader = (x, reader') \<Longrightarrow> reader \<noteq> [] \<Longrightarrow> source_size reader' < source_size reader"
proof (induction m buf d reader arbitrary: reader' rule: read_loop.induct)
  case (3 m buf d available reader)
  note IH = 3(1-3)
  have tail: "source_size reader' < source_size (Inr available # reader)"
    if "read_loop m buf' d' reader = (x, reader')" and "reader \<noteq> [] \<Longrightarrow> source_size reader' < source_size reader" for buf' d'
    using that by (cases "reader = []") (auto simp: source_size_def)
  show ?case
  proof (cases "available = [] \<or> newline \<notin> set available")
    case True
    then show ?thesis
      using 3(4) IH tail by (auto simp: source_size_def split: if_splits)
  next
    case False
    then have "length (drop (length (takeWhile (\<lambda>b. b \<noteq> newline) available) + 1) available) < length available"
      by (cases available) auto
    then show ?thesis
      using 3(4) False by (auto simp: Let_def source_size_def split: if_splits prod.splits)
  qed
qed (auto simp: source_size_def)

lemma read_line_progress:
  assumes "read_line_limited m reader = (Inr (Some line), reader')"
  shows "source_size reader' < source_size reader"
proof -
  have "reader \<noteq> []" using assms by (auto simp: read_line_limited_def line_at_end_def)
  with assms read_loop_progress show ?thesis unfolding read_line_limited_def by blast
qed

lemma next_line_shorter:
  "fst (next_line m bytes) \<noteq> None \<Longrightarrow> length (snd (next_line m bytes)) < length bytes"
  by (cases "newline \<in> set bytes"; cases bytes)
    (auto simp: next_line_no_newline next_line_newline [of "[]" _ _ "[]", simplified] split: if_splits)

end
