(* ===== verification/Oracle.thy ===== *)
theory Oracle
  imports Flow_Logic Line_Reader
begin

text \<open>
  The stdio oracle: the messages of \<open>crates/domain/src/oracle.rs\<close>, and \<open>handler.rs\<close> and \<open>stdio.rs\<close> of \<open>crates/oracle/src\<close>,
  on top of the flows of the gateway. Reading a request from JSON and writing a response as JSON are those of the
  \<open>serde_json\<close> crate and are parameters, as are the errors of the operating system.
\<close>

section \<open>Messages\<close>

record ProtocolVersion =
  ver_major :: "16 word"
  ver_minor :: "16 word"

definition V1_0 :: ProtocolVersion where
  "V1_0 = \<lparr>ver_major = 1, ver_minor = 0\<rparr>"

datatype RequestId = RequestId string

definition request_id_new :: "string \<Rightarrow> DomainError + RequestId" where
  "request_id_new v = (if trim v = [] then Inl (EmptyField ''request_id'') else Inr (RequestId v))"

datatype OracleCommand =
    GetProtocolInfo
  | DeriveAccount DerivationRequest
  | CheckDeployment DerivationRequest
  | DeployAccount DeployAccountRequest
  | Sign SignRequest
  | QueryAccountSnapshot AccountSnapshotRequest
  | GetOperationStatus OperationId

record OracleRequest =
  or_version :: ProtocolVersion
  or_id :: RequestId
  or_confirm :: bool
  or_command :: OracleCommand

datatype OracleCommandName =
    GetProtocolInfo | DeriveAccount | CheckDeployment | DeployAccount | Sign | QueryAccountSnapshot | GetOperationStatus

record ProtocolInfo =
  pi_version :: ProtocolVersion
  pi_transport :: string
  pi_commands :: "OracleCommandName list"

definition stdio_v1 :: ProtocolInfo where
  "stdio_v1 =
     \<lparr>pi_version = V1_0, pi_transport = ''stdio-jsonl'',
      pi_commands =
        [OracleCommandName.GetProtocolInfo, OracleCommandName.DeriveAccount, OracleCommandName.CheckDeployment,
         OracleCommandName.DeployAccount, OracleCommandName.Sign, OracleCommandName.QueryAccountSnapshot,
         OracleCommandName.GetOperationStatus]\<rparr>"

record 'v TrackedCommandResult =
  tc_operation :: OperationStatus
  tc_value :: 'v

datatype OracleResult =
    ProtocolInfo ProtocolInfo
  | DeriveAccount "AccountDescriptor TrackedCommandResult"
  | CheckDeployment "CheckDeploymentResult TrackedCommandResult"
  | DeployAccount "DeployAccountResult TrackedCommandResult"
  | Sign "SignResult TrackedCommandResult"
  | QueryAccountSnapshot "AccountSnapshot TrackedCommandResult"
  | GetOperationStatus OperationLookupResult

datatype OracleOutcome = Ok OracleResult | Error GatewayError

record OracleResponse =
  op_version :: ProtocolVersion
  op_id :: "RequestId option"
  op_outcome :: OracleOutcome

section \<open>Handler\<close>

definition tracked_result :: "'v GatewayResponse \<Rightarrow> 'v TrackedCommandResult" where
  "tracked_result r = \<lparr>tc_operation = gr_operation r, tc_value = gr_value r\<rparr>"

section \<open>Requests\<close>

definition confirm_gate_enabled :: "string \<Rightarrow> bool" where
  "confirm_gate_enabled v =
     (to_ascii_lowercase (trim v) \<notin> {'''', ''0'', ''false'', ''no'', ''off'', ''n'', ''disabled''})"

text \<open>The environment variable: not set, set to bytes that are no UTF-8, or set to a text.\<close>

definition require_confirm_env_enabled :: "string option option \<Rightarrow> bool" where
  "require_confirm_env_enabled env =
     (case env of
        None \<Rightarrow> False
      | Some None \<Rightarrow> True
      | Some (Some v) \<Rightarrow> confirm_gate_enabled v)"

definition require_confirm_if_enabled :: "string option option \<Rightarrow> OracleRequest \<Rightarrow> GatewayError option" where
  "require_confirm_if_enabled env request =
     (if \<not> require_confirm_env_enabled env then None
      else
        let privileged = (case or_command request of
              OracleCommand.Sign _ \<Rightarrow> True
            | OracleCommand.DeployAccount _ \<Rightarrow> True
            | _ \<Rightarrow> False)
        in if privileged \<and> \<not> or_confirm request
           then Some (gateway_error InvalidRequest False
                  (Some ''privileged command requires confirm=true when KRUSTY_ORACLE_REQUIRE_CONFIRM is set''))
           else None)"

text \<open>The arm of a command whose handler returns a tracked result.\<close>

abbreviation tracked_outcome ::
    "('v TrackedCommandResult \<Rightarrow> OracleResult) \<Rightarrow> ('f, 'v GatewayResponse gateway_result) flow \<Rightarrow> ('f, OracleOutcome) flow" where
  "tracked_outcome wrap f \<equiv>
     bind_flow f (\<lambda>r. Done (case map_sum id tracked_result r of Inr x \<Rightarrow> Ok (wrap x) | Inl error \<Rightarrow> Error error))"

definition handle_command ::
    "('f, 'p, 'a, 'r) starknet \<Rightarrow> 'f felt_format \<Rightarrow> 'f stark_crypto \<Rightarrow> 'k schnorr \<Rightarrow> ChainId \<Rightarrow> OracleCommand \<Rightarrow>
     ('f, OracleOutcome) flow" where
  "handle_command S X K N chain command =
     (case command of
        OracleCommand.GetProtocolInfo \<Rightarrow> Done (Ok (OracleResult.ProtocolInfo stdio_v1))
      | OracleCommand.DeriveAccount payload \<Rightarrow>
          tracked_outcome OracleResult.DeriveAccount (derive_account S X K chain payload)
      | OracleCommand.CheckDeployment payload \<Rightarrow>
          tracked_outcome OracleResult.CheckDeployment (check_deployment S X K chain payload)
      | OracleCommand.DeployAccount payload \<Rightarrow>
          tracked_outcome OracleResult.DeployAccount (deploy_account S X K chain payload)
      | OracleCommand.Sign payload \<Rightarrow> tracked_outcome OracleResult.Sign (sign S X K N chain payload)
      | OracleCommand.QueryAccountSnapshot payload \<Rightarrow>
          tracked_outcome OracleResult.QueryAccountSnapshot (query_account_snapshot X chain payload)
      | OracleCommand.GetOperationStatus op \<Rightarrow>
          bind_flow (operation_status op) (\<lambda>r. Done (Ok (OracleResult.GetOperationStatus r))))"

definition handle_request ::
    "('f, 'p, 'a, 'r) starknet \<Rightarrow> 'f felt_format \<Rightarrow> 'f stark_crypto \<Rightarrow> 'k schnorr \<Rightarrow> ChainId \<Rightarrow> string option option \<Rightarrow>
     OracleRequest \<Rightarrow> ('f, OracleResponse) flow" where
  "handle_request S X K N chain env request =
     (let response_id = Some (or_id request)
      in if or_version request \<noteq> V1_0
         then Done \<lparr>op_version = V1_0, op_id = response_id,
                op_outcome = Error (gateway_error UnsupportedProtocolVersion False
                  (Some (''unsupported protocol version '' @ show_nat (unat (ver_major (or_version request))) @ ''.'' @
                     show_nat (unat (ver_minor (or_version request))))))\<rparr>
         else case require_confirm_if_enabled env request of
           Some error \<Rightarrow> Done \<lparr>op_version = V1_0, op_id = response_id, op_outcome = Error error\<rparr>
         | None \<Rightarrow>
             bind_flow (handle_command S X K N chain (or_command request))
               (\<lambda>outcome. Done \<lparr>op_version = V1_0, op_id = response_id, op_outcome = outcome\<rparr>))"

definition MAX_STDIO_LINE_BYTES :: nat where
  "MAX_STDIO_LINE_BYTES = 256 * 1024"

abbreviation refuse_line :: "string \<Rightarrow> OracleResponse" where
  "refuse_line message \<equiv>
     \<lparr>op_version = V1_0, op_id = None, op_outcome = Error (gateway_error InvalidRequest False (Some message))\<rparr>"

abbreviation line_too_long :: OracleResponse where
  "line_too_long \<equiv> refuse_line ''request line exceeds maximum length of 262144 bytes''"

text \<open>\<open>from_json\<close> is \<open>serde_json::from_str\<close>, without the text of its error.\<close>

definition handle_line ::
    "('f, 'p, 'a, 'r) starknet \<Rightarrow> 'f felt_format \<Rightarrow> 'f stark_crypto \<Rightarrow> 'k schnorr \<Rightarrow> ChainId \<Rightarrow> string option option \<Rightarrow>
     (byte list \<Rightarrow> OracleRequest option) \<Rightarrow> byte list \<Rightarrow> ('f, OracleResponse) flow" where
  "handle_line S X K N chain env from_json line =
     (if length line > MAX_STDIO_LINE_BYTES then Done line_too_long
      else case from_json line of
        Some request \<Rightarrow> handle_request S X K N chain env request
      | None \<Rightarrow> Done (refuse_line ''invalid request JSON''))"

section \<open>Serving\<close>

text \<open>
  The writer takes the number of responses written before and tells whether writing the next one fails. The outcome is
  the list of the responses that were encoded and written, the one whose write failed included, and whether the loop
  ended with an error.
\<close>

abbreviation respond_then ::
    "(nat \<Rightarrow> 'e option) \<Rightarrow> OracleResponse list \<Rightarrow> OracleResponse \<Rightarrow>
     ('f, OracleResponse list \<times> ('e + unit)) flow \<Rightarrow> ('f, OracleResponse list \<times> ('e + unit)) flow" where
  "respond_then writer sent response next_lines \<equiv>
     (case writer (length sent) of
        Some e \<Rightarrow> Done (sent @ [response], Inl e)
      | None \<Rightarrow> next_lines)"

lemma bind_flow_cong [fundef_cong]: "f = f' \<Longrightarrow> (\<And>a. g a = g' a) \<Longrightarrow> bind_flow f g = bind_flow f' g'"
  by (metis ext)

function serve_loop ::
    "(byte list \<Rightarrow> ('f, OracleResponse) flow) \<Rightarrow> (nat \<Rightarrow> 'e option) \<Rightarrow> 'e source \<Rightarrow> OracleResponse list \<Rightarrow>
     ('f, OracleResponse list \<times> ('e + unit)) flow" where
  "serve_loop handle writer reader sent =
     (case read_line_limited MAX_STDIO_LINE_BYTES reader of
        (Inl e, reader) \<Rightarrow> Done (sent, Inl e)
      | (Inr None, reader) \<Rightarrow> Done (sent, Inr ())
      | (Inr (Some TooLong), reader) \<Rightarrow>
          respond_then writer sent line_too_long (serve_loop handle writer reader (sent @ [line_too_long]))
      | (Inr (Some InvalidUtf8), reader) \<Rightarrow>
          respond_then writer sent (refuse_line ''request line is not valid UTF-8'')
            (serve_loop handle writer reader (sent @ [refuse_line ''request line is not valid UTF-8'']))
      | (Inr (Some (Complete line)), reader) \<Rightarrow>
          if utf8_blank line then serve_loop handle writer reader sent
          else
            bind_flow (handle line) (\<lambda>response.
              respond_then writer sent response (serve_loop handle writer reader (sent @ [response]))))"
  by pat_completeness auto

termination
  by (relation "measure (\<lambda>(handle, writer, reader, sent). source_size reader)")
    (auto dest!: read_line_progress [OF sym])

declare serve_loop.simps [simp del]

definition serve ::
    "('f, 'p, 'a, 'r) starknet \<Rightarrow> 'f felt_format \<Rightarrow> 'f stark_crypto \<Rightarrow> 'k schnorr \<Rightarrow> ChainId \<Rightarrow> string option option \<Rightarrow>
     (byte list \<Rightarrow> OracleRequest option) \<Rightarrow> (nat \<Rightarrow> 'e option) \<Rightarrow> 'e source \<Rightarrow>
     ('f, OracleResponse list \<times> ('e + unit)) flow" where
  "serve S X K N chain env from_json writer reader =
     serve_loop (handle_line S X K N chain env from_json) writer reader []"

section \<open>One response per request line\<close>

function input_lines :: "nat \<Rightarrow> byte list \<Rightarrow> LimitedLine list" where
  "input_lines m bytes =
     (case fst (next_line m bytes) of None \<Rightarrow> [] | Some line \<Rightarrow> line # input_lines m (snd (next_line m bytes)))"
  by pat_completeness auto

termination
  by (relation "measure (\<lambda>(m, bytes). length bytes)") (auto intro!: next_line_shorter)

declare input_lines.simps [simp del]

text \<open>The lines that are answered, and how.\<close>

fun line_flow :: "(byte list \<Rightarrow> ('f, OracleResponse) flow) \<Rightarrow> LimitedLine \<Rightarrow> ('f, OracleResponse) flow" where
  "line_flow handle TooLong = Done line_too_long"
| "line_flow handle InvalidUtf8 = Done (refuse_line ''request line is not valid UTF-8'')"
| "line_flow handle (Complete line) = handle line"

fun blank_line :: "LimitedLine \<Rightarrow> bool" where
  "blank_line (Complete line) = utf8_blank line"
| "blank_line line = False"

fun answer_lines ::
    "(byte list \<Rightarrow> ('f, OracleResponse) flow) \<Rightarrow> (nat \<Rightarrow> 'e option) \<Rightarrow> LimitedLine list \<Rightarrow> OracleResponse list \<Rightarrow>
     ('f, OracleResponse list \<times> ('e + unit)) flow" where
  "answer_lines handle writer [] sent = Done (sent, Inr ())"
| "answer_lines handle writer (line # lines) sent =
     bind_flow (line_flow handle line) (\<lambda>response.
       respond_then writer sent response (answer_lines handle writer lines (sent @ [response])))"

lemma serve_loop_lines:
  assumes "plain_source reader"
  shows "serve_loop handle writer reader sent =
    answer_lines handle writer
      (filter (\<lambda>line. \<not> blank_line line) (input_lines MAX_STDIO_LINE_BYTES (source_bytes reader))) sent"
  using assms
proof (induction handle writer reader sent rule: serve_loop.induct)
  case (1 handle writer reader sent)
  define bytes where "bytes = source_bytes reader"
  obtain reader' where read: "read_line_limited MAX_STDIO_LINE_BYTES reader = (Inr (fst (next_line MAX_STDIO_LINE_BYTES bytes)), reader')"
    and plain: "plain_source reader'" and rest: "source_bytes reader' = snd (next_line MAX_STDIO_LINE_BYTES bytes)"
    using read_line_exact [OF 1(5)] unfolding bytes_def by blast
  note IH = 1(1-4) [OF read [symmetric]]
  show ?case
  proof (cases "fst (next_line MAX_STDIO_LINE_BYTES bytes)")
    case None
    then have "input_lines MAX_STDIO_LINE_BYTES bytes = []" by (subst input_lines.simps) simp
    then show ?thesis by (subst serve_loop.simps) (simp add: read None flip: bytes_def)
  next
    case (Some line)
    then have lines: "input_lines MAX_STDIO_LINE_BYTES bytes = line # input_lines MAX_STDIO_LINE_BYTES (source_bytes reader')"
      by (subst input_lines.simps) (simp add: rest)
    show ?thesis
      by (subst serve_loop.simps, cases line; cases "writer (length sent)")
        (use IH Some plain in \<open>simp_all add: read bytes_def [symmetric] lines\<close>)
  qed
qed

lemma input_lines_bound:
  "Complete line \<in> set (input_lines m bytes) \<Longrightarrow> length line \<le> m"
proof (induction m bytes rule: input_lines.induct)
  case (1 m bytes)
  have "length l \<le> m" if "fst (next_line m bytes) = Some (Complete l)" for l
    using that by (auto simp: next_line_def Let_def line_of_def decode_line_utf8_def strip_cr_def
        split: list.splits if_splits)
  moreover from 1(2) [unfolded input_lines.simps [of m bytes]] obtain l where l: "fst (next_line m bytes) = Some l"
    "Complete line = l \<or> Complete line \<in> set (input_lines m (snd (next_line m bytes)))"
    by (cases "fst (next_line m bytes)") auto
  ultimately show ?case using 1(1) by blast
qed

text \<open>
  What answers a line, with the events that happen meanwhile: a line that is too long, is not UTF-8 or is no request is
  refused as an invalid request, without any event; for every other line it is the response of a run of \<open>handle_request\<close>.
\<close>

definition refused :: "string \<Rightarrow> OracleResponse \<Rightarrow> bool" where
  "refused message response \<longleftrightarrow> op_version response = \<lparr>ver_major = 1, ver_minor = 0\<rparr> \<and> op_id response = None \<and>
     op_outcome response = Error \<lparr>ge_code = InvalidRequest, ge_retryable = False, ge_message = Some message\<rparr>"

fun answers ::
    "('f, 'p, 'a, 'r) starknet \<Rightarrow> 'f felt_format \<Rightarrow> 'f stark_crypto \<Rightarrow> 'k schnorr \<Rightarrow> ChainId \<Rightarrow> string option option \<Rightarrow>
     (byte list \<Rightarrow> OracleRequest option) \<Rightarrow> LimitedLine \<Rightarrow> 'f event list \<Rightarrow> OracleResponse \<Rightarrow> bool" where
  "answers S X K N chain env from_json TooLong tr response =
     (tr = [] \<and> refused ''request line exceeds maximum length of 262144 bytes'' response)"
| "answers S X K N chain env from_json InvalidUtf8 tr response = (tr = [] \<and> refused ''request line is not valid UTF-8'' response)"
| "answers S X K N chain env from_json (Complete line) tr response =
     (case from_json line of
        None \<Rightarrow> tr = [] \<and> refused ''invalid request JSON'' response
      | Some request \<Rightarrow> op_id response = Some (or_id request) \<and>
          steps (handle_request S X K N chain env request) tr (Done response))"

lemma request_id_kept:
  assumes "steps (handle_request S X K N chain env request) tr (Done response)"
  shows "op_id response = Some (or_id request)"
proof (rule wp_done [OF assms, where G = "\<lambda>h e. True"])
  show "wp (\<lambda>h e. True) (\<lambda>h e. True) (\<lambda>h response. op_id response = Some (or_id request))
      (handle_request S X K N chain env request) []"
    by (auto simp: handle_request_def Let_def split: option.split intro: wp_trivial)
qed

lemma line_answers:
  assumes "steps (line_flow (handle_line S X K N chain env from_json) line) tr (Done response)"
    and "\<And>l. line = Complete l \<Longrightarrow> length l \<le> MAX_STDIO_LINE_BYTES"
  shows "answers S X K N chain env from_json line tr response"
  using assms
  by (cases line)
    (auto simp: steps_Done refused_def gateway_error_def V1_0_def handle_line_def request_id_kept split: option.split if_splits)

text \<open>
  The run of a list of lines, cut into the parts that belong to one line each. All lines are answered, unless writing a
  response failed: then that one is the last.
\<close>

lemma answer_lines_run:
  assumes "steps (answer_lines handle writer lines sent) tr (Done (responses, r))"
  shows "\<exists>parts new. responses = sent @ new \<and> tr = concat parts \<and> length parts = length new \<and> length new \<le> length lines \<and>
    (\<forall>i < length new. steps (line_flow handle (lines ! i)) (parts ! i) (Done (new ! i))) \<and>
    (case r of
       Inr _ \<Rightarrow> length new = length lines \<and> (\<forall>i < length new. writer (length sent + i) = None)
     | Inl e \<Rightarrow> new \<noteq> [] \<and> writer (length responses - 1) = Some e \<and> (\<forall>i < length new - 1. writer (length sent + i) = None))"
  using assms
proof (induction lines arbitrary: sent tr)
  case Nil
  then show ?case by (auto simp: steps_Done)
next
  case (Cons line lines)
  obtain tr1 tr2 response where tr: "tr = tr1 @ tr2" and run: "steps (line_flow handle line) tr1 (Done response)"
    and rest: "steps (respond_then writer sent response (answer_lines handle writer lines (sent @ [response]))) tr2 (Done (responses, r))"
    using steps_bind_Done [OF Cons.prems [unfolded answer_lines.simps]] by blast
  show ?case
  proof (cases "writer (length sent)")
    case (Some e)
    then show ?thesis
      using rest run by (intro exI [of _ "[tr1]"] exI [of _ "[response]"]) (auto simp: steps_Done tr)
  next
    case None
    from Cons.IH [OF rest [unfolded None option.case]] obtain parts new where IH:
      "responses = (sent @ [response]) @ new" "tr2 = concat parts" "length parts = length new" "length new \<le> length lines"
      "\<forall>i < length new. steps (line_flow handle (lines ! i)) (parts ! i) (Done (new ! i))"
      and r: "case r of
         Inr _ \<Rightarrow> length new = length lines \<and> (\<forall>i < length new. writer (length (sent @ [response]) + i) = None)
       | Inl e \<Rightarrow> new \<noteq> [] \<and> writer (length responses - 1) = Some e \<and>
           (\<forall>i < length new - 1. writer (length (sent @ [response]) + i) = None)" by blast
    have "case r of
         Inr _ \<Rightarrow> length (response # new) = length (line # lines) \<and> (\<forall>i < length (response # new). writer (length sent + i) = None)
       | Inl e \<Rightarrow> response # new \<noteq> [] \<and> writer (length responses - 1) = Some e \<and>
           (\<forall>i < length (response # new) - 1. writer (length sent + i) = None)"
      using r None by (cases r; cases new) (auto simp: less_Suc_eq_0_disj)
    moreover have "\<forall>i < length (response # new).
        steps (line_flow handle ((line # lines) ! i)) ((tr1 # parts) ! i) (Done ((response # new) ! i))"
      using IH(5) run by (auto simp: less_Suc_eq_0_disj)
    ultimately show ?thesis
      using IH(1-4) by (intro exI [of _ "tr1 # parts"] exI [of _ "response # new"]) (simp add: tr)
  qed
qed

section \<open>Property\<close>

text \<open>
  C19. The oracle answers every request line once and in order, however the input arrives. Two readers that return the
  same bytes, in pieces of any size, are served alike. A run that ends is made of one part per response, in the order of
  the lines that are not blank: a line that is too long, is not UTF-8 or is not a request is refused as an invalid request,
  without any effect, and the part of every other line is a run of \<open>handle_request\<close> on its request, with its response
  and identifier. All lines are answered, unless writing a response failed: then that one is the last.
\<close>

theorem serve_exact:
  assumes "plain_source reader" and "plain_source reader'" and "source_bytes reader' = source_bytes reader"
    and "steps (serve S X K N chain env from_json writer reader) tr (Done (responses, r))"
    and "lines = filter (\<lambda>line. \<not> blank_line line) (input_lines MAX_STDIO_LINE_BYTES (source_bytes reader))"
  shows "serve S X K N chain env from_json writer reader' = serve S X K N chain env from_json writer reader \<and>
    (\<exists>parts. tr = concat parts \<and> length parts = length responses \<and> length responses \<le> length lines \<and>
       (\<forall>i < length responses. answers S X K N chain env from_json (lines ! i) (parts ! i) (responses ! i))) \<and>
    (case r of
       Inr _ \<Rightarrow> length responses = length lines \<and> (\<forall>i < length responses. writer i = None)
     | Inl e \<Rightarrow> responses \<noteq> [] \<and> writer (length responses - 1) = Some e \<and> (\<forall>i < length responses - 1. writer i = None))"
proof -
  have eq: "serve S X K N chain env from_json writer reader =
      answer_lines (handle_line S X K N chain env from_json) writer lines []"
    unfolding serve_def assms(5) by (rule serve_loop_lines [OF assms(1)])
  have "serve S X K N chain env from_json writer reader' = serve S X K N chain env from_json writer reader"
    unfolding serve_def serve_loop_lines [OF assms(1)] serve_loop_lines [OF assms(2)] assms(3) ..
  moreover obtain parts where "tr = concat parts" "length parts = length responses" and len: "length responses \<le> length lines"
    and run: "\<And>i. i < length responses \<Longrightarrow>
      steps (line_flow (handle_line S X K N chain env from_json) (lines ! i)) (parts ! i) (Done (responses ! i))"
    and "case r of
       Inr _ \<Rightarrow> length responses = length lines \<and> (\<forall>i < length responses. writer i = None)
     | Inl e \<Rightarrow> responses \<noteq> [] \<and> writer (length responses - 1) = Some e \<and> (\<forall>i < length responses - 1. writer i = None)"
    using answer_lines_run [OF assms(4) [unfolded eq]] by (auto split: sum.splits)
  moreover have "answers S X K N chain env from_json (lines ! i) (parts ! i) (responses ! i)" if "i < length responses" for i
  proof (rule line_answers [OF run [OF that]])
    fix l assume "lines ! i = Complete l"
    then have "Complete l \<in> set lines" using that len by (metis nth_mem order_less_le_trans)
    then show "length l \<le> MAX_STDIO_LINE_BYTES" unfolding assms(5) by (auto intro: input_lines_bound)
  qed
  ultimately show ?thesis by blast
qed

theorem serve_exact_witness:
  "\<exists>responses. serve stark_dlog zformat zcrypto \<lparr>schnorr_from_slice = Inr, schnorr_verifying_key = id, schnorr_sign_raw = \<lambda>k m a. Inr m\<rparr>
       Sepolia None (\<lambda>line. None) (\<lambda>n. None :: nat option) [Inr [120], Inr [10, 10]] = Done (responses, Inr ()) \<and>
     length responses = 1 \<and> refused ''invalid request JSON'' (responses ! 0)"
proof -
  define serving where "serving = serve stark_dlog zformat zcrypto
    \<lparr>schnorr_from_slice = Inr, schnorr_verifying_key = id, schnorr_sign_raw = \<lambda>k m a. Inr m\<rparr>
    Sepolia None (\<lambda>line. None) (\<lambda>n. None :: nat option)"
  define lines where "lines = filter (\<lambda>line. \<not> blank_line line)
    (input_lines MAX_STDIO_LINE_BYTES (source_bytes ([Inr [120, 10, 10]] :: nat source)))"
  have "input_lines MAX_STDIO_LINE_BYTES [] = []" by (subst input_lines.simps) (simp add: next_line_def)
  moreover have "input_lines MAX_STDIO_LINE_BYTES [10] = Complete [] # input_lines MAX_STDIO_LINE_BYTES []"
    by (subst input_lines.simps) (simp add: next_line_def line_of_def decode_line_utf8_def strip_cr_def)
  moreover have "input_lines MAX_STDIO_LINE_BYTES [120, 10, 10] = Complete [120] # input_lines MAX_STDIO_LINE_BYTES [10]"
    by (subst input_lines.simps)
      (simp add: next_line_def line_of_def decode_line_utf8_def strip_cr_def MAX_STDIO_LINE_BYTES_def)
  ultimately have lines: "lines = [Complete [120]]" by (simp add: lines_def)
  obtain responses where run: "serving [Inr [120, 10, 10]] = Done (responses, Inr ())"
    unfolding serving_def serve_def serve_loop_lines [of "[Inr [120, 10, 10]]", simplified] lines [unfolded lines_def, simplified]
    by (simp add: handle_line_def MAX_STDIO_LINE_BYTES_def)
  then have "steps (serving [Inr [120, 10, 10]]) [] (Done (responses, Inr ()))" by (simp add: steps_Nil)
  from serve_exact [OF _ _ _ this [unfolded serving_def] lines_def, of "[Inr [120], Inr [10, 10]]"] run lines
  show ?thesis by (auto simp: serving_def)
qed

end
