(* ===== verification/Gateway_Lifecycle.thy ===== *)
theory Gateway_Lifecycle
  imports Oracle
begin

text \<open>
  What a request does from its first event to its last, for the handlers of \<open>accounts.rs\<close>, \<open>signing.rs\<close> and \<open>snapshot.rs\<close>
  reached through the oracle: the states it records for its operation, which secrets it uses and when, and how many
  questions it asks.
\<close>

section \<open>Records of an operation\<close>

fun inserted_status :: "'f event \<Rightarrow> OperationStatus list" where
  "inserted_status (EvInsert status now) = [status]"
| "inserted_status e = []"

definition inserts :: "'f history \<Rightarrow> OperationStatus list" where
  "inserts h = concat (map inserted_status h)"

lemma inserts_simps [simp]:
  "inserts [] = []" "inserts (h @ h') = inserts h @ inserts h'" "inserts (e # h) = inserted_status e @ inserts h"
  by (simp_all add: inserts_def)

abbreviation op_in :: "OperationId \<Rightarrow> OperationKind \<Rightarrow> OperationState \<Rightarrow> Provenance option \<Rightarrow> OperationStatus" where
  "op_in op kind state provenance \<equiv> \<lparr>os_id = op, os_kind = kind, os_state = state, os_provenance = provenance\<rparr>"

fun succeeded :: "OperationState \<Rightarrow> bool" where
  "succeeded Completed = True"
| "succeeded (OperationState.Submitted tx_hash) = True"
| "succeeded (OperationState.Accepted tx_hash) = True"
| "succeeded _ = False"

text \<open>
  The record of a request that has returned: nothing if no identifier could be made, else queued, running and the state
  that says what was returned.
\<close>

definition settled :: "OperationKind \<Rightarrow> 'f history \<Rightarrow> GatewayError + OperationStatus \<Rightarrow> bool" where
  "settled kind h r \<longleftrightarrow>
     inserts h = [] \<and> (\<exists>e. r = Inl e \<and> ge_code e = Internal) \<or>
     (\<exists>op state provenance.
        inserts h = [op_in op kind Queued None, op_in op kind Running None, op_in op kind state provenance] \<and>
        (r = Inr (op_in op kind state provenance) \<and> succeeded state \<or> (\<exists>e. r = Inl e \<and> state = OperationState.Rejected e)))"

definition started :: "OperationKind \<Rightarrow> OperationStatus \<Rightarrow> 'f history \<Rightarrow> bool" where
  "started kind queued h \<longleftrightarrow>
     (\<exists>op. queued = op_in op kind Queued None \<and> inserts h = [op_in op kind Queued None, op_in op kind Running None])"

section \<open>Rules for the parts of a handler\<close>

text \<open>\<open>G\<close> is a guarantee that the bookkeeping does not touch.\<close>

locale bookkeeping =
  fixes G :: "'f event \<Rightarrow> bool"
  assumes now: "G (EvNow t)" and random: "G (EvRandom n r)" and insert: "G (EvInsert status t)"
    and deployed: "G (EvDeployed address block rd)"
begin

lemmas harmless = now random insert deployed

abbreviation triple :: "('f, 'a) flow \<Rightarrow> 'f history \<Rightarrow> ('f history \<Rightarrow> 'a \<Rightarrow> bool) \<Rightarrow> bool" where
  "triple f h Q \<equiv> wp (\<lambda>h e. True) (\<lambda>h e. G e) Q f h"

lemma wp_begin:
  assumes "\<And>e r. ge_code e = Internal \<Longrightarrow> Q (h @ [EvRandom 16 r]) (Inl e)"
    and "\<And>h' op. inserts h' = inserts h @ [op_in op kind Queued None] \<Longrightarrow> length h' = length h + 3 \<Longrightarrow>
      Q h' (Inr (op_in op kind Queued None))"
  shows "triple (begin_operation X kind) h Q"
  using assms harmless
  by (simp add: begin_operation_def Let_def gateway_error_def split: sum.split)

lemma wp_set:
  assumes "\<And>h'. inserts h' = inserts h @ [op_in op kind state provenance] \<Longrightarrow> length h' = length h + 2 \<Longrightarrow>
    Q h' (op_in op kind state provenance)"
  shows "triple (set_operation op kind state provenance) h Q"
  using assms harmless by (simp add: set_operation_def Let_def)

text \<open>A handler that begins an operation, sets it running and goes on with \<open>body\<close>.\<close>

lemma wp_tracked:
  assumes "\<And>queued h. started kind queued h \<Longrightarrow> length h = 5 \<Longrightarrow>
    triple (body queued) h (\<lambda>h r. settled kind h (map_sum id gr_operation r) \<and> length h \<le> n)" and "1 \<le> n"
  shows "triple (try_flow (begin_operation X kind) (\<lambda>queued.
      bind_flow (set_operation (os_id queued) (os_kind queued) Running None) (\<lambda>_. body queued))) []
    (\<lambda>h r. settled kind h (map_sum id gr_operation r) \<and> length h \<le> n)"
  unfolding wp_bind
proof (rule wp_begin)
  fix h' :: "'f history" and op
  assume h': "inserts h' = inserts [] @ [op_in op kind Queued None]" "length h' = length ([] :: 'f history) + 3"
  show "triple (case Inr (op_in op kind Queued None) of Inl e \<Rightarrow> Done (Inl e) | Inr queued \<Rightarrow>
      bind_flow (set_operation (os_id queued) (os_kind queued) Running None) (\<lambda>_. body queued)) h'
    (\<lambda>h r. settled kind h (map_sum id gr_operation r) \<and> length h \<le> n)"
    unfolding sum.case wp_bind
    by (rule wp_set, rule assms(1)) (use h' in \<open>auto simp: started_def\<close>)
qed (use assms(2) in \<open>simp add: settled_def\<close>)

text \<open>The two ends of a handler.\<close>

lemma wp_complete:
  assumes "started kind queued h" and "succeeded state" and "length h + 2 \<le> n"
  shows "triple (complete_flow queued state provenance v) h
    (\<lambda>h r. settled kind h (map_sum id gr_operation r) \<and> length h \<le> n)"
  unfolding wp_bind by (rule wp_set) (use assms in \<open>auto simp: started_def settled_def\<close>)

lemma wp_reject:
  assumes "started kind queued h" and "length h + 2 \<le> n"
  shows "triple (reject_flow queued error provenance) h
    (\<lambda>h r. settled kind h (map_sum id gr_operation r) \<and> length h \<le> n)"
  unfolding wp_bind reject_operation_def by (rule wp_set) (use assms in \<open>auto simp: started_def settled_def\<close>)

lemma started_append:
  "started kind queued h \<Longrightarrow> inserts es = [] \<Longrightarrow> started kind queued (h @ es)"
  by (simp add: started_def)

lemma wp_descriptor:
  assumes "\<And>r. dr_chain_id request = chain \<Longrightarrow> derivation_validate request = Inr () \<Longrightarrow>
      dr_key_domain request = KeyDomain.StarknetAccount \<Longrightarrow>
      G (EvResolve (dr_secret request) (dr_key_domain request) (dr_path request) r)"
    and "\<And>h' e. inserts h' = inserts h \<Longrightarrow> length h' \<le> length h + 1 \<Longrightarrow> Q h' (Inl e)"
    and "\<And>h' private_key account. inserts h' = inserts h \<Longrightarrow> length h' \<le> length h + 1 \<Longrightarrow>
      build_descriptor S X K request private_key = Inr (private_key, account) \<Longrightarrow> Q h' (Inr (private_key, account))"
  shows "triple (derive_account_descriptor S X K chain request) h Q"
proof -
  have key: "fst p = private_key" if "build_descriptor S X K request private_key = Inr p" for private_key p
    using that by (auto simp: build_descriptor_def Let_def result_iffs)
  have "Q (h @ [EvResolve secret domain path r]) (build_descriptor S X K request private_key)" for secret domain path r private_key
    using assms(2,3) [of "h @ [EvResolve secret domain path r]"] key
    by (cases "build_descriptor S X K request private_key") force+
  then show ?thesis
    using assms(1,2)
    by (auto simp: derive_account_descriptor_def ensure_chain_matches_def result_iffs split: sum.split)
qed

section \<open>Handlers\<close>

abbreviation tracked_by :: "OperationKind \<Rightarrow> nat \<Rightarrow> ('f, 'v GatewayResponse gateway_result) flow \<Rightarrow> bool" where
  "tracked_by kind n f \<equiv> triple f [] (\<lambda>h r. settled kind h (map_sum id gr_operation r) \<and> length h \<le> n)"

definition resolves :: "ChainId \<Rightarrow> DerivationRequest \<Rightarrow> bool" where
  "resolves chain request \<longleftrightarrow>
     (dr_chain_id request = chain \<longrightarrow> derivation_validate request = Inr () \<longrightarrow>
      dr_key_domain request = KeyDomain.StarknetAccount \<longrightarrow>
      (\<forall>r. G (EvResolve (dr_secret request) (dr_key_domain request) (dr_path request) r)))"

lemma derive_tracked:
  assumes "resolves chain request"
  shows "tracked_by OperationKind.DeriveAccount 8 (derive_account S X K chain request)"
  unfolding derive_account_def
proof (rule wp_tracked)
  fix queued and h :: "'f history"
  assume "started OperationKind.DeriveAccount queued h" "length h = 5"
  then show "triple (bind_flow (derive_account_descriptor S X K chain request) (\<lambda>r.
       case r of
         Inr (_, account) \<Rightarrow> complete_flow queued Completed (Some (ac_provenance account)) account
       | Inl error \<Rightarrow> reject_flow queued error None)) h
    (\<lambda>h r. settled OperationKind.DeriveAccount h (map_sum id gr_operation r) \<and> length h \<le> 8)"
    unfolding wp_bind [of _ _ _ "derive_account_descriptor S X K chain request"]
    by (intro wp_descriptor)
      (use assms in \<open>auto simp: resolves_def started_def simp del: wp_bind intro!: wp_complete wp_reject\<close>)
qed simp

text \<open>The shape of the rest of a handler that derives the descriptor first.\<close>

lemma wp_after_descriptor:
  assumes "started kind queued h" and "resolves chain request" and "length h + 3 \<le> n"
    and "\<And>h' private_key account. started kind queued h' \<Longrightarrow> length h' \<le> length h + 1 \<Longrightarrow>
      build_descriptor S X K request private_key = Inr (private_key, account) \<Longrightarrow>
      triple (body private_key account) h' (\<lambda>h r. settled kind h (map_sum id gr_operation r) \<and> length h \<le> n)"
  shows "triple (bind_flow (derive_account_descriptor S X K chain request) (\<lambda>r.
      case r of Inr (private_key, account) \<Rightarrow> body private_key account | Inl error \<Rightarrow> reject_flow queued error None)) h
    (\<lambda>h r. settled kind h (map_sum id gr_operation r) \<and> length h \<le> n)"
  unfolding wp_bind [of _ _ _ "derive_account_descriptor S X K chain request"]
proof (rule wp_descriptor)
  fix h' :: "'f history" and e assume h': "inserts h' = inserts h" "length h' \<le> length h + 1"
  then have "started kind queued h'" using assms(1) by (simp add: started_def)
  then show "triple (case Inl e of Inr (private_key, account) \<Rightarrow> body private_key account | Inl error \<Rightarrow> reject_flow queued error None) h'
      (\<lambda>h r. settled kind h (map_sum id gr_operation r) \<and> length h \<le> n)"
    unfolding sum.case by (rule wp_reject) (use assms(3) h' in simp)
next
  fix h' :: "'f history" and private_key account
  assume h': "inserts h' = inserts h" "length h' \<le> length h + 1" "build_descriptor S X K request private_key = Inr (private_key, account)"
  then have "started kind queued h'" using assms(1) by (simp add: started_def)
  then show "triple (case Inr (private_key, account) of Inr (private_key, account) \<Rightarrow> body private_key account
      | Inl error \<Rightarrow> reject_flow queued error None) h' (\<lambda>h r. settled kind h (map_sum id gr_operation r) \<and> length h \<le> n)"
    unfolding sum.case prod.case by (rule assms(4)) (use h' in simp_all)
qed (use assms(2) in \<open>simp add: resolves_def\<close>)

lemma check_tracked:
  assumes "resolves chain request"
  shows "tracked_by OperationKind.CheckDeployment 9 (check_deployment S X K chain request)"
  unfolding check_deployment_def
  by (rule wp_tracked, rule wp_after_descriptor [OF _ assms])
    (auto simp: deployed simp del: wp_bind split: sum.split bool.split intro!: wp_complete wp_reject started_append)

lemma deploy_tracked:
  assumes "validate_wait_mode (da_mode request) = Inr () \<Longrightarrow> resolves chain (da_derivation request)"
    and "\<And>private_key account r. validate_wait_mode (da_mode request) = Inr () \<Longrightarrow>
      cs_kind (dr_account_class (da_derivation request)) = AccountClassKind.OpenZeppelin \<Longrightarrow>
      build_descriptor S X K (da_derivation request) private_key = Inr (private_key, account) \<Longrightarrow>
      G (EvDeploy private_key account (da_mode request) r)"
  shows "tracked_by OperationKind.DeployAccount 9 (deploy_account S X K chain request)"
proof (cases "validate_wait_mode (da_mode request)")
  case (Inl e)
  show ?thesis
    unfolding deploy_account_def Inl sum.case by (rule wp_tracked) (auto simp del: wp_bind intro!: wp_reject)
next
  case (Inr u)
  then have valid: "validate_wait_mode (da_mode request) = Inr ()" by simp
  show ?thesis
    unfolding deploy_account_def Inr sum.case
    by (rule wp_tracked, rule wp_after_descriptor [OF _ assms(1) [OF valid]])
      (use assms(2) [OF valid] in \<open>auto simp: Let_def simp del: wp_bind split: sum.split DeployExecution.split
        intro!: wp_complete wp_reject started_append\<close>)
qed

lemma sign_stark_tracked:
  assumes "started kind queued h" and "length h = 5"
    and "\<And>r. G (EvResolve secret (stark_key_domain key_domain) path r)"
  shows "triple (sign_stark S X K queued provenance secret key_domain path hash) h
    (\<lambda>h r. settled kind h (map_sum id gr_operation r) \<and> length h \<le> 8)"
  using assms
  by (auto simp: sign_stark_def simp del: wp_bind split: sum.split option.split
      intro!: wp_complete wp_reject started_append)

lemma sign_nostr_tracked:
  assumes "started kind queued h" and "length h = 6"
  shows "triple (sign_nostr X queued r) h (\<lambda>h r. settled kind h (map_sum id gr_operation r) \<and> length h \<le> 8)"
  using assms by (auto simp: sign_nostr_def simp del: wp_bind split: sum.split intro!: wp_complete wp_reject)

definition signs :: "'f felt_format \<Rightarrow> ChainId \<Rightarrow> SignRequest \<Rightarrow> bool" where
  "signs X chain request \<longleftrightarrow>
     (sign_validate X request = Inr () \<longrightarrow> (\<forall>c. sign_chain_id request = Some c \<longrightarrow> c = chain) \<longrightarrow>
      (\<forall>r. G (EvResolve (sign_secret request) (sign_key_domain request) (sign_derivation_path request) r)) \<and>
      (sign_key_domain request = KeyDomain.NostrEvent \<longrightarrow>
        (\<forall>r. G (EvResolveNostr (sign_secret request) (sign_derivation_path request) r))))"

lemma sign_tracked:
  assumes "signs X chain request"
  shows "tracked_by OperationKind.Sign 8 (sign S X K N chain request)"
proof (cases "sign_validate X request = Inr () \<and> (\<forall>c. sign_chain_id request = Some c \<longrightarrow> c = chain)")
  case False
  then show ?thesis
    unfolding sign_def
    by (intro wp_tracked)
      (auto simp: Let_def ensure_chain_matches_def result_iffs simp del: wp_bind split: sum.split option.split intro!: wp_reject)
next
  case True
  then have "(case sign_chain_id request of Some c \<Rightarrow> ensure_chain_matches chain c | None \<Rightarrow> Inr ()) = Inr ()"
    by (auto simp: ensure_chain_matches_def split: option.split)
  then show ?thesis
    using True assms unfolding sign_def signs_def
    by (intro wp_tracked)
      (auto simp: Let_def simp del: wp_bind split: sum.split SignRequest.split
        intro!: wp_reject sign_stark_tracked sign_nostr_tracked started_append)
qed

end

text \<open>Snapshots use the cache and the queries of the backend as well.\<close>

locale snapshot_bookkeeping = bookkeeping G for G :: "'f event \<Rightarrow> bool" +
  assumes read: "G (EvRead key cached)" and store: "G (EvStore key snapshot t)" and get: "G (EvGet op t found)"
    and nonce: "G (EvNonce address block rn)" and balance: "G (EvBalance address token block rt)" and block: "G (EvBlock block rm)"
begin

lemmas harmless_queries = harmless read store get nonce balance block

lemma wp_balances:
  assumes "\<And>h' r. inserts h' = inserts h \<Longrightarrow> length h' \<le> length h + length tokens \<Longrightarrow> Q h' r"
  shows "triple (fetch_balances request tokens balances) h Q"
  using assms
proof (induction tokens arbitrary: balances h)
  case (Cons token tokens)
  show ?case
    by (auto simp: balance split: sum.split intro!: Cons.prems Cons.IH)
qed simp

lemma wp_fetch:
  assumes "\<And>h' r. inserts h' = inserts h \<Longrightarrow> length h' \<le> length h + length (sr_tokens request) + 3 \<Longrightarrow> Q h' r"
  shows "triple (fetch_snapshot request t) h Q"
  unfolding fetch_snapshot_def
  by (auto simp: harmless_queries Let_def split: sum.split intro!: assms wp_balances)

lemma snapshot_tracked:
  "tracked_by OperationKind.QueryAccountSnapshot 29 (query_account_snapshot X chain request)"
proof -
  have refresh: "triple (refresh_snapshot queued request key cached now_ms) h
      (\<lambda>h r. settled OperationKind.QueryAccountSnapshot h (map_sum id gr_operation r) \<and> length h \<le> 29)"
    if "started OperationKind.QueryAccountSnapshot queued h" "length h \<le> 7" "length (sr_tokens request) \<le> 16"
    for queued key cached now_ms and h :: "'f history"
    unfolding refresh_snapshot_def wp_bind [of _ _ _ "fetch_snapshot request now_ms"]
    by (rule wp_fetch)
      (use that in \<open>auto simp: harmless_queries started_def simp del: wp_bind split: sum.split option.split intro!: wp_complete wp_reject\<close>)
  show ?thesis
    unfolding query_account_snapshot_def
    by (rule wp_tracked)
      (auto simp: harmless_queries Let_def MAX_SNAPSHOT_TOKENS_def simp del: wp_bind split: sum.split option.split
        intro!: wp_complete wp_reject refresh started_append)
qed

end

section \<open>Commands\<close>

text \<open>
  When a command may use secrets. A key is resolved only for the secret, the domain and the path that the command names,
  after its derivation path, its chain and its signing payload have been checked; a deployment is submitted only for an
  OpenZeppelin account, with the key and the descriptor derived for the request and a wait mode within the limits.
\<close>

definition derivation_allowed :: "ChainId \<Rightarrow> DerivationRequest \<Rightarrow> bool" where
  "derivation_allowed chain request \<longleftrightarrow>
     dr_chain_id request = chain \<and> dp_coin_type (dr_path request) = 9004 \<and> dr_key_domain request = KeyDomain.StarknetAccount"

fun authorized ::
    "('f, 'p, 'a, 'r) starknet \<Rightarrow> 'f felt_format \<Rightarrow> 'f stark_crypto \<Rightarrow> ChainId \<Rightarrow> OracleCommand \<Rightarrow> 'f event \<Rightarrow> bool" where
  "authorized S X K chain command (EvResolve secret domain path r) =
     (case command of
        OracleCommand.DeriveAccount d \<Rightarrow>
          derivation_allowed chain d \<and> (secret, domain, path) = (dr_secret d, dr_key_domain d, dr_path d)
      | OracleCommand.CheckDeployment d \<Rightarrow>
          derivation_allowed chain d \<and> (secret, domain, path) = (dr_secret d, dr_key_domain d, dr_path d)
      | OracleCommand.DeployAccount d \<Rightarrow>
          derivation_allowed chain (da_derivation d) \<and> validate_wait_mode (da_mode d) = Inr () \<and>
          (secret, domain, path) = (dr_secret (da_derivation d), dr_key_domain (da_derivation d), dr_path (da_derivation d))
      | OracleCommand.Sign q \<Rightarrow>
          sign_validate X q = Inr () \<and> (\<forall>c. sign_chain_id q = Some c \<longrightarrow> c = chain) \<and>
          (secret, domain, path) = (sign_secret q, sign_key_domain q, sign_derivation_path q)
      | _ \<Rightarrow> False)"
| "authorized S X K chain command (EvResolveNostr secret path r) =
     (case command of
        OracleCommand.Sign q \<Rightarrow>
          sign_validate X q = Inr () \<and> sign_key_domain q = KeyDomain.NostrEvent \<and>
          (secret, path) = (sign_secret q, sign_derivation_path q)
      | _ \<Rightarrow> False)"
| "authorized S X K chain command (EvDeploy private_key account mode r) =
     (case command of
        OracleCommand.DeployAccount d \<Rightarrow>
          mode = da_mode d \<and> validate_wait_mode mode = Inr () \<and>
          cs_kind (dr_account_class (da_derivation d)) = AccountClassKind.OpenZeppelin \<and>
          build_descriptor S X K (da_derivation d) private_key = Inr (private_key, account)
      | _ \<Rightarrow> False)"
| "authorized S X K chain command e = True"

interpretation cmd: snapshot_bookkeeping "authorized S X K chain command"
  for S :: "('f, 'p, 'a, 'r) starknet" and X K chain command
  by unfold_locales simp_all

fun command_kind :: "OracleCommand \<Rightarrow> OperationKind option" where
  "command_kind (OracleCommand.DeriveAccount _) = Some OperationKind.DeriveAccount"
| "command_kind (OracleCommand.CheckDeployment _) = Some OperationKind.CheckDeployment"
| "command_kind (OracleCommand.DeployAccount _) = Some OperationKind.DeployAccount"
| "command_kind (OracleCommand.Sign _) = Some OperationKind.Sign"
| "command_kind (OracleCommand.QueryAccountSnapshot _) = Some OperationKind.QueryAccountSnapshot"
| "command_kind _ = None"

text \<open>The operation that an outcome reports.\<close>

fun outcome_operation :: "OracleOutcome \<Rightarrow> (GatewayError + OperationStatus) option" where
  "outcome_operation (Error e) = Some (Inl e)"
| "outcome_operation (Ok (OracleResult.DeriveAccount t)) = Some (Inr (tc_operation t))"
| "outcome_operation (Ok (OracleResult.CheckDeployment t)) = Some (Inr (tc_operation t))"
| "outcome_operation (Ok (OracleResult.DeployAccount t)) = Some (Inr (tc_operation t))"
| "outcome_operation (Ok (OracleResult.Sign t)) = Some (Inr (tc_operation t))"
| "outcome_operation (Ok (OracleResult.QueryAccountSnapshot t)) = Some (Inr (tc_operation t))"
| "outcome_operation (Ok _) = None"

lemma resolves_authorized:
  "bookkeeping.resolves (authorized S X K chain (OracleCommand.DeriveAccount d)) chain d"
  "bookkeeping.resolves (authorized S X K chain (OracleCommand.CheckDeployment d)) chain d"
  "validate_wait_mode (da_mode r) = Inr () \<Longrightarrow> bookkeeping.resolves (authorized S X K chain (OracleCommand.DeployAccount r)) chain (da_derivation r)"
  "bookkeeping.signs (authorized S X K chain (OracleCommand.Sign q)) X chain q"
  by (auto simp: cmd.resolves_def cmd.signs_def derivation_allowed_def derivation_validate_def validate_for_def result_iffs
      split: if_splits)

abbreviation runs_settled ::
    "('f, 'p, 'a, 'r) starknet \<Rightarrow> 'f felt_format \<Rightarrow> 'f stark_crypto \<Rightarrow> ChainId \<Rightarrow> OracleCommand \<Rightarrow> ('f, OracleOutcome) flow \<Rightarrow> bool" where
  "runs_settled S X K chain command f \<equiv>
     wp (\<lambda>h e. True) (\<lambda>h e. authorized S X K chain command e)
       (\<lambda>h outcome. length h \<le> 29 \<and>
          (\<forall>kind. command_kind command = Some kind \<longrightarrow> (\<exists>r. outcome_operation outcome = Some r \<and> settled kind h r))) f []"

lemma tracked_runs_settled:
  fixes f :: "('f, 'g GatewayResponse gateway_result) flow"
  assumes "wp (\<lambda>h e. True) (\<lambda>h e. authorized S X K chain command e)
      (\<lambda>h r. settled kind h (map_sum id gr_operation r) \<and> length h \<le> n) f []"
    and "n \<le> 29" and "command_kind command = Some kind" and "\<And>t. outcome_operation (Ok (wrap t)) = Some (Inr (tc_operation t))"
  shows "runs_settled S X K chain command (tracked_outcome wrap f)"
  unfolding wp_bind wp.simps using assms(1)
proof (rule wp_mono)
  fix h and r :: "'g GatewayResponse gateway_result"
  assume "settled kind h (map_sum id gr_operation r) \<and> length h \<le> n"
  then show "length h \<le> 29 \<and> (\<forall>kind. command_kind command = Some kind \<longrightarrow>
      (\<exists>s. outcome_operation (case map_sum id tracked_result r of Inr x \<Rightarrow> Ok (wrap x) | Inl error \<Rightarrow> Error error) = Some s \<and> settled kind h s))"
    using assms(2-4) by (cases r) (auto simp: tracked_result_def)
qed

lemma command_settled: "runs_settled S X K chain command (handle_command S X K N chain command)"
proof (cases command)
  case (DeriveAccount d)
  then show ?thesis
    unfolding handle_command_def DeriveAccount OracleCommand.case
    by (intro tracked_runs_settled [OF cmd.derive_tracked]) (simp_all add: resolves_authorized)
next
  case (CheckDeployment d)
  then show ?thesis
    unfolding handle_command_def CheckDeployment OracleCommand.case
    by (intro tracked_runs_settled [OF cmd.check_tracked]) (simp_all add: resolves_authorized)
next
  case (DeployAccount r)
  then show ?thesis
    unfolding handle_command_def DeployAccount OracleCommand.case
    by (intro tracked_runs_settled [OF cmd.deploy_tracked]) (simp_all add: resolves_authorized)
next
  case (Sign q)
  then show ?thesis
    unfolding handle_command_def Sign OracleCommand.case
    by (intro tracked_runs_settled [OF cmd.sign_tracked]) (simp_all add: resolves_authorized)
next
  case (QueryAccountSnapshot q)
  then show ?thesis
    unfolding handle_command_def QueryAccountSnapshot OracleCommand.case
    by (intro tracked_runs_settled [OF cmd.snapshot_tracked]) simp_all
qed (simp_all add: handle_command_def operation_status_def)

definition admitted :: "string option option \<Rightarrow> OracleRequest \<Rightarrow> bool" where
  "admitted env request \<longleftrightarrow> or_version request = V1_0 \<and>
     (require_confirm_env_enabled env \<longrightarrow> or_confirm request \<or>
       \<not> (\<exists>q. or_command request = OracleCommand.Sign q \<or> (\<exists>d. or_command request = OracleCommand.DeployAccount d)))"

lemma admitted_iff:
  "admitted env request \<longleftrightarrow> or_version request = V1_0 \<and> require_confirm_if_enabled env request = None"
  by (auto simp: admitted_def require_confirm_if_enabled_def Let_def split: OracleCommand.splits if_splits)

lemma request_settled:
  "wp (\<lambda>h e. True) (\<lambda>h e. admitted env request \<and> authorized S X K chain (or_command request) e)
     (\<lambda>h response. length h \<le> 29 \<and>
        (if admitted env request
         then \<forall>kind. command_kind (or_command request) = Some kind \<longrightarrow>
                (\<exists>r. outcome_operation (op_outcome response) = Some r \<and> settled kind h r)
         else h = [] \<and> (\<exists>e. op_outcome response = Error e)))
     (handle_request S X K N chain env request) []"
proof (cases "admitted env request")
  case True
  then show ?thesis
    using command_settled [of S X K chain "or_command request" N] by (simp add: handle_request_def admitted_iff)
next
  case False
  then show ?thesis
    by (auto simp: handle_request_def admitted_iff Let_def split: option.split)
qed

section \<open>Properties\<close>

text \<open>
  C12. What a caller is told is what is on record. A request that is admitted records its operation as queued, then as
  running, then in exactly one final state, under one identifier, and returns with it: with that record if it succeeded,
  and with the error that the record says it was rejected for. Only when no identifier can be made for lack of entropy
  is nothing recorded, and a request that is not admitted has no effect at all. This holds for all answers of the clock,
  the resolver and the backend, and however other requests run in between.
\<close>

theorem operation_lifecycle:
  assumes "steps (handle_request S X K N chain env request) tr (Done response)"
    and "command_kind (or_command request) = Some kind"
  shows "if admitted env request
    then \<exists>r. outcome_operation (op_outcome response) = Some r \<and> settled kind tr r
    else tr = [] \<and> (\<exists>e. op_outcome response = Error e)"
  using wp_done [OF assms(1) request_settled] assms(2) by (auto split: if_splits)

definition sample_derivation :: "ChainId \<Rightarrow> OracleRequest" where
  "sample_derivation chain =
     \<lparr>or_version = V1_0, or_id = RequestId ''1'', or_confirm = False, or_command = OracleCommand.DeriveAccount
       \<lparr>dr_secret = SecretRef ''wallet'', dr_key_domain = KeyDomain.StarknetAccount, dr_chain_id = chain,
        dr_path = \<lparr>dp_coin_type = 9004, dp_account_index = 0, dp_address_index = 0\<rparr>,
        dr_account_class = \<lparr>cs_kind = AccountClassKind.OpenZeppelin, cs_class_hash = None, cs_source_label = None,
          cs_allow_unlisted_class_hash = False\<rparr>,
        dr_salt_policy = SaltPolicySpec.PublicKey\<rparr>\<rparr>"

abbreviation sample_op :: "OperationState \<Rightarrow> OperationStatus" where
  "sample_op state \<equiv> op_in (OperationId (''derive-'' @ replicate 32 CHR ''0'')) OperationKind.DeriveAccount state None"

abbreviation sample_handling :: "ChainId \<Rightarrow> (zfelt, OracleResponse) flow" where
  "sample_handling chain \<equiv> handle_request stark_dlog zformat zcrypto
     \<lparr>schnorr_from_slice = Inr, schnorr_verifying_key = id, schnorr_sign_raw = \<lambda>k m a. Inr m\<rparr> Sepolia None (sample_derivation chain)"

lemma sample_begin:
  assumes "steps (bind_flow (derive_account_descriptor stark_dlog zformat zcrypto Sepolia d) (\<lambda>r.
       case r of
         Inr (_, account) \<Rightarrow> complete_flow (sample_op Queued) Completed (Some (ac_provenance account)) account
       | Inl error \<Rightarrow> reject_flow (sample_op Queued) error None)) tr f"
  shows "steps (derive_account stark_dlog zformat zcrypto Sepolia d)
    ([EvRandom 16 (Inr (replicate 16 0)), EvNow 1, EvInsert (sample_op Queued) 1, EvNow 2, EvInsert (sample_op Running) 2] @ tr) f"
proof -
  have "hex_digit 0 = CHR ''0''" by code_simp
  then have "concat (map hex_byte (replicate n 0)) = replicate (2 * n) CHR ''0''" for n
    by (induction n) (simp_all add: hex_byte_def)
  from this [of 16] have hex: "hex_encode zformat (replicate 16 0) = replicate 32 CHR ''0''" by (simp add: zformat_def)
  have "dropWhile is_whitespace (''derive-'' @ replicate 32 CHR ''0'') = ''derive-'' @ replicate 32 CHR ''0''"
    by (simp add: is_whitespace_def)
  then have "trim (''derive-'' @ replicate 32 CHR ''0'') \<noteq> []"
    unfolding trim_def by (simp add: is_whitespace_def dropWhile_eq_Nil_conv)
  then have op: "operation_id_new (operation_prefix OperationKind.DeriveAccount @ ''-'' @ replicate 32 CHR ''0'') =
      Inr (OperationId (''derive-'' @ replicate 32 CHR ''0''))"
    by (simp add: operation_id_new_def)
  show ?thesis
    unfolding derive_account_def begin_operation_def set_operation_def Let_def bind_flow.simps append.simps
    apply (rule steps_question)
    unfolding sum.case hex op [unfolded append.simps] bind_flow.simps
    apply (rule steps_question)+
    unfolding sum.case OperationStatus.select_convs bind_flow.simps
    apply (rule steps_question)+
    by (rule assms [unfolded set_operation_def Let_def OperationStatus.select_convs bind_flow.simps append.simps])
qed

lemma steps_bind:
  assumes "steps f tr f'"
  shows "steps (bind_flow f g) tr (bind_flow f' g)"
  using assms
proof (induction rule: steps.induct)
  case (steps_snoc f tr f' e f'')
  have "flow_next (bind_flow f' g) e (bind_flow f'' g)" using steps_snoc.hyps(2) by (cases f') auto
  with steps_snoc.IH show ?case by (rule steps.steps_snoc)
qed (rule steps_Nil)

lemma sample_admitted: "admitted None (sample_derivation chain)"
  by (simp add: admitted_def sample_derivation_def require_confirm_env_enabled_def)

lemma sample_run:
  assumes "steps (derive_account stark_dlog zformat zcrypto Sepolia (case or_command (sample_derivation chain) of OracleCommand.DeriveAccount d \<Rightarrow> d)) tr f"
  shows "\<exists>f'. steps (sample_handling chain) tr f' \<and> (\<forall>r. f = Done r \<longrightarrow> (\<exists>response. f' = Done response))"
proof -
  have "or_version (sample_derivation chain) = V1_0" "require_confirm_if_enabled None (sample_derivation chain) = None"
    using sample_admitted [of chain] by (simp_all add: admitted_iff)
  then show ?thesis
    using steps_bind [OF steps_bind [OF assms]]
    by (force simp: handle_request_def handle_command_def sample_derivation_def)
qed

theorem operation_lifecycle_witness:
  "\<exists>response r tr. steps (sample_handling Mainnet) tr (Done response) \<and> length tr = 7 \<and>
     outcome_operation (op_outcome response) = Some r \<and> settled OperationKind.DeriveAccount tr r"
proof -
  define d where "d = (case or_command (sample_derivation Mainnet) of OracleCommand.DeriveAccount d \<Rightarrow> d)"
  obtain e where e: "derive_account_descriptor stark_dlog zformat zcrypto Sepolia d = Done (Inl e)"
    by (simp add: derive_account_descriptor_def d_def sample_derivation_def ensure_chain_matches_def)
  have "steps (reject_flow (sample_op Queued) e None :: (zfelt, AccountDescriptor GatewayResponse gateway_result) flow)
      [EvNow 3, EvInsert (sample_op (OperationState.Rejected e)) 3] (Done (Inl e))"
    by (simp add: reject_operation_def set_operation_def Let_def) (intro steps_question steps_Nil)
  from sample_begin [of d, unfolded e bind_flow.simps sum.case, OF this] obtain response tr
    where run: "steps (sample_handling Mainnet) tr (Done response)" "length tr = 7"
    using sample_run [of Mainnet] unfolding d_def [symmetric] by fastforce
  have "command_kind (or_command (sample_derivation Mainnet)) = Some OperationKind.DeriveAccount"
    by (simp add: sample_derivation_def)
  from operation_lifecycle [OF run(1) this] run show ?thesis by (auto simp: sample_admitted)
qed

text \<open>
  C11. Secrets are used only for requests that passed every check. Whenever a request resolves a key or submits a
  deployment, at any point of its run and whatever the answers before, it has the supported version and was confirmed if
  the confirmation gate asks for it, and the secret, its key domain and path, and what is deployed, are those of the
  command, checked against the chain of the backend.
\<close>

theorem secrets_guarded:
  assumes "steps (handle_request S X K N chain env request) tr f" and "e \<in> set tr"
  shows "admitted env request \<and> authorized S X K chain (or_command request) e"
proof -
  obtain i where "i < length tr" "e = tr ! i" using assms(2) by (auto simp: in_set_conv_nth)
  with wp_event [OF assms(1) request_settled, of i] show ?thesis by simp
qed

theorem secrets_guarded_witness:
  "\<exists>f tr. steps (sample_handling Sepolia) tr f \<and>
     tr ! 5 = EvResolve (SecretRef ''wallet'') KeyDomain.StarknetAccount \<lparr>dp_coin_type = 9004, dp_account_index = 0, dp_address_index = 0\<rparr>
       (Inr (zfelt_of 5)) \<and>
     authorized stark_dlog zformat zcrypto Sepolia (or_command (sample_derivation Sepolia)) (tr ! 5)"
proof -
  define d where "d = (case or_command (sample_derivation Sepolia) of OracleCommand.DeriveAccount d \<Rightarrow> d)"
  define e where "e = EvResolve (SecretRef ''wallet'') KeyDomain.StarknetAccount
    \<lparr>dp_coin_type = 9004, dp_account_index = 0, dp_address_index = 0\<rparr> (Inr (zfelt_of 5))"
  have "\<exists>f. steps (derive_account_descriptor stark_dlog zformat zcrypto Sepolia d) [e] f"
    by (rule exI, rule steps_Cons [OF steps_Nil])
      (simp add: derive_account_descriptor_def d_def sample_derivation_def ensure_chain_matches_def derivation_validate_def
        validate_for_def e_def)
  then obtain f where f: "steps (derive_account_descriptor stark_dlog zformat zcrypto Sepolia d) [e] f" by blast
  define evs :: "zfelt history" where "evs = [EvRandom 16 (Inr (replicate 16 0)), EvNow 1, EvInsert (sample_op Queued) 1, EvNow 2,
    EvInsert (sample_op Running) 2]"
  from sample_run [OF sample_begin [OF steps_bind [OF f], folded evs_def, unfolded d_def]]
  obtain f' where run: "steps (sample_handling Sepolia) (evs @ [e]) f'" by (elim exE conjE)
  moreover have "(evs @ [e]) ! 5 = e" by (simp add: evs_def nth_append)
  ultimately show ?thesis
    using secrets_guarded [OF run, of e] unfolding e_def by (intro exI [of _ f'] exI [of _ "evs @ [e]"]) (simp add: e_def)
qed

end
