(* ===== verification/Provider.thy ===== *)
theory Provider
  imports Gateway_Lifecycle
begin

text \<open>
  What the Starknet backend of the gateway calls: the JSON-RPC provider and the account factory of \<open>starknet-rs\<close> and the
  timers of \<open>tokio\<close>, as a record of functions on a state of the world, with the types of their arguments and answers.
\<close>

datatype StarknetError =
    ClassHashNotFound | ContractNotFound | EntrypointNotFound | TransactionHashNotFound | InsufficientAccountBalance
  | InsufficientResourcesForValidate | ValidationFailure string | UnexpectedError string | OtherStarknetError string

text \<open>A failure of HTTP: what it is, and its text, which has the address of the endpoint in it.\<close>

record HttpError =
  he_is_timeout :: bool
  he_is_connect :: bool
  he_status :: "u16 option"
  he_is_decode :: bool
  he_text :: string

datatype BoundedHttpTransportError =
    Reqwest HttpError | Json string | ResponseTooLarge nat | UnexpectedResponseId u64 | InvalidNumericResponseId
  | BatchError int string

datatype JsonRpcClientError =
    JsonError string | TransportError BoundedHttpTransportError | JsonRpcError int string

text \<open>\<open>Other None\<close> is an error of another implementation of the provider.\<close>

datatype ProviderError =
    StarknetError StarknetError | RateLimited | ArrayLengthMismatch | Other "JsonRpcClientError option"

datatype AccountFactoryError = Provider ProviderError | Signing string | FeeOutOfRange

datatype 'f BlockId = TagLatest | TagPreConfirmed | BlockNumber u64 | BlockHash 'f

record 'f FunctionCall =
  fc_contract_address :: 'f
  fc_entry_point_selector :: 'f
  fc_calldata :: "'f list"

datatype 'f MaybePreConfirmedBlock = Block 'f u64 | PreConfirmedBlock u64

datatype TransactionFinalityStatus = PreConfirmed | AcceptedOnL2 | AcceptedOnL1

datatype ExecutionResult = Succeeded | Reverted string

datatype TransactionStatus =
    Received | Candidate | StatusPreConfirmed ExecutionResult | StatusAcceptedOnL2 ExecutionResult
  | StatusAcceptedOnL1 ExecutionResult

record FeeEstimate =
  fe_l1_gas_consumed :: u64
  fe_l1_gas_price :: u128
  fe_l2_gas_consumed :: u64
  fe_l2_gas_price :: u128
  fe_l1_data_gas_consumed :: u64
  fe_l1_data_gas_price :: u128

text \<open>The builder of a deployment: what it was made from, and the values that have been set.\<close>

record 'f AccountDeployment =
  dp_class_hash :: 'f
  dp_chain_id :: 'f
  dp_secret_scalar :: 'f
  dp_salt :: 'f
  dp_tip :: "u64 option"
  dp_l1_gas :: "u64 option"
  dp_l1_gas_price :: "u128 option"
  dp_l2_gas :: "u64 option"
  dp_l2_gas_price :: "u128 option"
  dp_l1_data_gas :: "u64 option"
  dp_l1_data_gas_price :: "u128 option"

datatype TransactionObservation = Pending | Accepted | ObservedReverted string

type_synonym ('w, 'a) act = "'w \<Rightarrow> 'a \<times> 'w"

text \<open>
  \<open>pv_new_factory\<close> is \<open>OpenZeppelinAccountFactory::new\<close>, which asks the signer for its public key; \<open>pv_timeout\<close> is
  \<open>tokio::time::timeout\<close>, with \<open>None\<close> when the timer fires first; instants and durations are nanoseconds.
  \<open>pv_selector\<close> is \<open>get_selector_from_name\<close>, and the \<open>pv_show\<close> fields are \<open>Display\<close>.
\<close>

record ('f, 'w) provider =
  pv_get_class_hash_at :: "'f BlockId \<Rightarrow> 'f \<Rightarrow> ('w, ProviderError + 'f) act"
  pv_get_nonce :: "'f BlockId \<Rightarrow> 'f \<Rightarrow> ('w, ProviderError + 'f) act"
  pv_call :: "'f FunctionCall \<Rightarrow> 'f BlockId \<Rightarrow> ('w, ProviderError + 'f list) act"
  pv_block_hash_and_number :: "('w, ProviderError + 'f \<times> u64) act"
  pv_get_block_with_tx_hashes :: "'f BlockId \<Rightarrow> ('w, ProviderError + 'f MaybePreConfirmedBlock) act"
  pv_get_transaction_receipt :: "'f \<Rightarrow> ('w, ProviderError + TransactionFinalityStatus \<times> ExecutionResult) act"
  pv_get_transaction_status :: "'f \<Rightarrow> ('w, ProviderError + TransactionStatus) act"
  pv_new_factory :: "'f \<Rightarrow> 'f \<Rightarrow> 'f \<Rightarrow> ('w, string + unit) act"
  pv_estimate_fee :: "'f AccountDeployment \<Rightarrow> ('w, AccountFactoryError + FeeEstimate) act"
  pv_send :: "'f AccountDeployment \<Rightarrow> ('w, AccountFactoryError + 'f) act"
  pv_instant_now :: "('w, nat) act"
  pv_sleep :: "nat \<Rightarrow> 'w \<Rightarrow> 'w"
  pv_timeout :: "nat \<Rightarrow> ('w, TransactionObservation result) act \<Rightarrow> ('w, TransactionObservation result option) act"
  pv_selector :: "string \<Rightarrow> 'f"
  pv_show_felt :: "'f \<Rightarrow> string"
  pv_show_starknet_error :: "StarknetError \<Rightarrow> string"
  pv_show_provider_error :: "ProviderError \<Rightarrow> string"

definition bind_act :: "('w, 'a) act \<Rightarrow> ('a \<Rightarrow> ('w, 'b) act) \<Rightarrow> ('w, 'b) act" where
  "bind_act m f w = (case m w of (a, w') \<Rightarrow> f a w')"

definition done_act :: "'a \<Rightarrow> ('w, 'a) act" where
  "done_act a w = (a, w)"

text \<open>\<open>m.await?\<close> and \<open>m.await.map_err(g)\<close>.\<close>

abbreviation try_act :: "('w, 'e + 'a) act \<Rightarrow> ('a \<Rightarrow> ('w, 'e + 'b) act) \<Rightarrow> ('w, 'e + 'b) act" where
  "try_act m f \<equiv> bind_act m (\<lambda>r. case r of Inl e \<Rightarrow> done_act (Inl e) | Inr x \<Rightarrow> f x)"

abbreviation map_err_act :: "('e \<Rightarrow> 'g) \<Rightarrow> ('w, 'e + 'a) act \<Rightarrow> ('w, 'g + 'a) act" where
  "map_err_act g m \<equiv> bind_act m (\<lambda>r. done_act (map_err g r))"

end
