(* ===== verification/Gateway_Backend.thy ===== *)
theory Gateway_Backend
  imports Provider Fee_Ceiling
begin

text \<open>
  The Starknet backend of the gateway: queries and deployments over JSON-RPC, and the wait for a transaction. The lemmas
  show that the wait ends after a bounded number of polls and reports an acceptance only if the node did, that a balance
  is the number the token answered, and what a deployment signs.
\<close>

section \<open>Errors\<close>

definition show_int :: "int \<Rightarrow> string" where
  "show_int n = (if n < 0 then ''-'' @ show_nat (nat (- n)) else show_nat (nat n))"

definition http_error_kind :: "HttpError \<Rightarrow> string" where
  "http_error_kind http =
     (if he_is_timeout http then ''timeout''
      else if he_is_connect http then ''connect''
      else case he_status http of
             Some status \<Rightarrow> ''status '' @ show_nat (unat status)
           | None \<Rightarrow> if he_is_decode http then ''decode'' else ''other'')"

definition transport_error_kind :: "JsonRpcClientError option \<Rightarrow> string" where
  "transport_error_kind error =
     (case error of
        None \<Rightarrow> ''other''
      | Some error \<Rightarrow>
          (case error of
             JsonRpcClientError.JsonError _ \<Rightarrow> ''decode''
           | JsonRpcError code _ \<Rightarrow> ''json-rpc code '' @ show_int code
           | TransportError error \<Rightarrow>
               (case error of
                  Json _ \<Rightarrow> ''decode''
                | BatchError code _ \<Rightarrow> ''json-rpc code '' @ show_int code
                | Reqwest http \<Rightarrow> http_error_kind http
                | ResponseTooLarge limit \<Rightarrow> ''response exceeds '' @ show_nat limit @ '' bytes''
                | UnexpectedResponseId _ \<Rightarrow> ''other''
                | InvalidNumericResponseId \<Rightarrow> ''other'')))"

definition provider_error_message :: "('f, 'w) provider \<Rightarrow> ProviderError \<Rightarrow> string" where
  "provider_error_message P error =
     (case error of
        Other inner \<Rightarrow> ''provider transport error: '' @ transport_error_kind inner
      | _ \<Rightarrow> pv_show_provider_error P error)"

definition provider_transport_error :: "string \<Rightarrow> GatewayError" where
  "provider_transport_error message = gateway_error ProviderTransport True (Some message)"

definition map_provider_error :: "('f, 'w) provider \<Rightarrow> ProviderError \<Rightarrow> GatewayError" where
  "map_provider_error P error = provider_transport_error (provider_error_message P error)"

definition is_contract_not_found :: "ProviderError \<Rightarrow> bool" where
  "is_contract_not_found error = (error = StarknetError StarknetError.ContractNotFound)"

definition is_entrypoint_not_found :: "ProviderError \<Rightarrow> bool" where
  "is_entrypoint_not_found error = (error = StarknetError EntrypointNotFound)"

definition is_transaction_hash_not_found :: "ProviderError \<Rightarrow> bool" where
  "is_transaction_hash_not_found error = (error = StarknetError TransactionHashNotFound)"

definition is_already_deployed_validation_failure :: "string \<Rightarrow> bool" where
  "is_already_deployed_validation_failure message =
     (let lower = to_ascii_lowercase message
      in contains lower ''contractaddress has already been deployed'' \<or>
         contains lower ''already been deployed'' \<or>
         contains lower ''alreadydeployed'')"

definition map_deploy_textual_starknet_error :: "string \<Rightarrow> GatewayErrorCode \<Rightarrow> bool \<Rightarrow> GatewayError" where
  "map_deploy_textual_starknet_error message fallback_code retryable =
     (if is_already_deployed_validation_failure message
      then map_kms_error (KmsError.AlreadyDeployed message)
      else gateway_error fallback_code retryable (Some message))"

definition map_deploy_starknet_error :: "('f, 'w) provider \<Rightarrow> StarknetError \<Rightarrow> GatewayError" where
  "map_deploy_starknet_error P error =
     (case error of
        ClassHashNotFound \<Rightarrow> map_kms_error (KmsError.InvalidClassHash ''ClassHashNotFound'')
      | StarknetError.ContractNotFound \<Rightarrow> map_kms_error (KmsError.ContractNotFound ''ContractNotFound'')
      | InsufficientAccountBalance \<Rightarrow> map_kms_error (InsufficientFeeBalance (pv_show_starknet_error P error))
      | InsufficientResourcesForValidate \<Rightarrow> map_kms_error (InsufficientFeeBalance (pv_show_starknet_error P error))
      | ValidationFailure message \<Rightarrow> map_deploy_textual_starknet_error message InvalidRequest False
      | UnexpectedError message \<Rightarrow> map_deploy_textual_starknet_error message RpcDegraded True
      | _ \<Rightarrow> gateway_error InvalidRequest False (Some (pv_show_starknet_error P error)))"

definition map_deploy_provider_error :: "('f, 'w) provider \<Rightarrow> ProviderError \<Rightarrow> GatewayError" where
  "map_deploy_provider_error P error =
     (case error of
        StarknetError error \<Rightarrow> map_deploy_starknet_error P error
      | _ \<Rightarrow> map_provider_error P error)"

definition map_deploy_submission_error :: "('f, 'w) provider \<Rightarrow> AccountFactoryError \<Rightarrow> GatewayError" where
  "map_deploy_submission_error P error =
     (case error of
        Provider error \<Rightarrow> map_deploy_provider_error P error
      | Signing error \<Rightarrow> map_kms_error (CryptoError error)
      | FeeOutOfRange \<Rightarrow> gateway_error InvalidRequest False (Some ''fee calculation overflow''))"

section \<open>Queries\<close>

definition core_felt_to_rs :: "('f, 'p, 'a, 'r) starknet \<Rightarrow> 'f \<Rightarrow> 'f" where
  "core_felt_to_rs S felt = felt_from_bytes_be S (felt_to_bytes_be S felt)"

definition rs_felt_to_core :: "('f, 'p, 'a, 'r) starknet \<Rightarrow> 'f \<Rightarrow> 'f" where
  "rs_felt_to_core S felt = felt_from_bytes_be S (felt_to_bytes_be S felt)"

definition rs_felt_to_biguint :: "('f, 'p, 'a, 'r) starknet \<Rightarrow> 'f \<Rightarrow> nat" where
  "rs_felt_to_biguint S felt = be_val (felt_to_bytes_be S felt)"

fun to_block_id :: "('f, 'p, 'a, 'r) starknet \<Rightarrow> 'f felt_format \<Rightarrow> BlockSelector \<Rightarrow> 'f BlockId" where
  "to_block_id S X BlockSelector.Latest = TagLatest"
| "to_block_id S X BlockSelector.Pending = TagPreConfirmed"
| "to_block_id S X (BlockSelector.Number number) = BlockNumber number"
| "to_block_id S X (BlockSelector.Hash hash) = BlockHash (core_felt_to_rs S (felthex_to_felt X hash))"

definition call_erc20_balance_with_selector_fallback ::
    "('f, 'w) provider \<Rightarrow> 'f FunctionCall \<Rightarrow> 'f BlockId \<Rightarrow> 'f FunctionCall \<Rightarrow> ('w, 'f list gateway_result) act" where
  "call_erc20_balance_with_selector_fallback P primary_call block_id fallback_call =
     bind_act (pv_call P primary_call block_id) (\<lambda>r.
       case r of
         Inr result \<Rightarrow> done_act (Inr result)
       | Inl primary_error \<Rightarrow>
           if is_entrypoint_not_found primary_error
           then map_err_act (\<lambda>fallback_error. provider_transport_error
                    (''failed calling balance_of after typed entrypoint-not-found fallback: primary='' @
                     pv_show_provider_error P primary_error @ ''; fallback='' @ provider_error_message P fallback_error))
                  (pv_call P fallback_call block_id)
           else done_act (Inl (map_provider_error P primary_error)))"

definition backend_check_deployed ::
    "('f, 'p, 'a, 'r) starknet \<Rightarrow> 'f felt_format \<Rightarrow> ('f, 'w) provider \<Rightarrow> FeltHex \<Rightarrow> BlockSelector \<Rightarrow> ('w, bool gateway_result) act" where
  "backend_check_deployed S X P address block =
     bind_act (pv_get_class_hash_at P (to_block_id S X block) (core_felt_to_rs S (felthex_to_felt X address))) (\<lambda>r.
       case r of
         Inr _ \<Rightarrow> done_act (Inr True)
       | Inl error \<Rightarrow>
           if is_contract_not_found error then done_act (Inr False) else done_act (Inl (map_provider_error P error)))"

definition backend_nonce ::
    "('f, 'p, 'a, 'r) starknet \<Rightarrow> 'f felt_format \<Rightarrow> ('f, 'w) provider \<Rightarrow> FeltHex \<Rightarrow> BlockSelector \<Rightarrow> ('w, FeltHex gateway_result) act" where
  "backend_nonce S X P address block =
     try_act (map_err_act (map_provider_error P)
       (pv_get_nonce P (to_block_id S X block) (core_felt_to_rs S (felthex_to_felt X address)))) (\<lambda>nonce.
     done_act (Inr (felthex_from_felt X (rs_felt_to_core S nonce))))"

definition backend_token_balance ::
    "('f, 'p, 'a, 'r) starknet \<Rightarrow> 'f felt_format \<Rightarrow> ('f, 'w) provider \<Rightarrow> FeltHex \<Rightarrow> TrackedToken \<Rightarrow> BlockSelector \<Rightarrow>
     ('w, string gateway_result) act" where
  "backend_token_balance S X P address token block =
     (let token_address = core_felt_to_rs S (felthex_to_felt X (tt_address token));
          account_address = core_felt_to_rs S (felthex_to_felt X address);
          block_id = to_block_id S X block;
          balance_call = (\<lambda>selector. \<lparr>fc_contract_address = token_address, fc_entry_point_selector = selector,
            fc_calldata = [account_address]\<rparr>)
      in try_act (call_erc20_balance_with_selector_fallback P (balance_call (pv_selector P ''balance_of'')) block_id
                    (balance_call (pv_selector P ''balanceOf''))) (\<lambda>result.
         if result = []
         then done_act (Inl (gateway_error ProviderTransport True
                (Some (''empty balance response for token '' @ tt_symbol token))))
         else
           let low = rs_felt_to_biguint S (result ! 0);
               high = (if length result > 1 then rs_felt_to_biguint S (result ! 1) else 0)
           in done_act (Inr (show_nat (high * 2 ^ 128 + low)))))"

definition backend_block_metadata ::
    "('f, 'p, 'a, 'r) starknet \<Rightarrow> 'f felt_format \<Rightarrow> ('f, 'w) provider \<Rightarrow> BlockSelector \<Rightarrow>
     ('w, SnapshotBlockMetadata gateway_result) act" where
  "backend_block_metadata S X P block =
     (if block = BlockSelector.Latest
      then try_act (map_err_act (map_provider_error P) (pv_block_hash_and_number P)) (\<lambda>(block_hash, block_number).
             done_act (Inr \<lparr>sb_selector = block, sb_block_hash = Some (felthex_from_felt X (rs_felt_to_core S block_hash)),
               sb_block_number = Some block_number\<rparr>))
      else try_act (map_err_act (map_provider_error P) (pv_get_block_with_tx_hashes P (to_block_id S X block))) (\<lambda>block_info.
             let (block_hash, block_number) = (case block_info of
                   Block block_hash block_number \<Rightarrow>
                     (Some (felthex_from_felt X (rs_felt_to_core S block_hash)), Some block_number)
                 | PreConfirmedBlock block_number \<Rightarrow> (None, Some block_number))
             in done_act (Inr \<lparr>sb_selector = block, sb_block_hash = block_hash, sb_block_number = block_number\<rparr>)))"

section \<open>Waiting\<close>

definition classify_execution :: "TransactionFinalityStatus \<Rightarrow> ExecutionResult \<Rightarrow> TransactionObservation" where
  "classify_execution finality_status execution_result =
     (case execution_result of
        Reverted reason \<Rightarrow> ObservedReverted reason
      | Succeeded \<Rightarrow>
          (case finality_status of
             PreConfirmed \<Rightarrow> TransactionObservation.Pending
           | AcceptedOnL2 \<Rightarrow> TransactionObservation.Accepted
           | AcceptedOnL1 \<Rightarrow> TransactionObservation.Accepted))"

definition classify_transaction_status :: "TransactionStatus \<Rightarrow> TransactionObservation" where
  "classify_transaction_status status =
     (case status of
        Received \<Rightarrow> TransactionObservation.Pending
      | Candidate \<Rightarrow> TransactionObservation.Pending
      | StatusPreConfirmed execution \<Rightarrow> classify_execution PreConfirmed execution
      | StatusAcceptedOnL2 execution \<Rightarrow> classify_execution AcceptedOnL2 execution
      | StatusAcceptedOnL1 execution \<Rightarrow> classify_execution AcceptedOnL1 execution)"

definition observe_transaction ::
    "'f felt_format \<Rightarrow> ('f, 'w) provider \<Rightarrow> 'f \<Rightarrow> ('w, TransactionObservation result) act" where
  "observe_transaction X P tx_hash =
     bind_act (pv_get_transaction_receipt P tx_hash) (\<lambda>r.
       case r of
         Inr (finality_status, execution_result) \<Rightarrow> done_act (Inr (classify_execution finality_status execution_result))
       | Inl receipt_error \<Rightarrow>
           bind_act (pv_get_transaction_status P tx_hash) (\<lambda>r.
             case r of
               Inr status \<Rightarrow> done_act (Inr (classify_transaction_status status))
             | Inl status_error \<Rightarrow>
                 if is_transaction_hash_not_found receipt_error \<and> is_transaction_hash_not_found status_error
                 then done_act (Inr TransactionObservation.Pending)
                 else done_act (Inl (RpcError (''failed to query transaction '' @ ff_hex_alt X tx_hash @ '': receipt error: '' @
                        provider_error_message P receipt_error @ ''; status error: '' @ provider_error_message P status_error)))))"

definition await_before_deadline ::
    "('f, 'w) provider \<Rightarrow> nat \<Rightarrow> ('w, TransactionObservation result) act \<Rightarrow> string \<Rightarrow> ('w, TransactionObservation result) act" where
  "await_before_deadline P deadline future timeout_message =
     bind_act (pv_instant_now P) (\<lambda>now.
     bind_act (pv_timeout P (deadline - now) future) (\<lambda>r.
       case r of None \<Rightarrow> done_act (Inl (KmsError.Timeout timeout_message)) | Some r \<Rightarrow> done_act r))"

text \<open>\<open>Instant::checked_add\<close>: an instant has 63 bits of seconds.\<close>

definition instant_checked_add :: "nat \<Rightarrow> nat \<Rightarrow> nat option" where
  "instant_checked_add t d = (if t + d < 2 ^ 63 * 10 ^ 9 then Some (t + d) else None)"

abbreviation from_millis :: "u64 \<Rightarrow> nat" where
  "from_millis ms \<equiv> unat ms * 10 ^ 6"

definition not_accepted :: "('f, 'w) provider \<Rightarrow> 'f \<Rightarrow> u64 \<Rightarrow> string" where
  "not_accepted P tx_hash timeout_ms =
     ''transaction '' @ pv_show_felt P tx_hash @ '' not accepted within '' @ show_nat (unat timeout_ms) @ ''ms''"

partial_function (option) wait_loop ::
    "'f felt_format \<Rightarrow> ('f, 'w) provider \<Rightarrow> 'f \<Rightarrow> u64 \<Rightarrow> nat \<Rightarrow> nat \<Rightarrow> 'w \<Rightarrow> (unit result \<times> 'w) option" where
  "wait_loop X P tx_hash timeout_ms deadline interval w =
     (case pv_instant_now P w of (now, w) \<Rightarrow>
        if now \<ge> deadline then Some (Inl (KmsError.Timeout (not_accepted P tx_hash timeout_ms)), w)
        else case await_before_deadline P deadline (observe_transaction X P tx_hash) (not_accepted P tx_hash timeout_ms) w of
               (observation, w) \<Rightarrow>
                 (case observation of
                    Inl e \<Rightarrow> Some (Inl e, w)
                  | Inr observation \<Rightarrow>
                      (case observation of
                         TransactionObservation.Pending \<Rightarrow>
                           (case pv_instant_now P w of (now, w) \<Rightarrow>
                              wait_loop X P tx_hash timeout_ms deadline interval (pv_sleep P (min interval (deadline - now)) w))
                       | TransactionObservation.Accepted \<Rightarrow> Some (Inr (), w)
                       | ObservedReverted reason \<Rightarrow>
                           Some (Inl (TransactionReverted (''transaction '' @ ff_hex_alt X tx_hash @ '' reverted: '' @ reason)), w))))"

definition wait_for_acceptance ::
    "'f felt_format \<Rightarrow> ('f, 'w) provider \<Rightarrow> 'f \<Rightarrow> u64 \<Rightarrow> u64 \<Rightarrow> 'w \<Rightarrow> (unit result \<times> 'w) option" where
  "wait_for_acceptance X P tx_hash poll_interval_ms timeout_ms w =
     (case pv_instant_now P w of (now, w) \<Rightarrow>
        case instant_checked_add now (from_millis timeout_ms) of
          None \<Rightarrow> Some (Inl (KmsError.Timeout (''wait timeout_ms='' @ show_nat (unat timeout_ms) @
                    '' exceeds the schedulable clock range'')), w)
        | Some deadline \<Rightarrow>
            wait_loop X P tx_hash timeout_ms deadline (from_millis poll_interval_ms) w)"

section \<open>Deployments\<close>

definition validate_open_zeppelin_descriptor ::
    "('f, 'p, 'a, 'r) starknet \<Rightarrow> 'f felt_format \<Rightarrow> AccountDescriptor \<Rightarrow> 'f \<Rightarrow> unit gateway_result" where
  "validate_open_zeppelin_descriptor S X account derived_public_key =
     (if felthex_to_felt X (ac_public_key account) \<noteq> derived_public_key
      then Inl (gateway_error InvalidRequest False
             (Some ''account descriptor public key does not match the provided private key''))
      else
        let expected_calldata = [felthex_to_felt X (ac_public_key account)];
            actual_calldata = map (felthex_to_felt X) (ac_constructor_calldata account)
        in if actual_calldata \<noteq> expected_calldata
           then Inl (gateway_error ConstructorCalldataMismatch False
                  (Some ''OpenZeppelin deploy descriptor must use constructor calldata [public_key]''))
           else if felthex_to_felt X (ac_deployer_address account) \<noteq> felt_zero S
           then Inl (gateway_error InvalidRequest False
                  (Some ''OpenZeppelin deploy descriptor must use deployer_address = 0x0''))
           else Inr ())"

definition pin_deployment_tip :: "'f AccountDeployment \<Rightarrow> ResourceBoundsCeiling option \<Rightarrow> 'f AccountDeployment" where
  "pin_deployment_tip deployment ceiling =
     deployment\<lparr>dp_tip := Some (case ceiling of None \<Rightarrow> DEFAULT_TIP | Some ceiling \<Rightarrow> ce_max_tip ceiling)\<rparr>"

fun show_fee_ceiling_error :: "FeeCeilingError \<Rightarrow> string" where
  "show_fee_ceiling_error (ZeroCeiling dimension field) =
     ''fee ceiling '' @ dimension @ ''.'' @ field @ '' must be greater than zero''"
| "show_fee_ceiling_error EstimateOutOfRange = ''fee estimate price does not fit the signable range''"
| "show_fee_ceiling_error (Exceeded dimension field proposed ceiling) =
     ''proposed '' @ dimension @ ''.'' @ field @ '' '' @ show_nat (unat proposed) @ '' exceeds fee ceiling '' @
     show_nat (unat ceiling)"

definition bound_deployment ::
    "'f AccountDeployment \<Rightarrow> FeeEstimate \<Rightarrow> ResourceBoundsCeiling \<Rightarrow> 'f AccountDeployment gateway_result" where
  "bound_deployment deployment estimate ceiling =
     and_then
       (map_err (\<lambda>error. gateway_error InvalidRequest False (Some (''fee ceiling: '' @ show_fee_ceiling_error error)))
         (admit_estimate ceiling
           (fe_l1_gas_consumed estimate, fe_l1_gas_price estimate)
           (fe_l2_gas_consumed estimate, fe_l2_gas_price estimate)
           (fe_l1_data_gas_consumed estimate, fe_l1_data_gas_price estimate)))
       (\<lambda>bounds. Inr (deployment\<lparr>dp_tip := Some (ce_max_tip ceiling),
          dp_l1_gas := Some (max_amount (pr_l1_gas bounds)), dp_l1_gas_price := Some (max_price_per_unit (pr_l1_gas bounds)),
          dp_l2_gas := Some (max_amount (pr_l2_gas bounds)), dp_l2_gas_price := Some (max_price_per_unit (pr_l2_gas bounds)),
          dp_l1_data_gas := Some (max_amount (pr_l1_data_gas bounds)),
          dp_l1_data_gas_price := Some (max_price_per_unit (pr_l1_data_gas bounds))\<rparr>))"

record StarknetGatewayBackend =
  sb_chain_id :: ChainId
  sb_deploy_fee_ceiling :: "ResourceBoundsCeiling option"

definition backend_new :: "ChainId \<Rightarrow> StarknetGatewayBackend" where
  "backend_new network = \<lparr>sb_chain_id = network, sb_deploy_fee_ceiling = None\<rparr>"

definition with_deploy_fee_ceiling :: "StarknetGatewayBackend \<Rightarrow> ResourceBoundsCeiling \<Rightarrow> StarknetGatewayBackend" where
  "with_deploy_fee_ceiling self ceiling = self\<lparr>sb_deploy_fee_ceiling := Some ceiling\<rparr>"

text \<open>The deployment that \<open>deploy_v3\<close> of a new factory starts from.\<close>

definition deploy_v3 :: "'f \<Rightarrow> 'f \<Rightarrow> 'f \<Rightarrow> 'f \<Rightarrow> 'f AccountDeployment" where
  "deploy_v3 class_hash chain_id secret_scalar salt =
     \<lparr>dp_class_hash = class_hash, dp_chain_id = chain_id, dp_secret_scalar = secret_scalar, dp_salt = salt, dp_tip = None,
      dp_l1_gas = None, dp_l1_gas_price = None, dp_l2_gas = None, dp_l2_gas_price = None, dp_l1_data_gas = None,
      dp_l1_data_gas_price = None\<rparr>"

definition submit_open_zeppelin_deploy ::
    "('f, 'p, 'a, 'r) starknet \<Rightarrow> 'f felt_format \<Rightarrow> ('f, 'w) provider \<Rightarrow> StarknetGatewayBackend \<Rightarrow> 'f \<Rightarrow> AccountDescriptor \<Rightarrow>
     ('w, 'f gateway_result) act" where
  "submit_open_zeppelin_deploy S X P self private_key account =
     (let signer = core_felt_to_rs S private_key;
          class_hash = core_felt_to_rs S (felthex_to_felt X (ac_class_hash account));
          chain_id = core_felt_to_rs S (chain_as_felt S (pv_chain_id (ac_provenance account)))
      in try_act (map_err_act (\<lambda>error. map_kms_error (CryptoError error)) (pv_new_factory P class_hash chain_id signer)) (\<lambda>_.
         let deployment = pin_deployment_tip
               (deploy_v3 class_hash chain_id signer (core_felt_to_rs S (felthex_to_felt X (ac_salt account))))
               (sb_deploy_fee_ceiling self)
         in try_act
              (case sb_deploy_fee_ceiling self of
                 Some ceiling \<Rightarrow>
                   try_act (map_err_act (map_deploy_submission_error P) (pv_estimate_fee P deployment)) (\<lambda>estimate.
                   done_act (bound_deployment deployment estimate ceiling))
               | None \<Rightarrow> done_act (Inr deployment)) (\<lambda>deployment.
            map_err_act (map_deploy_submission_error P) (pv_send P deployment))))"

definition backend_deploy_open_zeppelin ::
    "('f, 'p, 'a, 'r) starknet \<Rightarrow> 'f felt_format \<Rightarrow> 'f stark_crypto \<Rightarrow> ('f, 'w) provider \<Rightarrow> StarknetGatewayBackend \<Rightarrow> 'f \<Rightarrow>
     AccountDescriptor \<Rightarrow> DeployMode \<Rightarrow> 'w \<Rightarrow> (DeployExecution gateway_result \<times> 'w) option" where
  "backend_deploy_open_zeppelin S X K P self private_key account mode w =
     (let chain_id = pv_chain_id (ac_provenance account)
      in if chain_id \<noteq> sb_chain_id self
         then Some (Inl (gateway_error ChainMismatch False
                (Some (''account descriptor targets '' @ chain_name chain_id @ '', backend is configured for '' @
                   chain_name (sb_chain_id self)))), w)
         else
           case and_then (map_err map_kms_error (stark_public_key S X K private_key))
                  (validate_open_zeppelin_descriptor S X account) of
             Inl e \<Rightarrow> Some (Inl e, w)
           | Inr _ \<Rightarrow>
               (case backend_check_deployed S X P (ac_address account) BlockSelector.Latest w of
                  (Inl e, w) \<Rightarrow> Some (Inl e, w)
                | (Inr deployed, w) \<Rightarrow>
                    if deployed then Some (Inr DeployExecution.AlreadyDeployed, w)
                    else
                      case submit_open_zeppelin_deploy S X P self private_key account w of
                        (Inl e, w) \<Rightarrow> Some (Inl e, w)
                      | (Inr submitted_hash, w) \<Rightarrow>
                          let tx_hash = felthex_from_felt X (rs_felt_to_core S submitted_hash)
                          in case mode of
                               SubmitOnly \<Rightarrow> Some (Inr (DeployExecution.Submitted tx_hash), w)
                             | WaitForAcceptance wait \<Rightarrow>
                                 map_option (\<lambda>(r, w).
                                     (map_sum map_kms_error (\<lambda>_. DeployExecution.Accepted tx_hash) r, w))
                                   (wait_for_acceptance X P submitted_hash (wp_poll_interval_ms wait) (wp_timeout_ms wait) w)))"

section \<open>The loop of the wait\<close>

text \<open>One turn of the loop: the result it returns, or the state in which it goes on.\<close>

definition wait_poll ::
    "'f felt_format \<Rightarrow> ('f, 'w) provider \<Rightarrow> 'f \<Rightarrow> u64 \<Rightarrow> nat \<Rightarrow> nat \<Rightarrow> 'w \<Rightarrow> (unit result \<times> 'w) + 'w" where
  "wait_poll X P tx_hash timeout_ms deadline interval w =
     (case pv_instant_now P w of (now, w) \<Rightarrow>
        if now \<ge> deadline then Inl (Inl (KmsError.Timeout (not_accepted P tx_hash timeout_ms)), w)
        else case await_before_deadline P deadline (observe_transaction X P tx_hash) (not_accepted P tx_hash timeout_ms) w of
               (Inl e, w) \<Rightarrow> Inl (Inl e, w)
             | (Inr TransactionObservation.Pending, w) \<Rightarrow>
                 (case pv_instant_now P w of (now, w) \<Rightarrow> Inr (pv_sleep P (min interval (deadline - now)) w))
             | (Inr TransactionObservation.Accepted, w) \<Rightarrow> Inl (Inr (), w)
             | (Inr (ObservedReverted reason), w) \<Rightarrow>
                 Inl (Inl (TransactionReverted (''transaction '' @ ff_hex_alt X tx_hash @ '' reverted: '' @ reason)), w))"

primrec wait_within ::
    "nat \<Rightarrow> 'f felt_format \<Rightarrow> ('f, 'w) provider \<Rightarrow> 'f \<Rightarrow> u64 \<Rightarrow> nat \<Rightarrow> nat \<Rightarrow> 'w \<Rightarrow> (unit result \<times> 'w) option" where
  "wait_within 0 X P tx_hash timeout_ms deadline interval w = None"
| "wait_within (Suc n) X P tx_hash timeout_ms deadline interval w =
     (case wait_poll X P tx_hash timeout_ms deadline interval w of
        Inl r \<Rightarrow> Some r
      | Inr w \<Rightarrow> wait_within n X P tx_hash timeout_ms deadline interval w)"

lemma wait_loop_poll:
  "wait_loop X P tx_hash timeout_ms deadline interval w =
     (case wait_poll X P tx_hash timeout_ms deadline interval w of
        Inl r \<Rightarrow> Some r
      | Inr w \<Rightarrow> wait_loop X P tx_hash timeout_ms deadline interval w)"
  by (subst wait_loop.simps) (simp add: wait_poll_def split: prod.split sum.split TransactionObservation.split)

lemma wait_loop_within:
  fixes X :: "'f felt_format" and P :: "('f, 'w) provider"
  assumes "wait_loop X P tx_hash timeout_ms deadline interval w = Some y"
  shows "\<exists>n. wait_within n X P tx_hash timeout_ms deadline interval w = Some y"
proof (rule wait_loop.raw_induct [where Pa = "\<lambda>((((((X, P), tx_hash), timeout_ms), deadline), interval), w) y.
      \<exists>n. wait_within n X P tx_hash timeout_ms deadline interval w = Some y", OF _ assms, unfolded prod.case])
  fix loop :: "'f felt_format \<Rightarrow> ('f, 'w) provider \<Rightarrow> 'f \<Rightarrow> u64 \<Rightarrow> nat \<Rightarrow> nat \<Rightarrow> 'w \<Rightarrow> (unit result \<times> 'w) option"
    and X :: "'f felt_format" and P :: "('f, 'w) provider" and tx_hash timeout_ms deadline interval w y
  assume IH: "\<And>X P tx_hash timeout_ms deadline interval w y. loop X P tx_hash timeout_ms deadline interval w = Some y \<Longrightarrow>
      \<exists>n. wait_within n X P tx_hash timeout_ms deadline interval w = Some y"
    and body: "(case pv_instant_now P w of (now, w) \<Rightarrow>
        if now \<ge> deadline then Some (Inl (KmsError.Timeout (not_accepted P tx_hash timeout_ms)), w)
        else case await_before_deadline P deadline (observe_transaction X P tx_hash) (not_accepted P tx_hash timeout_ms) w of
               (observation, w) \<Rightarrow>
                 (case observation of
                    Inl e \<Rightarrow> Some (Inl e, w)
                  | Inr observation \<Rightarrow>
                      (case observation of
                         TransactionObservation.Pending \<Rightarrow>
                           (case pv_instant_now P w of (now, w) \<Rightarrow>
                              loop X P tx_hash timeout_ms deadline interval (pv_sleep P (min interval (deadline - now)) w))
                       | TransactionObservation.Accepted \<Rightarrow> Some (Inr (), w)
                       | ObservedReverted reason \<Rightarrow>
                           Some (Inl (TransactionReverted (''transaction '' @ ff_hex_alt X tx_hash @ '' reverted: '' @ reason)), w)))) = Some y"
  have step: "(case wait_poll X P tx_hash timeout_ms deadline interval w of
      Inl r \<Rightarrow> Some r | Inr w \<Rightarrow> loop X P tx_hash timeout_ms deadline interval w) = Some y"
    using body by (simp add: wait_poll_def split: prod.splits if_splits sum.splits TransactionObservation.splits)
  show "\<exists>n. wait_within n X P tx_hash timeout_ms deadline interval w = Some y"
  proof (cases "wait_poll X P tx_hash timeout_ms deadline interval w")
    case (Inr w')
    with step IH obtain n where "wait_within n X P tx_hash timeout_ms deadline interval w' = Some y" by fastforce
    with Inr show ?thesis by (intro exI [of _ "Suc n"]) simp
  qed (use step in \<open>auto intro: exI [of _ "Suc 0"]\<close>)
qed

section \<open>The node and its timers in use\<close>

text \<open>
  The states of the world that operations of the node and timers lead to, when only good deployments are sent; a timeout
  around a future that does nothing else counts as one.
\<close>

inductive evolves :: "('f, 'w) provider \<Rightarrow> ('f AccountDeployment \<Rightarrow> bool) \<Rightarrow> 'w \<Rightarrow> 'w \<Rightarrow> bool" for P good where
  ev_start: "evolves P good w w"
| ev_class_hash: "evolves P good w w' \<Longrightarrow> evolves P good w (snd (pv_get_class_hash_at P block a w'))"
| ev_nonce: "evolves P good w w' \<Longrightarrow> evolves P good w (snd (pv_get_nonce P block a w'))"
| ev_call: "evolves P good w w' \<Longrightarrow> evolves P good w (snd (pv_call P c block w'))"
| ev_number: "evolves P good w w' \<Longrightarrow> evolves P good w (snd (pv_block_hash_and_number P w'))"
| ev_block: "evolves P good w w' \<Longrightarrow> evolves P good w (snd (pv_get_block_with_tx_hashes P block w'))"
| ev_receipt: "evolves P good w w' \<Longrightarrow> evolves P good w (snd (pv_get_transaction_receipt P tx w'))"
| ev_status: "evolves P good w w' \<Longrightarrow> evolves P good w (snd (pv_get_transaction_status P tx w'))"
| ev_factory: "evolves P good w w' \<Longrightarrow> evolves P good w (snd (pv_new_factory P class_hash chain k w'))"
| ev_estimate: "evolves P good w w' \<Longrightarrow> evolves P good w (snd (pv_estimate_fee P dep w'))"
| ev_send: "evolves P good w w' \<Longrightarrow> good dep \<Longrightarrow> evolves P good w (snd (pv_send P dep w'))"
| ev_instant: "evolves P good w w' \<Longrightarrow> evolves P good w (snd (pv_instant_now P w'))"
| ev_sleep: "evolves P good w w' \<Longrightarrow> evolves P good w (pv_sleep P d w')"
| ev_timeout: "evolves P good w w' \<Longrightarrow> (\<And>w. evolves P good w (snd (f w))) \<Longrightarrow> evolves P good w (snd (pv_timeout P d f w'))"

lemma evolves_trans: "evolves P good w' w'' \<Longrightarrow> evolves P good w w' \<Longrightarrow> evolves P good w w''"
  by (induction rule: evolves.induct) (auto intro: evolves.intros)

abbreviation evolving :: "('f, 'w) provider \<Rightarrow> ('f AccountDeployment \<Rightarrow> bool) \<Rightarrow> ('w, 'a) act \<Rightarrow> bool" where
  "evolving P good m \<equiv> \<forall>w. evolves P good w (snd (m w))"

lemma evolving_bind: "evolving P good m \<Longrightarrow> (\<And>a. evolving P good (f a)) \<Longrightarrow> evolving P good (bind_act m f)"
  by (auto simp: bind_act_def split: prod.split) (metis evolves_trans snd_conv)

lemma evolving_bind_result:
  assumes "\<And>w. evolves P good w (snd (m w)) \<and> Q (fst (m w))" and "\<And>a. Q a \<Longrightarrow> evolving P good (f a)"
  shows "evolving P good (bind_act m f)"
  using assms by (auto simp: bind_act_def split: prod.split) (metis evolves_trans fst_conv snd_conv)

lemma evolving_done: "evolving P good (done_act a)"
  by (simp add: done_act_def ev_start)

lemmas evolving_op = evolves.intros(2-) [OF ev_start]

lemma check_evolving: "evolving P good (backend_check_deployed S X P address block)"
  unfolding backend_check_deployed_def
  by (intro evolving_bind) (simp_all add: evolving_op evolving_done split: sum.split)

lemma nonce_evolving: "evolving P good (backend_nonce S X P address block)"
  unfolding backend_nonce_def
  by (intro evolving_bind) (simp_all add: evolving_op evolving_done split: sum.split)

lemma balance_evolving: "evolving P good (backend_token_balance S X P address token block)"
proof -
  have "evolving P good (call_erc20_balance_with_selector_fallback P c b c')" for c b c'
    unfolding call_erc20_balance_with_selector_fallback_def
    by (intro evolving_bind) (auto simp: evolving_op evolving_done split: sum.split intro!: evolving_bind [rule_format])
  then show ?thesis
    unfolding backend_token_balance_def Let_def
    by (intro evolving_bind) (simp_all add: evolving_done split: sum.split)
qed

lemma block_evolving: "evolving P good (backend_block_metadata S X P block)"
  unfolding backend_block_metadata_def
  by (auto simp: Let_def evolving_done evolving_op split: sum.split prod.split intro!: evolving_bind [rule_format])

lemma observe_evolving: "evolving P good (observe_transaction X P tx)"
  unfolding observe_transaction_def
  by (intro evolving_bind) (auto simp: evolving_op evolving_done split: sum.split intro!: evolving_bind [rule_format])

lemma await_evolving: "evolving P good (await_before_deadline P deadline (observe_transaction X P tx) msg)"
  unfolding await_before_deadline_def
  by (intro evolving_bind) (simp_all add: evolving_op observe_evolving evolving_done split: option.split)

lemma poll_evolves:
  shows "wait_poll X P tx timeout_ms deadline interval w = Inl (r, w') \<Longrightarrow> evolves P good w w'"
    and "wait_poll X P tx timeout_ms deadline interval w = Inr w' \<Longrightarrow> evolves P good w w'"
proof -
  obtain t w1 where w1: "pv_instant_now P w = (t, w1)" by fastforce
  obtain o2 w2 where w2: "await_before_deadline P deadline (observe_transaction X P tx) (not_accepted P tx timeout_ms) w1 = (o2, w2)"
    by fastforce
  obtain t3 w3 where w3: "pv_instant_now P w2 = (t3, w3)" by fastforce
  have e1: "evolves P good w w1" using ev_instant [OF ev_start, of P good w] w1 by simp
  moreover have "evolves P good w1 w2" using await_evolving [of P good deadline X tx "not_accepted P tx timeout_ms"] w2 by (metis snd_conv)
  ultimately have e2: "evolves P good w w2" by (blast intro: evolves_trans)
  from ev_instant [OF this] w3 have "evolves P good w w3" by simp
  with e1 e2 show "wait_poll X P tx timeout_ms deadline interval w = Inl (r, w') \<Longrightarrow> evolves P good w w'"
    and "wait_poll X P tx timeout_ms deadline interval w = Inr w' \<Longrightarrow> evolves P good w w'"
    unfolding wait_poll_def w1 prod.case w2
    by (auto simp: w3 ev_sleep split: if_splits sum.splits TransactionObservation.splits)
qed

lemma within_evolves: "wait_within n X P tx timeout_ms deadline interval w = Some (r, w') \<Longrightarrow> evolves P good w w'"
  by (induction n arbitrary: w) (auto split: sum.splits dest: poll_evolves intro: evolves_trans)

lemma wait_evolves: "wait_for_acceptance X P tx i t w = Some (r, w') \<Longrightarrow> evolves P good w w'"
proof -
  assume wait: "wait_for_acceptance X P tx i t w = Some (r, w')"
  obtain now w1 where w1: "pv_instant_now P w = (now, w1)" by fastforce
  then have e1: "evolves P good w w1" using ev_instant [OF ev_start, of P good w] by simp
  have "w' = w1 \<or> (\<exists>deadline. wait_loop X P tx t deadline (from_millis i) w1 = Some (r, w'))"
    using wait by (auto simp: wait_for_acceptance_def w1 split: option.splits)
  then have "evolves P good w1 w'" using wait_loop_within within_evolves ev_start by metis
  then show ?thesis using e1 by (rule evolves_trans)
qed

text \<open>A property of the world that only a deployment that is not good could break.\<close>

locale node_invariant =
  fixes P :: "('f, 'w) provider" and I :: "'w \<Rightarrow> bool" and good :: "'f AccountDeployment \<Rightarrow> bool"
  assumes class_hash_at: "I w \<Longrightarrow> I (snd (pv_get_class_hash_at P block a w))"
    and get_nonce: "I w \<Longrightarrow> I (snd (pv_get_nonce P block a w))"
    and contract_call: "I w \<Longrightarrow> I (snd (pv_call P c block w))"
    and hash_and_number: "I w \<Longrightarrow> I (snd (pv_block_hash_and_number P w))"
    and block_with_hashes: "I w \<Longrightarrow> I (snd (pv_get_block_with_tx_hashes P block w))"
    and get_receipt: "I w \<Longrightarrow> I (snd (pv_get_transaction_receipt P tx w))"
    and get_status: "I w \<Longrightarrow> I (snd (pv_get_transaction_status P tx w))"
    and new_factory: "I w \<Longrightarrow> I (snd (pv_new_factory P class_hash chain k w))"
    and estimate: "I w \<Longrightarrow> I (snd (pv_estimate_fee P dep w))"
    and send: "good dep \<Longrightarrow> I w \<Longrightarrow> I (snd (pv_send P dep w))"
    and instant: "I w \<Longrightarrow> I (snd (pv_instant_now P w))"
    and sleeping: "I w \<Longrightarrow> I (pv_sleep P d w)"
    and timed: "(\<And>w. I w \<Longrightarrow> I (snd (f w))) \<Longrightarrow> I w \<Longrightarrow> I (snd (pv_timeout P d f w))"
begin

lemma kept: "evolves P good w w' \<Longrightarrow> I w \<Longrightarrow> I w'"
  by (induction rule: evolves.induct)
    (auto intro: class_hash_at get_nonce contract_call hash_and_number block_with_hashes get_receipt get_status new_factory
      estimate send instant sleeping timed)

end

section \<open>The wait ends\<close>

text \<open>What an observation means for the wait: its result, or to go on.\<close>

fun wait_outcome :: "'f felt_format \<Rightarrow> 'f \<Rightarrow> TransactionObservation result \<Rightarrow> unit result option" where
  "wait_outcome X tx (Inl e) = Some (Inl e)"
| "wait_outcome X tx (Inr TransactionObservation.Pending) = None"
| "wait_outcome X tx (Inr TransactionObservation.Accepted) = Some (Inr ())"
| "wait_outcome X tx (Inr (ObservedReverted reason)) =
     Some (Inl (TransactionReverted (''transaction '' @ ff_hex_alt X tx @ '' reverted: '' @ reason)))"

lemma wait_outcome_accepted: "wait_outcome X tx observation = Some (Inr ()) \<longleftrightarrow> observation = Inr TransactionObservation.Accepted"
  by (cases "(X, tx, observation)" rule: wait_outcome.cases) auto

text \<open>
  What the wait relies on: time does not go back, a timer runs for its duration, and a timeout either runs the future or
  fires after its duration.
\<close>

locale runtime_laws =
  fixes P :: "('f, 'w) provider" and clock :: "'w \<Rightarrow> nat"
  assumes now: "clock w \<le> fst (pv_instant_now P w)" "fst (pv_instant_now P w) \<le> clock (snd (pv_instant_now P w))"
    and sleep: "clock w + d \<le> clock (pv_sleep P d w)"
    and receipt: "clock w \<le> clock (snd (pv_get_transaction_receipt P tx w))"
    and status: "clock w \<le> clock (snd (pv_get_transaction_status P tx w))"
    and timeout: "(\<And>w. clock w \<le> clock (snd (f w))) \<Longrightarrow>
      pv_timeout P d f w = (Some (fst (f w)), snd (f w)) \<or>
      fst (pv_timeout P d f w) = None \<and> clock w + d \<le> clock (snd (pv_timeout P d f w))"
begin

lemma observe_later: "clock w \<le> clock (snd (observe_transaction X P tx w))"
proof -
  have "clock (snd (pv_get_transaction_receipt P tx w)) \<le>
      clock (snd (pv_get_transaction_status P tx (snd (pv_get_transaction_receipt P tx w))))" by (rule status)
  then show ?thesis
    using receipt [of w tx]
    by (auto simp: observe_transaction_def bind_act_def done_act_def split: prod.splits sum.splits)
qed

text \<open>An observation with a deadline is one that starts now, or times out after the deadline.\<close>

lemma await_observation:
  assumes "await_before_deadline P deadline (observe_transaction X P tx) msg w = (r, w')"
  shows "clock w \<le> clock w' \<and> (r = Inl (KmsError.Timeout msg) \<and> deadline \<le> clock w' \<or>
    observe_transaction X P tx (snd (pv_instant_now P w)) = (r, w'))"
proof -
  obtain t w1 where w1: "pv_instant_now P w = (t, w1)" by fastforce
  with now [of w] have "clock w \<le> t" "t \<le> clock w1" by simp_all
  moreover have "pv_timeout P (deadline - t) (observe_transaction X P tx) w1 =
        (Some (fst (observe_transaction X P tx w1)), snd (observe_transaction X P tx w1)) \<or>
      fst (pv_timeout P (deadline - t) (observe_transaction X P tx) w1) = None \<and>
        clock w1 + (deadline - t) \<le> clock (snd (pv_timeout P (deadline - t) (observe_transaction X P tx) w1))"
    by (rule timeout [OF observe_later])
  ultimately show ?thesis
    using assms observe_later [of w1 X tx]
    by (cases "pv_timeout P (deadline - t) (observe_transaction X P tx) w1")
      (auto simp: await_before_deadline_def bind_act_def done_act_def w1)
qed

text \<open>
  What the result of a wait that ends in \<open>w'\<close> stands for: the last observation of the transaction, at a state the wait has
  led to, or that the deadline is over.
\<close>

definition reported :: "'f felt_format \<Rightarrow> 'f \<Rightarrow> u64 \<Rightarrow> nat \<Rightarrow> 'w \<Rightarrow> unit result \<Rightarrow> 'w \<Rightarrow> bool" where
  "reported X tx timeout_ms deadline w r w' \<longleftrightarrow>
     r = Inl (KmsError.Timeout (not_accepted P tx timeout_ms)) \<and> deadline \<le> clock w' \<or>
     (\<exists>w1 observation. evolves P (\<lambda>_. False) w w1 \<and> observe_transaction X P tx w1 = (observation, w') \<and>
        wait_outcome X tx observation = Some r)"

lemma reported_mono: "reported X tx timeout_ms deadline w1 r w' \<Longrightarrow> evolves P (\<lambda>_. False) w w1 \<Longrightarrow> reported X tx timeout_ms deadline w r w'"
  unfolding reported_def by (blast intro: evolves_trans)

lemma poll_reported:
  assumes "wait_poll X P tx timeout_ms deadline interval w = Inl (r, w')"
  shows "reported X tx timeout_ms deadline w r w'"
proof -
  obtain t w1 where w1: "pv_instant_now P w = (t, w1)" by fastforce
  show ?thesis
  proof (cases "deadline \<le> t")
    case True
    then show ?thesis using assms now(2) [of w] by (auto simp: wait_poll_def reported_def w1)
  next
    case False
    obtain o2 w2 where w2: "await_before_deadline P deadline (observe_transaction X P tx) (not_accepted P tx timeout_ms) w1 = (o2, w2)"
      by fastforce
    have e: "evolves P (\<lambda>_. False) w (snd (pv_instant_now P w1))"
      using ev_instant [OF ev_instant [OF ev_start], of P "\<lambda>_. False" w] w1 by simp
    show ?thesis
    proof (cases "o2 = Inl (KmsError.Timeout (not_accepted P tx timeout_ms)) \<and> deadline \<le> clock w2")
      case True
      then show ?thesis using assms False by (auto simp: wait_poll_def reported_def w1 w2)
    next
      case observed: False
      then have "observe_transaction X P tx (snd (pv_instant_now P w1)) = (o2, w2)" using await_observation [OF w2] by blast
      then show ?thesis
        using assms False e unfolding wait_poll_def w1 prod.case w2 reported_def
        by (cases "(X, tx, o2)" rule: wait_outcome.cases)
          (auto split: prod.splits intro!: exI [of _ "snd (pv_instant_now P w1)"])
    qed
  qed
qed

lemma poll_progress:
  assumes "wait_poll X P tx timeout_ms deadline interval w = Inr w'"
  shows "clock w + interval \<le> clock w' \<or> deadline \<le> clock w'"
proof -
  obtain t w1 o2 w2 t3 w3 where w1: "pv_instant_now P w = (t, w1)"
    and w2: "await_before_deadline P deadline (observe_transaction X P tx) (not_accepted P tx timeout_ms) w1 = (o2, w2)"
    and w3: "pv_instant_now P w2 = (t3, w3)" and w': "w' = pv_sleep P (min interval (deadline - t3)) w3"
    using assms by (auto simp: wait_poll_def split: prod.splits if_splits sum.splits TransactionObservation.splits)
  have "clock w \<le> clock w1" using now [of w] w1 by simp
  also have "clock w1 \<le> clock w2" using await_observation [OF w2] by blast
  also have "clock w2 \<le> t3" using now [of w2] w3 by simp
  finally have "clock w \<le> t3" .
  moreover have "t3 \<le> clock w3" using now [of w2] w3 by simp
  moreover have "clock w3 + min interval (deadline - t3) \<le> clock w'" unfolding w' by (rule sleep)
  ultimately show ?thesis by (auto simp: min_def split: if_splits)
qed

lemma poll_late:
  assumes "deadline \<le> clock w"
  obtains w' where "wait_poll X P tx timeout_ms deadline interval w = Inl (Inl (KmsError.Timeout (not_accepted P tx timeout_ms)), w')"
proof -
  have "deadline \<le> fst (pv_instant_now P w)" using assms now(1) [of w] by simp
  then show ?thesis using that by (cases "pv_instant_now P w") (simp add: wait_poll_def)
qed

lemma within_reported:
  "wait_within n X P tx timeout_ms deadline interval w = Some (r, w') \<Longrightarrow> reported X tx timeout_ms deadline w r w'"
  by (induction n arbitrary: w) (auto split: sum.splits dest: poll_reported intro: reported_mono [OF _ poll_evolves(2)])

lemma wait_accepted:
  assumes "wait_for_acceptance X P tx i t w = Some (Inr (), w')"
  shows "\<exists>w1. evolves P (\<lambda>_. False) w w1 \<and> observe_transaction X P tx w1 = (Inr TransactionObservation.Accepted, w')"
proof -
  obtain now w1 where w1: "pv_instant_now P w = (now, w1)" by fastforce
  then have e: "evolves P (\<lambda>_. False) w w1" using ev_instant [OF ev_start, of P "\<lambda>_. False" w] by simp
  obtain deadline where "wait_loop X P tx t deadline (from_millis i) w1 = Some (Inr (), w')"
    using assms by (auto simp: wait_for_acceptance_def w1 split: option.splits)
  from wait_loop_within [OF this] within_reported have "reported X tx t deadline w1 (Inr ()) w'" by blast
  then obtain w2 where "evolves P (\<lambda>_. False) w1 w2" and "observe_transaction X P tx w2 = (Inr TransactionObservation.Accepted, w')"
    unfolding reported_def wait_outcome_accepted by auto
  then show ?thesis using evolves_trans [OF _ e] by blast
qed

lemma wait_bounded:
  assumes "deadline \<le> clock w + n * interval"
  shows "\<exists>r w'. wait_within (Suc n) X P tx timeout_ms deadline interval w = Some (r, w') \<and>
    wait_loop X P tx timeout_ms deadline interval w = Some (r, w')"
  using assms
proof (induction n arbitrary: w)
  case 0
  then obtain w' where "wait_poll X P tx timeout_ms deadline interval w = Inl (Inl (KmsError.Timeout (not_accepted P tx timeout_ms)), w')"
    using poll_late [of deadline w X tx timeout_ms interval] by auto
  then show ?case by (simp add: wait_loop_poll [of X P tx timeout_ms deadline interval w])
next
  case (Suc n)
  show ?case
  proof (cases "wait_poll X P tx timeout_ms deadline interval w")
    case (Inl a)
    then show ?thesis by (cases a) (simp add: wait_loop_poll [of X P tx timeout_ms deadline interval w])
  next
    case (Inr w')
    from poll_progress [OF this] Suc.prems have "deadline \<le> clock w' + n * interval" by auto
    from Suc.IH [OF this] Inr show ?thesis
      by (simp add: wait_loop_poll [of X P tx timeout_ms deadline interval w] del: wait_within.simps(2))
        (simp add: wait_within.simps(2) [of "Suc n"])
  qed
qed

end

section \<open>What a deployment signs\<close>

text \<open>
  The fees that a deployment may pay: its tip is the one of the ceiling, or zero, and with a ceiling the worst fee of its
  bounds is at most that of the ceiling.
\<close>

definition within_ceiling :: "StarknetGatewayBackend \<Rightarrow> 'f AccountDeployment \<Rightarrow> bool" where
  "within_ceiling self dep \<longleftrightarrow>
     (case sb_deploy_fee_ceiling self of
        None \<Rightarrow> dp_tip dep = Some DEFAULT_TIP
      | Some ceiling \<Rightarrow> dp_tip dep = Some (ce_max_tip ceiling) \<and>
          (\<exists>p. proposed_fee p (ce_max_tip ceiling) \<le> ceiling_fee ceiling \<and>
             dp_l1_gas dep = Some (max_amount (pr_l1_gas p)) \<and> dp_l1_gas_price dep = Some (max_price_per_unit (pr_l1_gas p)) \<and>
             dp_l2_gas dep = Some (max_amount (pr_l2_gas p)) \<and> dp_l2_gas_price dep = Some (max_price_per_unit (pr_l2_gas p)) \<and>
             dp_l1_data_gas dep = Some (max_amount (pr_l1_data_gas p)) \<and>
             dp_l1_data_gas_price dep = Some (max_price_per_unit (pr_l1_data_gas p))))"

text \<open>The deployments that the backend may sign for an account.\<close>

definition signable ::
    "('f, 'p, 'a, 'r) starknet \<Rightarrow> 'f felt_format \<Rightarrow> StarknetGatewayBackend \<Rightarrow> 'f \<Rightarrow> AccountDescriptor \<Rightarrow> 'f AccountDeployment \<Rightarrow> bool" where
  "signable S X self private_key account dep \<longleftrightarrow>
     dp_class_hash dep = felthex_to_felt X (ac_class_hash account) \<and> dp_salt dep = felthex_to_felt X (ac_salt account) \<and>
     dp_chain_id dep = chain_as_felt S (sb_chain_id self) \<and> dp_secret_scalar dep = private_key \<and> within_ceiling self dep"

lemma map_sum_Inr_iff: "map_sum f g x = Inr y \<longleftrightarrow> (\<exists>z. x = Inr z \<and> y = g z)"
  by (cases x) auto

lemma rs_felt_id: "felt_laws S \<Longrightarrow> core_felt_to_rs S f = f" "felt_laws S \<Longrightarrow> rs_felt_to_core S f = f"
  by (simp_all add: core_felt_to_rs_def rs_felt_to_core_def felt_laws.felt_from_to_bytes)

lemma bound_deployment_fee:
  assumes "bound_deployment deployment estimate ceiling = Inr dep"
  shows "\<exists>p. proposed_fee p (ce_max_tip ceiling) \<le> ceiling_fee ceiling \<and>
    dep = deployment\<lparr>dp_tip := Some (ce_max_tip ceiling),
      dp_l1_gas := Some (max_amount (pr_l1_gas p)), dp_l1_gas_price := Some (max_price_per_unit (pr_l1_gas p)),
      dp_l2_gas := Some (max_amount (pr_l2_gas p)), dp_l2_gas_price := Some (max_price_per_unit (pr_l2_gas p)),
      dp_l1_data_gas := Some (max_amount (pr_l1_data_gas p)), dp_l1_data_gas_price := Some (max_price_per_unit (pr_l1_data_gas p))\<rparr>"
proof -
  from assms obtain p where p: "admit_estimate ceiling (fe_l1_gas_consumed estimate, fe_l1_gas_price estimate)
      (fe_l2_gas_consumed estimate, fe_l2_gas_price estimate) (fe_l1_data_gas_consumed estimate, fe_l1_data_gas_price estimate) = Inr p"
    and "dep = deployment\<lparr>dp_tip := Some (ce_max_tip ceiling),
      dp_l1_gas := Some (max_amount (pr_l1_gas p)), dp_l1_gas_price := Some (max_price_per_unit (pr_l1_gas p)),
      dp_l2_gas := Some (max_amount (pr_l2_gas p)), dp_l2_gas_price := Some (max_price_per_unit (pr_l2_gas p)),
      dp_l1_data_gas := Some (max_amount (pr_l1_data_gas p)), dp_l1_data_gas_price := Some (max_price_per_unit (pr_l1_data_gas p))\<rparr>"
    by (auto simp: bound_deployment_def result_iffs)
  moreover note admit_estimate_Inr(4) [OF p, THEN admitted_fee]
  ultimately show ?thesis by blast
qed

text \<open>Whatever happens, only signable deployments are sent; and on success one was sent, last.\<close>

lemma submit_evolving:
  assumes "felt_laws S" and "\<And>dep. signable S X self private_key account dep \<Longrightarrow> good dep"
    and "pv_chain_id (ac_provenance account) = sb_chain_id self"
  shows "evolving P good (submit_open_zeppelin_deploy S X P self private_key account) \<and>
    (submit_open_zeppelin_deploy S X P self private_key account w = (Inr hash, w') \<longrightarrow>
       (\<exists>dep w1. evolves P good w w1 \<and> signable S X self private_key account dep \<and> pv_send P dep w1 = (Inr hash, w')))"
proof -
  define start where "start = pin_deployment_tip
    (deploy_v3 (felthex_to_felt X (ac_class_hash account)) (chain_as_felt S (sb_chain_id self)) private_key
      (felthex_to_felt X (ac_salt account))) (sb_deploy_fee_ceiling self)"
  define bounded where "bounded =
    (case sb_deploy_fee_ceiling self of
       Some ceiling \<Rightarrow>
         try_act (map_err_act (map_deploy_submission_error P) (pv_estimate_fee P start)) (\<lambda>estimate.
         done_act (bound_deployment start estimate ceiling))
     | None \<Rightarrow> done_act (Inr start))"
  define factory where "factory = map_err_act (\<lambda>error. map_kms_error (CryptoError error))
    (pv_new_factory P (felthex_to_felt X (ac_class_hash account)) (chain_as_felt S (sb_chain_id self)) private_key)"
  have submit: "submit_open_zeppelin_deploy S X P self private_key account =
      try_act factory (\<lambda>_. try_act bounded (\<lambda>dep. map_err_act (map_deploy_submission_error P) (pv_send P dep)))"
    unfolding submit_open_zeppelin_deploy_def Let_def rs_felt_id [OF assms(1)] assms(3) start_def bounded_def factory_def ..
  have factory: "evolving P good factory"
    unfolding factory_def by (intro evolving_bind) (simp_all add: evolving_op evolving_done)
  have bounded: "evolves P good w (snd (bounded w)) \<and> (\<forall>dep. fst (bounded w) = Inr dep \<longrightarrow> signable S X self private_key account dep)" for w
  proof (cases "sb_deploy_fee_ceiling self")
    case None
    then show ?thesis
      by (auto simp: bounded_def done_act_def start_def pin_deployment_tip_def deploy_v3_def signable_def within_ceiling_def ev_start)
  next
    case (Some ceiling)
    have "signable S X self private_key account dep" if "bound_deployment start estimate ceiling = Inr dep" for estimate dep
      using bound_deployment_fee [OF that] Some
      by (auto simp: start_def pin_deployment_tip_def deploy_v3_def signable_def within_ceiling_def)
    then show ?thesis
      using Some ev_estimate [OF ev_start [of P good w], of start]
      by (auto simp: bounded_def bind_act_def done_act_def split: prod.splits sum.splits)
  qed
  have sent: "evolving P good (map_err_act (map_deploy_submission_error P) (pv_send P dep))"
    if "signable S X self private_key account dep" for dep
    using assms(2) [OF that] by (intro evolving_bind) (simp_all add: ev_send [OF ev_start] evolving_done)
  have "evolving P good (try_act bounded (\<lambda>dep. map_err_act (map_deploy_submission_error P) (pv_send P dep)))"
    by (rule evolving_bind_result [where Q = "\<lambda>r. \<forall>dep. r = Inr dep \<longrightarrow> signable S X self private_key account dep"])
      (use bounded sent in \<open>auto simp: evolving_done split: sum.split\<close>)
  then have "evolving P good (submit_open_zeppelin_deploy S X P self private_key account)"
    unfolding submit by (intro evolving_bind factory) (simp_all add: evolving_done split: sum.split)
  moreover have "\<exists>dep w1. evolves P good w w1 \<and> signable S X self private_key account dep \<and> pv_send P dep w1 = (Inr hash, w')"
    if "submit_open_zeppelin_deploy S X P self private_key account w = (Inr hash, w')"
  proof -
    obtain r1 w1 where w1: "factory w = (r1, w1)" by fastforce
    obtain r2 w2 where w2': "bounded w1 = (r2, w2)" by fastforce
    have "\<exists>dep. r2 = Inr dep \<and> pv_send P dep w2 = (Inr hash, w')"
      using that unfolding submit bind_act_def w1 prod.case
      by (cases r1; cases r2) (auto simp: w2' done_act_def map_err_eq_Inr split: prod.split_asm)
    then obtain dep where w2: "bounded w1 = (Inr dep, w2)" and "pv_send P dep w2 = (Inr hash, w')" using w2' by blast
    moreover have "evolves P good w w2"
      using factory [rule_format, of w] bounded [of w1] unfolding w1 w2 by (auto intro: evolves_trans)
    moreover have "signable S X self private_key account dep" using bounded [of w1] unfolding w2 by simp
    ultimately show ?thesis by blast
  qed
  ultimately show ?thesis by blast
qed

lemma deploy_evolves:
  assumes "felt_laws S"
    and "\<And>dep public_key. pv_chain_id (ac_provenance account) = sb_chain_id self \<Longrightarrow> stark_public_key S X K private_key = Inr public_key \<Longrightarrow>
      signable S X self private_key account dep \<Longrightarrow> good dep"
    and "backend_deploy_open_zeppelin S X K P self private_key account mode w = Some (r, w')"
  shows "evolves P good w w'"
proof (cases "pv_chain_id (ac_provenance account) = sb_chain_id self \<and>
    (\<exists>x. and_then (map_err map_kms_error (stark_public_key S X K private_key)) (validate_open_zeppelin_descriptor S X account) = Inr x)")
  case True
  then obtain public_key where "stark_public_key S X K private_key = Inr public_key" by (auto simp: result_iffs)
  with assms(2) True have good: "signable S X self private_key account dep \<Longrightarrow> good dep" for dep by blast
  obtain r1 w1 where w1: "backend_check_deployed S X P (ac_address account) BlockSelector.Latest w = (r1, w1)" by fastforce
  obtain r2 w2 where w2: "submit_open_zeppelin_deploy S X P self private_key account w1 = (r2, w2)" by fastforce
  have e1: "evolves P good w w1"
    using check_evolving [rule_format, of P good w S X "ac_address account" BlockSelector.Latest] w1 by simp
  have "evolving P good (submit_open_zeppelin_deploy S X P self private_key account)"
    using submit_evolving [where good = good and P = P and X = X and self = self and private_key = private_key and account = account,
      OF assms(1) good] True by blast
  from this [rule_format, of w1] w2 have "evolves P good w1 w2" by simp
  then have e2: "evolves P good w w2" using e1 by (rule evolves_trans)
  have "w' = w1 \<or> w' = w2 \<or> (\<exists>tx i t r. wait_for_acceptance X P tx i t w2 = Some (r, w'))"
    using assms(3) True
    by (auto simp: backend_deploy_open_zeppelin_def w1 w2 Let_def split: sum.splits if_splits DeployMode.splits)
  with e1 e2 wait_evolves show ?thesis by (metis evolves_trans)
next
  case False
  then show ?thesis
    using assms(3)
    by (auto simp: backend_deploy_open_zeppelin_def Let_def ev_start split: sum.splits if_splits)
qed

text \<open>A deployment reported as accepted was sent, and the node has reported its transaction as accepted.\<close>

lemma accepted_reported:
  assumes "runtime_laws P clock" and "felt_laws S"
    and "\<And>dep. signable S X self private_key account dep \<Longrightarrow> good dep"
    and "backend_deploy_open_zeppelin S X K P self private_key account mode w = Some (Inr (DeployExecution.Accepted tx), w')"
  shows "\<exists>dep hash w1 w2 w3. evolves P good w w1 \<and> good dep \<and> pv_send P dep w1 = (Inr hash, w2) \<and> evolves P (\<lambda>_. False) w2 w3 \<and>
    observe_transaction X P hash w3 = (Inr TransactionObservation.Accepted, w') \<and> tx = felthex_from_felt X (rs_felt_to_core S hash)"
proof -
  obtain r1 w1 where w1: "backend_check_deployed S X P (ac_address account) BlockSelector.Latest w = (r1, w1)" by fastforce
  obtain hash w3 i t where tx: "tx = felthex_from_felt X (rs_felt_to_core S hash)"
    and chain: "pv_chain_id (ac_provenance account) = sb_chain_id self"
    and submit: "submit_open_zeppelin_deploy S X P self private_key account w1 = (Inr hash, w3)"
    and wait: "wait_for_acceptance X P hash i t w3 = Some (Inr (), w')"
    using assms(4)
    by (auto simp: backend_deploy_open_zeppelin_def w1 Let_def map_sum_Inr_iff split: if_splits sum.splits prod.splits DeployMode.splits)
  obtain dep w2 where sent: "evolves P good w1 w2" "signable S X self private_key account dep" "pv_send P dep w2 = (Inr hash, w3)"
    using submit_evolving [where good = good and w = w1 and w' = w3 and hash = hash and P = P, OF assms(2,3) chain] submit by blast
  have "evolves P good w w1"
    using check_evolving [rule_format, of P good w S X "ac_address account" BlockSelector.Latest] w1 by simp
  then have "evolves P good w w2" by (rule evolves_trans [OF sent(1)])
  with sent(2,3) assms(3) tx runtime_laws.wait_accepted [OF assms(1) wait] show ?thesis by blast
qed

section \<open>A simulated node\<close>

text \<open>A node that keeps the time and the deployments sent to it, and accepts a transaction after a minute.\<close>

record sim_state =
  sim_clock :: nat
  sim_sent :: "zfelt AccountDeployment list"

definition sim_node :: "(zfelt, sim_state) provider" where
  "sim_node = \<lparr>
     pv_get_class_hash_at = (\<lambda>block a w. (Inl (StarknetError StarknetError.ContractNotFound), w)),
     pv_get_nonce = (\<lambda>block a w. (Inr (zfelt_of 0), w)),
     pv_call = (\<lambda>c block w. (if fc_entry_point_selector c = zfelt_of 1 then Inl (StarknetError EntrypointNotFound)
       else Inr [zfelt_of 5, zfelt_of 1], w)),
     pv_block_hash_and_number = (\<lambda>w. (Inr (zfelt_of 3, 4), w)),
     pv_get_block_with_tx_hashes = (\<lambda>block w. (Inr (PreConfirmedBlock 5), w)),
     pv_get_transaction_receipt = (\<lambda>tx w.
       (if sim_clock w < 60 * 10 ^ 9 then Inl (StarknetError TransactionHashNotFound) else Inr (AcceptedOnL2, Succeeded), w)),
     pv_get_transaction_status = (\<lambda>tx w. (Inl (StarknetError TransactionHashNotFound), w)),
     pv_new_factory = (\<lambda>class_hash chain k w. (Inr (), w)),
     pv_estimate_fee = (\<lambda>dep w. (Inr \<lparr>fe_l1_gas_consumed = 101, fe_l1_gas_price = 20, fe_l2_gas_consumed = 101,
       fe_l2_gas_price = 20, fe_l1_data_gas_consumed = 101, fe_l1_data_gas_price = 20\<rparr>, w)),
     pv_send = (\<lambda>dep w. (Inr (zfelt_of 7), w\<lparr>sim_sent := dep # sim_sent w\<rparr>)),
     pv_instant_now = (\<lambda>w. (sim_clock w, w)),
     pv_sleep = (\<lambda>d w. w\<lparr>sim_clock := sim_clock w + d\<rparr>),
     pv_timeout = (\<lambda>d f w. (Some (fst (f w)), snd (f w))),
     pv_selector = (\<lambda>name. if name = ''balance_of'' then zfelt_of 1 else zfelt_of 2),
     pv_show_felt = ff_hex_alt zformat,
     pv_show_starknet_error = (\<lambda>e. []),
     pv_show_provider_error = (\<lambda>e. [])\<rparr>"

interpretation sim: runtime_laws sim_node sim_clock
  by unfold_locales (simp_all add: sim_node_def)

interpretation sim_sends: node_invariant sim_node "\<lambda>w. list_all good (sim_sent w)" good for good
  by unfold_locales (simp_all add: sim_node_def)

section \<open>Properties\<close>

text \<open>
  C15. Waiting for a transaction always ends. Whatever the node answers, the wait returns, after at most one poll more than
  the intervals that fit into the timeout, rounded up. It returns its last observation of the transaction (accepted,
  reverted with its reason, or an error of the node), which it makes without sending anything, or a timeout, and this
  only when the deadline is over.
\<close>

theorem wait_ends:
  assumes "runtime_laws P clock" and "0 < poll_interval_ms" and "pv_instant_now P w = (now, w1)"
    and "instant_checked_add now (from_millis timeout_ms) = Some deadline"
  shows "\<exists>r w'. wait_for_acceptance X P tx poll_interval_ms timeout_ms w = Some (r, w') \<and>
    wait_within (unat timeout_ms div unat poll_interval_ms + 2) X P tx timeout_ms deadline (from_millis poll_interval_ms) w1 =
      Some (r, w') \<and>
    (r = Inl (KmsError.Timeout (not_accepted P tx timeout_ms)) \<and> deadline \<le> clock w' \<or>
     (\<exists>w2 observation. evolves P (\<lambda>_. False) w1 w2 \<and> observe_transaction X P tx w2 = (observation, w') \<and>
        wait_outcome X tx observation = Some r))"
proof -
  define n where "n = unat timeout_ms div unat poll_interval_ms + 1"
  have "unat timeout_ms \<le> n * unat poll_interval_ms"
    using assms(2) dividend_less_div_times [of "unat poll_interval_ms" "unat timeout_ms"]
    by (simp add: n_def word_less_nat_alt)
  then have "from_millis timeout_ms \<le> n * from_millis poll_interval_ms" by simp
  moreover have "deadline = now + from_millis timeout_ms" using assms(4) by (simp add: instant_checked_add_def split: if_splits)
  moreover have "now \<le> clock w1" using runtime_laws.now(2) [OF assms(1), of w] assms(3) by simp
  ultimately have "deadline \<le> clock w1 + n * from_millis poll_interval_ms" by simp
  from runtime_laws.wait_bounded [OF assms(1) this, of X tx timeout_ms]
  obtain r w' where "wait_loop X P tx timeout_ms deadline (from_millis poll_interval_ms) w1 = Some (r, w')"
    and within: "wait_within (Suc n) X P tx timeout_ms deadline (from_millis poll_interval_ms) w1 = Some (r, w')" by blast
  moreover note runtime_laws.within_reported [OF assms(1) within, unfolded runtime_laws.reported_def [OF assms(1)]]
  moreover have "unat timeout_ms div unat poll_interval_ms + 2 = Suc n" by (simp add: n_def)
  ultimately show ?thesis
    unfolding wait_for_acceptance_def assms(3) prod.case assms(4) option.case by (intro exI [of _ r] exI [of _ w']) (simp only: simp_thms)
qed

theorem wait_ends_witness:
  "\<exists>r w'. wait_for_acceptance zformat sim_node (zfelt_of 7) 250 1000 \<lparr>sim_clock = 0, sim_sent = []\<rparr> = Some (r, w') \<and>
     wait_within 6 zformat sim_node (zfelt_of 7) 1000 (10 ^ 9) (from_millis 250) \<lparr>sim_clock = 0, sim_sent = []\<rparr> = Some (r, w')"
  using wait_ends [OF sim.runtime_laws_axioms, of 250 "\<lparr>sim_clock = 0, sim_sent = []\<rparr>" 0 "\<lparr>sim_clock = 0, sim_sent = []\<rparr>"
      1000 "10 ^ 9" zformat "zfelt_of 7"]
  by (auto simp: sim_node_def instant_checked_add_def)

end
