(* ===== verification/Gateway_System.thy ===== *)
theory Gateway_System
  imports Gateway_Lifecycle "HOL-Library.Multiset"
begin

text \<open>
  The gateway with any number of requests in flight. The shared state is the operation store and the snapshot cache,
  each behind its lock; a step answers one question of one request. The lemmas show what holds in every state that any
  interleaving reaches, and that every request is answered after a bounded number of steps.
\<close>

section \<open>The shared state\<close>

record Gateway =
  gw_operations :: OperationStore
  gw_snapshot_cache :: SnapshotCache
  gw_snapshot_cache_max_entries :: nat

definition with_clock_and_retention :: "OperationRetentionPolicy \<Rightarrow> Gateway" where
  "with_clock_and_retention operation_retention =
     \<lparr>gw_operations = store_new operation_retention, gw_snapshot_cache = cache_default,
      gw_snapshot_cache_max_entries = DEFAULT_SNAPSHOT_CACHE_MAX_ENTRIES\<rparr>"

text \<open>
  The effect of an event. A lookup and a read have the answer that the state gives; the answers of the clock, the entropy
  source, the resolver and the backend are free. \<open>None\<close> means that the event cannot happen in that state.
\<close>

fun effect :: "Gateway \<Rightarrow> 'f event \<Rightarrow> Gateway option" where
  "effect g (EvInsert status now_ms) = Some (g\<lparr>gw_operations := store_insert (gw_operations g) status now_ms\<rparr>)"
| "effect g (EvGet op now_ms r) =
     (let (found, operations) = store_get (gw_operations g) op now_ms
      in if r = found then Some (g\<lparr>gw_operations := operations\<rparr>) else None)"
| "effect g (EvRead key r) = (if r = map_of (sc_entries (gw_snapshot_cache g)) key then Some g else None)"
| "effect g (EvStore key snapshot generated_at_ms) =
     map_option (\<lambda>cache. g\<lparr>gw_snapshot_cache := cache\<rparr>)
       (store_snapshot (gw_snapshot_cache g) key snapshot (gw_snapshot_cache_max_entries g) generated_at_ms)"
| "effect g e = Some g"

section \<open>Reachable states\<close>

text \<open>
  A task is a request with its history and what is left of its flow; \<open>start\<close> gives the flow of a request. \<open>log\<close> holds
  the statuses recorded so far, by all tasks, in the order of the records.
\<close>

type_synonym 'f task = "OracleRequest \<times> 'f history \<times> ('f, OracleResponse) flow"

inductive reach :: "(OracleRequest \<Rightarrow> ('f, OracleResponse) flow) \<Rightarrow> OperationRetentionPolicy \<Rightarrow>
    OperationStatus list \<Rightarrow> Gateway \<Rightarrow> 'f task list \<Rightarrow> bool"
  for start and retention where
  reach_init: "reach start retention [] (with_clock_and_retention retention) []"
| reach_arrive: "reach start retention log g tasks \<Longrightarrow> reach start retention log g (tasks @ [(request, [], start request)])"
| reach_step: "reach start retention log g tasks \<Longrightarrow> i < length tasks \<Longrightarrow> tasks ! i = (request, h, f) \<Longrightarrow>
    flow_next f e f' \<Longrightarrow> effect g e = Some g' \<Longrightarrow>
    reach start retention (log @ inserted_status e) g' (tasks[i := (request, h @ [e], f')])"

text \<open>Every task is a run of its request.\<close>

lemma reach_steps:
  assumes "reach start retention log g tasks" and "(request, h, f) \<in> set tasks"
  shows "steps (start request) h f"
  using assms
proof (induction arbitrary: request h f rule: reach.induct)
  case (reach_arrive log g tasks r)
  then show ?case by (auto intro: steps_Nil)
next
  case (reach_step log g tasks i r hi fi e f' g')
  then have "(r, hi, fi) \<in> set tasks" by (metis nth_mem)
  then have "steps (start r) (hi @ [e]) f'" using reach_step.IH reach_step.hyps(4) by (blast intro: steps_snoc)
  with reach_step.prems reach_step.IH show ?case by (auto dest: set_update_subset_insert [THEN subsetD])
qed simp

text \<open>What an event does to the store.\<close>

lemma effect_store:
  assumes "effect g e = Some g'"
  obtains "gw_operations g' = gw_operations g" and "inserted_status e = []"
  | now where "gw_operations g' = prune (gw_operations g) now" and "inserted_status e = []"
  | status now where "gw_operations g' = store_insert (gw_operations g) status now" and "inserted_status e = [status]"
  using assms by (cases "(g, e)" rule: effect.cases) (auto simp: Let_def store_get_def split: if_splits)

lemma reach_store:
  "reach start retention log g tasks \<Longrightarrow> store_reach retention (length log) (gw_operations g)"
proof (induction rule: reach.induct)
  case (reach_step log g tasks i r h f e f' g')
  from reach_step.hyps(5) show ?case
    using store_reach.reach_get [OF reach_step.IH] store_reach.reach_insert [OF reach_step.IH] reach_step.IH
    by (cases rule: effect_store) simp_all
qed (simp_all add: with_clock_and_retention_def store_reach.reach_new)

section \<open>The store follows the log\<close>

definition latest :: "OperationStatus list \<Rightarrow> OperationId \<Rightarrow> OperationStatus option" where
  "latest log op = List.find (\<lambda>status. os_id status = op) (rev log)"

definition recorded :: "OperationStatus list \<Rightarrow> OperationId \<Rightarrow> OperationStatus \<Rightarrow> bool" where
  "recorded log op status \<longleftrightarrow> (\<exists>s. latest log op = Some s \<and> (status = s \<or> status = s\<lparr>os_state := Expired\<rparr>))"

definition store_recorded :: "OperationStatus list \<Rightarrow> OperationStore \<Rightarrow> bool" where
  "store_recorded log st \<longleftrightarrow> (\<forall>op entry. map_of (ops_entries st) op = Some entry \<longrightarrow> recorded log op (oe_status entry))"

lemma latest_snoc: "latest (log @ [status]) op = (if os_id status = op then Some status else latest log op)"
  by (simp add: latest_def)

lemma recorded_expire: "recorded log op (oe_status entry) \<Longrightarrow> recorded log op (oe_status (expire ttl now entry))"
  by (auto simp: recorded_def expire_def)

lemma map_of_delete_fold: "map_of (fold AList.delete removed es) op = Some entry \<Longrightarrow> map_of es op = Some entry"
proof (induction removed arbitrary: es)
  case (Cons k removed)
  then have "map_of (AList.delete k es) op = Some entry" by simp
  then show ?case by (simp add: AList.delete_conv' split: if_splits)
qed simp

lemma recorded_prune:
  assumes "store_recorded log st"
  shows "store_recorded log (prune st now)"
proof -
  have "map_of (expired_entries st now) op = Some entry" if "map_of (ops_entries (prune st now)) op = Some entry" for op entry
    using that by (auto simp: prune_def Let_def split: if_splits dest!: map_of_delete_fold)
  then show ?thesis using assms by (fastforce simp: store_recorded_def map_of_expired intro: recorded_expire)
qed

lemma recorded_insert:
  assumes "store_recorded log st"
  shows "store_recorded (log @ [status]) (store_insert st status now)"
proof -
  have "store_recorded (log @ [status]) (inserted st status now)"
    using assms by (auto simp: store_recorded_def inserted_def recorded_def latest_snoc AList.update_conv' split: if_splits)
  then show ?thesis by (simp add: store_insert_eq recorded_prune)
qed

lemma reach_recorded:
  "reach start retention log g tasks \<Longrightarrow> store_recorded log (gw_operations g)"
proof (induction rule: reach.induct)
  case (reach_step log g tasks i r h f e f' g')
  from reach_step.hyps(5) show ?case
    using reach_step.IH by (cases rule: effect_store) (simp_all add: recorded_prune recorded_insert)
qed (simp_all add: with_clock_and_retention_def store_new_def store_recorded_def)

section \<open>Snapshots belong to their keys\<close>

definition belongs :: "SnapshotCacheKey \<Rightarrow> AccountSnapshot \<Rightarrow> bool" where
  "belongs key snapshot \<longleftrightarrow>
     as_address snapshot = ck_address key \<and> map (cached_token \<circ> tb_token) (as_balances snapshot) = ck_tokens key"

definition cache_belongs :: "SnapshotCache \<Rightarrow> bool" where
  "cache_belongs cache \<longleftrightarrow> (\<forall>(key, entry) \<in> set (sc_entries cache). belongs key (ce_snapshot entry))"

fun sound_answer :: "'f event \<Rightarrow> bool" where
  "sound_answer (EvRead key (Some entry)) = belongs key (ce_snapshot entry)"
| "sound_answer e = True"

fun sound_store :: "'f event \<Rightarrow> bool" where
  "sound_store (EvStore key snapshot t) = belongs key snapshot"
| "sound_store e = True"

lemma set_cache_abs:
  assumes "cache_ok cache"
  shows "set (cache_abs cache) = set (sc_entries cache)"
proof -
  have "the (map_of (sc_entries cache) (fst x)) = snd x" if "x \<in> set (sc_entries cache)" for x
    using assms that by (cases x) (simp add: cache_ok_def)
  then show ?thesis
    using assms by (force simp: cache_abs_def cache_ok_def image_iff)
qed

lemma set_fifo_store: "set (fifo_store m k e q) \<subseteq> insert (k, e) (set q)"
proof -
  have "set (fifo_put k e q) \<subseteq> insert (k, e) (set q)" by (auto simp: fifo_put_def split: if_splits)
  then show ?thesis unfolding fifo_store_def using set_drop_subset by fastforce
qed

lemma store_snapshot_keeps:
  assumes "cache_ok cache" and "cache_belongs cache" and "belongs key snapshot"
  obtains cache' where "store_snapshot cache key snapshot m t = Some cache'" and "cache_ok cache'" and "cache_belongs cache'"
    and "length (sc_entries cache') \<le> m"
proof -
  obtain cache' where c: "store_snapshot cache key snapshot m t = Some cache'" "cache_ok cache'"
      "cache_abs cache' = fifo_store m key \<lparr>ce_generated_at_ms = t, ce_snapshot = snapshot\<rparr> (cache_abs cache)"
    using store_snapshot_fifo [OF assms(1)] by blast
  have "set (sc_entries cache') \<subseteq> insert (key, \<lparr>ce_generated_at_ms = t, ce_snapshot = snapshot\<rparr>) (set (sc_entries cache))"
    using set_fifo_store by (metis c(2,3) assms(1) set_cache_abs)
  then have "cache_belongs cache'" using assms(2,3) by (auto simp: cache_belongs_def)
  moreover have "length (sc_entries cache') \<le> m"
    using length_fifo_store [of m] length_abs [of cache'] length_cache [OF c(2)] by (metis c(3))
  ultimately show ?thesis using that c by blast
qed

text \<open>Only snapshot queries store; they store what they fetched for their key.\<close>

abbreviation sound_flow :: "('f, 'a) flow \<Rightarrow> 'f history \<Rightarrow> ('a \<Rightarrow> bool) \<Rightarrow> bool" where
  "sound_flow f h Q \<equiv> wp (\<lambda>h e. sound_answer e) (\<lambda>h e. sound_store e) (\<lambda>h a. Q a) f h"

lemma balances_complete:
  "sound_flow (fetch_balances request tokens balances) h
     (\<lambda>r. \<forall>bs. r = Inr bs \<longrightarrow> map tb_token bs = map tb_token balances @ tokens)"
proof (induction tokens arbitrary: balances h)
  case (Cons token tokens)
  show ?case by (auto split: sum.split intro!: wp_mono [OF Cons.IH])
qed simp

lemma fetched_belongs:
  "sound_flow (fetch_snapshot request t) h (\<lambda>r. \<forall>snapshot. r = Inr snapshot \<longrightarrow> belongs (key_from_request request) snapshot)"
  unfolding fetch_snapshot_def
  by (auto simp: Let_def belongs_def key_from_request_def simp flip: map_map simp del: map_map
      split: sum.split intro!: wp_mono [OF balances_complete])

lemma served_belongs:
  assumes "\<And>entry. cached = Some entry \<Longrightarrow> belongs key (ce_snapshot entry)"
  shows "cached_snapshot_response request cached now = Some snapshot \<Longrightarrow> belongs key snapshot"
    and "stale_snapshot_fallback request cached now = Some snapshot \<Longrightarrow> belongs key snapshot"
  using assms
  by (auto simp: cached_snapshot_response_def stale_snapshot_fallback_def apply_cache_metadata_def belongs_def Let_def
      split: option.splits if_splits)

interpretation quiet: bookkeeping "\<lambda>e. \<forall>key snapshot t. e \<noteq> EvStore key snapshot t"
  by unfold_locales simp_all

lemma quiet_sound:
  assumes "wp (\<lambda>h e. True) (\<lambda>h e. \<forall>key snapshot t. e \<noteq> EvStore key snapshot t) Q f h"
  shows "sound_flow f h (\<lambda>r. True)"
  using assms
proof (rule wp_weaken)
  show "sound_store e" if "\<forall>key snapshot t. e \<noteq> EvStore key snapshot t" for e :: "'a event"
    using that by (cases e) simp_all
qed simp_all

lemma query_sound:
  "sound_flow (query_account_snapshot X chain request) []
     (\<lambda>r. \<forall>response. r = Inr response \<longrightarrow> belongs (key_from_request request) (gr_value response))"
proof -
  define P where "P r \<longleftrightarrow> (\<forall>response. r = Inr response \<longrightarrow> belongs (key_from_request request) (gr_value response))"
    for r :: "AccountSnapshot GatewayResponse gateway_result"
  have complete: "sound_flow (complete_flow queued Completed None snapshot) h P" if "belongs (key_from_request request) snapshot"
    for queued snapshot and h :: "'a history"
    using that by (simp add: set_operation_def Let_def P_def)
  have reject: "sound_flow (reject_flow queued error None) h P" for queued error and h :: "'a history"
    by (simp add: reject_operation_def set_operation_def Let_def P_def)
  have refresh: "sound_flow (refresh_snapshot queued request (key_from_request request) cached now_ms) h P"
    if cached: "\<And>entry. cached = Some entry \<Longrightarrow> belongs (key_from_request request) (ce_snapshot entry)"
    for queued cached now_ms and h :: "'a history"
  proof -
    have stale: "belongs (key_from_request request) snapshot" if "stale_snapshot_fallback request cached now_ms = Some snapshot"
      for snapshot by (rule served_belongs(2) [OF cached that])
    show ?thesis
      unfolding refresh_snapshot_def wp_bind
      by (rule wp_mono [OF fetched_belongs])
        (auto simp: stale simp del: wp_bind split: sum.split option.split intro!: complete reject)
  qed
  have body: "sound_flow
      (case cached_snapshot_response request cached now_ms of
         Some snapshot \<Rightarrow> complete_flow queued Completed None snapshot
       | None \<Rightarrow> refresh_snapshot queued request (key_from_request request) cached now_ms) h P"
    if "sound_answer (EvRead (key_from_request request) cached :: 'a event)" for queued cached now_ms and h :: "'a history"
  proof -
    have cached: "belongs (key_from_request request) (ce_snapshot entry)" if "cached = Some entry" for entry
      using that \<open>sound_answer _\<close> by simp
    show ?thesis
    proof (cases "cached_snapshot_response request cached now_ms")
      case (Some snapshot)
      from served_belongs(1) [OF cached this] show ?thesis unfolding Some option.case by (rule complete)
    qed (simp del: wp_bind add: refresh [OF cached])
  qed
  have running: "sound_flow (bind_flow (set_operation op kind Running None) (\<lambda>_. f)) h P" if "\<And>h. sound_flow f h P"
    for op kind f and h :: "'a history"
    using that by (simp add: set_operation_def Let_def)
  have refused: "P (Inl e)" for e by (simp add: P_def)
  show ?thesis
    unfolding query_account_snapshot_def P_def [symmetric] begin_operation_def
    by (auto simp: Let_def refused simp del: wp_bind split: sum.split intro!: running reject body)
qed

text \<open>What a response to a snapshot query must satisfy.\<close>

definition response_belongs :: "OracleCommand \<Rightarrow> OracleOutcome \<Rightarrow> bool" where
  "response_belongs command outcome \<longleftrightarrow>
     (\<forall>q t. command = OracleCommand.QueryAccountSnapshot q \<longrightarrow> outcome = Ok (OracleResult.QueryAccountSnapshot t) \<longrightarrow>
        belongs (key_from_request q) (tc_value t))"

lemma tracked_sound:
  fixes f :: "('f, 'g GatewayResponse gateway_result) flow"
  assumes "sound_flow f [] (\<lambda>r. \<forall>response. r = Inr response \<longrightarrow> P (gr_value response))"
    and "\<And>t. P (tc_value t) \<Longrightarrow> response_belongs command (Ok (wrap t))"
  shows "sound_flow (tracked_outcome wrap f) [] (response_belongs command)"
  unfolding wp_bind wp.simps
proof (rule wp_mono [OF assms(1)])
  fix r :: "'g GatewayResponse gateway_result"
  assume "\<forall>response. r = Inr response \<longrightarrow> P (gr_value response)"
  then show "response_belongs command (case map_sum id tracked_result r of Inr x \<Rightarrow> Ok (wrap x) | Inl error \<Rightarrow> Error error)"
    using assms(2) [of "tracked_result (projr r)"]
    by (cases r) (simp_all add: tracked_result_def, simp add: response_belongs_def)
qed

lemma quiet_tracked:
  assumes "wp (\<lambda>h e. True) (\<lambda>h e. \<forall>key snapshot t. e \<noteq> EvStore key snapshot t) Q f []"
    and "\<And>q. command \<noteq> OracleCommand.QueryAccountSnapshot q"
  shows "sound_flow (tracked_outcome wrap f) [] (response_belongs command)"
  by (rule tracked_sound [where P = "\<lambda>_. True"])
    (use quiet_sound [OF assms(1)] assms(2) in \<open>simp_all add: response_belongs_def\<close>)

lemma command_sound:
  "sound_flow (handle_command S X K N chain command) [] (response_belongs command)"
proof (cases command)
  case (DeriveAccount d)
  then show ?thesis
    unfolding handle_command_def DeriveAccount OracleCommand.case
    by (intro quiet_tracked [OF quiet.derive_tracked]) (simp_all add: quiet.resolves_def)
next
  case (CheckDeployment d)
  then show ?thesis
    unfolding handle_command_def CheckDeployment OracleCommand.case
    by (intro quiet_tracked [OF quiet.check_tracked]) (simp_all add: quiet.resolves_def)
next
  case (DeployAccount r)
  then show ?thesis
    unfolding handle_command_def DeployAccount OracleCommand.case
    by (intro quiet_tracked [OF quiet.deploy_tracked]) (simp_all add: quiet.resolves_def)
next
  case (Sign q)
  then show ?thesis
    unfolding handle_command_def Sign OracleCommand.case
    by (intro quiet_tracked [OF quiet.sign_tracked]) (simp_all add: quiet.signs_def)
next
  case (QueryAccountSnapshot q)
  then show ?thesis
    unfolding handle_command_def QueryAccountSnapshot OracleCommand.case
    by (intro tracked_sound [OF query_sound]) (simp add: response_belongs_def)
qed (simp_all add: handle_command_def operation_status_def response_belongs_def)

lemma request_sound:
  "sound_flow (handle_request S X K N chain env request) [] (\<lambda>response. response_belongs (or_command request) (op_outcome response))"
  using command_sound [where S = S and X = X and K = K and N = N and chain = chain and command = "or_command request"]
  by (auto simp: handle_request_def Let_def response_belongs_def split: option.split)

text \<open>The cache is consistent, and what is left of every task will stay sound.\<close>

definition system_ok :: "Gateway \<Rightarrow> 'f task list \<Rightarrow> bool" where
  "system_ok g tasks \<longleftrightarrow>
     gw_snapshot_cache_max_entries g = DEFAULT_SNAPSHOT_CACHE_MAX_ENTRIES \<and> cache_ok (gw_snapshot_cache g) \<and> cache_belongs (gw_snapshot_cache g) \<and>
     length (sc_entries (gw_snapshot_cache g)) \<le> DEFAULT_SNAPSHOT_CACHE_MAX_ENTRIES \<and>
     (\<forall>(request, h, f) \<in> set tasks. sound_flow f h (\<lambda>response. response_belongs (or_command request) (op_outcome response)))"

lemma effect_cache:
  assumes "effect g e = Some g'" and "cache_ok (gw_snapshot_cache g)" and "cache_belongs (gw_snapshot_cache g)"
    and "length (sc_entries (gw_snapshot_cache g)) \<le> gw_snapshot_cache_max_entries g" and "sound_store e"
  shows "gw_snapshot_cache_max_entries g' = gw_snapshot_cache_max_entries g \<and>
    cache_ok (gw_snapshot_cache g') \<and> cache_belongs (gw_snapshot_cache g') \<and>
    length (sc_entries (gw_snapshot_cache g')) \<le> gw_snapshot_cache_max_entries g"
proof (cases "\<exists>key snapshot t. e = EvStore key snapshot t")
  case True
  then obtain key snapshot t where e: "e = EvStore key snapshot t" by blast
  with assms(5) obtain cache where "store_snapshot (gw_snapshot_cache g) key snapshot (gw_snapshot_cache_max_entries g) t = Some cache"
      "cache_ok cache" "cache_belongs cache" "length (sc_entries cache) \<le> gw_snapshot_cache_max_entries g"
    using store_snapshot_keeps [OF assms(2,3)] by (metis sound_store.simps(1))
  then show ?thesis using assms(1) e by auto
next
  case False
  with assms(1) have "gw_snapshot_cache g' = gw_snapshot_cache g \<and> gw_snapshot_cache_max_entries g' = gw_snapshot_cache_max_entries g"
    by (cases "(g, e)" rule: effect.cases) (auto simp: Let_def split: if_splits prod.splits)
  then show ?thesis using assms(2-4) by simp
qed

lemma effect_sound:
  assumes "effect g e = Some g'" and "cache_belongs (gw_snapshot_cache g)"
  shows "sound_answer e"
proof (cases "\<exists>key entry. e = EvRead key (Some entry)")
  case True
  then show ?thesis using assms by (force simp: cache_belongs_def split: if_splits dest: map_of_SomeD [OF sym])
next
  case False
  then show ?thesis by (cases e rule: sound_answer.cases) simp_all
qed

lemma reach_system_ok:
  assumes "reach start retention log g tasks"
    and "\<And>request. sound_flow (start request) [] (\<lambda>response. response_belongs (or_command request) (op_outcome response))"
  shows "system_ok g tasks"
  using assms(1)
proof (induction rule: reach.induct)
  case reach_init
  then show ?case
    by (simp add: system_ok_def with_clock_and_retention_def cache_default_def cache_ok_def cache_belongs_def)
next
  case (reach_arrive log g tasks request)
  then show ?case using assms(2) by (auto simp: system_ok_def)
next
  case (reach_step log g tasks i request h f e f' g')
  note ok = reach_step.IH [unfolded system_ok_def]
  have "(request, h, f) \<in> set tasks" using reach_step.hyps(2,3) by (metis nth_mem)
  with ok have "sound_flow f h (\<lambda>response. response_belongs (or_command request) (op_outcome response))" by blast
  from wp_next [OF this reach_step.hyps(4)] effect_sound [OF reach_step.hyps(5)] ok
  have "sound_store e" and f': "sound_flow f' (h @ [e]) (\<lambda>response. response_belongs (or_command request) (op_outcome response))"
    by blast+
  with effect_cache [OF reach_step.hyps(5)] ok f' show ?case
    unfolding system_ok_def by (auto dest!: subsetD [OF set_update_subset_insert])
qed

section \<open>Every request is answered\<close>

text \<open>Flows that do not hang.\<close>

primrec returns :: "('f, 'a) flow \<Rightarrow> bool" where
  "returns (Done a) = True"
| "returns Hang = False"
| "returns (NowMs k) = (\<forall>now. returns (k now))"
| "returns (TryRandomBytes n k) = (\<forall>r. returns (k r))"
| "returns (InsertOperation status now f) = returns f"
| "returns (GetOperation op now k) = (\<forall>r. returns (k r))"
| "returns (ReadCache key k) = (\<forall>r. returns (k r))"
| "returns (StoreSnapshot key snapshot t f) = returns f"
| "returns (ResolvePrivateKey secret domain path k) = (\<forall>r. returns (k r))"
| "returns (ResolveNostrPrivateKey secret path k) = (\<forall>r. returns (k r))"
| "returns (CheckDeployed address block k) = (\<forall>r. returns (k r))"
| "returns (DeployOpenZeppelin key account mode k) = (\<forall>r. returns (k r))"
| "returns (Nonce address block k) = (\<forall>r. returns (k r))"
| "returns (TokenBalance address token block k) = (\<forall>r. returns (k r))"
| "returns (BlockMetadata block k) = (\<forall>r. returns (k r))"

lemma returns_bind: "returns f \<Longrightarrow> (\<And>a. returns (g a)) \<Longrightarrow> returns (bind_flow f g)"
  by (induction f) simp_all

lemma returns_next: "returns f \<Longrightarrow> flow_next f e f' \<Longrightarrow> returns f'"
  by (cases f) auto

lemma returns_steps: "steps f h f' \<Longrightarrow> returns f \<Longrightarrow> returns f'"
  by (induction rule: steps.induct) (auto intro: returns_next)

lemma steps_append: "steps f' tr f'' \<Longrightarrow> steps f h f' \<Longrightarrow> steps f (h @ tr) f''"
proof (induction rule: steps.induct)
  case (steps_snoc f' tr g e g')
  then show ?case using steps.steps_snoc [of f "h @ tr" g e g'] by simp
qed simp

lemma returns_completes: "returns f \<Longrightarrow> \<exists>tr a. steps f tr (Done a)"
proof (induction f)
  case (Done a)
  show ?case by (blast intro: steps_Nil)
qed (simp_all, (meson UNIV_I rangeI steps_Cons flow_next.intros)+)

lemma stark_hash_returns:
  assumes "felt_laws S" and "\<exists>j. attempt S K k h j \<noteq> Inl InvalidK"
  shows "sign_stark_hash S X K k h \<noteq> None"
proof -
  obtain j where j: "attempt S K k h j \<noteq> Inl InvalidK" "\<forall>i < j. attempt S K k h i = Inl InvalidK"
    using assms(2) exists_least_iff [of "\<lambda>j. attempt S K k h j \<noteq> Inl InvalidK"] by auto
  have "sign_loop S K k h (nonce_seed S 0) = attempt_result K k (attempt S K k h j)"
    using felt_laws.sign_loop_first [OF assms(1), of j K k h 0] felt_laws.sign_loop_step [OF assms(1), of K k h j] j by simp
  then have "sign_loop S K k h None \<noteq> None" using j(1) by (simp add: nonce_seed_def attempt_result_None)
  then show ?thesis by (auto simp: sign_stark_hash_def split: sum.split)
qed

lemma request_returns:
  assumes "\<And>k m. sign_stark_hash S X K k m \<noteq> None"
  shows "returns (handle_request S X K N chain env request)"
proof -
  have set_returns: "returns (set_operation op kind state provenance)" for op kind state provenance
    by (simp add: set_operation_def Let_def)
  have reject_returns: "returns (reject_operation status error provenance)" for status error provenance
    by (simp add: reject_operation_def returns_bind set_returns)
  have begin_returns: "returns (begin_operation X kind)" for kind
    by (simp add: begin_operation_def Let_def split: sum.split)
  have descriptor_returns: "returns (derive_account_descriptor S X K chain d)" for d
    by (simp add: derive_account_descriptor_def split: sum.split)
  have balances_returns: "returns (fetch_balances q tokens balances)" for q tokens balances
    by (induction tokens arbitrary: balances) (simp_all split: sum.split)
  note rules = set_returns reject_returns begin_returns descriptor_returns balances_returns returns_bind
  have "returns (sign_stark S X K queued provenance secret domain path hash)" for queued provenance secret domain path hash
    by (auto simp: sign_stark_def assms split: sum.split option.split intro!: rules)
  then have "returns (sign S X K N chain q)" for q
    by (auto simp: sign_def sign_nostr_def Let_def split: sum.split SignRequest.split option.split intro!: rules)
  moreover have "returns (derive_account S X K chain d)" "returns (check_deployment S X K chain d)" for d
    by (auto simp: derive_account_def check_deployment_def split: sum.split bool.split intro!: rules)
  moreover have "returns (deploy_account S X K chain r)" for r
    by (auto simp: deploy_account_def Let_def split: sum.split DeployExecution.split intro!: rules)
  moreover have "returns (fetch_snapshot q t)" for q t
    by (auto simp: fetch_snapshot_def Let_def split: sum.split intro!: rules)
  then have "returns (query_account_snapshot X chain q)" for q
    by (auto simp: query_account_snapshot_def refresh_snapshot_def Let_def split: sum.split option.split intro!: rules)
  moreover have "returns (operation_status op)" for op by (simp add: operation_status_def)
  ultimately show ?thesis
    by (auto simp: handle_request_def handle_command_def Let_def split: option.split OracleCommand.split intro!: returns_bind)
qed

lemma step_possible:
  assumes "system_ok g tasks" and "returns f" and "\<And>a. f \<noteq> Done a"
  shows "\<exists>e f' g'. flow_next f e f' \<and> effect g e = Some g'"
proof (cases f)
  case (StoreSnapshot key snapshot t k)
  obtain cache where "store_snapshot (gw_snapshot_cache g) key snapshot (gw_snapshot_cache_max_entries g) t = Some cache"
    using store_snapshot_fifo [of "gw_snapshot_cache g"] assms(1) unfolding system_ok_def by blast
  then show ?thesis using StoreSnapshot by simp
next
  case (GetOperation op now k)
  then show ?thesis
    by (cases "store_get (gw_operations g) op now") (auto intro!: exI [of _ "EvGet op now (fst (store_get (gw_operations g) op now))"])
qed (use assms in \<open>auto simp: Let_def split: prod.splits\<close>)

lemma run_bounded:
  assumes "\<And>k m. sign_stark_hash S X K k m \<noteq> None" and "steps (handle_request S X K N chain env request) h f"
  shows "returns f \<and> length h \<le> 29"
proof -
  have f: "returns f" by (rule returns_steps [OF assms(2) request_returns [OF assms(1)]])
  then obtain tr a where "steps f tr (Done a)" using returns_completes by blast
  from wp_done [OF steps_append [OF this assms(2)] request_settled] f show ?thesis by simp
qed

section \<open>The log\<close>

lemma mset_update:
  assumes "i < length tasks" and "F y = F (tasks ! i) @ ys"
  shows "mset (concat (map F (tasks[i := y]))) = mset (concat (map F tasks)) + mset ys"
  using assms by (subst (2) id_take_nth_drop [OF assms(1)]) (simp add: upd_conv_take_nth_drop ac_simps)

lemma reach_log:
  "reach start retention log g tasks \<Longrightarrow> mset log = mset (concat (map (\<lambda>(request, h, f). inserts h) tasks))"
proof (induction rule: reach.induct)
  case (reach_step log g tasks i request h f e f' g')
  then show ?case by (simp add: mset_update [where ys = "inserted_status e"])
qed simp_all

section \<open>A run\<close>

text \<open>A request whose events happen without others in between.\<close>

primrec effects :: "Gateway \<Rightarrow> 'f event list \<Rightarrow> Gateway option" where
  "effects g [] = Some g"
| "effects g (e # es) = (case effect g e of None \<Rightarrow> None | Some g' \<Rightarrow> effects g' es)"

lemma effects_snoc: "effects g (es @ [e]) = (case effects g es of None \<Rightarrow> None | Some g' \<Rightarrow> effect g' e)"
  by (induction es arbitrary: g) (simp_all split: option.split)

lemma reach_run:
  assumes "steps f tr f'" and "reach start retention log g (tasks @ [(request, [], f)])" and "effects g tr = Some g'"
  shows "reach start retention (log @ inserts tr) g' (tasks @ [(request, tr, f')])"
  using assms
proof (induction arbitrary: g' rule: steps.induct)
  case (steps_snoc f tr f' e f'')
  from steps_snoc.prems(2) obtain g1 where g1: "effects g tr = Some g1" "effect g1 e = Some g'"
    by (auto simp: effects_snoc split: option.splits)
  show ?case
    using reach_step [OF steps_snoc.IH [OF steps_snoc.prems(1) g1(1)], of "length tasks" request tr f'] steps_snoc.hyps(2) g1(2)
    by simp
qed simp

abbreviation sample_schnorr :: "byte list schnorr" where
  "sample_schnorr \<equiv> \<lparr>schnorr_from_slice = Inr, schnorr_verifying_key = id, schnorr_sign_raw = \<lambda>k m a. Inr m\<rparr>"

abbreviation sample_start :: "OracleRequest \<Rightarrow> (zfelt, OracleResponse) flow" where
  "sample_start \<equiv> handle_request stark_dlog zformat zcrypto sample_schnorr Sepolia None"

definition sample_query :: AccountSnapshotRequest where
  "sample_query = \<lparr>sr_chain_id = Sepolia, sr_address = FeltHex ''0x1'', sr_tokens = [], sr_block = BlockSelector.Latest,
     sr_mode = ActiveView, sr_cache_policy = \<lparr>cp_ttl_ms = 1, cp_stale_while_revalidate_ms = 0\<rparr>\<rparr>"

definition sample_request :: OracleRequest where
  "sample_request = \<lparr>or_version = V1_0, or_id = RequestId ''2'', or_confirm = False,
     or_command = OracleCommand.QueryAccountSnapshot sample_query\<rparr>"

definition sample_block :: SnapshotBlockMetadata where
  "sample_block = \<lparr>sb_selector = BlockSelector.Latest, sb_block_hash = None, sb_block_number = None\<rparr>"

definition query_snapshot :: AccountSnapshot where
  "query_snapshot = \<lparr>as_address = FeltHex ''0x1'', as_deployment = DeploymentState.Undeployed, as_nonce = None, as_balances = [],
     as_block = sample_block,
     as_cache = \<lparr>cm_status = Miss, cm_generated_at_ms = quantize_down 3, cm_age_ms = 0\<rparr>\<rparr>"

definition sample_operation :: "OperationKind \<Rightarrow> OperationId" where
  "sample_operation kind = OperationId (operation_prefix kind @ ''-'' @ replicate 32 CHR ''0'')"

abbreviation query_op :: "OperationState \<Rightarrow> OperationStatus" where
  "query_op state \<equiv> op_in (sample_operation OperationKind.QueryAccountSnapshot) OperationKind.QueryAccountSnapshot state None"

definition sample_events :: "zfelt history" where
  "sample_events = [EvRandom 16 (Inr (replicate 16 0)), EvNow 1, EvInsert (query_op Queued) 1] @
     [EvNow 2, EvInsert (query_op Running) 2] @ [EvNow 3, EvRead (key_from_request sample_query) None] @
     [EvDeployed (FeltHex ''0x1'') BlockSelector.Latest (Inr False), EvBlock BlockSelector.Latest (Inr sample_block)] @
     [EvStore (key_from_request sample_query) query_snapshot 3] @ [EvNow 4, EvInsert (query_op Completed) 4]"

definition sample_response :: OracleResponse where
  "sample_response = \<lparr>op_version = V1_0, op_id = Some (RequestId ''2''), op_outcome =
     Ok (OracleResult.QueryAccountSnapshot \<lparr>tc_operation = query_op Completed, tc_value = query_snapshot\<rparr>)\<rparr>"

lemma steps_bindI: "steps f tr (Done a) \<Longrightarrow> steps (g a) tr' f' \<Longrightarrow> steps (bind_flow f g) (tr @ tr') f'"
  using steps_bind [of f tr "Done a" g] by (auto intro: steps_append)

lemma set_steps:
  "steps (set_operation op kind state provenance) [EvNow t, EvInsert (op_in op kind state provenance) t]
     (Done (op_in op kind state provenance))"
  unfolding set_operation_def Let_def by (intro steps_question steps_Nil)

lemma begin_steps:
  "steps (begin_operation zformat kind)
     [EvRandom 16 (Inr (replicate 16 0)), EvNow 1, EvInsert (op_in (sample_operation kind) kind Queued None) 1]
     (Done (Inr (op_in (sample_operation kind) kind Queued None)))"
proof -
  have "hex_digit 0 = CHR ''0''" by code_simp
  then have "concat (map hex_byte (replicate n 0)) = replicate (2 * n) CHR ''0''" for n
    by (induction n) (simp_all add: hex_byte_def)
  from this [of 16] have hex: "hex_encode zformat (replicate 16 0) = replicate 32 CHR ''0''" by (simp add: zformat_def)
  have "dropWhile is_whitespace (operation_prefix kind @ s) = operation_prefix kind @ s \<and> \<not> is_whitespace (hd (operation_prefix kind)) \<and>
      operation_prefix kind \<noteq> []" for s
    by (cases kind) (simp_all add: is_whitespace_def)
  then have "trim (operation_prefix kind @ ''-'' @ replicate 32 CHR ''0'') \<noteq> []"
    unfolding trim_def by (metis append_is_Nil_conv dropWhile_eq_Nil_conv hd_append2 hd_in_set rev_is_Nil_conv set_rev)
  then have op: "operation_id_new (operation_prefix kind @ ''-'' @ replicate 32 CHR ''0'') = Inr (sample_operation kind)"
    by (simp add: operation_id_new_def sample_operation_def)
  show ?thesis
    unfolding begin_operation_def Let_def
    by (rule steps_question, unfold sum.case hex op) (intro steps_question steps_Nil)
qed

lemma fetch_steps:
  "steps (fetch_snapshot sample_query 3)
     [EvDeployed (FeltHex ''0x1'') BlockSelector.Latest (Inr False), EvBlock BlockSelector.Latest (Inr sample_block)] (Done (Inr query_snapshot))"
  unfolding fetch_snapshot_def
  by (rule steps_Cons [OF steps_Cons [OF steps_Nil]]) (simp_all add: sample_query_def query_snapshot_def Let_def)

lemma query_steps:
  "steps (query_account_snapshot zformat Sepolia sample_query :: (zfelt, _) flow) sample_events
     (Done (Inr \<lparr>gr_operation = query_op Completed, gr_value = query_snapshot\<rparr>))"
proof -
  have fin: "steps (complete_flow (query_op Queued) Completed None query_snapshot :: (zfelt, _) flow)
      [EvNow 4, EvInsert (query_op Completed) 4] (Done (Inr \<lparr>gr_operation = query_op Completed, gr_value = query_snapshot\<rparr>))"
    using steps_bind [OF set_steps] by (simp only: bind_flow.simps OperationStatus.select_convs)
  have refresh: "steps (refresh_snapshot (query_op Queued) sample_query (key_from_request sample_query) None 3 :: (zfelt, _) flow)
      ([EvDeployed (FeltHex ''0x1'') BlockSelector.Latest (Inr False), EvBlock BlockSelector.Latest (Inr sample_block)] @
       [EvStore (key_from_request sample_query) query_snapshot 3] @ [EvNow 4, EvInsert (query_op Completed) 4])
      (Done (Inr \<lparr>gr_operation = query_op Completed, gr_value = query_snapshot\<rparr>))"
    unfolding refresh_snapshot_def append.simps(2) [of _ "[]"]
    by (rule steps_bindI [OF fetch_steps]) (unfold sum.case append_Cons append_Nil, rule steps_Cons [OF fin], simp)
  have accept: "ensure_chain_matches Sepolia (sr_chain_id sample_query) = Inr ()" "validate_cache_policy (sr_cache_policy sample_query) = Inr ()"
    "\<not> length (sr_tokens sample_query) > MAX_SNAPSHOT_TOKENS" "cached_snapshot_response sample_query None 3 = None"
    by (simp_all add: sample_query_def ensure_chain_matches_def validate_cache_policy_def cached_snapshot_response_def)
  have read: "steps (NowMs (\<lambda>now_ms. ReadCache (key_from_request sample_query) (\<lambda>cached.
          case cached_snapshot_response sample_query cached now_ms of
            Some snapshot \<Rightarrow> complete_flow (query_op Queued) Completed None snapshot
          | None \<Rightarrow> refresh_snapshot (query_op Queued) sample_query (key_from_request sample_query) cached now_ms)) :: (zfelt, _) flow)
      ([EvNow 3, EvRead (key_from_request sample_query) None] @
       [EvDeployed (FeltHex ''0x1'') BlockSelector.Latest (Inr False), EvBlock BlockSelector.Latest (Inr sample_block)] @
       [EvStore (key_from_request sample_query) query_snapshot 3] @ [EvNow 4, EvInsert (query_op Completed) 4])
      (Done (Inr \<lparr>gr_operation = query_op Completed, gr_value = query_snapshot\<rparr>))"
    unfolding append_Cons append_Nil
    by (rule steps_question, rule steps_Cons [OF refresh [unfolded append_Cons append_Nil]]) (simp add: accept)
  show ?thesis
    unfolding query_account_snapshot_def sample_events_def
    by (rule steps_bindI [OF begin_steps], unfold sum.case OperationStatus.select_convs, rule steps_bindI [OF set_steps])
      (simp only: accept sum.case Let_def if_False, rule read [unfolded OperationStatus.select_convs])
qed

lemma sample_steps: "steps (sample_start sample_request) sample_events (Done sample_response)"
proof -
  have start: "sample_start sample_request = bind_flow (tracked_outcome OracleResult.QueryAccountSnapshot
      (query_account_snapshot zformat Sepolia sample_query))
      (\<lambda>outcome. Done \<lparr>op_version = V1_0, op_id = Some (RequestId ''2''), op_outcome = outcome\<rparr>)"
    by (simp add: handle_request_def handle_command_def sample_request_def require_confirm_if_enabled_def require_confirm_env_enabled_def)
  have "steps (sample_start sample_request) sample_events
      (bind_flow (tracked_outcome OracleResult.QueryAccountSnapshot
          (Done (Inr \<lparr>gr_operation = query_op Completed, gr_value = query_snapshot\<rparr>)))
        (\<lambda>outcome. Done \<lparr>op_version = V1_0, op_id = Some (RequestId ''2''), op_outcome = outcome\<rparr>))"
    unfolding start by (intro steps_bind query_steps)
  then show ?thesis by (simp add: sample_response_def tracked_result_def)
qed

text \<open>A state in which one request has been answered and another has arrived.\<close>

lemma sample_reach:
  "\<exists>g. reach sample_start retention_default [query_op Queued, query_op Running, query_op Completed] g
     [(sample_request, sample_events, Done sample_response), (sample_request, [], sample_start sample_request)]"
proof -
  define g0 where "g0 = with_clock_and_retention retention_default"
  have g0: "gw_snapshot_cache g0 = cache_default" "gw_snapshot_cache_max_entries g0 = DEFAULT_SNAPSHOT_CACHE_MAX_ENTRIES"
    by (simp_all add: g0_def with_clock_and_retention_def)
  have "cache_ok cache_default" by (simp add: cache_default_def cache_ok_def)
  then obtain cache where "store_snapshot cache_default (key_from_request sample_query) query_snapshot
      DEFAULT_SNAPSHOT_CACHE_MAX_ENTRIES 3 = Some cache" using store_snapshot_fifo by blast
  then obtain g where g: "effects g0 sample_events = Some g" by (simp add: sample_events_def g0 cache_default_def)
  have "reach sample_start retention_default [] g0 ([] @ [(sample_request, [], sample_start sample_request)])"
    unfolding g0_def by (intro reach_arrive reach_init)
  from reach_run [OF sample_steps this g]
  have "reach sample_start retention_default (inserts sample_events) g [(sample_request, sample_events, Done sample_response)]" by simp
  from reach_arrive [OF this, of sample_request] show ?thesis by (auto simp: sample_events_def)
qed

section \<open>Properties\<close>

text \<open>
  C13. The shared state stays consistent however requests interleave. In every state that any number of requests in
  flight can reach, the store holds at most the configured number of operations, one entry each; the cache holds at most
  256 snapshots, its order and its map agree; and a status that is looked up is the one last recorded for that
  operation, by one of the requests, or that one marked as expired.
\<close>

theorem gateway_invariant:
  assumes "reach (handle_request S X K N chain env) retention log g tasks"
    and "0 < rp_max_entries retention" and "length log < 2 ^ 64 - 1"
  shows "length (ops_entries (gw_operations g)) \<le> rp_max_entries retention \<and> distinct (map fst (ops_entries (gw_operations g))) \<and>
    length (sc_entries (gw_snapshot_cache g)) \<le> 256 \<and> cache_ok (gw_snapshot_cache g) \<and>
    mset log = mset (concat (map (\<lambda>(request, h, f). inserts h) tasks)) \<and>
    (\<forall>op now status. fst (store_get (gw_operations g) op now) = Some status \<longrightarrow> recorded log op status)"
proof -
  have store: "store_ok (gw_operations g)" "ops_retention (gw_operations g) = retention"
    using store_reach_ok [OF reach_store [OF assms(1)]] assms(2,3) by auto
  have "system_ok g tasks" by (rule reach_system_ok [OF assms(1) request_sound])
  moreover have "recorded log op status" if "fst (store_get (gw_operations g) op now) = Some status" for op now status
    using recorded_prune [OF reach_recorded [OF assms(1)], of now] that
    by (auto simp: store_get_def Let_def store_recorded_def)
  ultimately show ?thesis
    using store reach_log [OF assms(1)] by (auto simp: store_ok_def entries_ok_def system_ok_def)
qed

theorem gateway_invariant_witness:
  "\<exists>g tasks. reach sample_start retention_default [query_op Queued, query_op Running, query_op Completed] g tasks \<and>
     length (ops_entries (gw_operations g)) \<le> 1024 \<and> length (sc_entries (gw_snapshot_cache g)) \<le> 256 \<and>
     (\<forall>now status. fst (store_get (gw_operations g) (sample_operation OperationKind.QueryAccountSnapshot) now) = Some status \<longrightarrow>
       os_state status = Completed \<or> os_state status = Expired)"
proof -
  obtain g tasks where "reach sample_start retention_default [query_op Queued, query_op Running, query_op Completed] g tasks"
    using sample_reach by blast
  moreover note gateway_invariant [OF this]
  moreover have "latest [query_op Queued, query_op Running, query_op Completed]
      (sample_operation OperationKind.QueryAccountSnapshot) = Some (query_op Completed)"
    by (simp add: latest_def)
  ultimately show ?thesis by (fastforce simp: retention_default_def recorded_def)
qed

text \<open>
  C17. A snapshot is never served for another account. Whatever other requests have put into the cache before or meanwhile,
  a snapshot query that succeeds returns the address it asked for and one balance for each of its tokens, in their order.
\<close>

theorem snapshot_served:
  assumes "reach (handle_request S X K N chain env) retention log g tasks" and "(request, h, Done response) \<in> set tasks"
    and "or_command request = OracleCommand.QueryAccountSnapshot q"
    and "op_outcome response = Ok (OracleResult.QueryAccountSnapshot result)"
  shows "as_address (tc_value result) = sr_address q \<and> map tb_token (as_balances (tc_value result)) = sr_tokens q"
proof -
  have "system_ok g tasks" by (rule reach_system_ok [OF assms(1) request_sound])
  then have "belongs (key_from_request q) (tc_value result)"
    using assms(2-4) by (fastforce simp: system_ok_def response_belongs_def)
  moreover have "inj cached_token" by (rule injI) (simp add: cached_token_def)
  ultimately show ?thesis
    by (auto simp: belongs_def key_from_request_def simp flip: map_map simp del: map_map dest: map_injective)
qed

theorem snapshot_served_witness:
  "as_address query_snapshot = FeltHex ''0x1'' \<and> map tb_token (as_balances query_snapshot) = []"
proof -
  obtain g tasks where "reach sample_start retention_default [query_op Queued, query_op Running, query_op Completed] g tasks"
      and "(sample_request, sample_events, Done sample_response) \<in> set tasks"
    using sample_reach by (metis list.set_intros(1))
  from snapshot_served [OF this, of sample_query "\<lparr>tc_operation = query_op Completed, tc_value = query_snapshot\<rparr>"]
  show ?thesis by (simp add: sample_request_def sample_response_def sample_query_def)
qed

text \<open>
  C14. Every request is answered. Provided that the third-party signing accepts some nonce for every message, a request in
  flight is either answered or can take a step in every reachable state, so that no request blocks another, and it is
  answered after at most 29 steps of its own.
\<close>

theorem request_answered:
  assumes "stark_crypto_laws S X K" and "\<And>key message. \<exists>j. attempt S K key message j \<noteq> Inl InvalidK"
    and "reach (handle_request S X K N chain env) retention log g tasks"
    and "i < length tasks" and "tasks ! i = (request, h, f)"
  shows "length h \<le> 29 \<and> ((\<exists>response. f = Done response) \<or>
    length h < 29 \<and> (\<exists>e f' g'. reach (handle_request S X K N chain env) retention (log @ inserted_status e) g'
      (tasks[i := (request, h @ [e], f')])))"
proof -
  have "felt_laws S" using assms(1) by (simp add: stark_crypto_laws_def felt_format_laws_def felt_text_def)
  then have hash: "sign_stark_hash S X K k m \<noteq> None" for k m by (rule stark_hash_returns [OF _ assms(2)])
  have run: "steps (handle_request S X K N chain env request) h f" using reach_steps [OF assms(3)] assms(4,5) by (metis nth_mem)
  note bounded = run_bounded [OF hash run]
  show ?thesis
  proof (cases "\<exists>response. f = Done response")
    case False
    then obtain e f' g' where e: "flow_next f e f'" "effect g e = Some g'"
      using step_possible [OF reach_system_ok [OF assms(3) request_sound]] bounded by blast
    have "length (h @ [e]) \<le> 29" using run_bounded [OF hash steps_snoc [OF run e(1)]] by blast
    moreover note reach_step [OF assms(3-5) e]
    ultimately show ?thesis by auto
  qed (use bounded in simp)
qed

theorem request_answered_witness:
  "\<exists>g tasks e f' g'. tasks ! 1 = (sample_request, [], sample_start sample_request) \<and>
     reach sample_start retention_default [query_op Queued, query_op Running, query_op Completed] g tasks \<and>
     reach sample_start retention_default ([query_op Queued, query_op Running, query_op Completed] @ inserted_status e) g'
       (tasks[1 := (sample_request, [e], f')])"
proof -
  define tasks where "tasks = [(sample_request, sample_events, Done sample_response), (sample_request, [], sample_start sample_request)]"
  obtain g where g: "reach sample_start retention_default [query_op Queued, query_op Running, query_op Completed] g tasks"
    using sample_reach unfolding tasks_def by blast
  have "zfelt_of 1 \<noteq> zfelt_of 0" by (simp add: Rep_zfelt_inject [symmetric] Rep_zfelt_of FELT_PRIME_def)
  then have "attempt stark_dlog zcrypto key message 1 \<noteq> Inl InvalidK" for key message
    by (simp add: attempt_def nonce_seed_def zcrypto_sel)
  then have accepted: "\<exists>j. attempt stark_dlog zcrypto key message j \<noteq> Inl InvalidK" for key message by blast
  have task: "1 < length tasks" "tasks ! 1 = (sample_request, [], sample_start sample_request)" by (simp_all add: tasks_def)
  have "sample_start sample_request \<noteq> Done response" for response
    by (simp add: handle_request_def handle_command_def sample_request_def require_confirm_if_enabled_def
        require_confirm_env_enabled_def query_account_snapshot_def begin_operation_def)
  with request_answered [OF zk.stark_crypto_laws_axioms accepted g task] g task(2) show ?thesis by fastforce
qed

end
