(* ===== verification/Gateway_Deployment.thy ===== *)
theory Gateway_Deployment
  imports Gateway_Backend Gateway_System
begin

text \<open>
  The gateway on top of its Starknet backend: runs of a request in which the questions about the chain are answered by the
  backend. The lemmas show what is signed for which request, and when a deployment is reported as done.
\<close>

section \<open>Runs on the backend\<close>

fun answered ::
    "('f, 'p, 'a, 'r) starknet \<Rightarrow> 'f felt_format \<Rightarrow> 'f stark_crypto \<Rightarrow> ('f, 'w) provider \<Rightarrow> StarknetGatewayBackend \<Rightarrow>
     'f event \<Rightarrow> 'w \<Rightarrow> 'w \<Rightarrow> bool" where
  "answered S X K P self (EvDeployed address block r) w w' = (backend_check_deployed S X P address block w = (r, w'))"
| "answered S X K P self (EvDeploy private_key account mode r) w w' =
     (backend_deploy_open_zeppelin S X K P self private_key account mode w = Some (r, w'))"
| "answered S X K P self (EvNonce address block r) w w' = (backend_nonce S X P address block w = (r, w'))"
| "answered S X K P self (EvBalance address token block r) w w' = (backend_token_balance S X P address token block w = (r, w'))"
| "answered S X K P self (EvBlock block r) w w' = (backend_block_metadata S X P block w = (r, w'))"
| "answered S X K P self e w w' = (w' = w)"

inductive backed ::
    "('f, 'p, 'a, 'r) starknet \<Rightarrow> 'f felt_format \<Rightarrow> 'f stark_crypto \<Rightarrow> ('f, 'w) provider \<Rightarrow> StarknetGatewayBackend \<Rightarrow>
     ('f, 'b) flow \<Rightarrow> 'w \<Rightarrow> 'f history \<Rightarrow> ('f, 'b) flow \<Rightarrow> 'w \<Rightarrow> bool" for S X K P self where
  backed_Nil: "backed S X K P self f w [] f w"
| backed_step: "backed S X K P self f w h f' w' \<Longrightarrow> flow_next f' e f'' \<Longrightarrow> answered S X K P self e w' w'' \<Longrightarrow>
    backed S X K P self f w (h @ [e]) f'' w''"

lemma backed_steps: "backed S X K P self f w h f' w' \<Longrightarrow> steps f h f'"
  by (induction rule: backed.induct) (auto intro: steps.intros)

lemma backed_event: "backed S X K P self f w h f' w' \<Longrightarrow> e \<in> set h \<Longrightarrow> \<exists>w1 w2. answered S X K P self e w1 w2"
  by (induction rule: backed.induct) auto

text \<open>Steps that only send good deployments make a run that does; and an event of the run happens at some point of it.\<close>

lemma backed_evolves:
  assumes "backed S X K P self f w h f' w'" and "\<And>e w w'. e \<in> set h \<Longrightarrow> answered S X K P self e w w' \<Longrightarrow> evolves P good w w'"
  shows "evolves P good w w'"
  using assms
proof (induction rule: backed.induct)
  case (backed_step f w h f' w' e f'' w'')
  from backed_step.prems [OF _ backed_step.hyps(3)] have "evolves P good w' w''" by simp
  moreover from backed_step.prems have "evolves P good w w'" by (intro backed_step.IH) (rule backed_step.prems; simp)
  ultimately show ?case by (rule evolves_trans)
qed (rule ev_start)

lemma backed_event_evolves:
  assumes "backed S X K P self f w h f' w'" and "e \<in> set h"
    and "\<And>e w w'. e \<in> set h \<Longrightarrow> answered S X K P self e w w' \<Longrightarrow> evolves P good w w'"
  shows "\<exists>w1 w2. evolves P good w w1 \<and> answered S X K P self e w1 w2 \<and> evolves P good w2 w'"
  using assms
proof (induction rule: backed.induct)
  case (backed_step f w h f' w' e' f'' w'')
  have last: "evolves P good w' w''" using backed_step.prems(2) [OF _ backed_step.hyps(3)] by simp
  have first: "evolves P good w w'" by (rule backed_evolves [OF backed_step.hyps(1)]) (rule backed_step.prems(2); simp)
  show ?case
  proof (cases "e \<in> set h")
    case True
    then have "\<exists>w1 w2. evolves P good w w1 \<and> answered S X K P self e w1 w2 \<and> evolves P good w2 w'"
      by (rule backed_step.IH) (rule backed_step.prems(2); simp)
    with last show ?thesis by (blast intro: evolves_trans)
  next
    case False
    with backed_step.prems(1) have "e = e'" by simp
    with backed_step.hyps(3) first show ?thesis by (blast intro: ev_start)
  qed
qed simp

lemma run_authorized:
  assumes "steps (handle_request S X K N chain env request) h f" and "e \<in> set h"
  shows "admitted env request \<and> authorized S X K chain (or_command request) e"
proof -
  obtain i where "i < length h" "e = h ! i" using assms(2) by (auto simp: in_set_conv_nth)
  with wp_event [OF assms(1) request_settled, of i] show ?thesis by simp
qed

section \<open>What is signed\<close>

text \<open>
  The deployments that answer a request: of the class and with the salt that it resolves to for the public key of the key
  that signs, on the chain of the backend, and within the ceiling for fees.
\<close>

definition requested_deployment ::
    "('f, 'p, 'a, 'r) starknet \<Rightarrow> 'f felt_format \<Rightarrow> 'f stark_crypto \<Rightarrow> StarknetGatewayBackend \<Rightarrow> DerivationRequest \<Rightarrow>
     'f AccountDeployment \<Rightarrow> bool" where
  "requested_deployment S X K self d dep \<longleftrightarrow>
     (\<exists>public_key account_class. stark_public_key S X K (dp_secret_scalar dep) = Inr public_key \<and>
        resolve_account_class X (dr_account_class d) (sb_chain_id self) = Inr account_class \<and>
        dp_class_hash dep = acl_class_hash (as_account_class S account_class) \<and>
        dp_salt dep = salt_resolve S (to_salt_policy X (dr_salt_policy d)) public_key \<and>
        dp_chain_id dep = chain_as_felt S (sb_chain_id self) \<and> within_ceiling self dep)"

lemma signable_requested:
  assumes "felt_format_laws S X" and "build_descriptor S X K d private_key = Inr (private_key, account)"
    and "pv_chain_id (ac_provenance account) = sb_chain_id self" and "signable S X self private_key account dep"
  shows "requested_deployment S X K self d dep"
proof -
  have felt: "felthex_to_felt X (felthex_from_felt X f) = f" for f
    using felt_format_laws.felthex_to_from [OF assms(1)] .
  show ?thesis
    using assms(2-4) unfolding build_descriptor_def signable_def requested_deployment_def derive_public_key_def Let_def
    by (auto simp: result_iffs felt)
qed

text \<open>The deployments that a request may lead to: those that answer an admitted request to deploy an OpenZeppelin account.\<close>

definition deployment_allowed ::
    "('f, 'p, 'a, 'r) starknet \<Rightarrow> 'f felt_format \<Rightarrow> 'f stark_crypto \<Rightarrow> StarknetGatewayBackend \<Rightarrow> string option option \<Rightarrow>
     OracleRequest \<Rightarrow> 'f AccountDeployment \<Rightarrow> bool" where
  "deployment_allowed S X K self env request dep \<longleftrightarrow>
     admitted env request \<and>
     (\<exists>d. or_command request = OracleCommand.DeployAccount d \<and>
        cs_kind (dr_account_class (da_derivation d)) = AccountClassKind.OpenZeppelin \<and>
        requested_deployment S X K self (da_derivation d) dep)"

lemma signable_allowed:
  assumes "stark_crypto_laws S X K"
    and "steps (handle_request S X K N chain env request) h f" and "EvDeploy private_key account mode r \<in> set h"
    and "pv_chain_id (ac_provenance account) = sb_chain_id self" and "signable S X self private_key account dep"
  shows "deployment_allowed S X K self env request dep"
proof -
  have format: "felt_format_laws S X" using assms(1) by (simp add: stark_crypto_laws_def)
  have auth: "admitted env request \<and> authorized S X K chain (or_command request) (EvDeploy private_key account mode r)"
    by (rule run_authorized [OF assms(2,3)])
  then obtain d where d: "or_command request = OracleCommand.DeployAccount d"
      "cs_kind (dr_account_class (da_derivation d)) = AccountClassKind.OpenZeppelin"
      "build_descriptor S X K (da_derivation d) private_key = Inr (private_key, account)"
    by (auto split: OracleCommand.splits)
  with auth signable_requested [OF format d(3) assms(4,5)] show ?thesis by (auto simp: deployment_allowed_def)
qed

lemma evolving_run: "evolving P good m \<Longrightarrow> m w = (r, w') \<Longrightarrow> evolves P good w w'"
  by (metis snd_conv)

lemma answer_evolves:
  assumes "stark_crypto_laws S X K"
    and "steps (handle_request S X K N chain env request) h f" and "e \<in> set h" and "answered S X K P self e w w'"
  shows "evolves P (deployment_allowed S X K self env request) w w'"
proof (cases "\<exists>private_key account mode r. e = EvDeploy private_key account mode r")
  case True
  then obtain private_key account mode r where ev: "e = EvDeploy private_key account mode r" by blast
  have felt: "felt_laws S" using assms(1) by (simp add: stark_crypto_laws_def felt_format_laws_def felt_text_def)
  show ?thesis
    by (rule deploy_evolves [OF felt _ assms(4) [unfolded ev answered.simps]])
      (rule signable_allowed [OF assms(1,2) assms(3) [unfolded ev]])
next
  case False
  show ?thesis
    using False assms(4)
    by (cases e) (auto simp: ev_start intro: evolving_run [OF check_evolving] evolving_run [OF nonce_evolving]
        evolving_run [OF balance_evolving] evolving_run [OF block_evolving])
qed

section \<open>When a deployment is done\<close>

lemma wp_any: "(\<And>h a. wp (\<lambda>h e. True) (\<lambda>h e. True) Q (g a) h) \<Longrightarrow> wp (\<lambda>h e. True) (\<lambda>h e. True) Q (bind_flow f g) h"
  by (simp add: wp_trivial)

lemma deployed_event:
  "wp (\<lambda>h e. True) (\<lambda>h e. True)
     (\<lambda>h r. \<forall>response. r = Inr response \<longrightarrow> dar_deployment (gr_value response) = DeploymentState.Deployed \<longrightarrow>
        \<not> dar_already_deployed (gr_value response) \<longrightarrow>
        (\<exists>private_key account tx. EvDeploy private_key account (da_mode request) (Inr (DeployExecution.Accepted tx)) \<in> set h \<and>
           os_state (gr_operation response) = OperationState.Accepted tx))
     (deploy_account S X K chain request) h"
  unfolding deploy_account_def
  by (rule wp_any, split sum.split, intro conjI allI impI, simp, rule wp_any, split sum.split, intro conjI allI impI wp_any)
    (auto simp: reject_operation_def set_operation_def Let_def split: sum.split DeployExecution.split)

lemma request_deployed:
  assumes "dar_deployment (tc_value result) = DeploymentState.Deployed" and "\<not> dar_already_deployed (tc_value result)"
  shows "wp (\<lambda>h e. True) (\<lambda>h e. True) (\<lambda>h response. op_outcome response = Ok (OracleResult.DeployAccount result) \<longrightarrow>
      (\<exists>private_key account mode tx. EvDeploy private_key account mode (Inr (DeployExecution.Accepted tx)) \<in> set h \<and>
         os_state (tc_operation result) = OperationState.Accepted tx))
    (handle_request S X K N chain env request) []"
proof (cases "\<exists>d. or_command request = OracleCommand.DeployAccount d")
  case True
  then show ?thesis
    using assms
    by (auto simp: handle_request_def handle_command_def Let_def tracked_result_def map_sum_Inr_iff split: option.split sum.split
        intro!: wp_mono [OF deployed_event]) blast+
next
  case False
  then show ?thesis
    by (auto simp: handle_request_def handle_command_def Let_def split: option.split sum.split OracleCommand.split intro!: wp_trivial)
qed

section \<open>A deployment\<close>

lemma backed_append:
  assumes "backed S X K P self f' w' h' f'' w''" and "backed S X K P self f w h f' w'"
  shows "backed S X K P self f w (h @ h') f'' w''"
  using assms
proof (induction rule: backed.induct)
  case (backed_step f' w' h' g w1 e g' w2)
  from backed.backed_step [OF backed_step.IH [OF backed_step.prems] backed_step.hyps(2,3)] show ?case by simp
qed simp

text \<open>Events that do not concern the chain.\<close>

lemma backed_quiet:
  assumes "steps f h f'" and "\<And>e. e \<in> set h \<Longrightarrow> answered S X K P self e w w"
  shows "backed S X K P self f w h f' w"
  using assms by (induction rule: steps.induct) (auto intro: backed.intros)

definition sample_deploy :: DeployAccountRequest where
  "sample_deploy = \<lparr>da_derivation =
       \<lparr>dr_secret = SecretRef ''wallet'', dr_key_domain = KeyDomain.StarknetAccount, dr_chain_id = Sepolia,
        dr_path = \<lparr>dp_coin_type = 9004, dp_account_index = 0, dp_address_index = 0\<rparr>,
        dr_account_class = \<lparr>cs_kind = AccountClassKind.OpenZeppelin, cs_class_hash = Some (felthex_from_felt zformat (zfelt_of 3)),
          cs_source_label = None, cs_allow_unlisted_class_hash = True\<rparr>,
        dr_salt_policy = SaltPolicySpec.Zero\<rparr>,
     da_mode = WaitForAcceptance \<lparr>wp_poll_interval_ms = 60000, wp_timeout_ms = 120000\<rparr>\<rparr>"

definition sample_deploy_request :: OracleRequest where
  "sample_deploy_request = \<lparr>or_version = V1_0, or_id = RequestId ''3'', or_confirm = True,
     or_command = OracleCommand.DeployAccount sample_deploy\<rparr>"

definition sample_backend :: StarknetGatewayBackend where
  "sample_backend = with_deploy_fee_ceiling (backend_new Sepolia) sample_ceiling"

lemma sample_backend_eq: "sample_backend = \<lparr>sb_chain_id = Sepolia, sb_deploy_fee_ceiling = Some sample_ceiling\<rparr>"
  by (simp add: sample_backend_def with_deploy_fee_ceiling_def backend_new_def)

abbreviation sim_start :: sim_state where
  "sim_start \<equiv> \<lparr>sim_clock = 0, sim_sent = []\<rparr>"

lemma zfelthex [simp]: "felthex_to_felt zformat (felthex_from_felt zformat f) = f"
  by (rule zfmt.felthex_to_from)

lemma sample_key: "stark_public_key stark_dlog zformat zcrypto (zfelt_of 5) = Inr (zfelt_of 1)"
proof -
  have "0 < felt_val stark_dlog (zfelt_of 5)" "felt_val stark_dlog (zfelt_of 5) < CURVE_ORDER" by (simp_all add: dlog_num)
  then show ?thesis by (simp add: zk.stark_public_key_iff zcrypto_sel)
qed

lemma sample_descriptor:
  obtains account where "build_descriptor stark_dlog zformat zcrypto (da_derivation sample_deploy) (zfelt_of 5) = Inr (zfelt_of 5, account)"
    and "felthex_to_felt zformat (ac_public_key account) = zfelt_of 1"
    and "map (felthex_to_felt zformat) (ac_constructor_calldata account) = [zfelt_of 1]"
    and "felthex_to_felt zformat (ac_deployer_address account) = felt_zero stark_dlog"
    and "pv_chain_id (ac_provenance account) = Sepolia"
proof -
  obtain address where "calculate_address stark_dlog zcrypto (oz_account_class (oz_from_class_hash (zfelt_of 3))) (zfelt_of 1) SaltPolicy.Zero = Inr address"
    by (auto simp: calculate_address_def calculate_contract_address_def encode_short_string_def Let_def CONTRACT_ADDRESS_PREFIX_def ascii_bytes_def)
  then show ?thesis
    by (intro that) (auto simp: build_descriptor_def derive_public_key_def sample_key sample_deploy_def resolve_account_class_def
        enforce_class_hash_allowlist_def oz_account_class_def Let_def)
qed

lemma sim_wait:
  "wait_for_acceptance zformat sim_node hash 60000 120000 \<lparr>sim_clock = 0, sim_sent = ds\<rparr> =
     Some (Inr (), \<lparr>sim_clock = 60 * 10 ^ 9, sim_sent = ds\<rparr>)"
proof -
  have first: "wait_poll zformat sim_node hash 120000 (120 * 10 ^ 9) (60 * 10 ^ 9) \<lparr>sim_clock = 0, sim_sent = ds\<rparr> =
      Inr \<lparr>sim_clock = 60 * 10 ^ 9, sim_sent = ds\<rparr>"
    by (simp add: wait_poll_def sim_node_def await_before_deadline_def observe_transaction_def bind_act_def done_act_def
        is_transaction_hash_not_found_def)
  have second: "wait_poll zformat sim_node hash 120000 (120 * 10 ^ 9) (60 * 10 ^ 9) \<lparr>sim_clock = 60 * 10 ^ 9, sim_sent = ds\<rparr> =
      Inl (Inr (), \<lparr>sim_clock = 60 * 10 ^ 9, sim_sent = ds\<rparr>)"
    by (simp add: wait_poll_def sim_node_def await_before_deadline_def observe_transaction_def bind_act_def done_act_def
        classify_execution_def)
  have "wait_loop zformat sim_node hash 120000 (120 * 10 ^ 9) (60 * 10 ^ 9) \<lparr>sim_clock = 0, sim_sent = ds\<rparr> =
      Some (Inr (), \<lparr>sim_clock = 60 * 10 ^ 9, sim_sent = ds\<rparr>)"
    by (subst wait_loop_poll, simp only: first sum.case, subst wait_loop_poll, simp only: second sum.case)
  then show ?thesis by (simp add: wait_for_acceptance_def sim_node_def instant_checked_add_def)
qed

lemma sample_admitted_estimate:
  "\<exists>p. admit_estimate sample_ceiling (101, 20) (101, 20) (101, 20) = Inr p"
  by (simp add: admit_estimate_def proposed_from_estimate_def sample_bound result_iffs admit_Inr sample_ceiling_def ceiling_ok_def
      bound_positive_def bound_le_def ceiling_bounds_def proposed_bounds_def)

lemma sim_deploy:
  assumes "felthex_to_felt zformat (ac_public_key account) = zfelt_of 1"
    and "map (felthex_to_felt zformat) (ac_constructor_calldata account) = [zfelt_of 1]"
    and "felthex_to_felt zformat (ac_deployer_address account) = felt_zero stark_dlog"
    and "pv_chain_id (ac_provenance account) = Sepolia"
  shows "\<exists>dep. backend_deploy_open_zeppelin stark_dlog zformat zcrypto sim_node sample_backend (zfelt_of 5) account (da_mode sample_deploy) sim_start =
    Some (Inr (DeployExecution.Accepted (felthex_from_felt zformat (zfelt_of 7))), \<lparr>sim_clock = 60 * 10 ^ 9, sim_sent = [dep]\<rparr>)"
proof -
  note rs = rs_felt_id [OF dlog.felt_laws_axioms]
  have "validate_open_zeppelin_descriptor stark_dlog zformat account (zfelt_of 1) = Inr ()"
    using assms by (simp add: validate_open_zeppelin_descriptor_def)
  moreover have "backend_check_deployed stark_dlog zformat sim_node address block w = (Inr False, w)" for address block w
    by (simp add: backend_check_deployed_def sim_node_def bind_act_def done_act_def is_contract_not_found_def)
  moreover obtain dep where "submit_open_zeppelin_deploy stark_dlog zformat sim_node sample_backend (zfelt_of 5) account sim_start =
      (Inr (zfelt_of 7), \<lparr>sim_clock = 0, sim_sent = [dep]\<rparr>)"
    using sample_admitted_estimate
    by (auto simp: submit_open_zeppelin_deploy_def sim_node_def bind_act_def done_act_def sample_backend_eq bound_deployment_def Let_def)
  ultimately show ?thesis
    using assms(4)
    by (simp add: backend_deploy_open_zeppelin_def sample_key Let_def sample_deploy_def sim_wait rs) (simp add: sample_backend_eq)
qed

abbreviation deploy_op :: "OperationState \<Rightarrow> Provenance option \<Rightarrow> OperationStatus" where
  "deploy_op state provenance \<equiv> op_in (sample_operation OperationKind.DeployAccount) OperationKind.DeployAccount state provenance"

abbreviation sample_deploying :: "(zfelt, OracleResponse) flow" where
  "sample_deploying \<equiv> sample_start sample_deploy_request"

lemma deploying_eq:
  "sample_deploying = bind_flow (tracked_outcome OracleResult.DeployAccount
      (deploy_account stark_dlog zformat zcrypto Sepolia sample_deploy))
     (\<lambda>outcome. Done \<lparr>op_version = V1_0, op_id = Some (RequestId ''3''), op_outcome = outcome\<rparr>)"
  by (simp add: handle_request_def handle_command_def sample_deploy_request_def require_confirm_if_enabled_def require_confirm_env_enabled_def)

lemma backed_bind:
  "backed S X K P self f w h f' w' \<Longrightarrow> backed S X K P self (bind_flow f g) w h (bind_flow f' g) w'"
proof (induction rule: backed.induct)
  case (backed_step f w h f' w' e f'' w'')
  have "flow_next (bind_flow f' g) e (bind_flow f'' g)" using backed_step.hyps(2) by (cases f') auto
  from backed.backed_step [OF backed_step.IH this backed_step.hyps(3)] show ?case .
qed (rule backed_Nil)

lemma resolve_steps:
  assumes "build_descriptor stark_dlog zformat zcrypto (da_derivation sample_deploy) (zfelt_of 5) = Inr (zfelt_of 5, account)"
  shows "steps (derive_account_descriptor stark_dlog zformat zcrypto Sepolia (da_derivation sample_deploy))
    [EvResolve (SecretRef ''wallet'') KeyDomain.StarknetAccount \<lparr>dp_coin_type = 9004, dp_account_index = 0, dp_address_index = 0\<rparr> (Inr (zfelt_of 5))]
    (Done (Inr (zfelt_of 5, account)))"
proof -
  have "dr_chain_id (da_derivation sample_deploy) = Sepolia" "dr_key_domain (da_derivation sample_deploy) = KeyDomain.StarknetAccount"
    "dr_secret (da_derivation sample_deploy) = SecretRef ''wallet''"
    "dr_path (da_derivation sample_deploy) = \<lparr>dp_coin_type = 9004, dp_account_index = 0, dp_address_index = 0\<rparr>"
    by (simp_all add: sample_deploy_def)
  then show ?thesis
    by (intro steps_Cons [OF steps_Nil])
      (simp add: derive_account_descriptor_def assms ensure_chain_matches_def derivation_validate_def validate_for_def)
qed

text \<open>Events that do not read what other requests have stored.\<close>

fun quiet_event :: "'f event \<Rightarrow> bool" where
  "quiet_event (EvRead key r) = False"
| "quiet_event (EvGet op t r) = False"
| "quiet_event e = True"

text \<open>The run of the handler, from its beginning to the record of the acceptance.\<close>

lemma deploy_backed:
  assumes "build_descriptor stark_dlog zformat zcrypto (da_derivation sample_deploy) (zfelt_of 5) = Inr (zfelt_of 5, account)"
    and "backend_deploy_open_zeppelin stark_dlog zformat zcrypto sim_node sample_backend (zfelt_of 5) account (da_mode sample_deploy) w =
      Some (Inr (DeployExecution.Accepted tx), w')"
  shows "\<exists>h. (\<forall>e \<in> set h. quiet_event e) \<and>
    backed stark_dlog zformat zcrypto sim_node sample_backend (deploy_account stark_dlog zformat zcrypto Sepolia sample_deploy) w h (Done (Inr \<lparr>gr_operation = deploy_op (OperationState.Accepted tx) (Some (ac_provenance account)),
      gr_value = \<lparr>dar_account = account, dar_deployment = DeploymentState.Deployed, dar_already_deployed = False\<rparr>\<rparr>)) w'"
proof -
  let ?q = "deploy_op Queued None"
  have wait: "validate_wait_mode (da_mode sample_deploy) = Inr ()" by (simp add: sample_deploy_def)
  have oz: "cs_kind (dr_account_class (da_derivation sample_deploy)) = AccountClassKind.OpenZeppelin" by (simp add: sample_deploy_def)
  have pre: "\<exists>h k. steps (deploy_account stark_dlog zformat zcrypto Sepolia sample_deploy) h
        (DeployOpenZeppelin (zfelt_of 5) account (da_mode sample_deploy) k) \<and>
      k (Inr (DeployExecution.Accepted tx)) = complete_flow ?q (OperationState.Accepted tx) (Some (ac_provenance account))
        \<lparr>dar_account = account, dar_deployment = DeploymentState.Deployed, dar_already_deployed = False\<rparr> \<and>
      (\<forall>e \<in> set h. answered stark_dlog zformat zcrypto sim_node sample_backend e w w) \<and> (\<forall>e \<in> set h. quiet_event e)"
    unfolding deploy_account_def
    apply (intro exI conjI)
      apply (rule steps_bindI [OF begin_steps])
      apply (unfold sum.case OperationStatus.select_convs)
      apply (rule steps_bindI [OF set_steps])
      apply (unfold wait sum.case)
      apply (rule steps_bindI [OF resolve_steps [OF assms(1)]])
      apply (unfold sum.case prod.case oz simp_thms if_False)
      apply (rule steps_Nil)
    by simp_all
  then obtain h k where pre: "steps (deploy_account stark_dlog zformat zcrypto Sepolia sample_deploy) h
        (DeployOpenZeppelin (zfelt_of 5) account (da_mode sample_deploy) k)"
      "\<And>e. e \<in> set h \<Longrightarrow> answered stark_dlog zformat zcrypto sim_node sample_backend e w w"
    and quiet: "\<And>e. e \<in> set h \<Longrightarrow> quiet_event e"
    and k: "k (Inr (DeployExecution.Accepted tx)) = complete_flow ?q (OperationState.Accepted tx) (Some (ac_provenance account))
        \<lparr>dar_account = account, dar_deployment = DeploymentState.Deployed, dar_already_deployed = False\<rparr>" by blast
  have "backed stark_dlog zformat zcrypto sim_node sample_backend (DeployOpenZeppelin (zfelt_of 5) account (da_mode sample_deploy) k) w
      ([] @ [EvDeploy (zfelt_of 5) account (da_mode sample_deploy) (Inr (DeployExecution.Accepted tx))])
      (k (Inr (DeployExecution.Accepted tx))) w'"
    by (rule backed_step [OF backed_Nil]) (simp_all add: assms(2))
  from backed_append [OF this backed_quiet [OF pre]]
  have run: "backed stark_dlog zformat zcrypto sim_node sample_backend (deploy_account stark_dlog zformat zcrypto Sepolia sample_deploy) w
      (h @ [EvDeploy (zfelt_of 5) account (da_mode sample_deploy) (Inr (DeployExecution.Accepted tx))])
      (k (Inr (DeployExecution.Accepted tx))) w'" by simp
  have "backed stark_dlog zformat zcrypto sim_node sample_backend (k (Inr (DeployExecution.Accepted tx))) w'
      [EvNow 3, EvInsert (deploy_op (OperationState.Accepted tx) (Some (ac_provenance account))) 3]
      (Done (Inr \<lparr>gr_operation = deploy_op (OperationState.Accepted tx) (Some (ac_provenance account)),
        gr_value = \<lparr>dar_account = account, dar_deployment = DeploymentState.Deployed, dar_already_deployed = False\<rparr>\<rparr>)) w'"
    unfolding k OperationStatus.select_convs
    using steps_bind [OF set_steps] by (intro backed_quiet) (auto simp only: bind_flow.simps answered.simps list.set)
  from backed_append [OF this run] quiet show ?thesis by (intro exI conjI) auto
qed

lemma sample_deploy_run:
  obtains h account dep where "\<And>e. e \<in> set h \<Longrightarrow> quiet_event e"
    and "backed stark_dlog zformat zcrypto sim_node sample_backend sample_deploying sim_start h
     (Done \<lparr>op_version = V1_0, op_id = Some (RequestId ''3''), op_outcome = Ok (OracleResult.DeployAccount
       \<lparr>tc_operation = deploy_op (OperationState.Accepted (felthex_from_felt zformat (zfelt_of 7))) (Some (ac_provenance account)),
        tc_value = \<lparr>dar_account = account, dar_deployment = DeploymentState.Deployed, dar_already_deployed = False\<rparr>\<rparr>)\<rparr>)
     \<lparr>sim_clock = 60 * 10 ^ 9, sim_sent = [dep]\<rparr>"
proof -
  obtain account where build: "build_descriptor stark_dlog zformat zcrypto (da_derivation sample_deploy) (zfelt_of 5) = Inr (zfelt_of 5, account)"
    and facts: "felthex_to_felt zformat (ac_public_key account) = zfelt_of 1"
      "map (felthex_to_felt zformat) (ac_constructor_calldata account) = [zfelt_of 1]"
      "felthex_to_felt zformat (ac_deployer_address account) = felt_zero stark_dlog"
      "pv_chain_id (ac_provenance account) = Sepolia"
    by (rule sample_descriptor)
  obtain dep h where quiet: "\<And>e. e \<in> set h \<Longrightarrow> quiet_event e"
    and "backed stark_dlog zformat zcrypto sim_node sample_backend (deploy_account stark_dlog zformat zcrypto Sepolia sample_deploy) sim_start h
    (Done (Inr \<lparr>gr_operation = deploy_op (OperationState.Accepted (felthex_from_felt zformat (zfelt_of 7))) (Some (ac_provenance account)),
      gr_value = \<lparr>dar_account = account, dar_deployment = DeploymentState.Deployed, dar_already_deployed = False\<rparr>\<rparr>))
     \<lparr>sim_clock = 60 * 10 ^ 9, sim_sent = [dep]\<rparr>"
    using sim_deploy [OF facts] deploy_backed [OF build] by blast
  from quiet backed_bind [OF backed_bind [OF this(2)], of "\<lambda>r. Done (case map_sum id tracked_result r of Inr x \<Rightarrow> Ok (OracleResult.DeployAccount x) | Inl error \<Rightarrow> Error error)"
      "\<lambda>outcome. Done \<lparr>op_version = V1_0, op_id = Some (RequestId ''3''), op_outcome = outcome\<rparr>"]
  show ?thesis by (intro that) (auto simp: deploying_eq tracked_result_def)
qed

section \<open>Properties\<close>

text \<open>
  C10. Only what was requested is signed. Along every run of a request on the backend, whatever the node and the other
  components answer, the only deployments that are signed and sent are those of an admitted request to deploy an
  OpenZeppelin account: of the class and with the salt it resolves to, for the key that signs, on the chain of the backend,
  and at most as expensive as the ceiling allows.
\<close>

theorem deployment_end_to_end:
  assumes "stark_crypto_laws S X K" and "backed S X K P self (handle_request S X K N chain env request) w h f w'"
  shows "evolves P (deployment_allowed S X K self env request) w w'"
  by (rule backed_evolves [OF assms(2)]) (rule answer_evolves [OF assms(1) backed_steps [OF assms(2)]])

theorem deployment_end_to_end_witness:
  "\<exists>h response w. backed stark_dlog zformat zcrypto sim_node sample_backend sample_deploying sim_start h (Done response) w \<and>
     (\<exists>dep. sim_sent w = [dep] \<and> requested_deployment stark_dlog zformat zcrypto sample_backend (da_derivation sample_deploy) dep)"
proof -
  obtain h response dep where run: "backed stark_dlog zformat zcrypto sim_node sample_backend sample_deploying sim_start h (Done response)
      \<lparr>sim_clock = 60 * 10 ^ 9, sim_sent = [dep]\<rparr>"
    by (rule sample_deploy_run) blast
  from sim_sends.kept [OF deployment_end_to_end [OF zk.stark_crypto_laws_axioms run]]
  have "requested_deployment stark_dlog zformat zcrypto sample_backend (da_derivation sample_deploy) dep"
    by (auto simp: sample_deploy_request_def deployment_allowed_def)
  with run show ?thesis by (intro exI conjI) auto
qed

text \<open>
  C16. A deployment reported as done is done. When a request to deploy is answered with a deployed account that was not
  there before, a deployment that answers the request was sent in the run, the node gave its transaction a hash and after
  that reported the transaction with this hash as accepted and executed with success, and the operation is on record as
  accepted with this hash.
\<close>

theorem deployed_is_accepted:
  assumes "stark_crypto_laws S X K" and "runtime_laws P clock"
    and "backed S X K P self (handle_request S X K N chain env request) w h (Done response) w'"
    and "op_outcome response = Ok (OracleResult.DeployAccount result)"
    and "dar_deployment (tc_value result) = DeploymentState.Deployed" and "\<not> dar_already_deployed (tc_value result)"
  shows "\<exists>dep hash w1 w2 w3 w4. evolves P (deployment_allowed S X K self env request) w w1 \<and>
    deployment_allowed S X K self env request dep \<and> pv_send P dep w1 = (Inr hash, w2) \<and> evolves P (\<lambda>_. False) w2 w3 \<and>
    observe_transaction X P hash w3 = (Inr TransactionObservation.Accepted, w4) \<and>
    evolves P (deployment_allowed S X K self env request) w4 w' \<and>
    os_state (tc_operation result) = OperationState.Accepted (felthex_from_felt X (rs_felt_to_core S hash))"
proof -
  note run = backed_steps [OF assms(3)]
  have "wp (\<lambda>h e. True) (\<lambda>h e. True) (\<lambda>h response. op_outcome response = Ok (OracleResult.DeployAccount result) \<longrightarrow>
      (\<exists>private_key account mode tx. EvDeploy private_key account mode (Inr (DeployExecution.Accepted tx)) \<in> set h \<and>
         os_state (tc_operation result) = OperationState.Accepted tx))
    (handle_request S X K N chain env request) []"
    using assms(5,6) by (rule request_deployed)
  from wp_done [OF run this] assms(4)
  obtain private_key account mode tx where ev: "EvDeploy private_key account mode (Inr (DeployExecution.Accepted tx)) \<in> set h"
    and state: "os_state (tc_operation result) = OperationState.Accepted tx" by blast
  have "\<exists>w1 w2. evolves P (deployment_allowed S X K self env request) w w1 \<and>
      answered S X K P self (EvDeploy private_key account mode (Inr (DeployExecution.Accepted tx))) w1 w2 \<and>
      evolves P (deployment_allowed S X K self env request) w2 w'"
    by (rule backed_event_evolves [OF assms(3) ev]) (rule answer_evolves [OF assms(1) run])
  then obtain w1 w2 where w1: "evolves P (deployment_allowed S X K self env request) w w1"
    and deploy: "backend_deploy_open_zeppelin S X K P self private_key account mode w1 = Some (Inr (DeployExecution.Accepted tx), w2)"
    and w2: "evolves P (deployment_allowed S X K self env request) w2 w'"
    unfolding answered.simps by blast
  have felt: "felt_laws S" using assms(1) by (simp add: stark_crypto_laws_def felt_format_laws_def felt_text_def)
  have chain: "pv_chain_id (ac_provenance account) = sb_chain_id self"
    using deploy by (auto simp: backend_deploy_open_zeppelin_def Let_def split: if_splits)
  have good: "signable S X self private_key account dep \<Longrightarrow> deployment_allowed S X K self env request dep" for dep
    by (rule signable_allowed [OF assms(1) run ev chain])
  from accepted_reported [where good = "deployment_allowed S X K self env request", OF assms(2) felt good deploy]
    w2 evolves_trans [OF _ w1] state
  show ?thesis by blast
qed

theorem deployed_is_accepted_witness:
  "\<exists>dep hash w1 w2 w3 w4. requested_deployment stark_dlog zformat zcrypto sample_backend (da_derivation sample_deploy) dep \<and>
     pv_send sim_node dep w1 = (Inr hash, w2) \<and> evolves sim_node (\<lambda>_. False) w2 w3 \<and>
     observe_transaction zformat sim_node hash w3 = (Inr TransactionObservation.Accepted, w4) \<and>
     felthex_from_felt zformat (zfelt_of 7) = felthex_from_felt zformat (rs_felt_to_core stark_dlog hash)"
proof -
  obtain h account dep where run: "backed stark_dlog zformat zcrypto sim_node sample_backend sample_deploying sim_start h
     (Done \<lparr>op_version = V1_0, op_id = Some (RequestId ''3''), op_outcome = Ok (OracleResult.DeployAccount
       \<lparr>tc_operation = deploy_op (OperationState.Accepted (felthex_from_felt zformat (zfelt_of 7))) (Some (ac_provenance account)),
        tc_value = \<lparr>dar_account = account, dar_deployment = DeploymentState.Deployed, dar_already_deployed = False\<rparr>\<rparr>)\<rparr>)
     \<lparr>sim_clock = 60 * 10 ^ 9, sim_sent = [dep]\<rparr>"
    by (rule sample_deploy_run)
  have "\<exists>dep hash w1 w2 w3 w4. deployment_allowed stark_dlog zformat zcrypto sample_backend None sample_deploy_request dep \<and>
     pv_send sim_node dep w1 = (Inr hash, w2) \<and> evolves sim_node (\<lambda>_. False) w2 w3 \<and>
     observe_transaction zformat sim_node hash w3 = (Inr TransactionObservation.Accepted, w4) \<and>
     felthex_from_felt zformat (zfelt_of 7) = felthex_from_felt zformat (rs_felt_to_core stark_dlog hash)"
    using deployed_is_accepted [OF zk.stark_crypto_laws_axioms sim.runtime_laws_axioms run] by fastforce
  then show ?thesis by (auto simp: sample_deploy_request_def deployment_allowed_def)
qed

end
