(* ===== verification/Gateway_Values.thy ===== *)
theory Gateway_Values
  imports Gateway_Deployment
begin

text \<open>
  The values that leave the gateway. Texts of felts and bytes are validated when they are parsed; the lemmas show that all
  texts that the gateway and its backend make themselves would pass that validation unchanged.
\<close>

section \<open>Valid values\<close>

definition wf_felt :: "'f felt_format \<Rightarrow> FeltHex \<Rightarrow> bool" where
  "wf_felt X h \<longleftrightarrow> felthex_parse X (felthex_str h) = Inr h"

definition wf_bytes :: "HexBytes \<Rightarrow> bool" where
  "wf_bytes h \<longleftrightarrow> hexbytes_parse (hexbytes_str h) = Inr h"

definition wf_provenance :: "'f felt_format \<Rightarrow> Provenance \<Rightarrow> bool" where
  "wf_provenance X provenance \<longleftrightarrow> pred_option (wf_felt X) (pv_class_hash provenance)"

definition wf_descriptor :: "'f felt_format \<Rightarrow> AccountDescriptor \<Rightarrow> bool" where
  "wf_descriptor X account \<longleftrightarrow>
     list_all (wf_felt X) ([ac_address account, ac_public_key account, ac_class_hash account, ac_salt account,
       ac_deployer_address account] @ ac_constructor_calldata account) \<and>
     wf_provenance X (ac_provenance account)"

fun wf_state :: "'f felt_format \<Rightarrow> OperationState \<Rightarrow> bool" where
  "wf_state X (OperationState.Submitted tx) = wf_felt X tx"
| "wf_state X (OperationState.Accepted tx) = wf_felt X tx"
| "wf_state X _ = True"

definition wf_status :: "'f felt_format \<Rightarrow> OperationStatus \<Rightarrow> bool" where
  "wf_status X status \<longleftrightarrow> wf_state X (os_state status) \<and> pred_option (wf_provenance X) (os_provenance status)"

fun wf_execution :: "'f felt_format \<Rightarrow> DeployExecution \<Rightarrow> bool" where
  "wf_execution X DeployExecution.AlreadyDeployed = True"
| "wf_execution X (DeployExecution.Submitted tx) = wf_felt X tx"
| "wf_execution X (DeployExecution.Accepted tx) = wf_felt X tx"

fun wf_deployment :: "'f felt_format \<Rightarrow> DeploymentState \<Rightarrow> bool" where
  "wf_deployment X (Deploying tx) = wf_felt X tx"
| "wf_deployment X _ = True"

fun wf_block :: "'f felt_format \<Rightarrow> BlockSelector \<Rightarrow> bool" where
  "wf_block X (BlockSelector.Hash h) = wf_felt X h"
| "wf_block X _ = True"

definition wf_metadata :: "'f felt_format \<Rightarrow> SnapshotBlockMetadata \<Rightarrow> bool" where
  "wf_metadata X m \<longleftrightarrow> wf_block X (sb_selector m) \<and> pred_option (wf_felt X) (sb_block_hash m)"

abbreviation wf_token :: "'f felt_format \<Rightarrow> TrackedToken \<Rightarrow> bool" where
  "wf_token X token \<equiv> wf_felt X (tt_address token)"

definition wf_snapshot :: "'f felt_format \<Rightarrow> AccountSnapshot \<Rightarrow> bool" where
  "wf_snapshot X snapshot \<longleftrightarrow>
     wf_felt X (as_address snapshot) \<and> wf_deployment X (as_deployment snapshot) \<and> pred_option (wf_felt X) (as_nonce snapshot) \<and>
     list_all (\<lambda>balance. wf_token X (tb_token balance)) (as_balances snapshot) \<and> wf_metadata X (as_block snapshot)"

fun wf_signature :: "'f felt_format \<Rightarrow> SignResult \<Rightarrow> bool" where
  "wf_signature X (StarkEcdsa public_key r s) = (wf_felt X public_key \<and> wf_felt X r \<and> wf_felt X s)"
| "wf_signature X (NostrBip340 public_key signature) = (wf_bytes public_key \<and> wf_bytes signature)"

text \<open>Results: the record of the operation and the value, and the record that a lookup finds. The rest has no such texts.\<close>

abbreviation wf_tracked :: "'f felt_format \<Rightarrow> ('v \<Rightarrow> bool) \<Rightarrow> 'v TrackedCommandResult \<Rightarrow> bool" where
  "wf_tracked X Q t \<equiv> wf_status X (tc_operation t) \<and> Q (tc_value t)"

fun wf_result :: "'f felt_format \<Rightarrow> OracleResult \<Rightarrow> bool" where
  "wf_result X (OracleResult.DeriveAccount t) = wf_tracked X (wf_descriptor X) t"
| "wf_result X (OracleResult.CheckDeployment t) =
     wf_tracked X (\<lambda>v. wf_descriptor X (cd_account v) \<and> wf_deployment X (cd_deployment v)) t"
| "wf_result X (OracleResult.DeployAccount t) =
     wf_tracked X (\<lambda>v. wf_descriptor X (dar_account v) \<and> wf_deployment X (dar_deployment v)) t"
| "wf_result X (OracleResult.Sign t) = wf_tracked X (wf_signature X) t"
| "wf_result X (OracleResult.QueryAccountSnapshot t) = wf_tracked X (wf_snapshot X) t"
| "wf_result X (OracleResult.GetOperationStatus (OperationLookupResult.Found status)) = wf_status X status"
| "wf_result X (OracleResult.GetOperationStatus (OperationLookupResult.NotFound op)) = True"
| "wf_result X (OracleResult.ProtocolInfo info) = True"

text \<open>
  The texts of a request that come back in the answer: those of a snapshot request. They have been parsed when the
  request was read.
\<close>

fun wf_command :: "'f felt_format \<Rightarrow> OracleCommand \<Rightarrow> bool" where
  "wf_command X (OracleCommand.QueryAccountSnapshot q) =
     (wf_felt X (sr_address q) \<and> list_all (wf_token X) (sr_tokens q) \<and> wf_block X (sr_block q))"
| "wf_command X _ = True"

text \<open>Answers that are valid, what may be read from the store and the cache, and what may be put into them.\<close>

fun wf_answer :: "'f felt_format \<Rightarrow> 'f event \<Rightarrow> bool" where
  "wf_answer X (EvDeploy private_key account mode r) = pred_sum (\<lambda>_. True) (wf_execution X) r"
| "wf_answer X (EvNonce address block r) = pred_sum (\<lambda>_. True) (wf_felt X) r"
| "wf_answer X (EvBlock block r) = (wf_block X block \<longrightarrow> pred_sum (\<lambda>_. True) (wf_metadata X) r)"
| "wf_answer X (EvRead key r) = pred_option (\<lambda>entry. wf_snapshot X (ce_snapshot entry)) r"
| "wf_answer X (EvGet op t r) = pred_option (wf_status X) r"
| "wf_answer X e = True"

fun wf_read :: "'f felt_format \<Rightarrow> 'f event \<Rightarrow> bool" where
  "wf_read X (EvRead key (Some entry)) = wf_snapshot X (ce_snapshot entry)"
| "wf_read X (EvGet op t (Some status)) = wf_status X status"
| "wf_read X e = True"

fun wf_stored :: "'f felt_format \<Rightarrow> 'f event \<Rightarrow> bool" where
  "wf_stored X (EvStore key snapshot t) = wf_snapshot X snapshot"
| "wf_stored X (EvInsert status t) = wf_status X status"
| "wf_stored X e = True"

abbreviation valid_flow :: "'f felt_format \<Rightarrow> ('f, 'b) flow \<Rightarrow> 'f history \<Rightarrow> ('b \<Rightarrow> bool) \<Rightarrow> bool" where
  "valid_flow X f h Q \<equiv> wp (\<lambda>h e. wf_answer X e) (\<lambda>h e. wf_stored X e) (\<lambda>h a. Q a) f h"

abbreviation valid_value :: "'f felt_format \<Rightarrow> ('v \<Rightarrow> bool) \<Rightarrow> 'v GatewayResponse gateway_result \<Rightarrow> bool" where
  "valid_value X Q \<equiv> pred_sum (\<lambda>_. True) (\<lambda>response. wf_status X (gr_operation response) \<and> Q (gr_value response))"

section \<open>Handlers\<close>

context felt_format_laws
begin

lemma wf_from [simp]: "wf_felt X (felthex_from_felt X f)" "wf_bytes (hexbytes_from_bytes X bs)"
  by (simp_all add: wf_felt_def wf_bytes_def felthex_parse_canonical hexbytes_parse_canonical)

lemma descriptor_valid: "build_descriptor S X K request private_key = Inr (k, account) \<Longrightarrow> wf_descriptor X account"
  by (auto simp: build_descriptor_def Let_def result_iffs wf_descriptor_def wf_provenance_def list_all_iff)

lemma descriptor_provenance: "wf_descriptor X account \<Longrightarrow> wf_provenance X (ac_provenance account)"
  by (simp add: wf_descriptor_def)

lemma sign_provenance_valid: "pred_option (wf_provenance X) (sign_provenance request)"
  by (simp add: sign_provenance_def wf_provenance_def option.pred_map comp_def option.pred_True)

lemmas valid_simps = descriptor_provenance sign_provenance_valid

lemma valid_set: "valid_flow X (bind_flow (set_operation op kind state provenance) g) h Q"
  if "wf_state X state" and "pred_option (wf_provenance X) provenance"
    and "\<And>h status. wf_status X status \<Longrightarrow> valid_flow X (g status) h Q"
  using that by (simp add: set_operation_def Let_def wf_status_def)

lemma valid_reject: "pred_option (wf_provenance X) provenance \<Longrightarrow> valid_flow X (reject_flow queued error provenance) h (valid_value X Q)"
  by (simp add: reject_operation_def set_operation_def Let_def wf_status_def)

lemma valid_complete:
  "wf_state X state \<Longrightarrow> pred_option (wf_provenance X) provenance \<Longrightarrow> Q v \<Longrightarrow>
     valid_flow X (complete_flow queued state provenance v) h (valid_value X Q)"
  by (simp add: set_operation_def Let_def wf_status_def)

lemma valid_begin:
  assumes "\<And>queued h. valid_flow X (g queued) h (valid_value X Q)"
  shows "valid_flow X (try_flow (begin_operation X kind) g) h (valid_value X Q)"
  using assms by (simp add: begin_operation_def Let_def wf_status_def split: sum.split)

lemma valid_running:
  assumes "\<And>queued h. valid_flow X (g queued) h (valid_value X Q)"
  shows "valid_flow X (try_flow (begin_operation X kind)
    (\<lambda>queued. bind_flow (set_operation (os_id queued) (os_kind queued) Running None) (\<lambda>_. g queued))) h (valid_value X Q)"
  by (intro valid_begin valid_set assms) simp_all

lemma valid_descriptor:
  assumes "\<And>private_key account h. wf_descriptor X account \<Longrightarrow> valid_flow X (g (Inr (private_key, account))) h Q"
    and "\<And>e h. valid_flow X (g (Inl e)) h Q"
  shows "valid_flow X (bind_flow (derive_account_descriptor S X K chain request) g) h Q"
proof -
  have "valid_flow X (g (build_descriptor S X K request private_key)) h Q" for private_key h
    using assms descriptor_valid [of K request private_key]
    by (cases "build_descriptor S X K request private_key") (auto simp: valid_simps simp del: wp_bind)
  then show ?thesis using assms(2) by (simp add: derive_account_descriptor_def split: sum.split)
qed

lemmas valid_intros = valid_running valid_descriptor valid_reject valid_complete

lemma derive_valid: "valid_flow X (derive_account S X K chain request) h (valid_value X (wf_descriptor X))"
  unfolding derive_account_def by (intro valid_intros) (auto simp: valid_simps simp del: wp_bind intro!: valid_intros)

lemma check_valid: "valid_flow X (check_deployment S X K chain request) h (valid_value X (\<lambda>v. wf_descriptor X (cd_account v) \<and> wf_deployment X (cd_deployment v)))"
  unfolding check_deployment_def
  by (intro valid_running valid_descriptor) (auto simp: valid_simps simp del: wp_bind split: sum.split bool.split intro!: valid_intros)

lemma deploy_valid:
  "valid_flow X (deploy_account S X K chain request) h
     (valid_value X (\<lambda>v. wf_descriptor X (dar_account v) \<and> wf_deployment X (dar_deployment v)))"
  unfolding deploy_account_def
  by (intro valid_running, split sum.split, intro conjI allI impI valid_reject valid_descriptor)
    (auto simp: Let_def valid_simps simp del: wp_bind split: sum.split DeployExecution.split intro!: valid_intros)

lemma sign_valid: "valid_flow X (sign S X K N chain request) h (valid_value X (wf_signature X))"
  unfolding sign_def sign_stark_def sign_nostr_def
  by (intro valid_running)
    (auto simp: Let_def valid_simps simp del: wp_bind split: sum.split option.split SignRequest.split intro!: valid_intros)

lemma balances_valid:
  assumes "list_all (wf_token X) tokens" and "list_all (\<lambda>balance. wf_token X (tb_token balance)) balances"
  shows "valid_flow X (fetch_balances request tokens balances) h
    (pred_sum (\<lambda>_. True) (list_all (\<lambda>balance. wf_token X (tb_token balance))))"
  using assms by (induction tokens arbitrary: balances h) (simp_all split: sum.split)

lemma fetch_valid:
  assumes "wf_command X (OracleCommand.QueryAccountSnapshot request)"
  shows "valid_flow X (fetch_snapshot request t) h (pred_sum (\<lambda>_. True) (wf_snapshot X))"
  using assms unfolding fetch_snapshot_def
  by (auto simp: Let_def wf_snapshot_def wf_metadata_def map_sum_Inr_iff split: sum.split intro!: wp_mono [OF balances_valid])

lemma served_valid:
  assumes "pred_option (\<lambda>entry. wf_snapshot X (ce_snapshot entry)) cached"
  shows "cached_snapshot_response request cached now = Some snapshot \<Longrightarrow> wf_snapshot X snapshot"
    and "stale_snapshot_fallback request cached now = Some snapshot \<Longrightarrow> wf_snapshot X snapshot"
  using assms
  by (auto simp: cached_snapshot_response_def stale_snapshot_fallback_def apply_cache_metadata_def wf_snapshot_def Let_def
      split: option.splits if_splits)

lemma refresh_valid:
  assumes "pred_option (\<lambda>entry. wf_snapshot X (ce_snapshot entry)) cached"
    and "wf_command X (OracleCommand.QueryAccountSnapshot request)"
  shows "valid_flow X (refresh_snapshot queued request key cached now_ms) h (valid_value X (wf_snapshot X))"
  unfolding refresh_snapshot_def wp_bind
  by (rule wp_mono [OF fetch_valid [OF assms(2)]])
    (auto simp: served_valid(2) [OF assms(1)] simp del: wp_bind split: sum.split option.split intro!: valid_complete valid_reject)

lemma query_valid:
  assumes "wf_command X (OracleCommand.QueryAccountSnapshot request)"
  shows "valid_flow X (query_account_snapshot X chain request) h (valid_value X (wf_snapshot X))"
proof -
  have body: "valid_flow X
      (case cached_snapshot_response request cached now_ms of
         Some snapshot \<Rightarrow> complete_flow queued Completed None snapshot
       | None \<Rightarrow> refresh_snapshot queued request key cached now_ms) h (valid_value X (wf_snapshot X))"
    if "wf_answer X (EvRead key cached)" for queued cached now_ms key h
    using that refresh_valid [OF _ assms, of cached] served_valid(1) [of cached request now_ms]
    by (cases "cached_snapshot_response request cached now_ms") (auto simp: valid_simps simp del: wp_bind intro!: valid_complete)
  show ?thesis
    unfolding query_account_snapshot_def
    by (intro valid_running)
      (auto simp: Let_def valid_simps simp del: wp_bind wf_answer.simps split: sum.split intro!: valid_reject body)
qed

lemma tracked_valid:
  fixes f :: "('f, 'g GatewayResponse gateway_result) flow"
  assumes "valid_flow X f h (valid_value X Q)" and "\<And>t. wf_tracked X Q t \<Longrightarrow> wf_result X (wrap t)"
  shows "valid_flow X (tracked_outcome wrap f) h (\<lambda>outcome. \<forall>result. outcome = Ok result \<longrightarrow> wf_result X result)"
  unfolding wp_bind wp.simps
  by (rule wp_mono [OF assms(1)]) (auto simp: tracked_result_def map_sum_Inr_iff assms(2) split: sum.splits)

lemma command_valid:
  assumes "wf_command X command"
  shows "valid_flow X (handle_command S X K N chain command) h (\<lambda>outcome. \<forall>result. outcome = Ok result \<longrightarrow> wf_result X result)"
proof (cases command)
  case (DeriveAccount d)
  show ?thesis
    unfolding handle_command_def DeriveAccount OracleCommand.case by (rule tracked_valid [OF derive_valid]) simp
next
  case (CheckDeployment d)
  show ?thesis
    unfolding handle_command_def CheckDeployment OracleCommand.case by (rule tracked_valid [OF check_valid]) simp
next
  case (DeployAccount r)
  show ?thesis
    unfolding handle_command_def DeployAccount OracleCommand.case by (rule tracked_valid [OF deploy_valid]) simp
next
  case (Sign q)
  show ?thesis
    unfolding handle_command_def Sign OracleCommand.case by (rule tracked_valid [OF sign_valid]) simp
next
  case (QueryAccountSnapshot q)
  show ?thesis
    unfolding handle_command_def QueryAccountSnapshot OracleCommand.case by (rule tracked_valid [OF query_valid [OF assms [unfolded QueryAccountSnapshot]]]) simp
qed (simp_all add: handle_command_def operation_status_def split: option.split)

lemma request_valid:
  assumes "wf_command X (or_command request)"
  shows "valid_flow X (handle_request S X K N chain env request) h
     (\<lambda>response. \<forall>result. op_outcome response = Ok result \<longrightarrow> wf_result X result)"
  using command_valid [OF assms, where K = K and N = N and chain = chain]
  by (auto simp: handle_request_def Let_def split: option.split)

section \<open>Answers of the backend\<close>

lemma answered_valid:
  assumes "answered S X K P self e w w'" and "wf_read X e"
  shows "wf_answer X e"
proof (cases e)
  case (EvDeploy private_key account mode r)
  then show ?thesis
    using assms(1)
    by (cases r) (auto simp: backend_deploy_open_zeppelin_def Let_def map_sum_Inr_iff
        split: if_splits sum.splits prod.splits DeployMode.splits)
next
  case (EvNonce address block r)
  then show ?thesis
    using assms(1) by (cases r) (auto simp: backend_nonce_def bind_act_def done_act_def split: prod.splits sum.splits)
next
  case (EvBlock block r)
  then show ?thesis
    using assms(1)
    by (cases r) (auto simp: backend_block_metadata_def wf_metadata_def bind_act_def done_act_def Let_def
        split: if_splits prod.splits sum.splits MaybePreConfirmedBlock.splits)
next
  case (EvRead key r)
  then show ?thesis using assms(2) by (cases r) simp_all
next
  case (EvGet op t r)
  then show ?thesis using assms(2) by (cases r) simp_all
qed simp_all

end

section \<open>Property\<close>

text \<open>
  C18. Everything the gateway returns is valid. Along every run of a request with valid texts on the Starknet backend,
  provided that the snapshots and the records of operations it reads from the cache and the store are valid: every text of
  a felt or of bytes in a successful answer (in the account, the deployment, the signature, the snapshot with its address,
  tokens and block, and in the record of the operation with its transaction hash and class hash) is one that parsing
  accepts and leaves unchanged, and so are all texts in what it puts into the cache and the store.
\<close>

theorem responses_valid:
  assumes "felt_format_laws S X" and "wf_command X (or_command request)"
    and "backed S X K P self (handle_request S X K N chain env request) w h (Done response) w'"
    and "\<And>e. e \<in> set h \<Longrightarrow> wf_read X e"
  shows "(\<forall>result. op_outcome response = Ok result \<longrightarrow> wf_result X result) \<and>
    (\<forall>key snapshot t. EvStore key snapshot t \<in> set h \<longrightarrow> wf_snapshot X snapshot) \<and>
    (\<forall>status t. EvInsert status t \<in> set h \<longrightarrow> wf_status X status)"
proof -
  have answers: "wf_answer X e" if e: "e \<in> set h" for e
    using backed_event [OF assms(3) e] assms(4) [OF e] by (auto intro: felt_format_laws.answered_valid [OF assms(1)])
  have run: "wp (\<lambda>h e. wf_answer X e) (\<lambda>h e. wf_stored X e) (\<lambda>h response. \<forall>result. op_outcome response = Ok result \<longrightarrow> wf_result X result)
      (Done response) h \<and> (\<forall>i < length h. wf_stored X (h ! i))"
    using wp_steps [OF backed_steps [OF assms(3)] felt_format_laws.request_valid [OF assms(1,2)]] answers by simp
  then have stored: "wf_stored X e" if "e \<in> set h" for e using that by (metis in_set_conv_nth)
  show ?thesis using run stored [of "EvStore _ _ _"] stored [of "EvInsert _ _"] by auto
qed

theorem responses_valid_witness:
  "\<exists>account h response w. wf_descriptor zformat account \<and>
     backed stark_dlog zformat zcrypto sim_node sample_backend sample_deploying sim_start h (Done response) w \<and>
     op_outcome response = Ok (OracleResult.DeployAccount
       \<lparr>tc_operation = deploy_op (OperationState.Accepted (felthex_from_felt zformat (zfelt_of 7))) (Some (ac_provenance account)),
        tc_value = \<lparr>dar_account = account, dar_deployment = DeploymentState.Deployed, dar_already_deployed = False\<rparr>\<rparr>) \<and>
     wf_status zformat (deploy_op (OperationState.Accepted (felthex_from_felt zformat (zfelt_of 7))) (Some (ac_provenance account)))"
proof -
  obtain h account dep where quiet: "\<And>e. e \<in> set h \<Longrightarrow> quiet_event e"
    and run: "backed stark_dlog zformat zcrypto sim_node sample_backend sample_deploying sim_start h
     (Done \<lparr>op_version = V1_0, op_id = Some (RequestId ''3''), op_outcome = Ok (OracleResult.DeployAccount
       \<lparr>tc_operation = deploy_op (OperationState.Accepted (felthex_from_felt zformat (zfelt_of 7))) (Some (ac_provenance account)),
        tc_value = \<lparr>dar_account = account, dar_deployment = DeploymentState.Deployed, dar_already_deployed = False\<rparr>\<rparr>)\<rparr>)
     \<lparr>sim_clock = 60 * 10 ^ 9, sim_sent = [dep]\<rparr>"
    by (rule sample_deploy_run) blast
  have read: "wf_read zformat e" if "e \<in> set h" for e using quiet [OF that] by (cases "(zformat, e)" rule: wf_read.cases) auto
  have command: "wf_command zformat (or_command sample_deploy_request)" by (simp add: sample_deploy_request_def)
  have "wf_status zformat (deploy_op (OperationState.Accepted (felthex_from_felt zformat (zfelt_of 7))) (Some (ac_provenance account)))"
    and "wf_descriptor zformat account"
    using responses_valid [OF zfmt.felt_format_laws_axioms command run read] by simp_all
  then show ?thesis by (intro exI conjI) (auto intro: run)
qed

end
