(* ===== verification/Spec2Isabelle.thy ===== *)
theory Spec2Isabelle
  imports Poe2 Tongo_Transfer Serialization Fee_Ceiling Units System_Clock Discovery Gateway_Values
begin

text \<open>
  Verification of \<open>krusty-kms\<close>: its confidential payments, its keys and accounts, and the gateway that serves them.

  \<^bold>\<open>The program.\<close> \<open>crates/crypto\<close> implements the sigma protocols of the Tongo contract over the Stark curve:
  proofs of exponents, of bits, of ranges, of well-formed ElGamal ciphertexts and of equal plaintexts for an auditor.
  \<open>crates/sdk\<close> composes them into the operations of a confidential account: fund, rollover, ragequit, withdraw and
  transfer. \<open>crates/common\<close> holds the shared types, the calldata layout, fee ceilings, and the texts of amounts and
  keys. An operation takes an account (keys and known balance) and its parameters (the ciphertext stored on chain,
  the nonce, an optional auditor), checks them, draws randomness and returns a proof record, which the
  serialization writes as calldata. \<open>crates/kms\<close> derives keys and accounts. \<open>crates/gateway\<close> answers requests of
  agents that never see a key: it resolves secrets, checks what a request asks for, signs, deploys and takes snapshots
  of accounts, and keeps a record of every operation; \<open>crates/oracle\<close> serves it over lines of text, with the messages
  of \<open>crates/domain\<close>.

  \<^bold>\<open>Theories and sources.\<close>
  \<^item> \<open>Prelude\<close>: machine integers as words, \<open>KmsError\<close>, results and the question mark operator (\<open>and_then\<close>),
    big-endian bytes, multiples in an additive group.
  \<^item> \<open>Starknet_Core\<close>: the record \<open>starknet\<close> of the third-party operations (\<open>Felt\<close>, points, residues, hashes, the
    AEAD, the operating system random source), which is the first argument \<open>S\<close> of every definition that uses them,
    and locales with their documented laws. The abstraction \<open>pt\<close> maps a point to its group element. The laws on
    points say that the group operations and the conversions are those of a group that the curve order annihilates,
    not that the order is prime; special soundness therefore takes an inverse of the challenge difference modulo the
    order as a hypothesis.
  \<^item> \<open>Stark_Instance\<close>: a concrete group, field and set of functions that satisfy all laws, on which every witness is
    evaluated.
  \<^item> \<open>Scalar\<close>, \<open>Curve\<close>, \<open>Types\<close>, \<open>Hash\<close>, \<open>Random_Source\<close>: \<open>scalar.rs\<close>, \<open>curve.rs\<close>, \<open>types.rs\<close>, \<open>hash.rs\<close>,
    \<open>random.rs\<close>. The random source is explicit state (\<open>rng\<close>), passed through every draw.
  \<^item> \<open>Poe\<close>, \<open>Poe2\<close>, \<open>Bit_Proof\<close>, \<open>Range_Proof\<close>, \<open>Elgamal\<close>, \<open>Audit_Proof\<close>: the files of the same names.
  \<^item> \<open>Audit_Hint\<close>, \<open>Tongo_Account\<close>, \<open>Tongo_Ops\<close>, \<open>Tongo_Transfer\<close>: \<open>crates/sdk\<close>.
  \<^item> \<open>Serialization\<close>, \<open>Fee_Ceiling\<close>, \<open>Token_Amount\<close>, \<open>Units\<close>: \<open>serialization.rs\<close>, \<open>fee.rs\<close>, \<open>amount.rs\<close> and
    \<open>utils.rs\<close> of \<open>crates/common\<close>.
  \<^item> \<open>Key_Derivation\<close>, \<open>Stark_Signing\<close>: \<open>mnemonic.rs\<close>, \<open>zeroizing_hmac.rs\<close>, \<open>derivation.rs\<close> and \<open>stark_signing.rs\<close>
    of \<open>crates/kms\<close>, over the records \<open>wallet\<close> (word lists, PBKDF2, SHA-512, secp256k1) and \<open>stark_crypto\<close>;
    \<open>Nostr_Signing\<close>: \<open>nostr_signing.rs\<close>, over the record \<open>schnorr\<close>.
  \<^item> \<open>Account_Class\<close>: contract addresses, the presets of the three wallet families and the class registry
    (\<open>account.rs\<close>, \<open>account_class.rs\<close> and \<open>argent.rs\<close>, \<open>argent_cairo0.rs\<close>, \<open>braavos.rs\<close>, \<open>constructor_shape.rs\<close>,
    \<open>registry.rs\<close> below it); \<open>Argent_Decode\<close> and \<open>Account_Inspect\<close>: \<open>argent_decode.rs\<close> and \<open>inspect.rs\<close>;
    \<open>Discovery\<close>: \<open>discovery.rs\<close> and the files below it.
  \<^item> \<open>Gateway_Domain\<close>: the values and requests of \<open>crates/domain\<close>, over \<open>Hex_Text\<close>, the hexadecimal texts of felts.
  \<^item> \<open>System_Clock\<close>, \<open>Operation_Store\<close>, \<open>Snapshot_Cache\<close>: \<open>clock.rs\<close>, \<open>operations.rs\<close>, \<open>types.rs\<close>,
    \<open>snapshot_cache.rs\<close> and the eviction of \<open>snapshot.rs\<close> of \<open>crates/gateway\<close>, over \<open>Hash_Map\<close>;
    \<open>Gateway_Class\<close>: \<open>errors.rs\<close> and \<open>account_class.rs\<close> of the same crate.
  \<^item> \<open>Gateway_Flow\<close>: the handlers of \<open>gateway.rs\<close>, \<open>accounts.rs\<close>, \<open>signing.rs\<close> and \<open>snapshot.rs\<close>. An asynchronous
    handler is a tree (\<open>flow\<close>) of its questions to the clock, the entropy source, the store, the cache, the secret
    resolver and the backend, with a continuation for every answer. \<open>Flow_Logic\<close>: runs of flows and a program logic
    for them. \<open>Line_Reader\<close> and \<open>Oracle\<close>: \<open>line_reader.rs\<close>, \<open>stdio.rs\<close> and \<open>handler.rs\<close> of \<open>crates/oracle\<close>, over the
    messages of \<open>crates/domain/src/oracle.rs\<close>.
  \<^item> \<open>Gateway_Lifecycle\<close>: what each command does, for all answers of its environment. \<open>Gateway_System\<close>: the shared
    state of the gateway and all interleavings of any number of requests on it.
  \<^item> \<open>Provider\<close>: the node, the account factory and the timers of \<open>tokio\<close>, as functions on a state of the world.
    \<open>Gateway_Backend\<close>: \<open>backend/rpc.rs\<close>, \<open>wait.rs\<close>, \<open>deploy.rs\<close> and \<open>starknet.rs\<close> of \<open>crates/gateway\<close>, with the error
    texts of \<open>provider_error.rs\<close> of \<open>crates/wallet-api\<close>. \<open>Gateway_Deployment\<close> and \<open>Gateway_Values\<close>: runs of requests whose
    questions about the chain the backend answers.

  \<^bold>\<open>What the lemmas show.\<close> For each protocol: completeness, with the inputs on which the code reports the point at
  infinity instead of accepting written out, and special soundness. For each operation: its guards, and that what a
  successful run returns satisfies the verifier's equations, moves the amount asked for in the ciphertexts, and shows
  an auditor the right balance. For the texts and the calldata: round trips and exactness, overflow included. For
  fees: admission is exact and bounds what can be paid. For the deterministic random stream: its bytes do not depend
  on how it is read. For keys: derivation is BIP-32 with an unbiased reduction, signing ends with the first accepted
  nonce. For accounts: which classes a request may use, exactly which deployments inspection calls derivable from a
  seed, and exactly which of them discovery generates with which key. For the gateway: its clock is monotone, its store and its cache are bounded and
  evict fairly, and what they return is what was stored; secrets are used only for requests that passed every check,
  what a caller is told is what is on record, no request is served what was stored for another account or blocks
  another, and the oracle answers every line once, however its input is cut into pieces. For the backend: only the
  deployment an admitted request asks for is ever sent, within the fee ceiling; waiting for it ends, and a deployment
  reported as done was accepted by the node; and all values in answers are well-formed texts.

  \<^bold>\<open>Conventions.\<close> A panic is the error value \<open>Panic\<close>. Loops are structural recursions over the list or the counter
  they run over, so no fuel is used; the retry loop of signing, which need not end, and the wait for a transaction are
  partial functions, and a flow in which signing does not end hangs. The range prover exists in a parallel and a sequential version in the sources,
  which differ in the order of the draws and in which of several errors is returned; the sequential one is modelled. Of
  the two range proofs of a transfer the second is not run when the first has failed.

  \<^bold>\<open>Not modelled.\<close> Zeroization and timing (memory and time effects). \<open>serde\<close> derives and \<open>Debug\<close>. The clients of
  the RPC other than the backend of the gateway, and the transport below them. The bindings
  for C and WebAssembly. The transaction hashes, typed data and keystores of \<open>crates/kms\<close>. The experimental games.
\<close>

section \<open>Properties that span components\<close>

text \<open>
  C36. Double-and-add is scalar multiplication: the loop over the bits of the scalar with its branch-free selects, in
  \<open>StarkCurve::mul\<close>, gives the multiple of the point by the integer the scalar stands for.
\<close>

theorem mul_is_multiple:
  assumes "starknet_core S pt"
  shows "pt (mul S k (Some p)) = nsmul (felt_val S k) (pt p)"
  using starknet_core.pt_mul [OF assms] by (simp add: felt_act_def)

theorem mul_is_multiple_witness:
  "mul stark_dlog (zfelt_of 5) (Some (zgrp_of 3)) = zgrp_of 15"
  using mul_is_multiple [OF dlog.starknet_core_axioms, of "zfelt_of 5" "zgrp_of 3"] by (simp add: dlog_num)

text \<open>
  Scalar arithmetic is arithmetic modulo the curve order and never fails: the sum, difference and product of two
  field elements are the canonical residues of the integers they stand for, below the order.
\<close>

theorem scalar_arithmetic_exact:
  assumes "starknet_core S pt"
  shows "\<exists>s d p. scalar_add S a b = Inr s \<and> scalar_sub S a b = Inr d \<and> scalar_mul S a b = Inr p \<and>
    felt_val S s = (felt_val S a + felt_val S b) mod CURVE_ORDER \<and>
    int (felt_val S d) = (int (felt_val S a) - int (felt_val S b)) mod int CURVE_ORDER \<and>
    felt_val S p = felt_val S a * felt_val S b mod CURVE_ORDER"
proof -
  note laws = starknet_core.axioms(1,2) [OF assms]
  have sl: "scalar_laws S" by (intro scalar_laws.intro laws)
  define n x y where "n = CURVE_ORDER" and "x = felt_val S a" and "y = felt_val S b"
  have "y mod n \<le> n" by (simp add: n_def less_imp_le)
  then have "int (x + (n - y mod n)) mod int n = (int x - int y) mod int n"
    by (simp add: of_nat_diff zmod_int mod_simps) (metis add_diff_eq mod_add_self2 mod_diff_right_eq mod_diff_left_eq add.commute)
  then show ?thesis
    using scalar_laws.felt_val_order [OF sl] by (simp add: scalar_results zmod_int n_def x_def y_def)
qed

theorem scalar_arithmetic_exact_witness:
  "\<exists>d. scalar_sub stark_dlog (zfelt_of 3) (zfelt_of 5) = Inr d \<and> felt_val stark_dlog d = CURVE_ORDER - 2"
proof -
  obtain d where "scalar_sub stark_dlog (zfelt_of 3) (zfelt_of 5) = Inr d"
    and "int (felt_val stark_dlog d) = (3 - 5) mod int CURVE_ORDER"
    using scalar_arithmetic_exact [OF dlog.starknet_core_axioms, of "zfelt_of 3" "zfelt_of 5"]
    by (auto simp: dlog_felt_val FELT_PRIME_def)
  moreover have "(3 - 5) mod int CURVE_ORDER = int (CURVE_ORDER - 2)" by (simp add: CURVE_ORDER_def)
  ultimately show ?thesis by auto
qed

text \<open>
  The deterministic stream does not depend on how it is read: after \<open>set_deterministic_rng\<close> every sequence of
  requests succeeds and the bytes it returns, one after the other, are the bytes of the stream
  SHA-256(domain, stream, seed, counter) from the beginning.
\<close>

theorem deterministic_stream:
  assumes "entropy_laws S" and "set_deterministic_rng seed stream w = Inr ((), w0)"
  shows "\<exists>w'. fill_all S ns w0 = Inr (map (parity_byte S seed stream) [0..<sum_list ns], w')"
proof -
  have "DETERMINISTIC_RNG w0 = Some (det_new seed stream)"
    using assms(2) by (auto simp: set_deterministic_rng_def split: if_splits)
  from entropy_laws.fill_all_stream [OF assms(1) this at_position_new] show ?thesis by simp
qed

theorem deterministic_stream_witness:
  "\<exists>w0 w'. set_deterministic_rng (replicate 32 1) [] \<lparr>DETERMINISTIC_RNG = None, opt_in_env = Some ''1'', os_calls = 0\<rparr> =
       Inr ((), w0) \<and>
     fill_all stark_dlog [5, 40] w0 = Inr (map (parity_byte stark_dlog (replicate 32 1) []) [0..<45], w')"
proof -
  define w where "w = \<lparr>DETERMINISTIC_RNG = None, opt_in_env = Some ''1'', os_calls = 0\<rparr>"
  have "set_deterministic_rng (replicate 32 1) [] w = Inr ((), w\<lparr>DETERMINISTIC_RNG := Some (det_new (replicate 32 1) [])\<rparr>)"
    by (simp add: set_deterministic_rng_def w_def)
  with deterministic_stream [OF dlog.entropy_laws_axioms this, of "[5, 40]"] show ?thesis
    by (auto simp: w_def)
qed

text \<open>
  C32. What a transfer sends can be read by the contract: the proof that \<open>transfer\<close> returns serializes, and its
  calldata determines it, whatever follows. In particular the two range proofs in the middle of the calldata have
  as many commitments and bit proofs as the bit size, which is at most 128.
\<close>

theorem transfer_calldata_readable:
  assumes "tongo S pt" and "transfer S account params w = Inr (t, w')"
  shows "tp_bit_size params \<le> 128 \<and> length (rg_proofs (tr_range (tpr_proof t))) = tp_bit_size params \<and>
    length (rg_proofs (tr_range2 (tpr_proof t))) = tp_bit_size params \<and>
    (\<exists>fs. serialize_proof_of_transfer S (tpr_proof t) = Inr fs \<and>
      (\<forall>rest. read_transfer S (fs @ rest) = Some (tpr_proof t, rest)))"
proof -
  have core: "starknet_core S pt" using assms(1) by (simp add: tongo_def audit_channel_def)
  obtain st rs rs2 prefix w1 q q2 w3 w4 where st: "transfer_new S account params = Inr st"
    and r: "transfer_prove_range S st (ts_amount st) rs prefix w1 =
        Inr ((tr_range (tpr_proof t), q), w3)"
      "transfer_prove_range S st (ts_leftover st) rs2 prefix w3 =
        Inr ((tr_range2 (tpr_proof t), q2), w4)"
    using tongo.transfer_ranges [OF assms] by blast
  have ps: "ts_params st = params" using st by (auto simp: transfer_new_def Let_def result_iffs split: if_splits)
  note lens = starknet_core.prove_with_randomness_Inr [OF core r(1) [unfolded transfer_prove_range_def ps]]
    starknet_core.prove_with_randomness_Inr [OF core r(2) [unfolded transfer_prove_range_def ps]]
  have "range_fits (tr_range (tpr_proof t))" "range_fits (tr_range2 (tpr_proof t))"
    using lens(1,4,5,11,12) by (simp_all add: range_fits_def)
  moreover have "felt_laws S" using core by (simp add: starknet_core_def)
  note rd = codec.rd_wr [OF felt_laws.transfer_codec [OF this], of "tpr_proof t"]
  ultimately show ?thesis
    using lens(1,5,12) rd
    by (simp add: serialize_proof_of_transfer_def Let_def felt_laws.serialize_range_eq [OF \<open>felt_laws S\<close>])
qed

theorem transfer_calldata_readable_witness:
  "\<exists>t w' fs. transfer stark_dlog (set_balance alice 2) alice_pays (os_rng 2) = Inr (t, w') \<and>
     serialize_proof_of_transfer stark_dlog (tpr_proof t) = Inr fs \<and>
     read_transfer stark_dlog (fs @ []) = Some (tpr_proof t, [])"
proof -
  obtain t w' where run: "transfer stark_dlog (set_balance alice 2) alice_pays (os_rng 2) = Inr (t, w')"
    using alice_transfer by blast
  from transfer_calldata_readable [OF dlog.tongo_axioms run] run show ?thesis by blast
qed

end
